(* ===== verification/Prelude.thy ===== *)
theory Prelude
  imports Main "HOL-Library.Word" "HOL-Library.Char_ord" "HOL-Library.Multiset"
begin

text \<open>
  Shared vocabulary of the development: the errors the C++ throws, as values of a sum
  type; sequencing of operations that may throw; the fixed-width integers of the code;
  the collections of rewrite rules the component theories fill; and the generic list
  lemmas more than one component uses.
\<close>

section \<open>Errors as values\<close>

text \<open>
  The exception classes the modelled code throws, each with the message it carries.
  \<open>Constraint\<close> and \<open>Schema\<close> are the two categories of \<^verbatim>\<open>DatabaseError\<close> that the
  repositories raise themselves or that a violated table constraint raises.
\<close>

datatype exn =
    Invalid_argument string
  | Logic_error string
  | Runtime_error string
  | Overflow_error string
  | Constraint string
  | Schema string

type_synonym 'a res = "exn + 'a"

definition rbind :: "'a res \<Rightarrow> ('a \<Rightarrow> 'b res) \<Rightarrow> 'b res" where
  "rbind m f = (case m of Inl e \<Rightarrow> Inl e | Inr x \<Rightarrow> f x)"

definition require :: "bool \<Rightarrow> exn \<Rightarrow> unit res" where
  "require p e = (if p then Inr () else Inl e)"

lemma rbind_simps [simp]:
  "rbind (Inl e) f = Inl e"
  "rbind (Inr x) f = f x"
  by (simp_all add: rbind_def)

lemma rbind_eq_Inr: "rbind m f = Inr y \<longleftrightarrow> (\<exists>x. m = Inr x \<and> f x = Inr y)"
  by (cases m) simp_all

lemma rbind_eq_Inl: "rbind m f = Inl e \<longleftrightarrow> m = Inl e \<or> (\<exists>x. m = Inr x \<and> f x = Inl e)"
  by (cases m) simp_all

lemma require_eq_Inr [simp]: "require p e = Inr u \<longleftrightarrow> p"
  by (simp add: require_def)

lemma require_eq_Inl [simp]: "require p e = Inl e' \<longleftrightarrow> \<not> p \<and> e' = e"
  by (auto simp: require_def)

lemma require_True [simp]: "p \<Longrightarrow> require p e = Inr ()"
  by (simp add: require_def)

lemma require_False [simp]: "\<not> p \<Longrightarrow> require p e = Inl e"
  by (simp add: require_def)

section \<open>Machine integers\<close>

type_synonym u8 = "8 word"
type_synonym u64 = "64 word"

text \<open>
  Signed 64-bit quantities (\<^verbatim>\<open>std::int64_t\<close>) are modelled by \<open>int\<close>; where the code
  guards against overflow the guard is written with these bounds.
\<close>

abbreviation int64_max :: int where "int64_max \<equiv> 9223372036854775807"
abbreviation int64_min :: int where "int64_min \<equiv> - 9223372036854775808"

text \<open>The masks the code applies to bytes, read as arithmetic.\<close>

unbundle bit_operations_syntax

lemma unat_and_mask:
  "unat (w AND 0x1F :: 'a::len word) = unat w mod 32"
  "unat (w AND 0x0F :: 'a::len word) = unat w mod 16"
  "unat (w AND 0x07 :: 'a::len word) = unat w mod 8"
  "unat (w AND 0x03 :: 'a::len word) = unat w mod 4"
  "unat (w AND 0x3F :: 'a::len word) = unat w mod 64"
proof -
  have m: "(0x1F :: 'a word) = mask 5" "(0x0F :: 'a word) = mask 4"
    "(0x07 :: 'a word) = mask 3" "(0x03 :: 'a word) = mask 2" "(0x3F :: 'a word) = mask 6"
    by (simp_all add: mask_eq_exp_minus_1)
  show "unat (w AND 0x1F :: 'a word) = unat w mod 32" "unat (w AND 0x0F :: 'a word) = unat w mod 16"
    "unat (w AND 0x07 :: 'a word) = unat w mod 8" "unat (w AND 0x03 :: 'a word) = unat w mod 4"
    "unat (w AND 0x3F :: 'a word) = unat w mod 64"
    unfolding m take_bit_eq_mask [symmetric]
    by (simp_all only: unsigned_take_bit_eq) (simp_all add: take_bit_eq_mod)
qed

lemma byte_bound: "unat (b :: u8) < 256"
  using unsigned_less [of b, where 'a = nat] by simp

lemma unat_and_high:
  "unat (b AND 0xE0 :: u8) = unat b - unat b mod 32"
  "unat (b AND 0xF0 :: u8) = unat b - unat b mod 16"
  "unat (b AND 0xF8 :: u8) = unat b - unat b mod 8"
  "unat (b AND 0xC0 :: u8) = unat b - unat b mod 64"
proof -
  have sum: "unat (b AND NOT m) = unat b - unat (b AND m)" for m :: u8
  proof -
    have "b = (b AND m) + (b AND NOT m)"
      by (subst disjunctive_add) (auto simp: bit_and_iff bit_not_iff bit_or_iff intro!: bit_eqI)
    then have "b AND NOT m = b - (b AND m)" by (metis add_diff_cancel_left')
    moreover have "b AND m \<le> b" by (rule word_and_le2)
    ultimately show ?thesis by (simp add: unat_sub)
  qed
  have n: "(0xE0 :: u8) = NOT 0x1F" "(0xF0 :: u8) = NOT 0x0F" "(0xF8 :: u8) = NOT 0x07"
    "(0xC0 :: u8) = NOT 0x3F"
    by simp_all
  show "unat (b AND 0xE0) = unat b - unat b mod 32" "unat (b AND 0xF0) = unat b - unat b mod 16"
    "unat (b AND 0xF8) = unat b - unat b mod 8" "unat (b AND 0xC0) = unat b - unat b mod 64"
    unfolding n sum unat_and_mask by (rule refl)+
qed

lemma floor_eq:
  fixes n m k :: nat
  assumes "k mod m = 0" "0 < m"
  shows "n - n mod m = k \<longleftrightarrow> k \<le> n \<and> n < k + m"
proof
  assume "n - n mod m = k"
  then show "k \<le> n \<and> n < k + m" using mod_less_divisor [OF assms(2), of n] by linarith
next
  assume k: "k \<le> n \<and> n < k + m"
  then obtain j where n: "n = k + j" using le_Suc_ex by blast
  have "(k + j) mod m = (k mod m + j) mod m" by (simp add: mod_add_left_eq)
  with assms n k show "n - n mod m = k" by simp
qed

lemma byte_class:
  "(b :: u8) \<le> 0x7F \<longleftrightarrow> unat b < 128"
  "b AND 0xE0 = 0xC0 \<longleftrightarrow> 192 \<le> unat b \<and> unat b < 224"
  "b AND 0xF0 = 0xE0 \<longleftrightarrow> 224 \<le> unat b \<and> unat b < 240"
  "b AND 0xF8 = 0xF0 \<longleftrightarrow> 240 \<le> unat b \<and> unat b < 248"
  "b AND 0xC0 = 0x80 \<longleftrightarrow> 128 \<le> unat b \<and> unat b < 192"
  by (auto simp: word_unat_eq_iff unat_and_high floor_eq word_le_nat_alt)

section \<open>Collections of facts\<close>

named_theorems row_checks \<open>definitions of the CHECK constraints of the tables\<close>
named_theorems step_simps \<open>definitions of the operations of a state machine\<close>

section \<open>Lists\<close>

lemma length_16_conv:
  "length xs = 16 \<longleftrightarrow>
   (\<exists>a b c d e f g h i j k l m n p q. xs = [a, b, c, d, e, f, g, h, i, j, k, l, m, n, p, q])"
  by (auto simp: numeral_eq_Suc length_Suc_conv)

lemma list_all_upt_iff: "list_all P [0..<n] \<longleftrightarrow> (\<forall>i < n. P i)"
  by (auto simp: list_all_iff)

end
