(* ===== verification/Identifiers.thy ===== *)
theory Identifiers
  imports Prelude
begin

text \<open>
  Identifiers: Discord snowflakes (\<^verbatim>\<open>src/src/snowflake.cpp\<close>), version-4 UUIDs and the
  random bytes they are made of (\<^verbatim>\<open>src/src/persistent_id.cpp\<close>), the bounded random draw
  (\<^verbatim>\<open>src/src/random.cpp\<close>), and the provider nonce and shortened form derived from a UUID
  (\<^verbatim>\<open>src/src/durable_work.cpp\<close>).
\<close>

section \<open>Snowflakes\<close>

definition is_digit :: "char \<Rightarrow> bool" where
  "is_digit c \<longleftrightarrow> CHR ''0'' \<le> c \<and> c \<le> CHR ''9''"

definition digit_value :: "char \<Rightarrow> nat" where
  "digit_value c = of_char c - 48"

definition digit_char :: "nat \<Rightarrow> char" where
  "digit_char d = char_of (48 + d)"

fun digits_value :: "nat \<Rightarrow> string \<Rightarrow> nat" where
  "digits_value acc [] = acc"
| "digits_value acc (c # cs) = digits_value (10 * acc + digit_value c) cs"

text \<open>
  \<^verbatim>\<open>std::from_chars\<close> into a \<^verbatim>\<open>std::uint64_t\<close>, base 10: the longest run of digits is read;
  no digit, or a value that does not fit, is an error; the rest of the text is returned.
\<close>

definition from_chars_u64 :: "string \<Rightarrow> (u64 \<times> string) option" where
  "from_chars_u64 s =
     (let ds = takeWhile is_digit s; rest = dropWhile is_digit s
      in if ds = [] \<or> 2 ^ 64 \<le> digits_value 0 ds then None
         else Some (word_of_nat (digits_value 0 ds), rest))"

definition invalid_snowflake :: exn where
  "invalid_snowflake = Invalid_argument ''Invalid Discord snowflake.''"

definition snowflake_parse :: "string \<Rightarrow> u64 res" where
  "snowflake_parse text =
     (if text = [] \<or> (1 < length text \<and> hd text = CHR ''0'') then Inl invalid_snowflake
      else case from_chars_u64 text of
             None \<Rightarrow> Inl invalid_snowflake
           | Some (parsed, rest) \<Rightarrow> if rest \<noteq> [] then Inl invalid_snowflake else Inr parsed)"

fun decimal :: "nat \<Rightarrow> string" where
  "decimal n = (if n < 10 then [digit_char n] else decimal (n div 10) @ [digit_char (n mod 10)])"

declare decimal.simps [simp del]

definition snowflake_str :: "u64 \<Rightarrow> string" where
  "snowflake_str v = decimal (unat v)"

definition snowflake_is_set :: "u64 \<Rightarrow> bool" where
  "snowflake_is_set v \<longleftrightarrow> v \<noteq> 0"

subsection \<open>Decimal text\<close>

lemma of_char_digit_char: "d < 10 \<Longrightarrow> of_char (digit_char d) = 48 + d"
  by (simp add: digit_char_def)

lemma digit_value_char [simp]: "d < 10 \<Longrightarrow> digit_value (digit_char d) = d"
  by (simp add: digit_value_def of_char_digit_char)

lemma is_digit_iff: "is_digit c \<longleftrightarrow> 48 \<le> (of_char c :: nat) \<and> (of_char c :: nat) \<le> 57"
  by (simp add: is_digit_def less_eq_char_def)

lemma digit_char_0 [simp]: "digit_char 0 = CHR ''0''"
  unfolding digit_char_def by code_simp

lemma is_digit_char [simp]: "d < 10 \<Longrightarrow> is_digit (digit_char d)"
  by (simp add: is_digit_iff of_char_digit_char)

lemma digit_char_value: "is_digit c \<Longrightarrow> digit_char (digit_value c) = c"
  by (simp add: is_digit_iff digit_char_def digit_value_def)

lemma digit_value_less: "is_digit c \<Longrightarrow> digit_value c < 10"
  unfolding is_digit_iff digit_value_def by linarith

lemma digits_value_append:
  "digits_value acc (xs @ [c]) = 10 * digits_value acc xs + digit_value c"
  by (induction xs arbitrary: acc) simp_all

lemma decimal_digits: "list_all is_digit (decimal n)"
proof (induction n rule: decimal.induct)
  case (1 n)
  then show ?case by (subst decimal.simps) simp
qed

lemma decimal_nonempty [simp]: "decimal n \<noteq> []"
  by (subst decimal.simps) simp

lemma digits_value_decimal: "digits_value 0 (decimal n) = n"
proof (induction n rule: decimal.induct)
  case (1 n)
  then show ?case by (subst decimal.simps) (simp add: digits_value_append)
qed

lemma decimal_hd_zero: "hd (decimal n) = CHR ''0'' \<Longrightarrow> n = 0"
proof (induction n rule: decimal.induct)
  case (1 n)
  show ?case
  proof (cases "n < 10")
    case True
    with 1 have "digit_char n = CHR ''0''" by (simp add: decimal.simps [of n])
    then have "(of_char (digit_char n) :: nat) = of_char CHR ''0''" by (simp only:)
    with True show ?thesis by (simp add: of_char_digit_char)
  next
    case False
    with 1 have "n div 10 = 0" by (simp add: decimal.simps [of n])
    with False show ?thesis by simp
  qed
qed

lemma decimal_value:
  "list_all is_digit ds \<Longrightarrow> ds \<noteq> [] \<Longrightarrow> (length ds = 1 \<or> hd ds \<noteq> CHR ''0'')
   \<Longrightarrow> decimal (digits_value 0 ds) = ds"
proof (induction ds rule: rev_induct)
  case Nil
  then show ?case by simp
next
  case (snoc c ds)
  then have c: "is_digit c" by simp
  show ?case
  proof (cases "ds = []")
    case True
    with c show ?thesis
      by (simp add: decimal.simps digit_value_less digit_char_value)
  next
    case False
    with snoc.prems have hd: "hd ds \<noteq> CHR ''0''" by simp
    with snoc False have IH: "decimal (digits_value 0 ds) = ds" by simp
    have "digits_value 0 ds \<noteq> 0"
    proof
      assume "digits_value 0 ds = 0"
      with IH have "ds = decimal 0" by simp
      also have "\<dots> = [CHR ''0'']" by (simp add: decimal.simps)
      finally show False using hd by simp
    qed
    with c IH show ?thesis
      by (subst decimal.simps)
        (simp add: digits_value_append digit_value_less digit_char_value)
  qed
qed

lemma takeWhile_decimal [simp]: "takeWhile is_digit (decimal n) = decimal n"
  using decimal_digits [of n] by (simp add: takeWhile_eq_all_conv list_all_iff)

lemma dropWhile_decimal [simp]: "dropWhile is_digit (decimal n) = []"
  using decimal_digits [of n] by (simp add: dropWhile_eq_Nil_conv list_all_iff)

lemma snowflake_parse_str: "snowflake_parse (snowflake_str v) = Inr v"
proof -
  have "\<not> (1 < length (decimal (unat v)) \<and> hd (decimal (unat v)) = CHR ''0'')"
    using decimal_hd_zero [of "unat v"] by (auto simp: decimal.simps [of 0])
  moreover have "unat v < 2 ^ 64" using unsigned_less [of v] by simp
  ultimately show ?thesis
    by (simp add: snowflake_parse_def snowflake_str_def from_chars_u64_def
        digits_value_decimal Let_def not_le)
qed

lemma takeWhile_id: "dropWhile P xs = [] \<Longrightarrow> takeWhile P xs = xs"
  by (metis append_Nil2 takeWhile_dropWhile_id)

lemma snowflake_parse_InrD: "snowflake_parse s = Inr v \<Longrightarrow> s = snowflake_str v"
proof -
  assume ok: "snowflake_parse s = Inr v"
  then have "\<not> (s = [] \<or> (1 < length s \<and> hd s = CHR ''0''))"
    by (auto simp: snowflake_parse_def)
  then have ne: "s \<noteq> []" "length s = 1 \<or> hd s \<noteq> CHR ''0''"
    by (auto simp: Suc_lessI)
  from ok have drop: "dropWhile is_digit s = []"
    and v: "v = word_of_nat (digits_value 0 (takeWhile is_digit s))"
      "digits_value 0 (takeWhile is_digit s) < 2 ^ 64"
    by (auto simp: snowflake_parse_def from_chars_u64_def Let_def not_le
        split: if_splits option.splits)
  from drop have all: "list_all is_digit s"
    by (simp add: dropWhile_eq_Nil_conv list_all_iff)
  have "unat v = digits_value 0 s"
    using v takeWhile_id [OF drop] by (simp add: unat_of_nat)
  then show ?thesis using decimal_value [OF all ne] by (simp add: snowflake_str_def)
qed

text \<open>
  Property C36: every snowflake has exactly one accepted spelling, the canonical decimal
  text \<open>str\<close> prints: parsing a text gives \<open>v\<close> if and only if the text is \<open>str v\<close>. So leading
  zeros, signs, trailing characters and values of 65 bits or more are all rejected, and
  printing then parsing is the identity.
\<close>

theorem snowflake_parse_canonical: "snowflake_parse s = Inr v \<longleftrightarrow> s = snowflake_str v"
  using snowflake_parse_InrD snowflake_parse_str by blast

section \<open>Random bytes and version-4 UUIDs\<close>

text \<open>
  One return of \<^verbatim>\<open>getrandom\<close>: some bytes, an interruption (\<^verbatim>\<open>EINTR\<close>), or another error.
  The kernel never writes more than the bytes asked for, which is the \<open>take\<close> below.
\<close>

datatype getrandom_return = Received "u8 list" | Interrupted | Failed

text \<open>
  The loop of \<open>next_id\<close> and of \<open>uniform\<close> that fills a buffer of \<open>n\<close> bytes, over the kernel's
  successive returns. \<open>None\<close>: the calls so far have not yet filled the buffer. The rest of
  the returns is handed back for the next call.
\<close>

fun fill_random ::
  "string \<Rightarrow> nat \<Rightarrow> u8 list \<Rightarrow> getrandom_return list \<Rightarrow> (u8 list \<times> getrandom_return list) res option"
where
  "fill_random msg n acc [] = (if n \<le> length acc then Some (Inr (acc, [])) else None)"
| "fill_random msg n acc (r # rs) =
     (if n \<le> length acc then Some (Inr (acc, r # rs))
      else case r of
             Interrupted \<Rightarrow> fill_random msg n acc rs
           | Failed \<Rightarrow> Some (Inl (Runtime_error msg))
           | Received bs \<Rightarrow>
               (if bs = [] then Some (Inl (Runtime_error msg))
                else fill_random msg n (acc @ take (n - length acc) bs) rs))"

definition hexadecimal :: string where
  "hexadecimal = ''0123456789abcdef''"

definition hex_byte :: "u8 \<Rightarrow> string" where
  "hex_byte b = [hexadecimal ! unat (drop_bit 4 b), hexadecimal ! unat (b AND 0x0f)]"

definition uuid_from_bytes :: "u8 list \<Rightarrow> string" where
  "uuid_from_bytes bytes0 =
     (let bytes1 = bytes0[6 := (bytes0 ! 6 AND 0x0f) OR 0x40];
          bytes = bytes1[8 := (bytes1 ! 8 AND 0x3f) OR 0x80]
      in concat (map (\<lambda>index. (if index = 4 \<or> index = 6 \<or> index = 8 \<or> index = 10
                                then ''-'' else []) @ hex_byte (bytes ! index)) [0..<16]))"

definition next_id :: "getrandom_return list \<Rightarrow> (string \<times> getrandom_return list) res option" where
  "next_id rs =
     map_option (\<lambda>r. rbind r (\<lambda>(bytes, rest). Inr (uuid_from_bytes bytes, rest)))
       (fill_random ''Unable to generate a persistent UUID.'' 16 [] rs)"

definition lowercase_hex :: "char \<Rightarrow> bool" where
  "lowercase_hex c \<longleftrightarrow>
     (CHR ''0'' \<le> c \<and> c \<le> CHR ''9'') \<or> (CHR ''a'' \<le> c \<and> c \<le> CHR ''f'')"

definition valid_uuid_v4 :: "string \<Rightarrow> bool" where
  "valid_uuid_v4 value \<longleftrightarrow>
     length value = 36 \<and> value ! 8 = CHR ''-'' \<and> value ! 13 = CHR ''-'' \<and>
     value ! 18 = CHR ''-'' \<and> value ! 23 = CHR ''-'' \<and> value ! 14 = CHR ''4'' \<and>
     value ! 19 \<in> {CHR ''8'', CHR ''9'', CHR ''a'', CHR ''b''} \<and>
     list_all (\<lambda>index. index \<in> {8, 13, 18, 23} \<or> lowercase_hex (value ! index)) [0..<length value]"

lemma hexadecimal_lowercase: "n < 16 \<Longrightarrow> lowercase_hex (hexadecimal ! n)"
proof -
  have "list_all (\<lambda>n. lowercase_hex (hexadecimal ! n)) [0..<16]" by code_simp
  then show "n < 16 \<Longrightarrow> lowercase_hex (hexadecimal ! n)" by (simp add: list_all_upt_iff)
qed

lemma byte_nibbles:
  "unat (drop_bit 4 (b :: u8)) < 16" "unat (b AND 0x0f) < 16"
  "unat (drop_bit 4 ((b AND 0x0f) OR 0x40)) = 4"
  "unat (drop_bit 4 ((b AND 0x3f) OR 0x80)) \<in> {8, 9, 10, 11}"
proof -
  show "unat (drop_bit 4 b) < 16"
    using byte_bound [of b] by (simp add: drop_bit_eq_div unat_div less_mult_imp_div_less)
  show "unat (b AND 0x0f) < 16" by (simp add: unat_and_mask)
  show "unat (drop_bit 4 ((b AND 0x0f) OR 0x40)) = 4" by simp
  have "unat (drop_bit 4 b AND 3) < 4" by (simp add: unat_and_mask)
  then have "unat (drop_bit 4 b AND 3) \<in> {0, 1, 2, 3}" by auto
  then have "drop_bit 4 b AND 3 \<in> {0, 1, 2, 3}" by (auto simp: word_unat_eq_iff)
  then show "unat (drop_bit 4 ((b AND 0x3f) OR 0x80)) \<in> {8, 9, 10, 11}" by auto
qed

lemma lowercase_hex_byte:
  "lowercase_hex (hexadecimal ! unat (drop_bit 4 (b :: u8)))"
  "lowercase_hex (hexadecimal ! unat (b AND 0x0f))"
  using byte_nibbles [of b] by (simp_all add: hexadecimal_lowercase)

lemma valid_uuid_from_bytes: "length bytes = 16 \<Longrightarrow> valid_uuid_v4 (uuid_from_bytes bytes)"
proof -
  assume "length bytes = 16"
  then obtain a b c d e f g h i j k l m n p q
    where bytes: "bytes = [a, b, c, d, e, f, g, h, i, j, k, l, m, n, p, q]"
    by (auto simp: length_16_conv)
  have v: "hexadecimal ! 4 = CHR ''4''"
    "n \<in> {8, 9, 10, 11} \<Longrightarrow> hexadecimal ! n \<in> {CHR ''8'', CHR ''9'', CHR ''a'', CHR ''b''}" for n
    by (auto simp: hexadecimal_def)
  have upt: "[0..<16] = [0, 1, 2, 3, 4, 5, 6, 7, 8, 9, 10, 11, 12, 13, 14, 15 :: nat]"
    by (simp add: upt_rec)
  have upt36: "[0..<36] = [0, 1, 2, 3, 4, 5, 6, 7, 8, 9, 10, 11, 12, 13, 14, 15, 16, 17,
     18, 19, 20, 21, 22, 23, 24, 25, 26, 27, 28, 29, 30, 31, 32, 33, 34, 35 :: nat]"
    by (simp add: upt_rec)
  show ?thesis
    using byte_nibbles [of g] v(2) [of "unat (drop_bit 4 ((i AND 0x3f) OR 0x80))"] byte_nibbles [of i]
      lowercase_hex_byte(1) [of "(i AND 0x3f) OR 0x80"] lowercase_hex_byte(1) [of "(g AND 0x0f) OR 0x40"]
    by (simp add: bytes uuid_from_bytes_def Let_def upt hex_byte_def valid_uuid_v4_def upt36
        lowercase_hex_byte v(1))
qed

lemma fill_random_length:
  "fill_random msg n acc rs = Some (Inr (bytes, rest)) \<Longrightarrow> length acc \<le> n \<Longrightarrow> length bytes = n"
  by (induction msg n acc rs rule: fill_random.induct)
    (auto split: if_splits getrandom_return.splits)

lemma fill_random_rest:
  "fill_random msg n acc rs = Some (Inr (bytes, rest)) \<Longrightarrow>
   length rest \<le> length rs \<and> (length acc < n \<longrightarrow> length rest < length rs)"
  by (induction msg n acc rs rule: fill_random.induct)
    (fastforce split: if_splits getrandom_return.splits)+

definition rejection_limit :: "u64 \<Rightarrow> nat" where
  "rejection_limit upper_exclusive = (2 ^ 64 - 1) - (2 ^ 64 - 1) mod unat upper_exclusive"

text \<open>
  \<open>SystemRandom::uniform\<close>: samples of eight little-endian bytes are drawn until one lies below
  the rejection limit, a multiple of the bound; its residue is the result.
\<close>

function uniform :: "u64 \<Rightarrow> getrandom_return list \<Rightarrow> (u64 \<times> getrandom_return list) res option" where
  "uniform upper_exclusive rs =
     (if upper_exclusive = 0 then Some (Inl (Invalid_argument ''Random upper bound must be positive.''))
      else case fill_random ''Unable to obtain random bytes.'' 8 [] rs of
             None \<Rightarrow> None
           | Some (Inl e) \<Rightarrow> Some (Inl e)
           | Some (Inr (bytes, rest)) \<Rightarrow>
               (let sample = (word_rcat (rev bytes) :: u64)
                in if unat sample < rejection_limit upper_exclusive
                   then Some (Inr (sample mod upper_exclusive, rest))
                   else uniform upper_exclusive rest))"
  by pat_completeness auto
termination
  by (relation "measure (\<lambda>(u, rs). length rs)") (auto dest: fill_random_rest)

declare uniform.simps [simp del]

lemma uniform_less: "uniform u rs = Some (Inr (v, rest)) \<Longrightarrow> v < u"
proof (induction u rs rule: uniform.induct)
  case (1 u rs)
  show ?case
    using 1 by (subst (asm) uniform.simps [of u rs])
      (auto simp: Let_def word_gt_0 word_mod_less_divisor split: if_splits option.splits sum.splits)
qed

lemma residues_card:
  fixes u q :: nat
  assumes "r < u"
  shows "card {s. s < u * q \<and> s mod u = r} = q"
proof -
  have "{s. s < u * q \<and> s mod u = r} = (\<lambda>k. u * k + r) ` {..<q}"
  proof (intro equalityI subsetI)
    fix s assume "s \<in> {s. s < u * q \<and> s mod u = r}"
    then have s: "s < u * q" "s mod u = r" by auto
    then have "s div u < q" by (simp add: less_mult_imp_div_less mult.commute)
    moreover have "s = u * (s div u) + r" using s(2) by (metis mult_div_mod_eq)
    ultimately show "s \<in> (\<lambda>k. u * k + r) ` {..<q}" by blast
  next
    fix s assume "s \<in> (\<lambda>k. u * k + r) ` {..<q}"
    then obtain k where "k < q" "s = u * k + r" by auto
    moreover have "u * k + r < u * (k + 1)" using assms by simp
    moreover have "u * (k + 1) \<le> u * q" using \<open>k < q\<close> by (intro mult_le_mono2) simp
    ultimately show "s \<in> {s. s < u * q \<and> s mod u = r}" using assms by auto
  qed
  moreover have "inj_on (\<lambda>k. u * k + r) {..<q}" using assms by (auto simp: inj_on_def)
  ultimately show ?thesis by (simp add: card_image)
qed

lemma rejection_limit_multiple:
  "rejection_limit u = unat u * ((2 ^ 64 - 1) div unat u)"
  unfolding rejection_limit_def by (metis minus_mod_eq_mult_div)

lemma rejection_limit_less: "rejection_limit u < 2 ^ 64"
  by (simp add: rejection_limit_def)

lemma quotient_half: "0 < (u :: nat) \<Longrightarrow> u \<le> m \<Longrightarrow> m < 2 * (u * (m div u))"
proof -
  assume u: "0 < u" "u \<le> m"
  then have "1 \<le> m div u" by (simp add: Suc_le_eq div_greater_zero_iff)
  then have "u * 1 \<le> u * (m div u)" by (intro mult_le_mono2)
  moreover have "m mod u < u" using u by simp
  moreover have "u * (m div u) + m mod u = m" by (rule mult_div_mod_eq)
  ultimately show ?thesis by linarith
qed

lemma rejection_limit_half: "u \<noteq> 0 \<Longrightarrow> 2 ^ 63 \<le> rejection_limit u"
  using quotient_half [of "unat u" "2 ^ 64 - 1"] unsigned_less [of u, where 'a = nat]
  by (simp add: unat_gt_0 rejection_limit_multiple)

text \<open>
  The bounded draw is unbiased. Every residue below the bound is the image of
  exactly the same number of accepted 64-bit samples, and at least half of all samples are
  accepted, so the loop ends with probability one.
\<close>

theorem uniform_unbiased:
  assumes "u \<noteq> 0" and "r < u"
  shows "card {s :: u64. unat s < rejection_limit u \<and> s mod u = r} = (2 ^ 64 - 1) div unat u
         \<and> 2 ^ 63 \<le> rejection_limit u"
proof -
  let ?A = "{s :: u64. unat s < rejection_limit u \<and> s mod u = r}"
  have "unat ` ?A = {n. n < rejection_limit u \<and> n mod unat u = unat r}"
  proof (intro equalityI subsetI)
    fix n assume n: "n \<in> {n. n < rejection_limit u \<and> n mod unat u = unat r}"
    then have "n < 2 ^ 64" using rejection_limit_less [of u] by simp
    then have un: "unat (word_of_nat n :: u64) = n" by (simp add: unat_of_nat)
    moreover have "word_of_nat n mod u = r"
      using n by (intro word_unat_eq_iff [THEN iffD2]) (simp add: unat_mod un)
    ultimately show "n \<in> unat ` ?A" using n by (intro image_eqI [of _ _ "word_of_nat n"]) auto
  qed (auto simp: unat_mod)
  moreover have "inj_on unat ?A" by (rule inj_onI) (rule word_unat_eq_iff [THEN iffD2])
  then have "card (unat ` ?A) = card ?A" by (rule card_image)
  ultimately have "card ?A = card {n. n < rejection_limit u \<and> n mod unat u = unat r}" by simp
  also have "\<dots> = (2 ^ 64 - 1) div unat u"
    unfolding rejection_limit_multiple
    using assms(2) by (intro residues_card) (simp add: word_less_nat_alt)
  finally show ?thesis using rejection_limit_half [OF assms(1)] by simp
qed

theorem uniform_unbiased_witness:
  "card {s :: u64. unat s < rejection_limit 6 \<and> s mod 6 = 5} = (2 ^ 64 - 1) div 6
   \<and> 2 ^ 63 \<le> rejection_limit 6"
  using uniform_unbiased [of 6 5] by simp

lemma fill_random_interrupted:
  "length acc < n \<Longrightarrow>
   fill_random msg n acc (replicate k Interrupted @ rs) = fill_random msg n acc rs"
  by (induction k) simp_all

text \<open>
  Property C37: every identifier the generator returns is a version-4 UUID, and it returns one as soon
  as the kernel hands over sixteen bytes, however often the call was interrupted before.
\<close>

theorem next_id_valid:
  assumes "length bs = 16"
  shows "next_id (replicate k Interrupted @ Received bs # rs) = Some (Inr (uuid_from_bytes bs, rs))
         \<and> (\<forall>rs' id rest. next_id rs' = Some (Inr (id, rest)) \<longrightarrow> valid_uuid_v4 id)"
proof (intro conjI allI impI)
  have "bs \<noteq> []" using assms by auto
  moreover have "fill_random m 16 bs rs = Some (Inr (bs, rs))" for m
    using assms by (cases rs) simp_all
  ultimately show "next_id (replicate k Interrupted @ Received bs # rs) = Some (Inr (uuid_from_bytes bs, rs))"
    using assms by (simp add: next_id_def fill_random_interrupted)
  fix rs' id rest assume "next_id rs' = Some (Inr (id, rest))"
  then show "valid_uuid_v4 id"
    by (auto simp: next_id_def rbind_eq_Inr intro!: valid_uuid_from_bytes dest: fill_random_length)
qed

theorem next_id_valid_witness:
  "next_id [Interrupted, Received [1, 2, 3, 4, 5, 6, 255, 8, 255, 10, 11, 12, 13, 14, 15, 16]]
   = Some (Inr (''01020304-0506-4f08-bf0a-0b0c0d0e0f10'', []))
   \<and> valid_uuid_v4 ''01020304-0506-4f08-bf0a-0b0c0d0e0f10''"
proof -
  let ?bs = "[1, 2, 3, 4, 5, 6, 255, 8, 255, 10, 11, 12, 13, 14, 15, 16] :: u8 list"
  have l: "length ?bs = 16" by simp
  have c: "uuid_from_bytes ?bs = ''01020304-0506-4f08-bf0a-0b0c0d0e0f10''"
    by (simp add: uuid_from_bytes_def hex_byte_def hexadecimal_def Let_def upt_rec)
  show ?thesis
    using next_id_valid [OF l, of 1 "[]"] by (auto simp: c)
qed

section \<open>Identifiers derived from a UUID\<close>

definition discord_nonce_from_uuid :: "string \<Rightarrow> string res" where
  "discord_nonce_from_uuid uuid =
     (if \<not> valid_uuid_v4 uuid then Inl (Invalid_argument ''Discord nonce source must be a UUIDv4.'')
      else (let compact = filter (\<lambda>character. character \<noteq> CHR ''-'') uuid
            in Inr (take 12 compact @ take 13 (drop (length compact - 13) compact))))"

definition shortened_persistent_id :: "string \<Rightarrow> string" where
  "shortened_persistent_id value =
     (if length value \<le> 8 + 4 then value
      else take 8 value @ ''...'' @ drop (length value - 4) value)"

lemma lowercase_hex_no_dash: "lowercase_hex c \<Longrightarrow> c \<noteq> CHR ''-''"
  by (auto simp: lowercase_hex_def less_eq_char_def)

lemma compact_uuid:
  assumes "valid_uuid_v4 u"
  shows "length (filter (\<lambda>c. c \<noteq> CHR ''-'') u) = 32
         \<and> list_all lowercase_hex (filter (\<lambda>c. c \<noteq> CHR ''-'') u)"
proof -
  have len: "length u = 36" and dash: "\<And>i. i \<in> {8, 13, 18, 23} \<Longrightarrow> u ! i = CHR ''-''"
    and hex: "\<And>i. i < 36 \<Longrightarrow> i \<notin> {8, 13, 18, 23} \<Longrightarrow> lowercase_hex (u ! i)"
    using assms by (auto simp: valid_uuid_v4_def list_all_upt_iff)
  have nodash: "u ! i = CHR ''-'' \<longleftrightarrow> i \<in> {8, 13, 18, 23}" if "i < 36" for i
    using that dash hex lowercase_hex_no_dash by blast
  have "{i. i < 36 \<and> u ! i \<noteq> CHR ''-''} = {..<36} - {8, 13, 18, 23}"
    using nodash by auto
  then have "length (filter (\<lambda>c. c \<noteq> CHR ''-'') u) = card ({..<36} - {8, 13, 18, 23 :: nat})"
    by (simp add: length_filter_conv_card len)
  moreover have "list_all lowercase_hex (filter (\<lambda>c. c \<noteq> CHR ''-'') u)"
    using hex nodash len by (auto simp: list_all_iff in_set_conv_nth)
  ultimately show ?thesis by simp
qed

text \<open>
  The provider nonce made from a UUID satisfies the outbox table's constraint, 25
  lowercase hexadecimal characters, so an outbox row built with it is never refused for it.
\<close>

theorem discord_nonce_well_formed:
  assumes "valid_uuid_v4 uuid"
  shows "\<exists>nonce. discord_nonce_from_uuid uuid = Inr nonce \<and> length nonce = 25
                 \<and> list_all lowercase_hex nonce"
  using compact_uuid [OF assms] assms
  by (auto simp: discord_nonce_from_uuid_def Let_def list_all_iff dest: in_set_takeD in_set_dropD)

theorem discord_nonce_well_formed_witness:
  "discord_nonce_from_uuid ''01234567-89ab-4cde-8f01-23456789abcd'' = Inr ''0123456789ab123456789abcd''
   \<and> (\<exists>nonce. discord_nonce_from_uuid ''01234567-89ab-4cde-8f01-23456789abcd'' = Inr nonce
             \<and> length nonce = 25 \<and> list_all lowercase_hex nonce)"
proof -
  have "valid_uuid_v4 ''01234567-89ab-4cde-8f01-23456789abcd''" by code_simp
  from discord_nonce_well_formed [OF this]
  show ?thesis by (rule conjI [rotated]) code_simp
qed

end
