(* ===== verification/Utf8.thy ===== *)
theory Utf8
  imports Prelude
begin

text \<open>
  UTF-8: the validator and code-point counter of \<^verbatim>\<open>src/src/appearance_policy.cpp\<close>, used for
  appearance policies and transcripts, and an abstract specification: a text is valid when
  it is the concatenation of the encodings of Unicode scalar values.
\<close>

section \<open>The validator\<close>

definition utf8_lead :: "u8 \<Rightarrow> (nat \<times> 32 word) option" where
  "utf8_lead lead =
     (if lead AND 0xE0 = 0xC0 then Some (1, ucast lead AND 0x1F)
      else if lead AND 0xF0 = 0xE0 then Some (2, ucast lead AND 0x0F)
      else if lead AND 0xF8 = 0xF0 then Some (3, ucast lead AND 0x07)
      else None)"

definition utf8_shift :: "32 word \<Rightarrow> u8 \<Rightarrow> 32 word" where
  "utf8_shift value next = push_bit 6 value OR (ucast next AND 0x3F)"

fun utf8_continuation :: "32 word \<Rightarrow> u8 list \<Rightarrow> 32 word option" where
  "utf8_continuation value [] = Some value"
| "utf8_continuation value (next # bytes) =
     (if next AND 0xC0 \<noteq> 0x80 then None
      else utf8_continuation (utf8_shift value next) bytes)"

definition utf8_rejected :: "nat \<Rightarrow> 32 word \<Rightarrow> bool" where
  "utf8_rejected continuation value \<longleftrightarrow>
     (continuation = 1 \<and> value < 0x80) \<or> (continuation = 2 \<and> value < 0x800) \<or>
     (continuation = 3 \<and> value < 0x10000) \<or> 0x10FFFF < value \<or>
     (0xD800 \<le> value \<and> value \<le> 0xDFFF)"

text \<open>
  The loop over \<open>index\<close> is a recursion over the bytes from \<open>index\<close> on, so the test
  \<^verbatim>\<open>index + continuation >= text.size()\<close> reads \<open>length bytes < continuation\<close>.
\<close>

function valid_utf8 :: "u8 list \<Rightarrow> bool" where
  "valid_utf8 [] = True"
| "valid_utf8 (lead # bytes) =
     (if lead \<le> 0x7F then valid_utf8 bytes
      else case utf8_lead lead of
             None \<Rightarrow> False
           | Some (continuation, value) \<Rightarrow>
               if length bytes < continuation then False
               else case utf8_continuation value (take continuation bytes) of
                      None \<Rightarrow> False
                    | Some v \<Rightarrow> if utf8_rejected continuation v then False
                                else valid_utf8 (drop continuation bytes))"
  by pat_completeness auto
termination
  by (relation "measure length") auto

definition is_lead_byte :: "u8 \<Rightarrow> bool" where
  "is_lead_byte b \<longleftrightarrow> b AND 0xC0 \<noteq> 0x80"

text \<open>\<open>None\<close> stands for \<^verbatim>\<open>std::numeric_limits<std::size_t>::max()\<close>.\<close>

definition unicode_code_points :: "u8 list \<Rightarrow> nat option" where
  "unicode_code_points bytes =
     (if \<not> valid_utf8 bytes then None else Some (length (filter is_lead_byte bytes)))"

section \<open>The specification\<close>

definition scalar_value :: "nat \<Rightarrow> bool" where
  "scalar_value c \<longleftrightarrow> c \<le> 0x10FFFF \<and> \<not> (0xD800 \<le> c \<and> c \<le> 0xDFFF)"

definition cont_byte :: "nat \<Rightarrow> u8" where
  "cont_byte n = word_of_nat (128 + n mod 64)"

definition utf8_encode :: "nat \<Rightarrow> u8 list" where
  "utf8_encode c =
     (if c < 0x80 then [word_of_nat c]
      else if c < 0x800 then [word_of_nat (192 + c div 64), cont_byte c]
      else if c < 0x10000 then [word_of_nat (224 + c div 4096), cont_byte (c div 64), cont_byte c]
      else [word_of_nat (240 + c div 262144), cont_byte (c div 4096), cont_byte (c div 64),
            cont_byte c])"

section \<open>Bytes as numbers\<close>

lemma unat_ucast_byte [simp]: "unat (ucast (b :: u8) :: 32 word) = unat b"
  using unsigned_less [of b, where 'a = nat] by (simp add: unsigned_ucast_eq take_bit_nat_eq_self)

lemma unat_utf8_shift:
  assumes "unat (v :: 32 word) < 2 ^ 20"
  shows "unat (utf8_shift v b) = 64 * unat v + unat b mod 64"
proof -
  let ?c = "ucast b AND 0x3F :: 32 word"
  have c: "unat ?c = unat b mod 64" by (simp add: unat_and_mask)
  have m: "(0x3F :: 32 word) = mask 6" by (simp add: mask_eq_exp_minus_1)
  have "push_bit 6 v OR ?c = push_bit 6 v + ?c"
    by (rule disjunctive_add [symmetric]) (auto simp: m bit_push_bit_iff bit_mask_iff bit_and_iff)
  moreover have "unat (push_bit 6 v) = 64 * unat v"
    using assms by (simp add: push_bit_eq_mult unat_word_ariths)
  ultimately show ?thesis
    using assms c by (simp add: utf8_shift_def unat_word_ariths)
qed

section \<open>Decoding one sequence, in numbers\<close>

definition is_cont :: "u8 \<Rightarrow> bool" where
  "is_cont b \<longleftrightarrow> 128 \<le> unat b \<and> unat b < 192"

lemma utf8_continuation_Cons [simp]:
  "utf8_continuation v (b # bs) =
     (if is_cont b then utf8_continuation (utf8_shift v b) bs else None)"
  by (simp add: byte_class is_cont_def)

lemma utf8_rejected_unat:
  "utf8_rejected k v \<longleftrightarrow>
     (k = 1 \<and> unat v < 0x80) \<or> (k = 2 \<and> unat v < 0x800) \<or> (k = 3 \<and> unat v < 0x10000)
     \<or> \<not> scalar_value (unat v)"
  by (auto simp: utf8_rejected_def scalar_value_def word_less_nat_alt word_le_nat_alt)

declare utf8_continuation.simps(2) [simp del] valid_utf8.simps(2) [simp del]

lemma unat_utf8_shift_eq:
  "unat v = n \<Longrightarrow> n < 1048576 \<Longrightarrow> unat (utf8_shift v b) = 64 * n + unat b mod 64"
  using unat_utf8_shift [of v b] by simp

lemma valid_utf8_1: "unat a < 128 \<Longrightarrow> valid_utf8 (a # r) = valid_utf8 r"
  by (simp add: valid_utf8.simps byte_class)

lemma valid_utf8_bad: "(128 \<le> unat a \<and> unat a < 192) \<or> 248 \<le> unat a \<Longrightarrow> \<not> valid_utf8 (a # r)"
  by (auto simp: valid_utf8.simps byte_class utf8_lead_def)

lemma valid_utf8_2:
  assumes "192 \<le> unat a" "unat a < 224"
  shows "valid_utf8 (a # r) \<longleftrightarrow>
    (\<exists>b r'. r = b # r' \<and> is_cont b \<and> 0x80 \<le> 64 * (unat a mod 32) + unat b mod 64 \<and> valid_utf8 r')"
proof -
  have "unat (ucast a AND 0x1F :: 32 word) = unat a mod 32" by (simp add: unat_and_mask)
  then show ?thesis using assms
    by (cases r) (auto simp: valid_utf8.simps byte_class utf8_lead_def utf8_rejected_unat
        unat_utf8_shift scalar_value_def not_le)
qed

lemma valid_utf8_3:
  assumes "224 \<le> unat a" "unat a < 240"
  shows "valid_utf8 (a # r) \<longleftrightarrow>
    (\<exists>b c r'. r = b # c # r' \<and> is_cont b \<and> is_cont c \<and>
       (let v = 64 * (64 * (unat a mod 16) + unat b mod 64) + unat c mod 64
        in 0x800 \<le> v \<and> scalar_value v) \<and> valid_utf8 r')"
proof -
  have a: "unat (ucast a AND 0x0F :: 32 word) = unat a mod 16" by (simp add: unat_and_mask)
  show ?thesis
  proof (cases "\<exists>b c r'. r = b # c # r'")
    case True
    then obtain b c r' where r: "r = b # c # r'" by blast
    have b: "unat (utf8_shift (ucast a AND 0x0F) b)
        = 64 * (unat a mod 16) + unat b mod 64" by (simp add: unat_utf8_shift a)
    have "unat a mod 16 < 16" "unat b mod 64 < 64" by simp_all
    then have c: "unat (utf8_shift (utf8_shift (ucast a AND 0x0F) b) c)
        = 64 * (64 * (unat a mod 16) + unat b mod 64) + unat c mod 64"
      by (intro unat_utf8_shift_eq [OF b]) linarith
    show ?thesis using assms
      by (simp add: r valid_utf8.simps byte_class utf8_lead_def utf8_rejected_unat
          numeral_2_eq_2 c Let_def not_less)
  next
    case False
    then have "length r < 2" by (cases r; cases "tl r") auto
    then show ?thesis using assms False
      by (auto simp: valid_utf8.simps byte_class utf8_lead_def)
  qed
qed

lemma sextet_bound: "x < 8 \<Longrightarrow> y < 64 \<Longrightarrow> z < 64 \<Longrightarrow> 64 * (64 * x + y) + z < (1048576 :: nat)"
proof -
  assume a: "x < 8" "y < 64" "z < 64"
  then have "64 * x + y < 64 * 8" by simp
  with a show ?thesis by simp
qed

lemma valid_utf8_4:
  assumes "240 \<le> unat a" "unat a < 248"
  shows "valid_utf8 (a # r) \<longleftrightarrow>
    (\<exists>b c d r'. r = b # c # d # r' \<and> is_cont b \<and> is_cont c \<and> is_cont d \<and>
       (let v = 64 * (64 * (64 * (unat a mod 8) + unat b mod 64) + unat c mod 64) + unat d mod 64
        in 0x10000 \<le> v \<and> scalar_value v) \<and> valid_utf8 r')"
proof -
  have a: "unat (ucast a AND 0x07 :: 32 word) = unat a mod 8" by (simp add: unat_and_mask)
  show ?thesis
  proof (cases "\<exists>b c d r'. r = b # c # d # r'")
    case True
    then obtain b c d r' where r: "r = b # c # d # r'" by blast
    let ?v1 = "utf8_shift (ucast a AND 0x07) b"
    let ?v2 = "utf8_shift ?v1 c"
    have m: "unat a mod 8 < 8" "unat b mod 64 < 64" "unat c mod 64 < 64" by simp_all
    have b: "unat ?v1 = 64 * (unat a mod 8) + unat b mod 64" by (simp add: unat_utf8_shift a)
    have c: "unat ?v2 = 64 * (64 * (unat a mod 8) + unat b mod 64) + unat c mod 64"
      using m by (intro unat_utf8_shift_eq [OF b]) linarith
    have d: "unat (utf8_shift ?v2 d)
        = 64 * (64 * (64 * (unat a mod 8) + unat b mod 64) + unat c mod 64) + unat d mod 64"
      using m by (intro unat_utf8_shift_eq [OF c] sextet_bound)
    show ?thesis using assms
      by (simp add: r valid_utf8.simps byte_class utf8_lead_def utf8_rejected_unat
          numeral_3_eq_3 d Let_def not_less)
  next
    case False
    then have "length r < 3" by (cases r; cases "tl r"; cases "tl (tl r)") auto
    then show ?thesis using assms False
      by (auto simp: valid_utf8.simps byte_class utf8_lead_def)
  qed
qed

section \<open>Validity is decodability\<close>

lemma unat_byte: "n < 256 \<Longrightarrow> unat (word_of_nat n :: u8) = n"
  by (simp add: unat_of_nat)

lemma unat_cont_byte [simp]: "unat (cont_byte n) = 128 + n mod 64"
proof -
  have "n mod 64 < 64" by simp
  then show ?thesis unfolding cont_byte_def by (intro unat_byte) linarith
qed

lemma is_cont_cont_byte [simp]: "is_cont (cont_byte n)"
proof -
  have "n mod 64 < 64" by simp
  then show ?thesis by (simp add: is_cont_def)
qed

lemma offset_mod:
  fixes a n m :: nat
  assumes "a \<le> n" "n < a + m" "a mod m = 0"
  shows "a + n mod m = n"
proof -
  from assms(1) obtain k where n: "n = a + k" using le_Suc_ex by blast
  have "(a + k) mod m = (a mod m + k) mod m" by (simp add: mod_add_left_eq)
  with assms n show ?thesis by simp
qed

lemma cont_byte_of: "is_cont b \<Longrightarrow> cont_byte (unat b) = b"
  unfolding is_cont_def by (rule word_unat_eq_iff [THEN iffD2]) (simp add: offset_mod)

lemma cont_byte_cong: "m mod 64 = n mod 64 \<Longrightarrow> cont_byte m = cont_byte n"
  by (simp add: cont_byte_def)

lemma mod_128 [simp]: "(128 + n) mod 64 = (n mod 64 :: nat)"
  using mod_mult_self3 [of 2 64 n] by simp

lemma lead_mod:
  "d < 32 \<Longrightarrow> (192 + d) mod 32 = (d :: nat)"
  "d < 16 \<Longrightarrow> (224 + d) mod 16 = (d :: nat)"
  "d < 8 \<Longrightarrow> (240 + d) mod 8 = (d :: nat)"
  using mod_mult_self3 [of 6 32 d] mod_mult_self3 [of 14 16 d] mod_mult_self3 [of 30 8 d]
  by simp_all

lemma div_64_64: "c div 64 div 64 = c div 4096" "c div 4096 div 64 = c div (262144 :: nat)"
  by (simp_all add: div_mult2_eq [symmetric])

lemma sextets:
  fixes c :: nat
  shows "64 * (c div 64) + c mod 64 = c"
    "64 * (64 * (c div 4096) + c div 64 mod 64) + c mod 64 = c"
    "64 * (64 * (64 * (c div 262144) + c div 4096 mod 64) + c div 64 mod 64) + c mod 64 = c"
  by (simp_all add: div_64_64 [symmetric])

lemma sextets_flat:
  fixes c :: nat
  shows "4096 * (c div 4096) + 64 * (c div 64 mod 64) + c mod 64 = c"
    "262144 * (c div 262144) + 4096 * (c div 4096 mod 64) + 64 * (c div 64 mod 64) + c mod 64 = c"
  using sextets(2,3) [of c] by (simp_all add: algebra_simps)

lemma unhorner:
  "(64 * n + m mod 64) mod 64 = m mod (64 :: nat)"
  "(64 * n + m mod 64) div 64 = (n :: nat)"
  "(64 * (64 * n + k mod 64) + m mod 64) div 4096 = (n :: nat)"
  "(64 * (64 * (64 * n + j mod 64) + k mod 64) + m mod 64) div 262144 = (n :: nat)"
  by (simp_all add: div_64_64 [symmetric])

lemma valid_utf8_encode:
  assumes "scalar_value c"
  shows "valid_utf8 (utf8_encode c @ r) = valid_utf8 r"
proof -
  consider "c < 0x80" | "0x80 \<le> c" "c < 0x800" | "0x800 \<le> c" "c < 0x10000" | "0x10000 \<le> c"
    by linarith
  then show ?thesis
  proof cases
    case 1
    then show ?thesis by (simp add: utf8_encode_def valid_utf8_1 unat_byte)
  next
    case 2
    then have d: "c div 64 < 32" by (simp add: less_mult_imp_div_less)
    then have "unat (word_of_nat (192 + c div 64) :: u8) = 192 + c div 64" by (intro unat_byte) simp
    with 2 d show ?thesis by (simp add: utf8_encode_def valid_utf8_2 lead_mod)
  next
    case 3
    then have d: "c div 4096 < 16" by (simp add: less_mult_imp_div_less)
    then have "unat (word_of_nat (224 + c div 4096) :: u8) = 224 + c div 4096" by (intro unat_byte) simp
    with 3 d assms show ?thesis
      by (simp add: utf8_encode_def valid_utf8_3 lead_mod sextets_flat Let_def)
  next
    case 4
    with assms have d: "c div 262144 < 8" by (simp add: scalar_value_def less_mult_imp_div_less)
    then have "unat (word_of_nat (240 + c div 262144) :: u8) = 240 + c div 262144"
      by (intro unat_byte) simp
    with 4 d assms show ?thesis
      by (simp add: utf8_encode_def valid_utf8_4 lead_mod sextets_flat Let_def)
  qed
qed

lemma cont_byte_eqI: "is_cont b \<Longrightarrow> v mod 64 = unat b mod 64 \<Longrightarrow> cont_byte v = b"
  using cont_byte_cong [of v "unat b"] cont_byte_of [of b] by simp

lemma valid_utf8_split:
  assumes "valid_utf8 (a # r)"
  shows "\<exists>c r'. scalar_value c \<and> a # r = utf8_encode c @ r' \<and> valid_utf8 r'"
proof -
  consider "unat a < 128" | "192 \<le> unat a" "unat a < 224" | "224 \<le> unat a" "unat a < 240"
    | "240 \<le> unat a" "unat a < 248" | "(128 \<le> unat a \<and> unat a < 192) \<or> 248 \<le> unat a"
    by linarith
  then show ?thesis
  proof cases
    case 1
    then have "scalar_value (unat a)" "a # r = utf8_encode (unat a) @ r"
      by (simp_all add: scalar_value_def utf8_encode_def)
    with assms 1 show ?thesis using valid_utf8_1 by blast
  next
    case 2
    with assms obtain b r' where r: "r = b # r'" "is_cont b" "valid_utf8 r'"
      and v: "0x80 \<le> 64 * (unat a mod 32) + unat b mod 64" by (auto simp: valid_utf8_2)
    define v where "v = 64 * (unat a mod 32) + unat b mod 64"
    have "v mod 64 = unat b mod 64" "v div 64 = unat a mod 32" by (simp_all add: v_def unhorner)
    moreover have "192 + unat a mod 32 = unat a" using 2 by (simp add: offset_mod)
    moreover have "v div 64 < 32" by (simp add: v_def unhorner)
    then have "v < 0x800" by (simp add: div_less_iff_less_mult)
    ultimately have "a # r = utf8_encode v @ r'" "scalar_value v"
      using r v by (simp_all add: utf8_encode_def v_def [symmetric] cont_byte_eqI scalar_value_def)
    with r show ?thesis by blast
  next
    case 3
    with assms obtain b c r' where r: "r = b # c # r'" "is_cont b" "is_cont c" "valid_utf8 r'"
      and v: "0x800 \<le> 64 * (64 * (unat a mod 16) + unat b mod 64) + unat c mod 64"
        "scalar_value (64 * (64 * (unat a mod 16) + unat b mod 64) + unat c mod 64)"
      by (auto simp: valid_utf8_3 Let_def)
    define v where "v = 64 * (64 * (unat a mod 16) + unat b mod 64) + unat c mod 64"
    have "v mod 64 = unat c mod 64" "v div 64 mod 64 = unat b mod 64" "v div 4096 = unat a mod 16"
      by (simp_all only: v_def unhorner)
    moreover have "v div 4096 < 16" by (simp add: v_def unhorner)
    then have "v < 0x10000" by (simp add: div_less_iff_less_mult)
    moreover have "224 + unat a mod 16 = unat a" using 3 by (simp add: offset_mod)
    ultimately have "a # r = utf8_encode v @ r'"
      using r v [folded v_def] by (simp add: utf8_encode_def cont_byte_eqI)
    with r v show ?thesis unfolding v_def by blast
  next
    case 4
    with assms obtain b c d r' where r: "r = b # c # d # r'" "is_cont b" "is_cont c" "is_cont d"
        "valid_utf8 r'"
      and v: "0x10000 \<le> 64 * (64 * (64 * (unat a mod 8) + unat b mod 64) + unat c mod 64) + unat d mod 64"
        "scalar_value (64 * (64 * (64 * (unat a mod 8) + unat b mod 64) + unat c mod 64) + unat d mod 64)"
      by (auto simp: valid_utf8_4 Let_def)
    define v where "v = 64 * (64 * (64 * (unat a mod 8) + unat b mod 64) + unat c mod 64) + unat d mod 64"
    have "v mod 64 = unat d mod 64" "v div 64 mod 64 = unat c mod 64" "v div 4096 mod 64 = unat b mod 64"
      "v div 262144 = unat a mod 8" by (simp_all only: v_def unhorner)
    moreover have "240 + unat a mod 8 = unat a" using 4 by (simp add: offset_mod)
    ultimately have "a # r = utf8_encode v @ r'"
      using r v [folded v_def] by (simp add: utf8_encode_def cont_byte_eqI)
    with r v show ?thesis unfolding v_def by blast
  next
    case 5
    with assms valid_utf8_bad show ?thesis by blast
  qed
qed

definition utf8_text :: "nat list \<Rightarrow> u8 list" where
  "utf8_text cps = concat (map utf8_encode cps)"

lemma utf8_text_simps [simp]:
  "utf8_text [] = []"
  "utf8_text (c # cs) = utf8_encode c @ utf8_text cs"
  by (simp_all add: utf8_text_def)

lemma utf8_encode_nonempty [simp]: "utf8_encode c \<noteq> []"
  by (simp add: utf8_encode_def)

lemma valid_utf8_text: "list_all scalar_value cps \<Longrightarrow> valid_utf8 (utf8_text cps)"
  by (induction cps) (simp_all add: valid_utf8_encode)

lemma valid_utf8_decodes: "valid_utf8 bs \<Longrightarrow> \<exists>cps. list_all scalar_value cps \<and> bs = utf8_text cps"
proof (induction "length bs" arbitrary: bs rule: less_induct)
  case less
  show ?case
  proof (cases bs)
    case Nil
    then show ?thesis by (intro exI [of _ "[]"]) simp
  next
    case (Cons a r)
    with less.prems obtain c r' where c: "scalar_value c" "bs = utf8_encode c @ r'" "valid_utf8 r'"
      using valid_utf8_split by blast
    then have "length r' < length bs" by simp
    from less.hyps [OF this c(3)] obtain cps where "list_all scalar_value cps" "r' = utf8_text cps"
      by blast
    with c show ?thesis by (intro exI [of _ "c # cps"]) simp
  qed
qed

text \<open>
  Property C35: the hand-written UTF-8 validator accepts exactly the well-formed texts: those
  that are the concatenated encodings of Unicode scalar values. Overlong forms, surrogates,
  values above U+10FFFF, truncated sequences and stray continuation bytes are all refused.
\<close>

theorem valid_utf8_correct:
  "valid_utf8 bs \<longleftrightarrow> (\<exists>cps. list_all scalar_value cps \<and> bs = utf8_text cps)"
  using valid_utf8_decodes valid_utf8_text by blast

lemma not_lead_cont: "is_lead_byte b \<longleftrightarrow> \<not> is_cont b"
  by (simp add: is_lead_byte_def is_cont_def byte_class)

lemma lead_of_encode:
  assumes "scalar_value c"
  shows "\<exists>a r. utf8_encode c = a # r \<and> is_lead_byte a \<and> list_all is_cont r"
proof -
  have b: "c div 262144 < 8" using assms by (simp add: scalar_value_def less_mult_imp_div_less)
  have n: "\<not> is_cont (word_of_nat n)" if "n < 128 \<or> 192 \<le> n" "n < 256" for n
    using that by (auto simp: is_cont_def unat_byte)
  have "\<not> is_cont (192 + word_of_nat (c div 64))" if "c < 2048"
    using that n [of "192 + c div 64"] by (simp add: less_mult_imp_div_less)
  moreover have "\<not> is_cont (224 + word_of_nat (c div 4096))" if "c < 65536"
    using that n [of "224 + c div 4096"] by (simp add: less_mult_imp_div_less)
  moreover have "\<not> is_cont (240 + word_of_nat (c div 262144))"
    using b n [of "240 + c div 262144"] by simp
  ultimately show ?thesis
    by (auto simp: utf8_encode_def not_lead_cont n)
qed

lemma count_encode: "scalar_value c \<Longrightarrow> length (filter is_lead_byte (utf8_encode c)) = 1"
  using lead_of_encode [of c] by (auto simp: list_all_iff not_lead_cont filter_empty_conv)

text \<open>
  Counting the bytes that are not continuation bytes counts the code points.
\<close>

theorem unicode_code_points_correct:
  assumes "list_all scalar_value cps"
  shows "unicode_code_points (utf8_text cps) = Some (length cps)"
proof -
  have "length (filter is_lead_byte (utf8_text cps)) = length cps"
    using assms by (induction cps) (simp_all add: count_encode)
  then show ?thesis using assms by (simp add: unicode_code_points_def valid_utf8_text)
qed

theorem unicode_code_points_correct_witness:
  "utf8_text [0x48, 0xE9, 0x20AC, 0x1F600] = [0x48, 0xC3, 0xA9, 0xE2, 0x82, 0xAC, 0xF0, 0x9F, 0x98, 0x80]
   \<and> unicode_code_points [0x48, 0xC3, 0xA9, 0xE2, 0x82, 0xAC, 0xF0, 0x9F, 0x98, 0x80] = Some 4"
proof -
  have s: "list_all scalar_value [0x48, 0xE9, 0x20AC, 0x1F600]" by (simp add: scalar_value_def)
  have e: "utf8_text [0x48, 0xE9, 0x20AC, 0x1F600]
      = [0x48, 0xC3, 0xA9, 0xE2, 0x82, 0xAC, 0xF0, 0x9F, 0x98, 0x80]"
    by (simp add: utf8_encode_def cont_byte_def)
  show ?thesis using unicode_code_points_correct [OF s] unfolding e by simp
qed

end
