(* ===== verification/Tts_Text.thy ===== *)
theory Tts_Text
  imports Utf8
begin

text \<open>
  Speech text and its media (\<^verbatim>\<open>src/src/tts.cpp\<close>, \<^verbatim>\<open>src/src/transcription.cpp\<close>): the failure
  categories of the provider, the normaliser that turns a line into bounded, single-spaced,
  control-free UTF-8, the cost estimates, the WAV header and the PCM serialisation.
\<close>

section \<open>Failure categories\<close>

datatype tts_failure_category =
    Tts_cancelled | Tts_invalid_request | Tts_budget_exhausted | Tts_transport | Tts_timeout
  | Tts_rate_limited | Tts_authentication | Tts_provider_rejected | Tts_provider_unavailable
  | Tts_circuit_open | Tts_invalid_media | Tts_oversized_media | Tts_decoder_failed
  | Tts_cache_failed | Tts_unavailable

fun tts_failure_category_name :: "tts_failure_category \<Rightarrow> string" where
  "tts_failure_category_name Tts_cancelled = ''cancelled''"
| "tts_failure_category_name Tts_invalid_request = ''invalid_request''"
| "tts_failure_category_name Tts_budget_exhausted = ''budget_exhausted''"
| "tts_failure_category_name Tts_transport = ''transport''"
| "tts_failure_category_name Tts_timeout = ''timeout''"
| "tts_failure_category_name Tts_rate_limited = ''rate_limited''"
| "tts_failure_category_name Tts_authentication = ''authentication''"
| "tts_failure_category_name Tts_provider_rejected = ''provider_rejected''"
| "tts_failure_category_name Tts_provider_unavailable = ''provider_unavailable''"
| "tts_failure_category_name Tts_circuit_open = ''circuit_open''"
| "tts_failure_category_name Tts_invalid_media = ''invalid_media''"
| "tts_failure_category_name Tts_oversized_media = ''oversized_media''"
| "tts_failure_category_name Tts_decoder_failed = ''decoder_failed''"
| "tts_failure_category_name Tts_cache_failed = ''cache_failed''"
| "tts_failure_category_name Tts_unavailable = ''unavailable''"

record tts_error =
  tts_category :: tts_failure_category
  tts_message :: string
  tts_retryable :: bool

definition tts_error :: "tts_failure_category \<Rightarrow> string \<Rightarrow> tts_error" where
  "tts_error c m = \<lparr>tts_category = c, tts_message = m, tts_retryable = False\<rparr>"

section \<open>Normalisation of a line\<close>

definition maximum_tts_scalar_count :: nat where "maximum_tts_scalar_count = 350"
definition maximum_tts_text_bytes :: nat where "maximum_tts_text_bytes = 1400"

definition utf8_sequence_length :: "u8 \<Rightarrow> nat" where
  "utf8_sequence_length lead =
     (if lead \<le> 0x7F then 1
      else if 0xC2 \<le> lead \<and> lead \<le> 0xDF then 2
      else if 0xE0 \<le> lead \<and> lead \<le> 0xEF then 3
      else if 0xF0 \<le> lead \<and> lead \<le> 0xF4 then 4
      else 0)"

definition continuation :: "u8 \<Rightarrow> bool" where
  "continuation value \<longleftrightarrow> 0x80 \<le> value \<and> value \<le> 0xBF"

text \<open>\<open>input\<close> is the text from \<open>offset\<close> on.\<close>

definition validate_sequence :: "u8 list \<Rightarrow> nat \<Rightarrow> tts_error + unit" where
  "validate_sequence input len =
     (if length input < len then Inl (tts_error Tts_invalid_request ''TTS text contains truncated UTF-8.'')
      else if list_ex (\<lambda>b. \<not> continuation b) (take (len - 1) (drop 1 input))
        then Inl (tts_error Tts_invalid_request ''TTS text contains invalid UTF-8.'')
      else let lead = input ! 0 in
        if (len = 3 \<and> lead = 0xE0 \<and> input ! 1 < 0xA0) \<or> (len = 3 \<and> lead = 0xED \<and> 0x9F < input ! 1)
           \<or> (len = 4 \<and> lead = 0xF0 \<and> input ! 1 < 0x90) \<or> (len = 4 \<and> lead = 0xF4 \<and> 0x8F < input ! 1)
        then Inl (tts_error Tts_invalid_request ''TTS text contains non-scalar UTF-8.'')
        else Inr ())"

record normalized_tts_text =
  tts_text :: "u8 list"
  tts_scalar_count :: nat

definition prohibited_control :: tts_error where
  "prohibited_control = tts_error Tts_invalid_request ''TTS text contains a prohibited control character.''"

definition tts_prohibited_ascii :: "u8 \<Rightarrow> bool" where
  "tts_prohibited_ascii lead \<longleftrightarrow>
     lead = 0 \<or> (lead < 0x20 \<and> lead \<noteq> 9 \<and> lead \<noteq> 10 \<and> lead \<noteq> 13) \<or> lead = 0x7F"

definition tts_space :: "u8 \<Rightarrow> bool" where
  "tts_space lead \<longleftrightarrow> lead = 0x20 \<or> lead = 9 \<or> lead = 10 \<or> lead = 13"

definition tts_append :: "bool \<Rightarrow> u8 list \<Rightarrow> normalized_tts_text \<Rightarrow> normalized_tts_text" where
  "tts_append pending_space bytes result =
     (let result = (if pending_space
                    then result\<lparr>tts_text := tts_text result @ [0x20],
                                tts_scalar_count := tts_scalar_count result + 1\<rparr>
                    else result)
      in result\<lparr>tts_text := tts_text result @ bytes,
                tts_scalar_count := tts_scalar_count result + 1\<rparr>)"

definition tts_over_limit :: "normalized_tts_text \<Rightarrow> bool" where
  "tts_over_limit result \<longleftrightarrow>
     maximum_tts_scalar_count < tts_scalar_count result \<or>
     maximum_tts_text_bytes < length (tts_text result)"

definition line_limit :: tts_error where
  "line_limit = tts_error Tts_invalid_request ''TTS text exceeds the configured line limit.''"

function normalize_loop ::
  "u8 list \<Rightarrow> bool \<Rightarrow> normalized_tts_text \<Rightarrow> tts_error + normalized_tts_text"
where
  "normalize_loop [] pending_space result = Inr result"
| "normalize_loop (lead # bytes) pending_space result =
     (if lead \<le> 0x7F then
        (if tts_prohibited_ascii lead then Inl prohibited_control
         else if tts_space lead then normalize_loop bytes (tts_text result \<noteq> []) result
         else let result = tts_append pending_space [lead] result in
              if tts_over_limit result then Inl line_limit
              else normalize_loop bytes False result)
      else let len = utf8_sequence_length lead in
        if len = 0 then Inl (tts_error Tts_invalid_request ''TTS text contains invalid UTF-8.'')
        else case validate_sequence (lead # bytes) len of
          Inl e \<Rightarrow> Inl e
        | Inr _ \<Rightarrow>
            if len = 2 \<and> lead = 0xC2 \<and> 0x80 \<le> bytes ! 0 \<and> bytes ! 0 \<le> 0x9F
            then Inl prohibited_control
            else let result = tts_append pending_space (take len (lead # bytes)) result in
              if tts_over_limit result then Inl line_limit
              else normalize_loop (drop len (lead # bytes)) False result)"
  by pat_completeness auto
termination
  by (relation "measure (\<lambda>(input, p, r). length input)") auto

definition normalize_tts_text :: "u8 list \<Rightarrow> tts_error + normalized_tts_text" where
  "normalize_tts_text input =
     (case normalize_loop input False \<lparr>tts_text = [], tts_scalar_count = 0\<rparr> of
        Inl e \<Rightarrow> Inl e
      | Inr result \<Rightarrow>
          if tts_text result = []
          then Inl (tts_error Tts_invalid_request ''TTS text must not be blank.'')
          else Inr result)"

declare normalize_loop.simps(2) [simp del]

section \<open>The two UTF-8 validators agree\<close>

lemma sequence_length_unat:
  "utf8_sequence_length a = 1 \<longleftrightarrow> unat a < 128"
  "utf8_sequence_length a = 2 \<longleftrightarrow> 194 \<le> unat a \<and> unat a \<le> 223"
  "utf8_sequence_length a = 3 \<longleftrightarrow> 224 \<le> unat a \<and> unat a \<le> 239"
  "utf8_sequence_length a = 4 \<longleftrightarrow> 240 \<le> unat a \<and> unat a \<le> 244"
  by (auto simp: utf8_sequence_length_def word_le_nat_alt)

lemma continuation_is_cont: "continuation b = is_cont b"
  by (auto simp: continuation_def is_cont_def word_le_nat_alt)

lemma list_take_Suc: "Suc n \<le> length xs \<longleftrightarrow> (\<exists>y ys. xs = y # ys \<and> n \<le> length ys)"
  by (cases xs) auto

lemma validate_2:
  assumes "utf8_sequence_length a = 2"
  shows "validate_sequence (a # r) 2 = Inr () \<longleftrightarrow> (\<exists>b r'. r = b # r' \<and> valid_utf8 [a, b])"
proof -
  have a: "192 \<le> unat a" "unat a < 224" "194 \<le> unat a" using assms by (auto simp: sequence_length_unat)
  have "unat a mod 32 = unat a - 192" using a offset_mod [of 192 "unat a" 32] by simp
  with a show ?thesis
    by (cases r) (auto simp: validate_sequence_def valid_utf8_2 continuation_is_cont Let_def)
qed

lemma three_byte_range:
  fixes x y z :: nat
  assumes "x < 16" "y < 64" "z < 64"
  shows "0x800 \<le> 64 * (64 * x + y) + z \<and> scalar_value (64 * (64 * x + y) + z) \<longleftrightarrow>
         \<not> (x = 0 \<and> y < 32) \<and> \<not> (x = 13 \<and> 31 < y)"
proof -
  consider "x = 0" | "1 \<le> x" "x \<le> 12" | "x = 13" | "14 \<le> x" by linarith
  then show ?thesis
  proof cases
    case 1
    with assms show ?thesis by (auto simp: scalar_value_def)
  next
    case 2
    with assms have "64 * (64 * x + y) + z < 0xD800" by simp
    with 2 show ?thesis by (simp add: scalar_value_def)
  next
    case 3
    with assms show ?thesis by (auto simp: scalar_value_def)
  next
    case 4
    with assms have "0xE000 \<le> 64 * (64 * x + y) + z" "64 * (64 * x + y) + z \<le> 0xFFFF" by simp_all
    with 4 show ?thesis by (simp add: scalar_value_def)
  qed
qed

lemma four_byte_range:
  fixes x y z w :: nat
  assumes "x \<le> 4" "y < 64" "z < 64" "w < 64"
  shows "0x10000 \<le> 64 * (64 * (64 * x + y) + z) + w
           \<and> scalar_value (64 * (64 * (64 * x + y) + z) + w) \<longleftrightarrow>
         \<not> (x = 0 \<and> y < 16) \<and> \<not> (x = 4 \<and> 15 < y)"
proof -
  consider "x = 0" | "1 \<le> x" "x \<le> 3" | "x = 4" using assms by linarith
  then show ?thesis
  proof cases
    case 1
    with assms show ?thesis by (auto simp: scalar_value_def)
  next
    case 2
    with assms have "64 * (64 * (64 * x + y) + z) + w < 0x100000" by simp
    with 2 show ?thesis by (simp add: scalar_value_def)
  next
    case 3
    with assms show ?thesis by (auto simp: scalar_value_def)
  qed
qed

lemma validate_3:
  assumes "utf8_sequence_length a = 3"
  shows "validate_sequence (a # r) 3 = Inr () \<longleftrightarrow> (\<exists>b c r'. r = b # c # r' \<and> valid_utf8 [a, b, c])"
proof -
  have a: "224 \<le> unat a" "unat a < 240" using assms by (auto simp: sequence_length_unat)
  have am: "unat a mod 16 = unat a - 224" using a offset_mod [of 224 "unat a" 16] by simp
  have step: "validate_sequence (a # b # c # r') 3 = Inr () \<longleftrightarrow> valid_utf8 [a, b, c]" for b c r'
  proof (cases "is_cont b \<and> is_cont c")
    case True
    then have bc: "128 \<le> unat b" "unat b < 192" "128 \<le> unat c" "unat c < 192"
      by (auto simp: is_cont_def)
    have m: "unat b mod 64 = unat b - 128" "unat c mod 64 = unat c - 128"
      using bc offset_mod [of 128 "unat b" 64] offset_mod [of 128 "unat c" 64] by simp_all
    have "validate_sequence (a # b # c # r') 3 = Inr () \<longleftrightarrow>
        \<not> (unat a = 224 \<and> unat b < 160) \<and> \<not> (unat a = 237 \<and> 159 < unat b)"
      using True by (simp add: validate_sequence_def continuation_is_cont Let_def
          word_unat_eq_iff [of a] word_less_nat_alt)
    also have "\<dots> \<longleftrightarrow> 0x800 \<le> 64 * (64 * (unat a - 224) + (unat b - 128)) + (unat c - 128)
        \<and> scalar_value (64 * (64 * (unat a - 224) + (unat b - 128)) + (unat c - 128))"
      using a bc by (subst three_byte_range) auto
    finally show ?thesis using True a by (simp add: valid_utf8_3 am m Let_def)
  next
    case False
    then show ?thesis using a
      by (auto simp: validate_sequence_def continuation_is_cont valid_utf8_3 Let_def)
  qed
  show ?thesis
  proof (cases "\<exists>b c r'. r = b # c # r'")
    case True
    with step show ?thesis by auto
  next
    case False
    then have "length r < 2" by (cases r; cases "tl r") auto
    with False show ?thesis by (auto simp: validate_sequence_def)
  qed
qed

lemma validate_4:
  assumes "utf8_sequence_length a = 4"
  shows "validate_sequence (a # r) 4 = Inr () \<longleftrightarrow>
    (\<exists>b c d r'. r = b # c # d # r' \<and> valid_utf8 [a, b, c, d])"
proof -
  have a: "240 \<le> unat a" "unat a < 248" "unat a \<le> 244"
    using assms by (auto simp: sequence_length_unat)
  have am: "unat a mod 8 = unat a - 240" using a offset_mod [of 240 "unat a" 8] by simp
  have step: "validate_sequence (a # b # c # d # r') 4 = Inr () \<longleftrightarrow> valid_utf8 [a, b, c, d]" for b c d r'
  proof (cases "is_cont b \<and> is_cont c \<and> is_cont d")
    case True
    then have bc: "128 \<le> unat b" "unat b < 192" "128 \<le> unat c" "unat c < 192" "128 \<le> unat d" "unat d < 192"
      by (auto simp: is_cont_def)
    have m: "unat b mod 64 = unat b - 128" "unat c mod 64 = unat c - 128" "unat d mod 64 = unat d - 128"
      using bc offset_mod [of 128 "unat b" 64] offset_mod [of 128 "unat c" 64]
        offset_mod [of 128 "unat d" 64] by simp_all
    have "validate_sequence (a # b # c # d # r') 4 = Inr () \<longleftrightarrow>
        \<not> (unat a = 240 \<and> unat b < 144) \<and> \<not> (unat a = 244 \<and> 143 < unat b)"
      using True by (simp add: validate_sequence_def continuation_is_cont Let_def
          word_unat_eq_iff [of a] word_less_nat_alt)
    also have "\<dots> \<longleftrightarrow>
        0x10000 \<le> 64 * (64 * (64 * (unat a - 240) + (unat b - 128)) + (unat c - 128)) + (unat d - 128)
        \<and> scalar_value (64 * (64 * (64 * (unat a - 240) + (unat b - 128)) + (unat c - 128)) + (unat d - 128))"
      using a bc by (subst four_byte_range) auto
    finally show ?thesis using True a by (simp add: valid_utf8_4 am m Let_def)
  next
    case False
    then show ?thesis using a
      by (auto simp: validate_sequence_def continuation_is_cont valid_utf8_4 Let_def)
  qed
  show ?thesis
  proof (cases "\<exists>b c d r'. r = b # c # d # r'")
    case True
    with step show ?thesis by auto
  next
    case False
    then have "length r < 3" by (cases r; cases "tl r"; cases "tl (tl r)") auto
    with False show ?thesis by (auto simp: validate_sequence_def)
  qed
qed

section \<open>The normaliser on code points\<close>

definition space_cp :: "nat \<Rightarrow> bool" where
  "space_cp c \<longleftrightarrow> c = 32 \<or> c = 9 \<or> c = 10 \<or> c = 13"

definition prohibited_cp :: "nat \<Rightarrow> bool" where
  "prohibited_cp c \<longleftrightarrow> (c < 32 \<and> \<not> space_cp c) \<or> (127 \<le> c \<and> c \<le> 159)"

text \<open>The specification: the line's words, joined by single spaces.\<close>

function line_words :: "nat list \<Rightarrow> nat list list" where
  "line_words [] = []"
| "line_words (c # cs) =
     (if space_cp c then line_words cs
      else (c # takeWhile (\<lambda>x. \<not> space_cp x) cs) # line_words (dropWhile (\<lambda>x. \<not> space_cp x) cs))"
  by pat_completeness auto
termination
  by (relation "measure length") (auto simp: le_imp_less_Suc length_dropWhile_le)

fun join_words :: "nat list list \<Rightarrow> nat list" where
  "join_words [] = []"
| "join_words [w] = w"
| "join_words (w # v # ws) = w @ 32 # join_words (v # ws)"

definition line_result :: "nat list \<Rightarrow> normalized_tts_text" where
  "line_result out = \<lparr>tts_text = utf8_text out, tts_scalar_count = length out\<rparr>"

text \<open>The loop on code points, without the limits.\<close>

fun norm_line :: "bool \<Rightarrow> nat list \<Rightarrow> nat list \<Rightarrow> nat list" where
  "norm_line p out [] = out"
| "norm_line p out (c # cs) =
     (if space_cp c then norm_line (out \<noteq> []) out cs
      else norm_line False (out @ (if p then [32] else []) @ [c]) cs)"

lemma join_Cons: "join_words (w # ws) = w @ (if ws = [] then [] else 32 # join_words ws)"
  by (cases ws) simp_all

lemma norm_line_out:
  "out \<noteq> [] \<Longrightarrow>
   norm_line True out cs = out @ (if line_words cs = [] then [] else 32 # join_words (line_words cs))
   \<and> norm_line False out cs = out @ takeWhile (\<lambda>x. \<not> space_cp x) cs @
       (if line_words (dropWhile (\<lambda>x. \<not> space_cp x) cs) = [] then []
        else 32 # join_words (line_words (dropWhile (\<lambda>x. \<not> space_cp x) cs)))"
  by (induction cs arbitrary: out) (simp_all add: join_Cons)

lemma norm_line_words: "norm_line False [] cs = join_words (line_words cs)"
  by (induction cs) (simp_all add: norm_line_out join_Cons)

lemma norm_line_prefix: "\<exists>zs. norm_line p out cs = out @ zs"
proof (induction cs arbitrary: p out)
  case (Cons c cs)
  show ?case
    using Cons [of "out \<noteq> []" out] Cons [of False "out @ (if p then [32] else []) @ [c]"]
    by (auto split: if_splits)
qed simp

section \<open>The byte loop against it\<close>

lemma utf8_text_append: "utf8_text (xs @ ys) = utf8_text xs @ utf8_text ys"
  by (induction xs) simp_all

lemma utf8_encode_32: "utf8_encode 32 = [32]"
  by (simp add: utf8_encode_def)

lemma tts_append_result:
  "tts_append p (utf8_encode c) (line_result out) = line_result (out @ (if p then [32] else []) @ [c])"
  by (simp add: tts_append_def line_result_def Let_def utf8_text_append utf8_encode_32)

definition line_over :: "nat list \<Rightarrow> bool" where
  "line_over out \<longleftrightarrow> 350 < length out \<or> 1400 < length (utf8_text out)"

lemma tts_over_limit_result: "tts_over_limit (line_result out) = line_over out"
  by (simp add: tts_over_limit_def line_result_def line_over_def
      maximum_tts_scalar_count_def maximum_tts_text_bytes_def)

lemma line_over_prefix: "line_over out \<Longrightarrow> line_over (out @ zs)"
  by (auto simp: line_over_def utf8_text_append)

lemma utf8_text_empty [simp]: "utf8_text out = [] \<longleftrightarrow> out = []"
  by (cases out) simp_all

lemma tts_text_result [simp]: "tts_text (line_result out) = utf8_text out"
  by (simp add: line_result_def)

lemma encode_ascii: "c < 128 \<Longrightarrow> utf8_encode c = [word_of_nat c]"
  by (simp add: utf8_encode_def)

lemma ascii_classes:
  assumes "c < 128"
  shows "(word_of_nat c :: u8) \<le> 0x7F"
    "tts_prohibited_ascii (word_of_nat c) = prohibited_cp c"
    "tts_space (word_of_nat c) = space_cp c"
proof -
  have u: "unat (word_of_nat c :: u8) = c" using assms by (intro unat_byte) simp
  show "(word_of_nat c :: u8) \<le> 0x7F" using assms by (simp add: word_le_nat_alt u)
  show "tts_prohibited_ascii (word_of_nat c) = prohibited_cp c"
    using assms by (auto simp: tts_prohibited_ascii_def prohibited_cp_def space_cp_def
        word_unat_eq_iff word_less_nat_alt u)
  show "tts_space (word_of_nat c) = space_cp c"
    by (auto simp: tts_space_def space_cp_def word_unat_eq_iff u)
qed

lemma encode_lead:
  assumes "scalar_value c" "128 \<le> c"
  shows "\<exists>a r. utf8_encode c = a # r \<and> \<not> a \<le> 0x7F
           \<and> utf8_sequence_length a = length (utf8_encode c) \<and> 2 \<le> length (utf8_encode c)"
proof -
  consider "c < 0x800" | "0x800 \<le> c" "c < 0x10000" | "0x10000 \<le> c" by linarith
  then show ?thesis
  proof cases
    case 1
    have d: "2 \<le> c div 64" "c div 64 < 32" using 1 assms by (simp_all add: less_mult_imp_div_less
          less_eq_div_iff_mult_less_eq)
    then have u: "unat (word_of_nat (192 + c div 64) :: u8) = 192 + c div 64" by (intro unat_byte) simp
    have "utf8_sequence_length (word_of_nat (192 + c div 64)) = 2"
      unfolding sequence_length_unat u using d by simp
    moreover have "\<not> (word_of_nat (192 + c div 64) :: u8) \<le> 0x7F" unfolding byte_class u by simp
    ultimately show ?thesis using 1 assms by (simp add: utf8_encode_def)
  next
    case 2
    then have d: "c div 4096 < 16" by (simp add: less_mult_imp_div_less)
    then have u: "unat (word_of_nat (224 + c div 4096) :: u8) = 224 + c div 4096" by (intro unat_byte) simp
    have "utf8_sequence_length (word_of_nat (224 + c div 4096)) = 3"
      unfolding sequence_length_unat u using d by simp
    moreover have "\<not> (word_of_nat (224 + c div 4096) :: u8) \<le> 0x7F" unfolding byte_class u by simp
    ultimately show ?thesis using 2 assms by (simp add: utf8_encode_def)
  next
    case 3
    then have d: "c div 262144 \<le> 4" using assms by (simp add: scalar_value_def div_le_mono [of c "0x10FFFF" 262144, simplified])
    then have u: "unat (word_of_nat (240 + c div 262144) :: u8) = 240 + c div 262144" by (intro unat_byte) simp
    have "utf8_sequence_length (word_of_nat (240 + c div 262144)) = 4"
      unfolding sequence_length_unat u using d by simp
    moreover have "\<not> (word_of_nat (240 + c div 262144) :: u8) \<le> 0x7F" unfolding byte_class u by simp
    ultimately show ?thesis using 3 assms by (simp add: utf8_encode_def)
  qed
qed

lemma validate_ok_iff:
  assumes "utf8_sequence_length a = n" "2 \<le> n"
  shows "validate_sequence (a # r) n = Inr () \<longleftrightarrow> n \<le> length (a # r) \<and> valid_utf8 (take n (a # r))"
proof -
  have "n \<in> {2, 3, 4}" using assms by (auto simp: utf8_sequence_length_def split: if_splits)
  then consider "n = 2" | "n = 3" | "n = 4" by auto
  then show ?thesis
  proof cases
    case 1
    with assms validate_2 [of a r] show ?thesis by (cases r) auto
  next
    case 2
    with assms validate_3 [of a r] show ?thesis
      by (cases r; cases "tl r") (auto simp: numeral_3_eq_3)
  next
    case 3
    with assms validate_4 [of a r] show ?thesis
      by (cases r; cases "tl r"; cases "tl (tl r)") (auto simp: numeral_eq_Suc)
  qed
qed

lemma validate_encode:
  assumes "scalar_value c" "128 \<le> c"
  shows "validate_sequence (utf8_encode c @ r) (length (utf8_encode c)) = Inr ()"
proof -
  obtain a t where e: "utf8_encode c = a # t" "utf8_sequence_length a = length (utf8_encode c)"
    "2 \<le> length (utf8_encode c)" using encode_lead [OF assms] by blast
  have "valid_utf8 (utf8_encode c)" using valid_utf8_encode [OF assms(1), of "[]"] by simp
  then show ?thesis using validate_ok_iff [OF e(2,3), of "t @ r"] e(1) by simp
qed

lemma c1_range: "r < 64 \<Longrightarrow> 128 \<le> 64 * q + r \<Longrightarrow> q = 2 \<and> r \<le> 31 \<longleftrightarrow> 64 * q + r \<le> (159 :: nat)"
  by (cases "q = 2") auto

lemma encode_c1:
  assumes "scalar_value c" "128 \<le> c" "utf8_encode c = a # t"
  shows "(length (utf8_encode c) = 2 \<and> a = 0xC2 \<and> 0x80 \<le> (t @ r) ! 0 \<and> (t @ r) ! 0 \<le> 0x9F)
         \<longleftrightarrow> prohibited_cp c"
proof (cases "c < 0x800")
  case True
  with assms have a: "a = word_of_nat (192 + c div 64)" "t = [cont_byte c]"
    by (simp_all add: utf8_encode_def)
  have "c div 64 < 32" using True by (simp add: less_mult_imp_div_less)
  then have "unat (word_of_nat (192 + c div 64) :: u8) = 192 + c div 64" by (intro unat_byte) simp
  then have "a = 0xC2 \<longleftrightarrow> c div 64 = 2" by (auto simp: a word_unat_eq_iff)
  moreover have "0x80 \<le> cont_byte c" "cont_byte c \<le> 0x9F \<longleftrightarrow> c mod 64 \<le> 31"
    by (simp_all add: word_le_nat_alt)
  moreover have "c div 64 = 2 \<and> c mod 64 \<le> 31 \<longleftrightarrow> c \<le> 159"
    using c1_range [of "c mod 64" "c div 64"] assms(2) by simp
  ultimately show ?thesis using True assms a by (auto simp: utf8_encode_def prohibited_cp_def space_cp_def)
next
  case False
  then show ?thesis using assms(2) by (simp add: utf8_encode_def prohibited_cp_def space_cp_def)
qed

lemma normalize_loop_step:
  assumes "scalar_value c"
  shows "normalize_loop (utf8_encode c @ bytes) p (line_result out) =
    (if prohibited_cp c then Inl prohibited_control
     else if space_cp c then normalize_loop bytes (out \<noteq> []) (line_result out)
     else let out' = out @ (if p then [32] else []) @ [c] in
       if line_over out' then Inl line_limit else normalize_loop bytes False (line_result out'))"
proof (cases "c < 128")
  case True
  then show ?thesis
    using tts_append_result [of p c out]
    by (simp add: encode_ascii normalize_loop.simps(2) ascii_classes Let_def tts_over_limit_result)
next
  case False
  then have c: "128 \<le> c" by simp
  obtain a t where e: "utf8_encode c = a # t" "\<not> a \<le> 0x7F"
    "utf8_sequence_length a = length (utf8_encode c)"
    "2 \<le> length (utf8_encode c)" using encode_lead [OF assms c] by blast
  have "\<not> space_cp c" using c by (simp add: space_cp_def)
  moreover have v: "validate_sequence (a # t @ bytes) (Suc (length t)) = Inr ()"
    using validate_encode [OF assms c, of bytes] e(1) by simp
  moreover have "tts_append p (a # t) (line_result out) = line_result (out @ (if p then [32] else []) @ [c])"
    using tts_append_result [of p c out] e(1) by simp
  moreover note encode_c1 [OF assms c e(1), of bytes]
  ultimately show ?thesis
    using e by (simp add: normalize_loop.simps(2) Let_def tts_over_limit_result)
qed

lemma normalize_loop_text:
  assumes "list_all scalar_value cps" and "\<not> line_over out"
  shows "normalize_loop (utf8_text cps) p (line_result out) = Inr r \<longleftrightarrow>
    list_all (\<lambda>c. \<not> prohibited_cp c) cps \<and> \<not> line_over (norm_line p out cps)
    \<and> r = line_result (norm_line p out cps)"
  using assms
proof (induction cps arbitrary: p out)
  case Nil
  then show ?case by auto
next
  case (Cons c cs)
  let ?out' = "out @ (if p then [32] else []) @ [c]"
  have over: "line_over ?out' \<Longrightarrow> line_over (norm_line False ?out' cs)"
    by (metis norm_line_prefix line_over_prefix)
  show ?case
    using Cons.prems Cons.IH [of out "out \<noteq> []"] Cons.IH [of ?out' False] over
    by (auto simp: normalize_loop_step Let_def)
qed

lemma normalize_loop_valid: "normalize_loop bs p r = Inr r' \<Longrightarrow> valid_utf8 bs"
proof (induction bs p r rule: normalize_loop.induct)
  case (1 p r)
  then show ?case by simp
next
  case (2 a bytes p r)
  show ?case
  proof (cases "a \<le> 0x7F")
    case True
    with 2 show ?thesis
      by (auto simp: normalize_loop.simps(2) valid_utf8_1 byte_class Let_def split: if_splits)
  next
    case False
    let ?n = "utf8_sequence_length a"
    from 2(4) False have n0: "?n \<noteq> 0" and v: "validate_sequence (a # bytes) ?n = Inr ()"
      by (auto simp: normalize_loop.simps(2) Let_def split: if_splits sum.splits)
    have n2: "2 \<le> ?n" using n0 False by (auto simp: utf8_sequence_length_def split: if_splits)
    from v have ok: "valid_utf8 (take ?n (a # bytes))"
      using validate_ok_iff [OF refl n2] by blast
    from 2(4) False n0 v have "\<exists>r2. normalize_loop (drop ?n (a # bytes)) False r2 = Inr r'"
      by (auto simp: normalize_loop.simps(2) Let_def split: if_splits)
    then obtain r2 where "normalize_loop (drop ?n (a # bytes)) False r2 = Inr r'" by blast
    have "valid_utf8 (drop ?n (a # bytes))"
      using 2(3) [OF False refl n0 v] 2(4) False n0 v
      by (auto simp: normalize_loop.simps(2) Let_def split: if_splits)
    with ok show ?thesis
      using valid_utf8_correct [of "take ?n (a # bytes)"] valid_utf8_correct [of "drop ?n (a # bytes)"]
        valid_utf8_correct [of "a # bytes"]
      by (metis append_take_drop_id list_all_append utf8_text_append)
  qed
qed


section \<open>The normaliser meets its specification\<close>

definition line_normal :: "nat list \<Rightarrow> nat list" where
  "line_normal cps = join_words (line_words cps)"

lemma normalize_text:
  assumes "list_all scalar_value cps"
  shows "normalize_tts_text (utf8_text cps) = Inr r \<longleftrightarrow>
    list_all (\<lambda>c. \<not> prohibited_cp c) cps \<and> line_normal cps \<noteq> []
    \<and> \<not> line_over (line_normal cps) \<and> r = line_result (line_normal cps)"
proof -
  have z: "\<lparr>tts_text = [], tts_scalar_count = 0\<rparr> = line_result []" by (simp add: line_result_def)
  have "\<not> line_over []" by (simp add: line_over_def)
  from normalize_loop_text [OF assms this, of False] show ?thesis
    by (auto simp: normalize_tts_text_def z norm_line_words line_normal_def
        split: sum.splits if_splits)
qed

text \<open>
  Property C26: the speech normaliser accepts a line exactly when it is valid UTF-8 without
  control characters whose words, joined by single spaces, are not empty and fit the 350
  scalar and 1400 byte limits; the result is those words so joined, with their scalar count.
\<close>

theorem normalize_tts_text_correct:
  "normalize_tts_text input = Inr r \<longleftrightarrow>
   (\<exists>cps. list_all scalar_value cps \<and> input = utf8_text cps
          \<and> list_all (\<lambda>c. \<not> prohibited_cp c) cps \<and> line_normal cps \<noteq> []
          \<and> length (line_normal cps) \<le> 350 \<and> length (utf8_text (line_normal cps)) \<le> 1400
          \<and> r = \<lparr>tts_text = utf8_text (line_normal cps), tts_scalar_count = length (line_normal cps)\<rparr>)"
  (is "_ \<longleftrightarrow> (\<exists>cps. ?accepted cps)")
proof
  assume ok: "normalize_tts_text input = Inr r"
  then have "valid_utf8 input"
    by (auto simp: normalize_tts_text_def split: sum.splits dest: normalize_loop_valid)
  then obtain cps where cps: "list_all scalar_value cps" "input = utf8_text cps"
    using valid_utf8_correct by blast
  have "normalize_tts_text (utf8_text cps) = Inr r" using ok by (simp only: cps(2))
  from iffD1 [OF normalize_text [OF cps(1)] this]
  have f: "list_all (\<lambda>c. \<not> prohibited_cp c) cps" "line_normal cps \<noteq> []"
    "\<not> line_over (line_normal cps)" "r = line_result (line_normal cps)" by blast+
  from f(3) have "length (line_normal cps) \<le> 350" "length (utf8_text (line_normal cps)) \<le> 1400"
    unfolding line_over_def by simp_all
  with cps f(1,2) f(4) [unfolded line_result_def] have "?accepted cps" by blast
  then show "\<exists>cps. ?accepted cps" ..
next
  assume "\<exists>cps. ?accepted cps"
  then obtain cps where acc: "?accepted cps" by blast
  then have "\<not> line_over (line_normal cps)" by (simp only: line_over_def) linarith
  then have "normalize_tts_text (utf8_text cps) = Inr (line_result (line_normal cps))"
    using acc by (intro iffD2 [OF normalize_text]) blast+
  then show "normalize_tts_text input = Inr r" using acc by (simp only: line_result_def)
qed

lemma line_words_no_space: "w \<in> set (line_words cps) \<Longrightarrow> w \<noteq> [] \<and> list_all (\<lambda>x. \<not> space_cp x) w"
proof (induction cps rule: line_words.induct)
  case 1
  then show ?case by simp
next
  case (2 c cs)
  have "list_all (\<lambda>x. \<not> space_cp x) (takeWhile (\<lambda>x. \<not> space_cp x) cs)"
    by (induction cs) simp_all
  with 2 show ?case by (cases "space_cp c") auto
qed

lemma takeWhile_word: "list_all P w \<Longrightarrow> \<not> P s \<Longrightarrow> takeWhile P (w @ s # r) = w \<and> dropWhile P (w @ s # r) = s # r"
  by (induction w) auto

lemma takeWhile_all: "list_all P w \<Longrightarrow> takeWhile P w = w \<and> dropWhile P w = []"
  by (induction w) auto

lemma line_words_join:
  "(\<And>w. w \<in> set ws \<Longrightarrow> w \<noteq> [] \<and> list_all (\<lambda>x. \<not> space_cp x) w) \<Longrightarrow> line_words (join_words ws) = ws"
proof (induction ws rule: join_words.induct)
  case 1
  then show ?case by simp
next
  case (2 w)
  then obtain c t where "w = c # t" "\<not> space_cp c" "list_all (\<lambda>x. \<not> space_cp x) t"
    by (cases w) auto
  then show ?case by (simp add: takeWhile_all)
next
  case (3 w v ws)
  have "w \<noteq> [] \<and> list_all (\<lambda>x. \<not> space_cp x) w" using "3.prems" by simp
  then obtain c t where w: "w = c # t" "\<not> space_cp c" "list_all (\<lambda>x. \<not> space_cp x) t"
    by (cases w) auto
  have "space_cp 32" by (simp add: space_cp_def)
  then show ?case using 3 w takeWhile_word [of "\<lambda>x. \<not> space_cp x" t 32 "join_words (v # ws)"]
    by simp
qed

lemma line_normal_normal: "line_normal (line_normal cps) = line_normal cps"
  using line_words_join [of "line_words cps"] line_words_no_space by (simp add: line_normal_def)

lemma set_line_words: "x \<in> set (concat (line_words cps)) \<Longrightarrow> x \<in> set cps"
proof (induction cps rule: line_words.induct)
  case 1
  then show ?case by simp
next
  case (2 c cs)
  have "x \<in> set (takeWhile (\<lambda>x. \<not> space_cp x) cs) \<Longrightarrow> x \<in> set cs"
    "x \<in> set (dropWhile (\<lambda>x. \<not> space_cp x) cs) \<Longrightarrow> x \<in> set cs"
    by (meson set_takeWhileD set_dropWhileD)+
  with 2 show ?case by (cases "space_cp c") auto
qed

lemma set_join_words: "x \<in> set (join_words ws) \<Longrightarrow> x = 32 \<or> x \<in> set (concat ws)"
  by (induction ws rule: join_words.induct) auto

lemma list_all_line_normal: "P 32 \<Longrightarrow> list_all P cps \<Longrightarrow> list_all P (line_normal cps)"
  by (auto simp: line_normal_def list_all_iff dest!: set_join_words set_line_words)

text \<open>
  Normalising is idempotent: a normalised line is accepted again, unchanged. The
  cache key, computed from the normalised text, is therefore the same however often a line
  has been normalised.
\<close>

theorem normalize_tts_text_idempotent:
  assumes "normalize_tts_text input = Inr r"
  shows "normalize_tts_text (tts_text r) = Inr r"
proof -
  from assms normalize_tts_text_correct obtain cps where cps: "list_all scalar_value cps"
    "list_all (\<lambda>c. \<not> prohibited_cp c) cps" "line_normal cps \<noteq> []"
    "\<not> line_over (line_normal cps)" "r = line_result (line_normal cps)"
    by (auto simp: line_over_def line_result_def not_less)
  have "list_all scalar_value (line_normal cps)"
    by (rule list_all_line_normal) (simp_all add: scalar_value_def cps)
  moreover have "list_all (\<lambda>c. \<not> prohibited_cp c) (line_normal cps)"
    by (rule list_all_line_normal [OF _ cps(2)]) (simp add: prohibited_cp_def space_cp_def)
  ultimately show ?thesis
    using cps by (simp add: normalize_text line_normal_normal)
qed

theorem normalize_tts_text_idempotent_witness:
  "normalize_tts_text [32, 72, 9, 32, 105, 10] = Inr \<lparr>tts_text = [72, 32, 105], tts_scalar_count = 3\<rparr>
   \<and> normalize_tts_text [72, 32, 105] = Inr \<lparr>tts_text = [72, 32, 105], tts_scalar_count = 3\<rparr>"
proof -
  have n: "normalize_tts_text [32, 72, 9, 32, 105, 10] = Inr \<lparr>tts_text = [72, 32, 105], tts_scalar_count = 3\<rparr>"
    by (simp add: normalize_tts_text_def normalize_loop.simps(2) tts_prohibited_ascii_def
        tts_space_def tts_append_def tts_over_limit_def maximum_tts_scalar_count_def
        maximum_tts_text_bytes_def Let_def)
  show ?thesis using n normalize_tts_text_idempotent [OF n] by simp
qed

section \<open>Media\<close>

record pcm_audio =
  pcm_sample_rate :: nat
  pcm_channels :: nat
  pcm_bits_per_sample :: nat
  pcm_samples :: "16 word list"

definition maximum_tts_pcm_bytes :: nat where "maximum_tts_pcm_bytes = 3840000"

definition sample_bytes :: "16 word \<Rightarrow> u8 list" where
  "sample_bytes bits = [ucast (bits AND 0xFF), ucast (drop_bit 8 bits AND 0xFF)]"

definition validated_pcm_bytes :: "pcm_audio \<Rightarrow> tts_error + u8 list" where
  "validated_pcm_bytes audio =
     (if pcm_sample_rate audio \<noteq> 48000 \<or> pcm_channels audio \<noteq> 2 \<or> pcm_bits_per_sample audio \<noteq> 16
         \<or> pcm_samples audio = [] \<or> length (pcm_samples audio) mod 2 \<noteq> 0
         \<or> maximum_tts_pcm_bytes < length (pcm_samples audio) * 2
      then Inl (tts_error Tts_invalid_media ''PCM is not a bounded D++ audio stream.'')
      else Inr (concat (map sample_bytes (pcm_samples audio))))"

definition estimated_tts_cost_micro_usd :: "nat \<Rightarrow> int res" where
  "estimated_tts_cost_micro_usd scalar_count =
     (if int64_max div 15 < int scalar_count
      then Inl (Overflow_error ''TTS cost estimate overflowed.'')
      else Inr (int scalar_count * 15))"

definition estimated_transcription_cost_micro_usd :: "int \<Rightarrow> int res" where
  "estimated_transcription_cost_micro_usd requested_seconds =
     (if requested_seconds < 1 \<or> 15 < requested_seconds
      then Inl (Invalid_argument ''Transcription duration must be 1-15 seconds.'')
      else Inr (requested_seconds * 75))"

definition ascii :: "string \<Rightarrow> u8 list" where
  "ascii s = map of_char s"

definition wav_media_signature :: "u8 list \<Rightarrow> bool" where
  "wav_media_signature bytes \<longleftrightarrow>
     12 \<le> length bytes \<and> take 4 bytes = ascii ''RIFF'' \<and> take 4 (drop 8 bytes) = ascii ''WAVE''"

definition put_bytes :: "nat \<Rightarrow> u8 list \<Rightarrow> u8 list \<Rightarrow> u8 list" where
  "put_bytes offset bytes header = take offset header @ bytes @ drop (offset + length bytes) header"

definition little_endian :: "nat \<Rightarrow> nat \<Rightarrow> u8 list" where
  "little_endian size_bytes value =
     map (\<lambda>index. word_of_nat (value div 2 ^ (8 * index) mod 256)) [0..<size_bytes]"

definition pcm_wav_header :: "nat \<Rightarrow> nat \<Rightarrow> nat \<Rightarrow> nat \<Rightarrow> u8 list res" where
  "pcm_wav_header pcm_bytes sample_rate channels bits_per_sample =
     (if pcm_bytes = 0 \<or> 2 ^ 32 - 1 < pcm_bytes \<or> sample_rate = 0 \<or> channels = 0
         \<or> bits_per_sample \<noteq> 16 \<or> pcm_bytes mod (channels * 2) \<noteq> 0
      then Inl (Invalid_argument ''PCM audio cannot be represented as WAV.'')
      else let byte_rate = sample_rate * channels * bits_per_sample div 8 in
        if 2 ^ 32 - 1 < byte_rate then Inl (Invalid_argument ''PCM WAV byte rate is invalid.'')
        else let
          header = replicate 44 0;
          header = put_bytes 0 (ascii ''RIFF'') header;
          header = put_bytes 4 (little_endian 4 ((pcm_bytes + 36) mod 2 ^ 32)) header;
          header = put_bytes 8 (ascii ''WAVE'') header;
          header = put_bytes 12 (ascii ''fmt '') header;
          header = put_bytes 16 (little_endian 4 16) header;
          header = put_bytes 20 (little_endian 2 1) header;
          header = put_bytes 22 (little_endian 2 channels) header;
          header = put_bytes 24 (little_endian 4 sample_rate) header;
          header = put_bytes 28 (little_endian 4 byte_rate) header;
          header = put_bytes 32 (little_endian 2 (channels * bits_per_sample div 8 mod 2 ^ 16)) header;
          header = put_bytes 34 (little_endian 2 bits_per_sample) header;
          header = put_bytes 36 (ascii ''data'') header;
          header = put_bytes 40 (little_endian 4 pcm_bytes) header
        in Inr header)"

text \<open>Reading the media back, as a player does.\<close>

fun samples_of_bytes :: "u8 list \<Rightarrow> 16 word list" where
  "samples_of_bytes (lo # hi # bytes) = word_cat hi lo # samples_of_bytes bytes"
| "samples_of_bytes _ = []"

fun read_le :: "u8 list \<Rightarrow> nat" where
  "read_le [] = 0"
| "read_le (b # bs) = unat b + 256 * read_le bs"

definition field :: "nat \<Rightarrow> nat \<Rightarrow> u8 list \<Rightarrow> nat" where
  "field offset n header = read_le (take n (drop offset header))"

lemma sample_bytes_cat:
  "sample_bytes b = [lo, hi] \<Longrightarrow> word_cat hi lo = b"
  by (rule bit_word_eqI)
    (auto simp: sample_bytes_def bit_word_cat_iff bit_ucast_iff bit_and_iff bit_drop_bit_eq
      bit_mask_iff mask_eq_exp_minus_1 [of 8, where 'a = "16 word", simplified, symmetric])

lemma sample_bytes_two: "\<exists>lo hi. sample_bytes b = [lo, hi]"
  by (simp add: sample_bytes_def)

lemma samples_roundtrip: "samples_of_bytes (concat (map sample_bytes bs)) = bs"
proof (induction bs)
  case (Cons b bs)
  obtain lo hi where "sample_bytes b = [lo, hi]" using sample_bytes_two by blast
  with Cons sample_bytes_cat show ?case by simp
qed simp

lemma length_sample_bytes: "length (concat (map sample_bytes bs)) = 2 * length bs"
  by (induction bs) (simp_all add: sample_bytes_def)

text \<open>
  The PCM stream handed to the voice client is the samples, two little-endian
  bytes each: reading it back gives the samples again, and it is a nonempty whole number of
  stereo frames within the byte limit.
\<close>

theorem validated_pcm_bytes_roundtrip:
  assumes "validated_pcm_bytes audio = Inr bytes"
  shows "samples_of_bytes bytes = pcm_samples audio \<and> bytes \<noteq> [] \<and> 4 dvd length bytes
         \<and> length bytes \<le> maximum_tts_pcm_bytes"
proof -
  from assms have b: "bytes = concat (map sample_bytes (pcm_samples audio))"
    and n: "pcm_samples audio \<noteq> []" "2 dvd length (pcm_samples audio)"
      "length (pcm_samples audio) * 2 \<le> maximum_tts_pcm_bytes"
    by (auto simp: validated_pcm_bytes_def split: if_splits)
  have l: "length bytes = 2 * length (pcm_samples audio)" by (simp add: b length_sample_bytes)
  with n have "4 dvd length bytes" "bytes \<noteq> []" by auto
  with n l show ?thesis using samples_roundtrip [of "pcm_samples audio"] by (simp add: b)
qed

theorem validated_pcm_bytes_roundtrip_witness:
  "validated_pcm_bytes \<lparr>pcm_sample_rate = 48000, pcm_channels = 2, pcm_bits_per_sample = 16,
      pcm_samples = [0x1234, 0xFFFE]\<rparr> = Inr [0x34, 0x12, 0xFE, 0xFF]
   \<and> samples_of_bytes [0x34, 0x12, 0xFE, 0xFF] = [0x1234, 0xFFFE]"
proof -
  have v: "validated_pcm_bytes \<lparr>pcm_sample_rate = 48000, pcm_channels = 2, pcm_bits_per_sample = 16,
      pcm_samples = [0x1234, 0xFFFE]\<rparr> = Inr [0x34, 0x12, 0xFE, 0xFF]"
    by (simp add: validated_pcm_bytes_def maximum_tts_pcm_bytes_def sample_bytes_def)
  show ?thesis using v validated_pcm_bytes_roundtrip [OF v] by simp
qed

lemma le4: "little_endian 4 v = [word_of_nat (v mod 256), word_of_nat (v div 256 mod 256),
    word_of_nat (v div 65536 mod 256), word_of_nat (v div 16777216 mod 256)]"
  by (simp add: little_endian_def upt_rec)

lemma le2: "little_endian 2 v = [word_of_nat (v mod 256), word_of_nat (v div 256 mod 256)]"
  by (simp add: little_endian_def upt_rec)

lemma unat_of_byte: "n < 256 \<Longrightarrow> unat (word_of_nat n :: u8) = n"
  by (rule unat_byte)

lemma read_le4:
  assumes "v < 2 ^ 32"
  shows "read_le (little_endian 4 v) = v"
proof -
  have "v div 16777216 < 256" using assms by (simp add: less_mult_imp_div_less)
  then have "v div 16777216 mod 256 = v div 256 div 256 div 256"
    by (simp add: div_mult2_eq [symmetric])
  then have l: "little_endian 4 v = map word_of_nat [v mod 256, v div 256 mod 256,
      v div 256 div 256 mod 256, v div 256 div 256 div 256]"
    by (simp only: le4 list.map) (simp add: div_mult2_eq [symmetric])
  have "v div 256 div 256 div 256 < 256" using assms by (simp add: less_mult_imp_div_less)
  then have "read_le (little_endian 4 v) = v mod 256 + 256 * (v div 256 mod 256
      + 256 * (v div 256 div 256 mod 256 + 256 * (v div 256 div 256 div 256)))"
    unfolding l by (simp only: list.map read_le.simps unat_of_byte mod_less_divisor) simp
  also have "\<dots> = v" by (simp only: mod_mult_div_eq)
  finally show ?thesis .
qed

lemma read_le2:
  assumes "v < 2 ^ 16"
  shows "read_le (little_endian 2 v) = v"
proof -
  have b: "v div 256 < 256" using assms by (simp add: less_mult_imp_div_less)
  then have "little_endian 2 v = map word_of_nat [v mod 256, v div 256]"
    by (simp only: le2 list.map mod_less)
  with b have "read_le (little_endian 2 v) = v mod 256 + 256 * (v div 256)"
    by (simp only: list.map read_le.simps unat_of_byte mod_less_divisor) (simp add: unat_of_byte)
  then show ?thesis by (simp only: mod_mult_div_eq)
qed

lemma length_little_endian [simp]: "length (little_endian n v) = n"
  by (simp add: little_endian_def)

lemma length_ascii [simp]: "length (ascii s) = length s"
  by (simp add: ascii_def)

lemma put_bytes_fill:
  "length p = k \<Longrightarrow> length bs \<le> n \<Longrightarrow>
   put_bytes k bs (p @ replicate n z) = (p @ bs) @ replicate (n - length bs) z"
  by (simp add: put_bytes_def)

lemma put_bytes_first:
  "length bs \<le> n \<Longrightarrow> put_bytes 0 bs (replicate n z) = bs @ replicate (n - length bs) z"
  by (simp add: put_bytes_def)

text \<open>The header, laid out: every field is written once and none overlaps another.\<close>

lemma pcm_wav_header_layout:
  assumes "pcm_wav_header pcm rate chans bits = Inr h"
  shows "h = ascii ''RIFF'' @ little_endian 4 ((pcm + 36) mod 2 ^ 32) @ ascii ''WAVE''
             @ ascii ''fmt '' @ little_endian 4 16 @ little_endian 2 1 @ little_endian 2 chans
             @ little_endian 4 rate @ little_endian 4 (rate * chans * 2)
             @ little_endian 2 (chans * 2 mod 2 ^ 16) @ little_endian 2 16 @ ascii ''data''
             @ little_endian 4 pcm"
proof -
  from assms have "bits = 16" by (simp add: pcm_wav_header_def split: if_splits)
  with assms have "h = put_bytes 40 (little_endian 4 pcm) (put_bytes 36 (ascii ''data'')
     (put_bytes 34 (little_endian 2 16) (put_bytes 32 (little_endian 2 (chans * 2 mod 2 ^ 16))
     (put_bytes 28 (little_endian 4 (rate * chans * 2)) (put_bytes 24 (little_endian 4 rate)
     (put_bytes 22 (little_endian 2 chans) (put_bytes 20 (little_endian 2 1)
     (put_bytes 16 (little_endian 4 16) (put_bytes 12 (ascii ''fmt '')
     (put_bytes 8 (ascii ''WAVE'') (put_bytes 4 (little_endian 4 ((pcm + 36) mod 2 ^ 32))
     (put_bytes 0 (ascii ''RIFF'') (replicate 44 0)))))))))))))"
    by (auto simp: pcm_wav_header_def Let_def mult_ac split: if_splits)
  also have "\<dots> = ascii ''RIFF'' @ little_endian 4 ((pcm + 36) mod 2 ^ 32) @ ascii ''WAVE''
             @ ascii ''fmt '' @ little_endian 4 16 @ little_endian 2 1 @ little_endian 2 chans
             @ little_endian 4 rate @ little_endian 4 (rate * chans * 2)
             @ little_endian 2 (chans * 2 mod 2 ^ 16) @ little_endian 2 16 @ ascii ''data''
             @ little_endian 4 pcm"
    by (simp add: put_bytes_fill put_bytes_first del: append_assoc)
  finally show ?thesis .
qed

lemma take_append_exact: "length xs = n \<Longrightarrow> take n (xs @ ys) = xs"
  by simp

text \<open>
  Property C38: whenever the upload header is built, it is the 44 bytes of a canonical
  RIFF/WAVE header: it passes the media signature check of the cache, and every field a
  decoder reads back is the value that was asked for, the RIFF size being the size of the
  data plus 36 as a 32-bit unsigned number.
\<close>

theorem pcm_wav_header_decodes:
  assumes "pcm_wav_header pcm rate chans bits = Inr h"
    and "rate < 2 ^ 32" "chans < 2 ^ 16"
  shows "length h = 44 \<and> wav_media_signature h
         \<and> field 4 4 h = (pcm + 36) mod 2 ^ 32 \<and> field 16 4 h = 16 \<and> field 20 2 h = 1
         \<and> field 22 2 h = chans \<and> field 24 4 h = rate \<and> field 28 4 h = rate * chans * 2
         \<and> field 32 2 h = chans * 2 mod 2 ^ 16 \<and> field 34 2 h = bits \<and> field 40 4 h = pcm
         \<and> 0 < pcm \<and> chans * 2 dvd pcm"
proof -
  note h = pcm_wav_header_layout [OF assms(1)]
  have b: "bits = 16" "pcm < 2 ^ 32" "rate * chans * 2 < 2 ^ 32" "0 < pcm" "chans * 2 dvd pcm"
    using assms(1) by (auto simp: pcm_wav_header_def Let_def split: if_splits)
  show ?thesis
    using b assms(2,3) unfolding h
    by (simp add: wav_media_signature_def field_def read_le4 read_le2)
qed

theorem pcm_wav_header_decodes_witness:
  "\<exists>h. pcm_wav_header 96000 48000 1 16 = Inr h \<and> field 40 4 h = 96000 \<and> field 4 4 h = 96036"
proof -
  have "\<exists>h. pcm_wav_header 96000 48000 1 16 = Inr h"
    by (simp add: pcm_wav_header_def Let_def)
  then obtain h where h: "pcm_wav_header 96000 48000 1 16 = Inr h" by blast
  from pcm_wav_header_decodes [OF h] h show ?thesis by simp
qed

end
