(* ===== verification/Serious_Context.thy ===== *)
theory Serious_Context
  imports Utf8
begin

text \<open>
  The serious-context detector (\<^verbatim>\<open>src/src/appearance_policy.cpp\<close>): a policy's categories of
  terms, matched against a lowercased text at word boundaries. An appearance whose text
  touches one of the categories is suppressed, so what a match is matters.
\<close>

definition to_lower :: "u8 \<Rightarrow> u8" where
  "to_lower c = (if 65 \<le> c \<and> c \<le> 90 then c + 32 else c)"

definition lowercase_ascii :: "u8 list \<Rightarrow> u8 list" where
  "lowercase_ascii input = map to_lower input"

definition is_alnum :: "u8 \<Rightarrow> bool" where
  "is_alnum c \<longleftrightarrow> 48 \<le> c \<and> c \<le> 57 \<or> 65 \<le> c \<and> c \<le> 90 \<or> 97 \<le> c \<and> c \<le> 122"

definition word_character :: "u8 \<Rightarrow> bool" where
  "word_character c \<longleftrightarrow> is_alnum c \<or> c = 95"

text \<open>\<^verbatim>\<open>std::string::find\<close>: the first position not before \<open>pos\<close> where the phrase stands.\<close>

definition stands_at :: "u8 list \<Rightarrow> u8 list \<Rightarrow> nat \<Rightarrow> bool" where
  "stands_at bytes phrase i \<longleftrightarrow> take (length phrase) (drop i bytes) = phrase"

definition find_from :: "u8 list \<Rightarrow> u8 list \<Rightarrow> nat \<Rightarrow> nat option" where
  "find_from bytes phrase pos = List.find (stands_at bytes phrase) [pos..<Suc (length bytes)]"

definition left_boundary :: "u8 list \<Rightarrow> nat \<Rightarrow> bool" where
  "left_boundary bytes position \<longleftrightarrow> position = 0 \<or> \<not> word_character (bytes ! (position - 1))"

definition right_boundary :: "u8 list \<Rightarrow> nat \<Rightarrow> bool" where
  "right_boundary bytes finish \<longleftrightarrow> finish = length bytes \<or> \<not> word_character (bytes ! finish)"

lemma find_from_Some:
  "find_from bytes phrase pos = Some i \<Longrightarrow> pos \<le> i \<and> i \<le> length bytes \<and> stands_at bytes phrase i
     \<and> (\<forall>j. pos \<le> j \<longrightarrow> j < i \<longrightarrow> \<not> stands_at bytes phrase j)"
  unfolding find_from_def find_Some_iff
proof (elim exE conjE)
  fix k
  assume k: "k < length [pos..<Suc (length bytes)]" "stands_at bytes phrase ([pos..<Suc (length bytes)] ! k)"
    "i = [pos..<Suc (length bytes)] ! k" "\<forall>j<k. \<not> stands_at bytes phrase ([pos..<Suc (length bytes)] ! j)"
  have i: "i = pos + k" using k by (simp del: upt_Suc)
  have "\<not> stands_at bytes phrase j" if "pos \<le> j" "j < i" for j
    using k(4)[rule_format, of "j - pos"] k(1) that i by (simp del: upt_Suc)
  then show ?thesis using k i by (simp del: upt_Suc)
qed

lemma find_from_None:
  "find_from bytes phrase pos = None \<longleftrightarrow> (\<forall>j. pos \<le> j \<longrightarrow> j \<le> length bytes \<longrightarrow> \<not> stands_at bytes phrase j)"
  by (auto simp: find_from_def find_None_iff simp del: upt_Suc)

function word_boundary_loop :: "u8 list \<Rightarrow> u8 list \<Rightarrow> nat \<Rightarrow> bool" where
  "word_boundary_loop bytes phrase pos =
     (case find_from bytes phrase pos of
        None \<Rightarrow> False
      | Some position \<Rightarrow>
          if left_boundary bytes position \<and> right_boundary bytes (position + length phrase) then True
          else word_boundary_loop bytes phrase (position + 1))"
  by pat_completeness auto
termination
  by (relation "measure (\<lambda>(bytes, phrase, pos). Suc (length bytes) - pos)")
    (auto dest!: find_from_Some)

declare word_boundary_loop.simps [simp del]

definition word_boundary_match :: "u8 list \<Rightarrow> u8 list \<Rightarrow> bool" where
  "word_boundary_match bytes phrase = word_boundary_loop bytes phrase 0"

definition invalid_utf8_category :: "string" where "invalid_utf8_category = ''invalid_utf8''"

text \<open>
  \<^verbatim>\<open>AppearancePolicy::serious_terms\<close> is a \<^verbatim>\<open>std::map\<close>: the association list of its entries in
  the order of their keys.
\<close>

definition detect_serious_context ::
    "(string \<times> u8 list list) list \<Rightarrow> u8 list \<Rightarrow> string option" where
  "detect_serious_context serious_terms bytes =
     (if \<not> valid_utf8 bytes then Some invalid_utf8_category
      else let normalized = lowercase_ascii bytes in
        map_option fst
          (List.find (\<lambda>(category, terms). list_ex (word_boundary_match normalized) terms)
             serious_terms))"

section \<open>What a match is\<close>

definition stands_alone :: "u8 list \<Rightarrow> u8 list \<Rightarrow> bool" where
  "stands_alone phrase bytes \<longleftrightarrow>
     (\<exists>l r. bytes = l @ phrase @ r \<and> (l = [] \<or> \<not> word_character (last l))
            \<and> (r = [] \<or> \<not> word_character (hd r)))"

lemma stands_at_split:
  "i \<le> length bytes \<Longrightarrow> stands_at bytes phrase i
   \<Longrightarrow> bytes = take i bytes @ phrase @ drop (i + length phrase) bytes"
  unfolding stands_at_def by (metis add.commute append_take_drop_id drop_drop)

lemma boundaries_split:
  assumes "bytes = l @ phrase @ r"
  shows "left_boundary bytes (length l) \<longleftrightarrow> l = [] \<or> \<not> word_character (last l)"
    and "right_boundary bytes (length l + length phrase) \<longleftrightarrow> r = [] \<or> \<not> word_character (hd r)"
  by (auto simp: assms left_boundary_def right_boundary_def nth_append last_conv_nth hd_conv_nth)

lemma word_boundary_loop_iff:
  "word_boundary_loop bytes phrase pos \<longleftrightarrow>
     (\<exists>i. pos \<le> i \<and> i \<le> length bytes \<and> stands_at bytes phrase i \<and> left_boundary bytes i
          \<and> right_boundary bytes (i + length phrase))"
proof (induction bytes phrase pos rule: word_boundary_loop.induct)
  case (1 bytes phrase pos)
  show ?case
  proof (cases "find_from bytes phrase pos")
    case None
    then show ?thesis
      by (subst word_boundary_loop.simps) (use find_from_None [THEN iffD1, OF None] in \<open>auto simp: None\<close>)
  next
    case (Some p)
    let ?hit = "\<lambda>i. left_boundary bytes i \<and> right_boundary bytes (i + length phrase)"
    note f = find_from_Some [OF Some]
    show ?thesis
    proof (cases "?hit p")
      case True
      then show ?thesis using f by (subst word_boundary_loop.simps) (auto simp: Some)
    next
      case False
      then have "word_boundary_loop bytes phrase pos = word_boundary_loop bytes phrase (p + 1)"
        by (subst word_boundary_loop.simps) (auto simp: Some)
      moreover have "pos \<le> i \<longleftrightarrow> p + 1 \<le> i" if "stands_at bytes phrase i" "?hit i" for i
      proof -
        have "i \<noteq> p" using that(2) False by auto
        moreover have "\<not> (pos \<le> i \<and> i < p)" using f that(1) by auto
        ultimately show ?thesis using f by linarith
      qed
      ultimately show ?thesis using "1.IH" [OF Some False] by blast
    qed
  qed
qed

lemma word_boundary_match_iff: "word_boundary_match bytes phrase \<longleftrightarrow> stands_alone phrase bytes"
proof
  assume "word_boundary_match bytes phrase"
  then obtain i where i: "i \<le> length bytes" "stands_at bytes phrase i" "left_boundary bytes i"
      "right_boundary bytes (i + length phrase)"
    by (auto simp: word_boundary_match_def word_boundary_loop_iff)
  note s = stands_at_split [OF i(1,2)]
  have l: "length (take i bytes) = i" using i(1) by simp
  show "stands_alone phrase bytes"
    unfolding stands_alone_def
    by (rule exI [of _ "take i bytes"], rule exI [of _ "drop (i + length phrase) bytes"])
      (use s i boundaries_split [OF s] l in auto)
next
  assume "stands_alone phrase bytes"
  then obtain l r where b: "bytes = l @ phrase @ r" "l = [] \<or> \<not> word_character (last l)"
      "r = [] \<or> \<not> word_character (hd r)"
    by (auto simp: stands_alone_def)
  then show "word_boundary_match bytes phrase"
    using boundaries_split [OF b(1)]
    by (auto simp: word_boundary_match_def word_boundary_loop_iff stands_at_def
        intro!: exI [of _ "length l"])
qed

definition applies :: "u8 list list \<Rightarrow> u8 list \<Rightarrow> bool" where
  "applies terms bytes \<longleftrightarrow> list_ex (\<lambda>t. stands_alone t (lowercase_ascii bytes)) terms"

lemma find_first_iff:
  "List.find P xs = Some x \<longleftrightarrow> (\<exists>before after. xs = before @ x # after \<and> P x \<and> list_all (\<lambda>y. \<not> P y) before)"
proof (induction xs)
  case (Cons y ys)
  show ?case
  proof (cases "P y")
    case True
    have "before = []" if "y # ys = before @ x # after" "list_all (\<lambda>y. \<not> P y) before" for before after
      using True that by (cases before) auto
    then show ?thesis using True by fastforce
  next
    case False
    have "(\<exists>before after. y # ys = before @ x # after \<and> P x \<and> list_all (\<lambda>y. \<not> P y) before)
      \<longleftrightarrow> (\<exists>before after. ys = before @ x # after \<and> P x \<and> list_all (\<lambda>y. \<not> P y) before)"
      (is "?l \<longleftrightarrow> ?r")
    proof
      assume ?l
      then obtain b a where b: "y # ys = b @ x # a" "P x" "list_all (\<lambda>y. \<not> P y) b" by blast
      with False show ?r by (cases b) auto
    next
      assume ?r
      then obtain b a where "ys = b @ x # a" "P x" "list_all (\<lambda>y. \<not> P y) b" by blast
      with False show ?l by (intro exI [of _ "y # b"] exI [of _ a]) auto
    qed
    with False Cons show ?thesis by simp
  qed
qed simp

text \<open>
  Property C39: a text that is not UTF-8 is reported as such. For any other the detector
  answers the first category, in key order, some term of which stands in the lowercased text
  with no letter, digit or underscore beside it, and it answers none only when no term of
  any category stands there.
\<close>

theorem detect_serious_context_correct:
  "detect_serious_context serious_terms bytes = answer \<longleftrightarrow>
     (if \<not> valid_utf8 bytes then answer = Some ''invalid_utf8''
      else case answer of
          None \<Rightarrow> list_all (\<lambda>(category, terms). \<not> applies terms bytes) serious_terms
        | Some c \<Rightarrow> \<exists>before terms after. serious_terms = before @ (c, terms) # after
            \<and> applies terms bytes \<and> list_all (\<lambda>(category, terms). \<not> applies terms bytes) before)"
proof (cases "valid_utf8 bytes")
  case False
  then show ?thesis
    by (auto simp: detect_serious_context_def invalid_utf8_category_def)
next
  case True
  let ?P = "\<lambda>(category, terms). applies terms bytes"
  have a: "(\<lambda>(category, terms). list_ex (word_boundary_match (lowercase_ascii bytes)) terms) = ?P"
    by (simp add: fun_eq_iff applies_def word_boundary_match_iff [abs_def])
  have n: "(\<lambda>y. \<not> ?P y) = (\<lambda>(category, terms). \<not> applies terms bytes)" by auto
  show ?thesis
  proof (cases answer)
    case None
    then show ?thesis using True
      by (auto simp: detect_serious_context_def a Let_def find_None_iff list_all_iff)
  next
    case (Some c)
    have "detect_serious_context serious_terms bytes = Some c
      \<longleftrightarrow> (\<exists>terms. List.find ?P serious_terms = Some (c, terms))"
      using True by (auto simp: detect_serious_context_def a Let_def)
    also have "\<dots> \<longleftrightarrow> (\<exists>before terms after. serious_terms = before @ (c, terms) # after
            \<and> applies terms bytes \<and> list_all (\<lambda>(category, terms). \<not> applies terms bytes) before)"
      unfolding find_first_iff n by auto
    finally show ?thesis using True Some by simp
  qed
qed

end
