(* ===== verification/Executor.thy ===== *)
theory Executor
  imports Prelude
begin

text \<open>
  The bounded executor (\<^verbatim>\<open>src/src/work_queue.cpp\<close>) and the callback fence
  (\<^verbatim>\<open>src/src/callback_fence.cpp\<close>). Each critical section under the mutex is one step; the
  workers, the callers of \<open>try_submit\<close> and the caller of \<open>stop\<close> interleave freely between
  them. Tasks and cancellations are opaque closures: a task is named by a value of an
  arbitrary type, and a task that throws is a task that finishes.
\<close>

section \<open>The executor\<close>

datatype submit_result = Accepted | Full | Stopping

record 'a pending_task =
  task :: 'a
  has_cancellation :: bool

datatype 'a activity = Waiting | Running 'a | Exited

record 'a worker =
  activity :: "'a activity"
  stop_requested :: bool

text \<open>
  The fields of \<^verbatim>\<open>BoundedExecutor::Impl\<close>; the threads of \<^verbatim>\<open>workers_\<close> with their stop tokens
  are the list \<open>workers\<close>.
\<close>

record 'a executor =
  capacity :: nat
  worker_count :: nat
  tasks :: "'a pending_task list"
  workers :: "'a worker list"
  started :: bool
  accepting :: bool
  active :: nat

record queue_snapshot =
  snapshot_capacity :: nat
  snapshot_queued :: nat
  snapshot_active :: nat
  snapshot_accepting :: bool

definition executor_new :: "nat \<Rightarrow> nat \<Rightarrow> 'a executor res" where
  "executor_new cap threads =
     (if cap = 0 then Inl (Invalid_argument ''Queue capacity must be at least one.'')
      else if threads = 0 then Inl (Invalid_argument ''Worker count must be at least one.'')
      else Inr \<lparr>capacity = cap, worker_count = threads, tasks = [], workers = [], started = False,
                accepting = False, active = 0\<rparr>)"

definition executor_start :: "'a executor \<Rightarrow> 'a executor res" where
  "executor_start s =
     (if started s then Inl (Logic_error ''Bounded executor may only be started once.'')
      else Inr (s\<lparr>started := True, accepting := True,
                  workers := replicate (worker_count s) \<lparr>activity = Waiting, stop_requested = False\<rparr>\<rparr>))"

text \<open>
  \<open>Impl::try_submit\<close>: its result, the state after, and the pending task it displaced (whose
  cancellation, when it has one, is called after the lock is released).
\<close>

definition executor_try_submit ::
    "'a pending_task \<Rightarrow> bool \<Rightarrow> bool \<Rightarrow> 'a executor \<Rightarrow> submit_result \<times> 'a pending_task option \<times> 'a executor"
  where
  "executor_try_submit pending priority superseding s =
     (if \<not> accepting s then (Stopping, None, s)
      else if capacity s \<le> length (tasks s) \<and> \<not> superseding then (Full, None, s)
      else let
        displaced = (if capacity s \<le> length (tasks s) then Some (last (tasks s)) else None);
        queue = (if capacity s \<le> length (tasks s) then butlast (tasks s) else tasks s)
      in (Accepted, displaced,
          s\<lparr>tasks := (if priority then pending # queue else queue @ [pending])\<rparr>))"

definition try_submit where
  "try_submit pending s = executor_try_submit pending False False s"

definition try_submit_front where
  "try_submit_front pending s = executor_try_submit pending True False s"

definition try_submit_front_superseding where
  "try_submit_front_superseding pending s = executor_try_submit pending True True s"

definition executor_snapshot :: "'a executor \<Rightarrow> queue_snapshot" where
  "executor_snapshot s = \<lparr>snapshot_capacity = capacity s, snapshot_queued = length (tasks s),
     snapshot_active = active s, snapshot_accepting = accepting s\<rparr>"

text \<open>
  \<open>Impl::stop\<close>: under the lock it closes the queue and takes every pending task; it then
  calls their cancellations, requests the workers to stop one after the other, and joins
  them, which returns when all have exited.
\<close>

definition stop_swap :: "'a executor \<Rightarrow> 'a pending_task list \<times> 'a executor" where
  "stop_swap s = (tasks s, s\<lparr>accepting := False, tasks := []\<rparr>)"

definition stop_request :: "nat \<Rightarrow> 'a executor \<Rightarrow> 'a executor" where
  "stop_request i s = s\<lparr>workers := (workers s)[i := (workers s ! i)\<lparr>stop_requested := True\<rparr>]\<rparr>"

definition stop_join :: "'a executor \<Rightarrow> 'a executor option" where
  "stop_join s =
     (if list_all (\<lambda>w. activity w = Exited) (workers s) then Some (s\<lparr>workers := []\<rparr>) else None)"

text \<open>
  \<open>Impl::run\<close> of worker \<open>i\<close>: it exits when its stop was requested, and otherwise takes the
  front task; \<open>None\<close> when it has to wait. When the task returns or throws, it is inactive
  again. The task it takes leaves its cancellation behind.
\<close>

definition worker_take :: "nat \<Rightarrow> 'a executor \<Rightarrow> 'a executor option" where
  "worker_take i s =
     (if length (workers s) \<le> i \<or> activity (workers s ! i) \<noteq> Waiting then None
      else if stop_requested (workers s ! i)
      then Some (s\<lparr>workers := (workers s)[i := (workers s ! i)\<lparr>activity := Exited\<rparr>]\<rparr>)
      else case tasks s of
          [] \<Rightarrow> None
        | p # rest \<Rightarrow>
            Some (s\<lparr>tasks := rest, active := active s + 1,
                    workers := (workers s)[i := (workers s ! i)\<lparr>activity := Running (task p)\<rparr>]\<rparr>))"

definition worker_finish :: "nat \<Rightarrow> 'a executor \<Rightarrow> ('a \<times> 'a executor) option" where
  "worker_finish i s =
     (if length (workers s) \<le> i then None
      else case activity (workers s ! i) of
          Running t \<Rightarrow>
            Some (t, s\<lparr>active := active s - 1,
                       workers := (workers s)[i := (workers s ! i)\<lparr>activity := Waiting\<rparr>]\<rparr>)
        | _ \<Rightarrow> None)"

lemmas [step_simps] = executor_try_submit_def stop_swap_def stop_request_def stop_join_def
  worker_take_def worker_finish_def executor_start_def

section \<open>Interleavings\<close>

text \<open>
  What becomes of a task: it is admitted, dropped (its cancellation called, when it has
  one) or completed. The owner of the executor runs \<open>start\<close> and \<open>stop\<close> one at a time: where
  it stands inside \<open>stop\<close> is the phase.
\<close>

datatype 'a task_event = Admitted 'a | Dropped 'a | Completed 'a

datatype stop_phase = Outside | Requesting nat

inductive executor_step ::
    "'a executor \<times> stop_phase \<Rightarrow> 'a task_event list \<Rightarrow> 'a executor \<times> stop_phase \<Rightarrow> bool"
  where
  Start: "executor_start s = Inr s' \<Longrightarrow> executor_step (s, Outside) [] (s', Outside)"
| Submit: "executor_try_submit p priority superseding s = (Accepted, displaced, s') \<Longrightarrow>
    executor_step (s, ph) (Admitted (task p) #
      (case displaced of None \<Rightarrow> [] | Some d \<Rightarrow> [Dropped (task d)])) (s', ph)"
| Take: "worker_take i s = Some s' \<Longrightarrow> executor_step (s, ph) [] (s', ph)"
| Finish: "worker_finish i s = Some (t, s') \<Longrightarrow> executor_step (s, ph) [Completed t] (s', ph)"
| Swap: "stop_swap s = (pending, s') \<Longrightarrow>
    executor_step (s, Outside) (map (Dropped \<circ> task) pending) (s', Requesting 0)"
| Request: "i < length (workers s) \<Longrightarrow> stop_request i s = s' \<Longrightarrow>
    executor_step (s, Requesting i) [] (s', Requesting (i + 1))"
| Join: "length (workers s) \<le> i \<Longrightarrow> stop_join s = Some s' \<Longrightarrow>
    executor_step (s, Requesting i) [] (s', Outside)"

inductive executor_run ::
    "'a executor \<times> stop_phase \<Rightarrow> 'a task_event list \<Rightarrow> 'a executor \<times> stop_phase \<Rightarrow> bool"
  where
  Idle: "executor_run c [] c"
| Step: "executor_run c evs c' \<Longrightarrow> executor_step c' new c'' \<Longrightarrow> executor_run c (evs @ new) c''"

inductive_cases executor_stepE [elim]: "executor_step c evs c'"

section \<open>The invariant\<close>

fun running :: "'a worker list \<Rightarrow> 'a list" where
  "running [] = []"
| "running (w # ws) = (case activity w of Running t \<Rightarrow> [t] | _ \<Rightarrow> []) @ running ws"

definition executor_inv :: "'a executor \<times> stop_phase \<Rightarrow> bool" where
  "executor_inv c \<longleftrightarrow> (case c of (s, ph) \<Rightarrow>
     length (tasks s) \<le> capacity s \<and> 0 < capacity s
     \<and> length (workers s) \<le> worker_count s
     \<and> active s = length (running (workers s))
     \<and> (accepting s \<or> tasks s = [])
     \<and> (accepting s \<longrightarrow> started s \<and> ph = Outside)
     \<and> (\<not> started s \<longrightarrow> workers s = []))"

fun admitted_of :: "'a task_event list \<Rightarrow> 'a multiset" where
  "admitted_of [] = {#}"
| "admitted_of (e # es) = (case e of Admitted t \<Rightarrow> {#t#} | _ \<Rightarrow> {#}) + admitted_of es"

fun settled_of :: "'a task_event list \<Rightarrow> 'a multiset" where
  "settled_of [] = {#}"
| "settled_of (e # es) = (case e of Admitted t \<Rightarrow> {#} | Dropped t \<Rightarrow> {#t#} | Completed t \<Rightarrow> {#t#}) + settled_of es"

definition held :: "'a executor \<Rightarrow> 'a multiset" where
  "held s = mset (map task (tasks s)) + mset (running (workers s))"

lemma admitted_append [simp]: "admitted_of (es @ fs) = admitted_of es + admitted_of fs"
  by (induction es) (simp_all add: add.assoc)

lemma settled_append [simp]: "settled_of (es @ fs) = settled_of es + settled_of fs"
  by (induction es) (simp_all add: add.assoc)

lemma dropped_only [simp]:
  "admitted_of (map (Dropped \<circ> f) ps) = {#}"
  "settled_of (map (Dropped \<circ> f) ps) = mset (map f ps)"
  by (induction ps) simp_all

lemma running_append [simp]: "running (xs @ ys) = running xs @ running ys"
  by (induction xs) simp_all

lemma running_exited: "list_all (\<lambda>w. activity w = Exited) ws \<Longrightarrow> running ws = []"
  by (induction ws) simp_all

lemma running_fresh [simp]:
  "running (replicate n \<lparr>activity = Waiting, stop_requested = b\<rparr>) = []"
  by (induction n) simp_all

lemma running_single [simp]:
  "activity w = Running t \<Longrightarrow> running [w] = [t]"
  "activity w = Waiting \<Longrightarrow> running [w] = []"
  "activity w = Exited \<Longrightarrow> running [w] = []"
  by simp_all

lemma running_update:
  assumes "i < length ws"
  shows "mset (running (ws[i := w])) + mset (running [ws ! i])
         = mset (running ws) + mset (running [w])"
proof -
  have "ws = take i ws @ ws ! i # drop (Suc i) ws" using assms by (rule id_take_nth_drop)
  then have r: "running ws = running (take i ws) @ running [ws ! i] @ running (drop (Suc i) ws)"
    using running_append [of "take i ws" "ws ! i # drop (Suc i) ws"]
      running_append [of "[ws ! i]" "drop (Suc i) ws"] by simp
  have u: "running (ws[i := w]) = running (take i ws) @ running [w] @ running (drop (Suc i) ws)"
    using running_append [of "take i ws" "w # drop (Suc i) ws"]
      running_append [of "[w]" "drop (Suc i) ws"] assms by (simp add: upd_conv_take_nth_drop)
  show ?thesis unfolding r u by simp
qed

lemma try_submit_cases:
  assumes "executor_try_submit p priority superseding s = (Accepted, displaced, s')"
  obtains (room) "accepting s" "length (tasks s) < capacity s" "displaced = None"
      "s' = s\<lparr>tasks := (if priority then p # tasks s else tasks s @ [p])\<rparr>"
  | (full) "accepting s" "capacity s \<le> length (tasks s)" "superseding" "displaced = Some (last (tasks s))"
      "s' = s\<lparr>tasks := (if priority then p # butlast (tasks s) else butlast (tasks s) @ [p])\<rparr>"
  using assms by (auto simp: step_simps Let_def split: if_splits)

lemma running_update_simps:
  assumes "i < length ws"
  shows "activity (ws ! i) = Waiting \<Longrightarrow> activity w = Running t
      \<Longrightarrow> mset (running (ws[i := w])) = add_mset t (mset (running ws))"
    and "activity (ws ! i) = Running t \<Longrightarrow> activity w = Waiting
      \<Longrightarrow> add_mset t (mset (running (ws[i := w]))) = mset (running ws)"
    and "activity (ws ! i) = activity w \<Longrightarrow> mset (running (ws[i := w])) = mset (running ws)"
    and "activity (ws ! i) = Waiting \<Longrightarrow> activity w = Exited
      \<Longrightarrow> mset (running (ws[i := w])) = mset (running ws)"
  using running_update [OF assms, of w] by (auto split: activity.splits)

lemma mset_butlast_last: "xs \<noteq> [] \<Longrightarrow> add_mset (last xs) (mset (butlast xs)) = mset xs"
  by (induction xs) auto

text \<open>One step keeps the balance of tasks: what was held or admitted is held or settled.\<close>

lemma executor_step_balance:
  assumes "executor_step c evs c'" and "executor_inv c"
  shows "held (fst c) + admitted_of evs = held (fst c') + settled_of evs"
  using assms(1)
proof cases
  case (Start s s')
  then show ?thesis using assms(2)
    by (auto simp: step_simps held_def executor_inv_def split: if_splits)
next
  case (Submit p priority superseding s displaced s' ph)
  from Submit(4) show ?thesis
  proof (cases rule: try_submit_cases)
    case room
    then show ?thesis by (simp add: Submit held_def)
  next
    case full
    then have "tasks s \<noteq> []" using assms(2) Submit by (auto simp: executor_inv_def)
    from mset_butlast_last [OF this] have
      "add_mset (task (last (tasks s))) (mset (map task (butlast (tasks s)))) = mset (map task (tasks s))"
      by (metis image_mset_add_mset mset_map)
    with full show ?thesis by (auto simp: Submit held_def)
  qed
next
  case (Take i s s' ph)
  then show ?thesis
    by (auto simp: step_simps held_def running_update_simps split: if_splits list.splits)
next
  case (Finish i s t s' ph)
  then show ?thesis
    using running_update_simps(2) [of i "workers s" t "(workers s ! i)\<lparr>activity := Waiting\<rparr>"]
    by (auto simp: step_simps held_def split: if_splits activity.splits)
next
  case (Swap s pending s')
  then show ?thesis by (auto simp: step_simps held_def)
next
  case (Request i s s')
  then show ?thesis by (auto simp: step_simps held_def running_update_simps)
next
  case (Join s i s')
  then show ?thesis by (auto simp: step_simps held_def running_exited split: if_splits)
qed

lemma length_running: "mset xs = mset ys \<Longrightarrow> length xs = length ys"
  by (rule mset_eq_length)

lemma running_update_length:
  assumes "i < length ws"
  shows "activity (ws ! i) = Waiting \<Longrightarrow> activity w = Running t
      \<Longrightarrow> length (running (ws[i := w])) = length (running ws) + 1"
    and "activity (ws ! i) = Running t \<Longrightarrow> activity w = Waiting
      \<Longrightarrow> length (running (ws[i := w])) = length (running ws) - 1"
    and "activity (ws ! i) = activity w \<Longrightarrow> length (running (ws[i := w])) = length (running ws)"
    and "activity (ws ! i) = Waiting \<Longrightarrow> activity w = Exited
      \<Longrightarrow> length (running (ws[i := w])) = length (running ws)"
  using running_update_simps [OF assms, where w = w, THEN arg_cong [of _ _ size]] by auto

lemma executor_step_inv:
  assumes "executor_step c evs c'" and "executor_inv c"
  shows "executor_inv c'"
  using assms(1)
proof cases
  case (Submit p priority superseding s displaced s' ph)
  from Submit(4) show ?thesis
    by (cases rule: try_submit_cases) (use assms(2) Submit in \<open>auto simp: executor_inv_def\<close>)
next
  case (Start s s')
  then show ?thesis using assms(2) by (auto simp: step_simps executor_inv_def split: if_splits)
next
  case (Take i s s' ph)
  then show ?thesis using assms(2)
    by (auto simp: step_simps executor_inv_def running_update_length split: if_splits list.splits)
next
  case (Finish i s t s' ph)
  then show ?thesis using assms(2)
    by (auto simp: step_simps executor_inv_def running_update_length split: if_splits activity.splits)
next
  case (Swap s pending s')
  then show ?thesis using assms(2) by (auto simp: step_simps executor_inv_def)
next
  case (Request i s s')
  then show ?thesis using assms(2)
    by (auto simp: step_simps executor_inv_def running_update_length)
next
  case (Join s i s')
  then show ?thesis using assms(2)
    by (auto simp: step_simps executor_inv_def running_exited split: if_splits)
qed

lemma executor_new_inv: "executor_new cap n = Inr s \<Longrightarrow> executor_inv (s, Outside)"
  by (auto simp: executor_new_def executor_inv_def split: if_splits)

lemma executor_run_sound:
  assumes "executor_run c evs c'" and "executor_inv c" and "held (fst c) = {#}"
  shows "executor_inv c' \<and> admitted_of evs = held (fst c') + settled_of evs"
  using assms
proof (induction rule: executor_run.induct)
  case (Step c evs c' new c'')
  then have i: "executor_inv c'" and b: "admitted_of evs = held (fst c') + settled_of evs" by auto
  from executor_step_balance [OF Step(2) i] b
  have "admitted_of (evs @ new) = held (fst c'') + settled_of (evs @ new)"
    by (simp add: ac_simps)
  with executor_step_inv [OF Step(2) i] show ?case by blast
qed simp

text \<open>
  In every interleaving of submitters, workers and the owner, from a new
  executor on, the queue never exceeds its capacity, the number of active workers that
  \<open>snapshot\<close> reports is the number of tasks running and never exceeds the worker count, and a
  closed queue is empty.
\<close>

theorem executor_bounded:
  assumes "executor_new cap threads = Inr s\<^sub>0" and "executor_run (s\<^sub>0, Outside) evs (s, ph)"
  shows "snapshot_queued (executor_snapshot s) \<le> capacity s
       \<and> snapshot_active (executor_snapshot s) = length (running (workers s))
       \<and> snapshot_active (executor_snapshot s) \<le> worker_count s
       \<and> (accepting s \<or> tasks s = [])"
proof -
  have "held s\<^sub>0 = {#}" using assms(1) by (auto simp: executor_new_def held_def split: if_splits)
  then have "executor_inv (s, ph)"
    using executor_run_sound [OF assms(2) executor_new_inv [OF assms(1)]] by simp
  moreover have "length (running ws) \<le> length ws" for ws :: "'a worker list"
    by (induction ws) (auto split: activity.splits)
  ultimately show ?thesis
    by (auto simp: executor_inv_def executor_snapshot_def intro: order.trans)
qed

text \<open>
  Property C23: no task is lost and none runs twice: at every moment of every interleaving,
  the admitted tasks are exactly those in the queue, those running, those completed and
  those dropped (displaced by superseding work or taken by \<open>stop\<close>), with multiplicity.
\<close>

theorem executor_conserves_tasks:
  assumes "executor_new cap threads = Inr s\<^sub>0" and "executor_run (s\<^sub>0, Outside) evs (s, ph)"
  shows "admitted_of evs = mset (map task (tasks s)) + mset (running (workers s)) + settled_of evs"
proof -
  have "held s\<^sub>0 = {#}" using assms(1) by (auto simp: executor_new_def held_def split: if_splits)
  then show ?thesis
    using executor_run_sound [OF assms(2) executor_new_inv [OF assms(1)]] by (simp add: held_def)
qed

lemma stopped_stays:
  assumes "executor_step (s, ph) evs c'" and "started s" "\<not> accepting s" "tasks s = []" "workers s = []"
  shows "evs = [] \<and> started (fst c') \<and> \<not> accepting (fst c') \<and> tasks (fst c') = [] \<and> workers (fst c') = []"
  using assms by (cases) (auto simp: step_simps)

text \<open>
  Property C24: when \<open>stop\<close> has returned, nothing is queued or running and every admitted task
  is completed or dropped, once; and that is final: no later step of anybody, a further
  \<open>start\<close> included, admits or runs another.
\<close>

theorem executor_stop_settles:
  assumes "executor_new cap threads = Inr s\<^sub>0" and "executor_run (s\<^sub>0, Outside) evs (s, Requesting i)"
    and "executor_step (s, Requesting i) [] (s', Outside)" and "started s"
    and "executor_run (s', Outside) evs' (s'', ph)"
  shows "admitted_of evs = settled_of evs \<and> evs' = [] \<and> tasks s'' = [] \<and> workers s'' = []"
proof -
  have inv: "executor_inv (s, Requesting i)" and bal: "admitted_of evs = held s + settled_of evs"
  proof -
    have "held s\<^sub>0 = {#}" using assms(1) by (auto simp: executor_new_def held_def split: if_splits)
    then show "executor_inv (s, Requesting i)" "admitted_of evs = held s + settled_of evs"
      using executor_run_sound [OF assms(2) executor_new_inv [OF assms(1)]] by simp_all
  qed
  from assms(3) inv \<open>started s\<close>
  have s': "held s = {#}" "started s'" "\<not> accepting s'" "tasks s' = []" "workers s' = []"
    by (cases; auto simp: step_simps executor_inv_def held_def running_exited split: if_splits list.splits)+
  have "evs' = [] \<and> started (fst c) \<and> \<not> accepting (fst c) \<and> tasks (fst c) = [] \<and> workers (fst c) = []"
    if "executor_run (s', Outside) evs' c" for c
    using that s'(2-)
  proof (induction "(s', Outside)" evs' c rule: executor_run.induct)
    case (Step evs c' new c'')
    then show ?case using stopped_stays [of "fst c'" "snd c'" new c''] by simp
  qed simp
  from this [OF assms(5)] bal s'(1) show ?thesis by simp
qed

text \<open>
  A life of the executor: one worker, room for two. It completes the first task, an urgent
  one displaces the last of a full queue, and \<open>stop\<close> drops what is left.
\<close>

definition pending :: "nat \<Rightarrow> nat pending_task" where
  "pending n = \<lparr>task = n, has_cancellation = True\<rparr>"

definition demo :: "nat list \<Rightarrow> nat worker list \<Rightarrow> bool \<Rightarrow> bool \<Rightarrow> nat executor" where
  "demo ts ws st acc = \<lparr>capacity = 2, worker_count = 1, tasks = map pending ts, workers = ws,
     started = st, accepting = acc, active = length (running ws)\<rparr>"

abbreviation demo_worker :: "nat activity \<Rightarrow> bool \<Rightarrow> nat worker" where
  "demo_worker act tok \<equiv> \<lparr>activity = act, stop_requested = tok\<rparr>"

lemma run_step:
  "executor_run c evs c' \<Longrightarrow> executor_step c' new c'' \<Longrightarrow> evs' = evs @ new \<Longrightarrow> executor_run c evs' c''"
  by (auto intro: executor_run.Step)

lemma demo_new: "executor_new 2 1 = Inr (demo [] [] False False)"
  by (simp add: executor_new_def demo_def)

lemma demo_start: "executor_step (demo [] [] False False, Outside) []
    (demo [] [demo_worker Waiting False] True True, Outside)"
  by (rule Start) (simp add: step_simps demo_def)

lemma demo_submit:
  "length ts < 2 \<Longrightarrow> executor_step (demo ts ws True True, ph) [Admitted n] (demo (ts @ [n]) ws True True, ph)"
  using Submit [of "pending n" False False "demo ts ws True True" None "demo (ts @ [n]) ws True True" ph]
  by (simp add: step_simps demo_def pending_def)

lemma demo_supersede:
  "executor_step (demo [a, b] ws True True, ph) [Admitted n, Dropped b] (demo [n, a] ws True True, ph)"
  using Submit [of "pending n" True True "demo [a, b] ws True True" "Some (pending b)" "demo [n, a] ws True True" ph]
  by (simp add: step_simps demo_def pending_def)

lemma demo_take:
  "executor_step (demo (n # ts) [demo_worker Waiting False] st acc, ph) []
     (demo ts [demo_worker (Running n) False] st acc, ph)"
  by (rule Take [of 0]) (simp add: step_simps demo_def pending_def)

lemma demo_exit:
  "executor_step (demo ts [demo_worker Waiting True] st acc, ph) []
     (demo ts [demo_worker Exited True] st acc, ph)"
  by (rule Take [of 0]) (simp add: step_simps demo_def pending_def)

lemma demo_finish:
  "executor_step (demo ts [demo_worker (Running n) tok] st acc, ph) [Completed n]
     (demo ts [demo_worker Waiting tok] st acc, ph)"
  by (rule Finish [of 0]) (simp add: step_simps demo_def pending_def)

lemma demo_swap:
  "executor_step (demo ts ws st acc, Outside) (map Dropped ts) (demo [] ws st False, Requesting 0)"
  using Swap [of "demo ts ws st acc" "map pending ts" "demo [] ws st False"]
  by (simp add: step_simps demo_def pending_def comp_def)

lemma demo_request:
  "executor_step (demo ts [demo_worker act False] st acc, Requesting 0) []
     (demo ts [demo_worker act True] st acc, Requesting 1)"
  using Request [of 0 "demo ts [demo_worker act False] st acc" "demo ts [demo_worker act True] st acc"]
  by (cases act) (simp_all add: step_simps demo_def pending_def)

lemma demo_join:
  "executor_step (demo [] [demo_worker Exited True] True False, Requesting 1) [] (demo [] [] True False, Outside)"
  by (rule Join) (simp_all add: step_simps demo_def)

lemma demo_run_busy: "executor_run (demo [] [] False False, Outside)
    [Admitted 1, Admitted 2, Admitted 3, Admitted 4, Dropped 3]
    (demo [4, 2] [demo_worker (Running 1) False] True True, Outside)"
  by (rule run_step, rule run_step, rule run_step, rule run_step, rule run_step, rule run_step, rule Idle,
      rule demo_start, simp, rule demo_submit [of "[]"], simp, simp, unfold append_Nil, rule demo_take, simp,
      rule demo_submit [of "[]"], simp, simp, unfold append_Nil, rule demo_submit [of "[n]" for n], simp, simp,
      unfold append_Cons append_Nil, rule demo_supersede, simp)

lemma demo_run_stopping: "executor_run (demo [] [] False False, Outside)
    [Admitted 1, Admitted 2, Admitted 3, Admitted 4, Dropped 3, Completed 1, Dropped 2, Completed 4]
    (demo [] [demo_worker Exited True] True False, Requesting 1)"
  by (rule run_step, rule run_step, rule run_step, rule run_step, rule run_step, rule run_step,
      rule demo_run_busy, rule demo_finish, simp, rule demo_take, simp, rule demo_swap, simp,
      rule demo_request, simp, rule demo_finish, simp, rule demo_exit, simp)

theorem executor_bounded_witness:
  "snapshot_queued (executor_snapshot (demo [4, 2] [demo_worker (Running 1) False] True True)) \<le> 2"
  using executor_bounded [OF demo_new demo_run_busy] by (simp add: demo_def)

theorem executor_conserves_tasks_witness:
  "admitted_of [Admitted 1, Admitted 2, Admitted 3, Admitted 4, Dropped (3::nat)]
     = {#4, 2#} + {#1#} + {#3#}"
  using executor_conserves_tasks [OF demo_new demo_run_busy] by (simp add: demo_def pending_def)

theorem executor_stop_settles_witness:
  "admitted_of [Admitted 1, Admitted 2, Admitted 3, Admitted 4, Dropped 3, Completed 1, Dropped 2, Completed (4::nat)]
     = settled_of [Admitted 1, Admitted 2, Admitted 3, Admitted 4, Dropped 3, Completed 1, Dropped 2, Completed 4]"
proof -
  have "started (demo [] [demo_worker Exited True] True False)" by (simp add: demo_def)
  from executor_stop_settles [OF demo_new demo_run_stopping demo_join this Idle] show ?thesis by simp
qed

section \<open>The callback fence\<close>

text \<open>
  \<^verbatim>\<open>CallbackFence\<close>: \<open>invoke\<close> counts a callback in under the lock, runs it outside and counts
  it out; \<open>close_and_wait\<close> closes the fence and waits until none is running. The state is
  the fields with the callers inside \<open>invoke\<close>, each a callback that is running.
\<close>

record 'c fence =
  fence_active :: nat
  fence_accepting :: bool
  inside :: "'c list"

definition fence_new :: "'c fence" where
  "fence_new = \<lparr>fence_active = 0, fence_accepting = True, inside = []\<rparr>"

text \<open>The entry of \<open>invoke\<close>: whether it runs the callback, and the state.\<close>

definition fence_enter :: "'c \<Rightarrow> 'c fence \<Rightarrow> bool \<times> 'c fence" where
  "fence_enter callback f =
     (if \<not> fence_accepting f then (False, f)
      else (True, f\<lparr>fence_active := fence_active f + 1, inside := callback # inside f\<rparr>))"

definition fence_finish :: "'c \<Rightarrow> 'c fence \<Rightarrow> 'c fence" where
  "fence_finish callback f =
     f\<lparr>fence_active := fence_active f - 1, inside := remove1 callback (inside f)\<rparr>"

definition fence_close :: "'c fence \<Rightarrow> 'c fence" where
  "fence_close f = f\<lparr>fence_accepting := False\<rparr>"

text \<open>The wait of \<open>close_and_wait\<close> may return.\<close>

definition fence_drained :: "'c fence \<Rightarrow> bool" where
  "fence_drained f \<longleftrightarrow> fence_active f = 0"

inductive fence_step :: "'c fence \<Rightarrow> 'c fence \<Rightarrow> bool" where
  Enter: "fence_enter callback f = (entered, f') \<Longrightarrow> fence_step f f'"
| Leave: "callback \<in> set (inside f) \<Longrightarrow> fence_step f (fence_finish callback f)"
| Close: "fence_step f (fence_close f)"

lemmas [step_simps] = fence_enter_def fence_finish_def fence_close_def fence_drained_def

inductive_simps fence_step_iff: "fence_step f f'"

lemma fence_step_counts:
  "fence_step f f' \<Longrightarrow> fence_active f = length (inside f) \<Longrightarrow> fence_active f' = length (inside f')"
  by (auto simp: fence_step_iff step_simps length_remove1 split: if_splits)

lemma fence_closed_shrinks:
  "fence_step f f' \<Longrightarrow> \<not> fence_accepting f
   \<Longrightarrow> \<not> fence_accepting f' \<and> set (inside f') \<subseteq> set (inside f)"
  by (auto simp: fence_step_iff step_simps dest: set_remove1_subset [THEN subsetD] split: if_splits)

text \<open>
  Property C40: when \<open>close_and_wait\<close> returns, no callback is running, and none ever runs
  again: in every later interleaving the fence turns every \<open>invoke\<close> away.
\<close>

theorem fence_close_and_wait:
  assumes "fence_step\<^sup>*\<^sup>* fence_new f" and "fence_step\<^sup>*\<^sup>* (fence_close f) g" and "fence_drained g"
    and "fence_step\<^sup>*\<^sup>* g h"
  shows "inside g = [] \<and> inside h = [] \<and> fst (fence_enter callback h) = False"
proof -
  have count: "fence_active f = length (inside f)" if "fence_step\<^sup>*\<^sup>* fence_new f" for f :: "'a fence"
    using that by (induction) (auto simp: fence_new_def fence_step_counts)
  have shrink: "\<not> fence_accepting y \<and> set (inside y) \<subseteq> set (inside x)"
    if "fence_step\<^sup>*\<^sup>* x y" "\<not> fence_accepting x" for x y :: "'a fence"
    using that by (induction) (auto dest: fence_closed_shrinks)
  have "fence_step\<^sup>*\<^sup>* fence_new g"
    using assms(1) Close assms(2) by (meson rtranclp.rtrancl_into_rtrancl rtranclp_trans)
  with count assms(3) have g: "inside g = []" by (simp add: fence_drained_def)
  have "\<not> fence_accepting g" using shrink [OF assms(2)] by (simp add: fence_close_def)
  with shrink [OF assms(4)] g show ?thesis by (simp add: fence_enter_def)
qed

theorem fence_close_and_wait_witness:
  "inside (fence_close (fence_new :: nat fence)) = []"
  using fence_close_and_wait [of "fence_new :: nat fence" "fence_close fence_new" "fence_close fence_new" 0]
  by (simp add: fence_drained_def fence_close_def fence_new_def)

end
