(* ===== verification/Ai_Work.thy ===== *)
theory Ai_Work
  imports Executor
begin

text \<open>
  The work service of the text generator (\<^verbatim>\<open>src/src/ai_work_service.cpp\<close>): three queues served by a
  fixed schedule, behind one capacity of which a part is kept for direct requests. As in the
  executor, each critical section is one step, and tasks and cancellations are opaque.
\<close>

section \<open>The service\<close>

datatype lane = Direct_lane | Explicit_lane | Optional_lane

record 'a ai_work =
  work_capacity :: nat
  work_threads :: nat
  direct_queue :: "'a pending_task list"
  explicit_queue :: "'a pending_task list"
  optional_queue :: "'a pending_task list"
  work_workers :: "'a worker list"
  schedule_index :: nat
  work_active :: nat
  work_started :: bool
  work_accepting :: bool

definition ai_work_new :: "nat \<Rightarrow> nat \<Rightarrow> 'a ai_work res" where
  "ai_work_new cap threads =
     (if cap = 0 \<or> threads = 0
      then Inl (Invalid_argument ''AI queue needs at least one slot and worker.'')
      else Inr \<lparr>work_capacity = cap, work_threads = threads, direct_queue = [], explicit_queue = [],
        optional_queue = [], work_workers = [], schedule_index = 0, work_active = 0,
        work_started = False, work_accepting = False\<rparr>)"

definition ai_work_start :: "'a ai_work \<Rightarrow> 'a ai_work res" where
  "ai_work_start s =
     (if work_started s then Inl (Logic_error ''AI work service may only be started once.'')
      else Inr (s\<lparr>work_started := True, work_accepting := True,
        work_workers := replicate (work_threads s) \<lparr>activity = Waiting, stop_requested = False\<rparr>\<rparr>))"

fun queue_of :: "lane \<Rightarrow> 'a ai_work \<Rightarrow> 'a pending_task list" where
  "queue_of Direct_lane s = direct_queue s"
| "queue_of Explicit_lane s = explicit_queue s"
| "queue_of Optional_lane s = optional_queue s"

fun set_queue :: "lane \<Rightarrow> 'a pending_task list \<Rightarrow> 'a ai_work \<Rightarrow> 'a ai_work" where
  "set_queue Direct_lane q s = s\<lparr>direct_queue := q\<rparr>"
| "set_queue Explicit_lane q s = s\<lparr>explicit_queue := q\<rparr>"
| "set_queue Optional_lane q s = s\<lparr>optional_queue := q\<rparr>"

definition queued :: "'a ai_work \<Rightarrow> nat" where
  "queued s = length (direct_queue s) + length (explicit_queue s) + length (optional_queue s)"

definition nondirect :: "'a ai_work \<Rightarrow> nat" where
  "nondirect s = length (explicit_queue s) + length (optional_queue s)"

definition nondirect_capacity :: "nat \<Rightarrow> nat" where
  "nondirect_capacity cap = (if 16 < cap then cap - 16 else cap)"

definition ai_work_submit :: "lane \<Rightarrow> 'a pending_task \<Rightarrow> 'a ai_work \<Rightarrow> submit_result \<times> 'a ai_work" where
  "ai_work_submit l p s =
     (if \<not> work_accepting s then (Stopping, s)
      else if work_capacity s \<le> queued s then (Full, s)
      else if l \<noteq> Direct_lane \<and> nondirect_capacity (work_capacity s) \<le> nondirect s then (Full, s)
      else if l = Explicit_lane \<and> 48 \<le> nondirect s then (Full, s)
      else if l = Optional_lane \<and> (32 \<le> length (optional_queue s) \<or> 48 \<le> nondirect s) then (Full, s)
      else (Accepted, set_queue l (queue_of l s @ [p]) s))"

definition ai_work_snapshot :: "'a ai_work \<Rightarrow> queue_snapshot" where
  "ai_work_snapshot s = \<lparr>snapshot_capacity = work_capacity s, snapshot_queued = queued s,
     snapshot_active = work_active s, snapshot_accepting = work_accepting s\<rparr>"

text \<open>\<open>next_lane\<close>: one turn of the schedule from where the last one ended.\<close>

definition lane_schedule :: "lane list" where
  "lane_schedule = [Direct_lane, Direct_lane, Direct_lane, Direct_lane, Explicit_lane, Explicit_lane, Optional_lane]"

fun scan_lanes :: "nat \<Rightarrow> 'a ai_work \<Rightarrow> nat \<Rightarrow> lane option \<times> nat" where
  "scan_lanes 0 s i = (None, i)"
| "scan_lanes (Suc n) s i =
     (let candidate = lane_schedule ! i; next = (i + 1) mod length lane_schedule in
      if queue_of candidate s \<noteq> [] then (Some candidate, next) else scan_lanes n s next)"

definition next_lane :: "'a ai_work \<Rightarrow> lane \<times> nat" where
  "next_lane s = (case scan_lanes (length lane_schedule) s (schedule_index s) of
      (Some l, i) \<Rightarrow> (l, i)
    | (None, i) \<Rightarrow> (if direct_queue s \<noteq> [] then Direct_lane
        else if explicit_queue s \<noteq> [] then Explicit_lane else Optional_lane, i))"

text \<open>
  \<open>run\<close> of worker \<open>i\<close>: under the lock it exits when its stop was requested, and otherwise takes the
  front of the next lane; \<open>None\<close> when it has to wait. The lane is part of the answer.
\<close>

definition work_take :: "nat \<Rightarrow> 'a ai_work \<Rightarrow> ((lane \<times> 'a) option \<times> 'a ai_work) option" where
  "work_take i s =
     (if length (work_workers s) \<le> i \<or> activity (work_workers s ! i) \<noteq> Waiting then None
      else if stop_requested (work_workers s ! i)
      then Some (None, s\<lparr>work_workers := (work_workers s)[i := (work_workers s ! i)\<lparr>activity := Exited\<rparr>]\<rparr>)
      else if queued s = 0 then None
      else case next_lane s of (l, index) \<Rightarrow> let p = hd (queue_of l s) in
        Some (Some (l, task p), set_queue l (tl (queue_of l s)) (s\<lparr>schedule_index := index,
          work_active := work_active s + 1,
          work_workers := (work_workers s)[i := (work_workers s ! i)\<lparr>activity := Running (task p)\<rparr>]\<rparr>)))"

definition work_finish :: "nat \<Rightarrow> 'a ai_work \<Rightarrow> ('a \<times> 'a ai_work) option" where
  "work_finish i s =
     (if length (work_workers s) \<le> i then None
      else case activity (work_workers s ! i) of
          Running t \<Rightarrow> Some (t, s\<lparr>work_active := work_active s - 1,
            work_workers := (work_workers s)[i := (work_workers s ! i)\<lparr>activity := Waiting\<rparr>]\<rparr>)
        | _ \<Rightarrow> None)"

text \<open>\<open>stop\<close>: the queues are emptied under the lock, then the workers are requested to stop and joined.\<close>

definition work_swap :: "'a ai_work \<Rightarrow> 'a pending_task list \<times> 'a ai_work" where
  "work_swap s = (direct_queue s @ explicit_queue s @ optional_queue s,
     s\<lparr>work_accepting := False, direct_queue := [], explicit_queue := [], optional_queue := []\<rparr>)"

definition work_request :: "nat \<Rightarrow> 'a ai_work \<Rightarrow> 'a ai_work" where
  "work_request i s = s\<lparr>work_workers := (work_workers s)[i := (work_workers s ! i)\<lparr>stop_requested := True\<rparr>]\<rparr>"

definition work_join :: "'a ai_work \<Rightarrow> 'a ai_work option" where
  "work_join s =
     (if list_all (\<lambda>w. activity w = Exited) (work_workers s) then Some (s\<lparr>work_workers := []\<rparr>) else None)"

section \<open>Interleavings\<close>

datatype 'a work_event = Work_admitted lane 'a | Work_taken lane 'a | Work_dropped 'a | Work_completed 'a

inductive work_step :: "'a ai_work \<times> stop_phase \<Rightarrow> 'a work_event list \<Rightarrow> 'a ai_work \<times> stop_phase \<Rightarrow> bool" where
  work_start: "ai_work_start s = Inr s' \<Longrightarrow> work_step (s, Outside) [] (s', Outside)"
| work_submit: "ai_work_submit l p s = (Accepted, s') \<Longrightarrow>
    work_step (s, ph) [Work_admitted l (task p)] (s', ph)"
| work_taken: "work_take i s = Some (Some (l, t), s') \<Longrightarrow> work_step (s, ph) [Work_taken l t] (s', ph)"
| work_exit: "work_take i s = Some (None, s') \<Longrightarrow> work_step (s, ph) [] (s', ph)"
| work_done: "work_finish i s = Some (t, s') \<Longrightarrow> work_step (s, ph) [Work_completed t] (s', ph)"
| work_stop: "work_swap s = (waiting, s') \<Longrightarrow>
    work_step (s, Outside) (map (Work_dropped \<circ> task) waiting) (s', Requesting 0)"
| work_asked: "i < length (work_workers s) \<Longrightarrow> work_request i s = s' \<Longrightarrow>
    work_step (s, Requesting i) [] (s', Requesting (i + 1))"
| work_joined: "length (work_workers s) \<le> i \<Longrightarrow> work_join s = Some s' \<Longrightarrow>
    work_step (s, Requesting i) [] (s', Outside)"

inductive work_run :: "'a ai_work \<times> stop_phase \<Rightarrow> 'a work_event list \<Rightarrow> 'a ai_work \<times> stop_phase \<Rightarrow> bool" where
  work_idle: "work_run c [] c"
| work_more: "work_run c evs c' \<Longrightarrow> work_step c' new c'' \<Longrightarrow> work_run c (evs @ new) c''"

fun taken_from :: "lane \<Rightarrow> 'a work_event list \<Rightarrow> 'a list" where
  "taken_from l [] = []"
| "taken_from l (e # es) = (case e of Work_taken m t \<Rightarrow> if m = l then [t] else [] | _ \<Rightarrow> []) @ taken_from l es"

fun admitted_to :: "lane \<Rightarrow> 'a work_event list \<Rightarrow> 'a list" where
  "admitted_to l [] = []"
| "admitted_to l (e # es) = (case e of Work_admitted m t \<Rightarrow> if m = l then [t] else [] | _ \<Rightarrow> []) @ admitted_to l es"

fun takes :: "'a work_event list \<Rightarrow> nat" where
  "takes [] = 0"
| "takes (e # es) = (case e of Work_taken _ _ \<Rightarrow> 1 | _ \<Rightarrow> 0) + takes es"

lemmas [step_simps] = ai_work_start_def ai_work_submit_def work_take_def work_finish_def work_swap_def
  work_request_def work_join_def

section \<open>The invariant and the balance of tasks\<close>

definition work_held :: "'a ai_work \<Rightarrow> 'a multiset" where
  "work_held s = mset (map task (direct_queue s)) + mset (map task (explicit_queue s))
     + mset (map task (optional_queue s)) + mset (running (work_workers s))"

definition work_inv :: "'a ai_work \<times> stop_phase \<Rightarrow> bool" where
  "work_inv c \<longleftrightarrow> (case c of (s, ph) \<Rightarrow>
     queued s \<le> work_capacity s \<and> nondirect s \<le> min (nondirect_capacity (work_capacity s)) 48
     \<and> length (optional_queue s) \<le> 32 \<and> schedule_index s < length lane_schedule
     \<and> length (work_workers s) \<le> work_threads s \<and> work_active s = length (running (work_workers s))
     \<and> (work_accepting s \<or> queued s = 0) \<and> (work_accepting s \<longrightarrow> work_started s \<and> ph = Outside)
     \<and> (\<not> work_started s \<longrightarrow> work_workers s = []))"

fun work_in :: "'a work_event list \<Rightarrow> 'a multiset" where
  "work_in [] = {#}"
| "work_in (e # es) = (case e of Work_admitted l t \<Rightarrow> {#t#} | _ \<Rightarrow> {#}) + work_in es"

fun work_out :: "'a work_event list \<Rightarrow> 'a multiset" where
  "work_out [] = {#}"
| "work_out (e # es) = (case e of Work_dropped t \<Rightarrow> {#t#} | Work_completed t \<Rightarrow> {#t#} | _ \<Rightarrow> {#}) + work_out es"

lemma work_in_append [simp]: "work_in (es @ fs) = work_in es + work_in fs"
  by (induction es) (simp_all add: add.assoc)

lemma work_out_append [simp]: "work_out (es @ fs) = work_out es + work_out fs"
  by (induction es) (simp_all add: add.assoc)

lemma taken_from_append [simp]: "taken_from l (es @ fs) = taken_from l es @ taken_from l fs"
  by (induction es) simp_all

lemma takes_append [simp]: "takes (es @ fs) = takes es + takes fs"
  by (induction es) simp_all

lemma work_dropped_only [simp]:
  "work_in (map (Work_dropped \<circ> f) ps) = {#}" "work_out (map (Work_dropped \<circ> f) ps) = mset (map f ps)"
  "taken_from l (map (Work_dropped \<circ> f) ps) = []" "takes (map (Work_dropped \<circ> f) ps) = 0"
  by (induction ps) simp_all

lemma queue_set_queue [simp]:
  "queue_of m (set_queue l q s) = (if m = l then q else queue_of m s)"
  by (cases l; cases m) simp_all

lemma set_queue_rest [simp]:
  "work_capacity (set_queue l q s) = work_capacity s" "work_threads (set_queue l q s) = work_threads s"
  "work_workers (set_queue l q s) = work_workers s" "schedule_index (set_queue l q s) = schedule_index s"
  "work_active (set_queue l q s) = work_active s" "work_started (set_queue l q s) = work_started s"
  "work_accepting (set_queue l q s) = work_accepting s"
  by (cases l; simp)+

lemma queue_of_rest [simp]:
  "queue_of l (s\<lparr>work_workers := ws\<rparr>) = queue_of l s" "queue_of l (s\<lparr>work_active := n\<rparr>) = queue_of l s"
  "queue_of l (s\<lparr>schedule_index := i\<rparr>) = queue_of l s" "queue_of l (s\<lparr>work_started := b\<rparr>) = queue_of l s"
  "queue_of l (s\<lparr>work_accepting := b\<rparr>) = queue_of l s"
  by (cases l; simp)+

lemma lane_queues:
  "direct_queue s = queue_of Direct_lane s" "explicit_queue s = queue_of Explicit_lane s"
  "optional_queue s = queue_of Optional_lane s"
  by simp_all

lemma queued_pos: "0 < queued s \<longleftrightarrow> (\<exists>l. queue_of l s \<noteq> [])"
proof
  assume "\<exists>l. queue_of l s \<noteq> []"
  then obtain l where "queue_of l s \<noteq> []" by blast
  then show "0 < queued s" by (cases l) (auto simp: queued_def)
next
  assume "0 < queued s"
  then have "queue_of Direct_lane s \<noteq> [] \<or> queue_of Explicit_lane s \<noteq> [] \<or> queue_of Optional_lane s \<noteq> []"
    by (auto simp: queued_def)
  then show "\<exists>l. queue_of l s \<noteq> []" by blast
qed

section \<open>The schedule\<close>

text \<open>
  How often a lane stands in the first \<open>p\<close> positions of the schedule, repeated. The index is a
  position modulo the length of the schedule.
\<close>

fun slots :: "lane \<Rightarrow> nat \<Rightarrow> nat" where
  "slots l 0 = 0"
| "slots l (Suc p) = slots l p + (if lane_schedule ! (p mod 7) = l then 1 else 0)"

definition lane_weight :: "lane \<Rightarrow> nat" where
  "lane_weight l = count (mset lane_schedule) l"

lemma lane_weight_simps: "lane_weight Direct_lane = 4" "lane_weight Explicit_lane = 2" "lane_weight Optional_lane = 1"
  by (simp_all add: lane_weight_def lane_schedule_def)

lemma schedule_length [simp]: "length lane_schedule = 7"
  by (simp add: lane_schedule_def)

lemma slots_turn: "slots l (p + 7) = slots l p + lane_weight l"
proof (induction p)
  case 0
  have "slots l (Suc (Suc (Suc (Suc (Suc (Suc (Suc 0))))))) = lane_weight l"
    by (cases l) (simp_all add: lane_weight_simps lane_schedule_def)
  then show ?case by (simp add: numeral_eq_Suc del: slots.simps(2))
next
  case (Suc p)
  have "slots l (Suc p + 7) = slots l (p + 7) + (if lane_schedule ! ((p + 7) mod 7) = l then 1 else 0)"
    by (simp only: add_Suc slots.simps(2))
  then show ?case using Suc by (simp only: mod_add_self2 slots.simps(2))
qed

lemma slots_turns: "slots l (p + 7 * n) = slots l p + lane_weight l * n"
proof (induction n)
  case (Suc n)
  then show ?case using slots_turn [of l "p + 7 * n"] by (simp add: algebra_simps)
qed simp

lemma slots_mono: "p \<le> q \<Longrightarrow> slots l p \<le> slots l q"
  by (induction q) (auto simp: le_Suc_eq)

text \<open>A scan passes empty lanes only, and ends behind the position of the lane it answers.\<close>

lemma scan_lanes_slots:
  assumes "scan_lanes n s (p mod 7) = (Some l, i)"
  shows "\<exists>q>p. i = q mod 7 \<and> queue_of l s \<noteq> []
    \<and> (\<forall>m. queue_of m s \<noteq> [] \<longrightarrow> slots m q = slots m p + (if l = m then 1 else 0))"
  using assms
proof (induction n arbitrary: p)
  case (Suc n)
  have step: "(p mod 7 + 1) mod 7 = Suc p mod 7" by (simp add: mod_Suc_eq)
  show ?case
  proof (cases "queue_of (lane_schedule ! (p mod 7)) s \<noteq> []")
    case True
    then have "l = lane_schedule ! (p mod 7)" "i = Suc p mod 7"
      using Suc.prems step by (auto simp: Let_def)
    with True show ?thesis by (intro exI [of _ "Suc p"]) auto
  next
    case False
    then have "scan_lanes n s (Suc p mod 7) = (Some l, i)"
      using Suc.prems step by (simp add: Let_def)
    from Suc.IH [OF this] False show ?thesis by (auto intro: Suc_lessD)
  qed
qed simp

lemma scan_lanes_none:
  assumes "scan_lanes n s (p mod 7) = (None, i)" "k < n"
  shows "queue_of (lane_schedule ! ((p + k) mod 7)) s = []"
  using assms
proof (induction n arbitrary: p k)
  case (Suc n)
  have step: "(p mod 7 + 1) mod 7 = Suc p mod 7" by (simp add: mod_Suc_eq)
  from Suc.prems(1) have e: "queue_of (lane_schedule ! (p mod 7)) s = []" "scan_lanes n s (Suc p mod 7) = (None, i)"
    using step by (auto simp: Let_def split: if_splits)
  show ?case
  proof (cases k)
    case 0 then show ?thesis using e by simp
  next
    case (Suc j) then show ?thesis using Suc.IH [OF e(2), of j] Suc.prems(2) by simp
  qed
qed simp

lemma next_lane_slots:
  assumes "0 < queued s" "schedule_index s = p mod 7" "next_lane s = (l, i)"
  shows "\<exists>q>p. i = q mod 7 \<and> queue_of l s \<noteq> []
    \<and> (\<forall>m. queue_of m s \<noteq> [] \<longrightarrow> slots m q = slots m p + (if l = m then 1 else 0))"
proof (cases "scan_lanes 7 s (p mod 7)")
  case (Pair found j)
  show ?thesis
  proof (cases found)
    case (Some m)
    then have "m = l" "j = i" using assms(2,3) Pair by (simp_all add: next_lane_def)
    then show ?thesis using scan_lanes_slots [of 7 s p] Pair Some by simp
  next
    case None
    have all: "queue_of (lane_schedule ! k) s = []" if "k < 7" for k
    proof -
      have "\<exists>j<7. (p + j) mod 7 = k" using that by presburger
      then obtain j' where "j' < 7" "(p + j') mod 7 = k" by blast
      then show ?thesis using scan_lanes_none [of 7 s p j j'] Pair None by simp
    qed
    have "queue_of m s = []" for m
      using all [of 0] all [of 4] all [of 6] by (cases m) (simp_all add: lane_schedule_def)
    then show ?thesis using assms(1) queued_pos by blast
  qed
qed

section \<open>What a step does\<close>

lemma work_take_lane:
  assumes "work_take i s = Some (Some (l, t), s')" "schedule_index s = p mod 7"
  shows "i < length (work_workers s)" "activity (work_workers s ! i) = Waiting"
    and "\<exists>x. queue_of l s = x # queue_of l s' \<and> t = task x"
    and "m \<noteq> l \<Longrightarrow> queue_of m s' = queue_of m s"
    and "work_workers s' = (work_workers s)[i := (work_workers s ! i)\<lparr>activity := Running t\<rparr>]"
    and "work_active s' = work_active s + 1" "work_capacity s' = work_capacity s" "work_threads s' = work_threads s"
    and "work_accepting s' = work_accepting s" "work_started s' = work_started s"
    and "\<exists>q>p. schedule_index s' = q mod 7
      \<and> (\<forall>m. queue_of m s \<noteq> [] \<longrightarrow> slots m q = slots m p + (if l = m then 1 else 0))"
proof -
  obtain index where n: "i < length (work_workers s)" "activity (work_workers s ! i) = Waiting" "0 < queued s"
    "next_lane s = (l, index)" "t = task (hd (queue_of l s))"
    and s': "s' = set_queue l (tl (queue_of l s)) (s\<lparr>schedule_index := index, work_active := work_active s + 1,
      work_workers := (work_workers s)[i := (work_workers s ! i)\<lparr>activity := Running (task (hd (queue_of l s)))\<rparr>]\<rparr>)"
    using assms(1) by (auto simp: work_take_def Let_def split: if_splits prod.splits)
  note slots = next_lane_slots [OF n(3) assms(2) n(4)]
  show "\<exists>q>p. schedule_index s' = q mod 7
      \<and> (\<forall>m. queue_of m s \<noteq> [] \<longrightarrow> slots m q = slots m p + (if l = m then 1 else 0))"
    using slots by (auto simp: s')
  show "\<exists>x. queue_of l s = x # queue_of l s' \<and> t = task x"
    using slots n(5) by (cases "queue_of l s") (auto simp: s')
  show "i < length (work_workers s)" "activity (work_workers s ! i) = Waiting"
    "m \<noteq> l \<Longrightarrow> queue_of m s' = queue_of m s"
    "work_workers s' = (work_workers s)[i := (work_workers s ! i)\<lparr>activity := Running t\<rparr>]"
    "work_active s' = work_active s + 1" "work_capacity s' = work_capacity s" "work_threads s' = work_threads s"
    "work_accepting s' = work_accepting s" "work_started s' = work_started s"
    using n by (simp_all add: s')
qed

lemma work_take_exit:
  assumes "work_take i s = Some (None, s')"
  shows "i < length (work_workers s)" "activity (work_workers s ! i) = Waiting"
    and "s' = s\<lparr>work_workers := (work_workers s)[i := (work_workers s ! i)\<lparr>activity := Exited\<rparr>]\<rparr>"
  using assms by (auto simp: work_take_def Let_def split: if_splits prod.splits)

lemma work_finish_Some:
  assumes "work_finish i s = Some (t, s')"
  shows "i < length (work_workers s)" "activity (work_workers s ! i) = Running t"
    and "s' = s\<lparr>work_active := work_active s - 1,
      work_workers := (work_workers s)[i := (work_workers s ! i)\<lparr>activity := Waiting\<rparr>]\<rparr>"
  using assms by (auto simp: work_finish_def split: if_splits activity.splits)

lemma ai_work_submit_Accepted:
  assumes "ai_work_submit l p s = (Accepted, s')"
  shows "s' = set_queue l (queue_of l s @ [p]) s" "work_accepting s" "queued s < work_capacity s"
    and "l \<noteq> Direct_lane \<Longrightarrow> nondirect s < nondirect_capacity (work_capacity s)"
    and "l \<noteq> Direct_lane \<Longrightarrow> nondirect s < 48"
    and "l = Optional_lane \<Longrightarrow> length (optional_queue s) < 32"
  using assms by (cases l; auto simp: ai_work_submit_def split: if_splits)+

lemma queued_lanes:
  "queued s = length (queue_of Direct_lane s) + length (queue_of Explicit_lane s) + length (queue_of Optional_lane s)"
  "nondirect s = length (queue_of Explicit_lane s) + length (queue_of Optional_lane s)"
  "length (optional_queue s) = length (queue_of Optional_lane s)"
  "work_held s = mset (map task (queue_of Direct_lane s)) + mset (map task (queue_of Explicit_lane s))
     + mset (map task (queue_of Optional_lane s)) + mset (running (work_workers s))"
  by (simp_all add: queued_def nondirect_def work_held_def)

lemma work_step_inv:
  assumes "work_step c evs c'" "work_inv c"
  shows "work_inv c'"
  using assms(1)
proof cases
  case (work_submit l p s s' ph)
  note a = ai_work_submit_Accepted [OF work_submit(4)]
  show ?thesis
    using a assms(2) unfolding work_submit(1-3) work_inv_def queued_lanes
    by (cases l) (auto simp del: queue_of.simps set_queue.simps)
next
  case (work_taken i s l t s' ph)
  have "schedule_index s < 7" using assms(2) by (simp add: work_taken work_inv_def)
  then have "schedule_index s = schedule_index s mod 7" by simp
  note w = work_take_lane [OF work_taken(4) this]
  have d: "length (queue_of m s') \<le> length (queue_of m s)" for m
    using w(3) w(4) [of m] by (cases "m = l") auto
  have "schedule_index s' < 7" using w(11) by auto
  moreover have "queue_of m s = [] \<longrightarrow> queue_of m s' = []" for m using d [of m] by auto
  ultimately show ?thesis
    using assms(2) d [of Direct_lane] d [of Explicit_lane] d [of Optional_lane] w(1,2,5-10)
    unfolding work_taken(1-3) work_inv_def queued_lanes
    by (auto simp: running_update_length simp del: queue_of.simps)
next
  case (work_exit i s s' ph)
  note e = work_take_exit [OF work_exit(4)]
  show ?thesis using assms(2) e(1,2) unfolding work_exit(1-3) e(3)
    by (auto simp: work_inv_def queued_def nondirect_def running_update_length)
next
  case (work_done i s t s' ph)
  note e = work_finish_Some [OF work_done(4)]
  show ?thesis using assms(2) e(1,2) unfolding work_done(1-3) e(3)
    by (auto simp: work_inv_def queued_def nondirect_def running_update_length)
next
  case (work_start s s')
  then show ?thesis using assms(2)
    by (auto simp: step_simps work_inv_def queued_def nondirect_def split: if_splits)
next
  case (work_stop s waiting s')
  then show ?thesis using assms(2) by (auto simp: step_simps work_inv_def queued_def nondirect_def)
next
  case (work_asked i s s')
  then show ?thesis using assms(2)
    by (auto simp: step_simps work_inv_def queued_def nondirect_def running_update_length)
next
  case (work_joined s i s')
  then show ?thesis using assms(2)
    by (auto simp: step_simps work_inv_def queued_def nondirect_def running_exited split: if_splits)
qed

lemma work_step_balance:
  assumes "work_step c evs c'" "work_inv c"
  shows "work_held (fst c) + work_in evs = work_held (fst c') + work_out evs"
  using assms(1)
proof cases
  case (work_submit l p s s' ph)
  note a = ai_work_submit_Accepted [OF work_submit(4)]
  show ?thesis unfolding work_submit(1-3) queued_lanes a(1) by (cases l) (simp_all del: queue_of.simps set_queue.simps)
next
  case (work_taken i s l t s' ph)
  have "schedule_index s < 7" using assms(2) by (simp add: work_taken work_inv_def)
  then have "schedule_index s = schedule_index s mod 7" by simp
  note w = work_take_lane [OF work_taken(4) this]
  obtain x where x: "queue_of l s = x # queue_of l s'" "t = task x" using w(3) by blast
  have r: "mset (running (work_workers s')) = add_mset t (mset (running (work_workers s)))"
    using w(1,2) by (simp add: w(5) running_update_simps)
  show ?thesis unfolding work_taken(1-3) queued_lanes
    using x r w(4) [of Direct_lane] w(4) [of Explicit_lane] w(4) [of Optional_lane]
    by (cases l) (simp_all del: queue_of.simps)
next
  case (work_exit i s s' ph)
  note e = work_take_exit [OF work_exit(4)]
  show ?thesis using e(1,2) by (simp add: work_exit(1-3) e(3) work_held_def running_update_simps)
next
  case (work_done i s t s' ph)
  note e = work_finish_Some [OF work_done(4)]
  show ?thesis
    using e(1,2) running_update_simps(2) [of i "work_workers s" t "(work_workers s ! i)\<lparr>activity := Waiting\<rparr>"]
    by (simp add: work_done(1-3) e(3) work_held_def)
next
  case (work_start s s')
  then show ?thesis using assms(2) by (auto simp: step_simps work_held_def work_inv_def split: if_splits)
next
  case (work_stop s waiting s')
  then show ?thesis by (auto simp: step_simps work_held_def)
next
  case (work_asked i s s')
  then show ?thesis by (auto simp: step_simps work_held_def running_update_simps)
next
  case (work_joined s i s')
  then show ?thesis by (auto simp: step_simps work_held_def running_exited split: if_splits)
qed

lemma ai_work_new_inv:
  "ai_work_new cap threads = Inr s \<Longrightarrow> work_inv (s, Outside) \<and> work_held s = {#} \<and> work_capacity s = cap"
  by (auto simp: ai_work_new_def work_inv_def work_held_def queued_def nondirect_def split: if_splits)

lemma work_run_sound:
  assumes "work_run c evs c'" "work_inv c" "work_held (fst c) = {#}"
  shows "work_inv c' \<and> work_in evs = work_held (fst c') + work_out evs"
  using assms
proof (induction rule: work_run.induct)
  case (work_more c evs c' new c'')
  then have i: "work_inv c'" and b: "work_in evs = work_held (fst c') + work_out evs" by auto
  from work_step_balance [OF work_more(2) i] b
  have "work_in (evs @ new) = work_held (fst c'') + work_out (evs @ new)" by (simp add: ac_simps)
  with work_step_inv [OF work_more(2) i] show ?case by blast
qed simp

section \<open>No lane starves\<close>

text \<open>
  What a run leaves of a lane: its queue is what was there and came, less what was taken in that
  order; and while something of the first queue is left, every position of the lane that the
  schedule passed was a task taken from it.
\<close>

definition lane_served :: "lane \<Rightarrow> 'a ai_work \<Rightarrow> 'a work_event list \<Rightarrow> 'a ai_work \<Rightarrow> bool" where
  "lane_served l s evs s' \<longleftrightarrow> (\<exists>added. map task (queue_of l s) @ added = taken_from l evs @ map task (queue_of l s'))
     \<and> (\<exists>q. schedule_index s' = q mod 7 \<and> schedule_index s + takes evs \<le> q
          \<and> (slots l q \<le> slots l (schedule_index s) + length (taken_from l evs)
             \<or> length (queue_of l s) \<le> length (taken_from l evs)))"

lemma lane_served_step:
  assumes served: "lane_served l s evs s1" and step: "work_step (s1, ph) new (s2, ph')"
    and "work_accepting s2"
  shows "lane_served l s (evs @ new) s2"
proof -
  obtain added q where a: "map task (queue_of l s) @ added = taken_from l evs @ map task (queue_of l s1)"
    and q: "schedule_index s1 = q mod 7" "schedule_index s + takes evs \<le> q"
      "slots l q \<le> slots l (schedule_index s) + length (taken_from l evs)
       \<or> length (queue_of l s) \<le> length (taken_from l evs)"
    using served by (auto simp: lane_served_def)
  have same: "lane_served l s (evs @ new) s2"
    if "queue_of l s2 = queue_of l s1" "schedule_index s2 = schedule_index s1" "taken_from l new = []" "takes new = 0"
    using that a q by (auto simp: lane_served_def)
  from step show ?thesis
  proof cases
    case (work_submit m p)
    note w = ai_work_submit_Accepted [OF work_submit(3)]
    have "map task (queue_of l s) @ (added @ (if m = l then [task p] else [])) = taken_from l evs @ map task (queue_of l s2)"
      using a w(1) by (auto simp del: append_assoc simp: append_assoc [symmetric])
    moreover have "schedule_index s2 = schedule_index s1" "taken_from l new = []" "takes new = 0"
      using w(1) work_submit by simp_all
    ultimately show ?thesis using q unfolding lane_served_def by (intro conjI exI [of _ q]) auto
  next
    case (work_taken i m t)
    note w = work_take_lane [OF work_taken(3) q(1)]
    obtain x where x: "queue_of m s1 = x # queue_of m s2" "t = task x" using w(3) by blast
    obtain q2 where q2: "q < q2" "schedule_index s2 = q2 mod 7"
      "\<forall>n. queue_of n s1 \<noteq> [] \<longrightarrow> slots n q2 = slots n q + (if m = n then 1 else 0)"
      using w(11) by blast
    have new: "taken_from l new = (if m = l then [t] else [])" "takes new = 1" using work_taken by simp_all
    have "map task (queue_of l s) @ added = taken_from l (evs @ new) @ map task (queue_of l s2)"
      using a x w(4) [of l] new by (cases "m = l") auto
    moreover have "slots l q2 \<le> slots l (schedule_index s) + length (taken_from l (evs @ new))
        \<or> length (queue_of l s) \<le> length (taken_from l (evs @ new))"
    proof (cases "length (queue_of l s) \<le> length (taken_from l evs)")
      case False
      have "length (map task (queue_of l s) @ added) = length (taken_from l evs @ map task (queue_of l s1))"
        using a by simp
      then have "queue_of l s1 \<noteq> []" using False by auto
      then have "slots l q2 = slots l q + (if m = l then 1 else 0)" using q2(3) by simp
      then show ?thesis using q(3) False new by auto
    qed simp
    ultimately show ?thesis using q2(1,2) q(2) new unfolding lane_served_def by (intro conjI exI [of _ q2]) auto
  next
    case (work_exit i)
    then show ?thesis using work_take_exit(3) [OF work_exit(3)] by (intro same) auto
  next
    case (work_done i t)
    then show ?thesis using work_finish_Some(3) [OF work_done(3)] by (intro same) auto
  next
    case work_start
    then show ?thesis by (intro same) (auto simp: ai_work_start_def split: if_splits)
  next
    case (work_stop waiting)
    then show ?thesis using assms(3) by (auto simp: work_swap_def)
  next
    case (work_asked i)
    then show ?thesis by (intro same) (auto simp: work_request_def)
  next
    case (work_joined i)
    then show ?thesis by (intro same) (auto simp: work_join_def split: if_splits)
  qed
qed

lemma accepting_before:
  assumes "work_step (s1, ph) new (s2, ph')" "work_started s1"
  shows "work_started s2" "work_accepting s2 \<Longrightarrow> work_accepting s1"
  using assms
  by (cases; auto simp: ai_work_start_def work_request_def work_join_def work_swap_def work_take_def Let_def
      dest!: ai_work_submit_Accepted(1) work_finish_Some(3) split: if_splits prod.splits)+

lemma lane_served_run:
  assumes "work_run (s, ph) evs c" "work_started s" "schedule_index s < 7" "work_accepting (fst c)"
  shows "lane_served l s evs (fst c)"
proof -
  have "work_started (fst c) \<and> (work_accepting (fst c) \<longrightarrow> lane_served l s evs (fst c))"
    using assms(1)
  proof (induction "(s, ph)" evs c rule: work_run.induct)
    case work_idle
    have "lane_served l s [] s" unfolding lane_served_def
      using assms(3) by (intro conjI exI [of _ "schedule_index s"] exI [of _ "[]"]) simp_all
    then show ?case using assms(2) by simp
  next
    case (work_more evs c' new c'')
    obtain s1 ph1 s2 ph2 where c: "c' = (s1, ph1)" "c'' = (s2, ph2)" by fastforce
    show ?case using work_more lane_served_step [of l s evs s1 ph1 new s2 ph2] accepting_before [of s1 ph1 new s2 ph2]
      unfolding c by auto
  qed
  then show ?thesis using assms(4) by blast
qed

text \<open>Property C25: No work starves. While the service is not stopped, the tasks of a lane are taken in
  the order they came, and of every seven tasks the workers take, four are direct, two explicit and
  one optional, as long as there are such tasks: a task with \<open>k\<close> tasks before it in its lane is
  among the next \<open>7 * (k div weight + 1)\<close> that are taken, whatever is submitted meanwhile. And a worker
  that waits can take a task.\<close>

theorem queued_work_is_taken:
  assumes "ai_work_new cap threads = Inr s\<^sub>0" and "work_run (s\<^sub>0, Outside) before (s, ph)"
    and "k < length (queue_of l s)"
    and "work_run (s, ph) evs (s', ph')" and "work_accepting s'"
    and "7 * (k div lane_weight l + 1) \<le> takes evs"
  shows "take (k + 1) (taken_from l evs) = map task (take (k + 1) (queue_of l s))
    \<and> (\<forall>i < length (work_workers s). activity (work_workers s ! i) = Waiting \<and> \<not> stop_requested (work_workers s ! i)
         \<longrightarrow> (\<exists>m t s''. work_take i s = Some (Some (m, t), s'')))"
proof
  have inv: "work_inv (s, ph)" using work_run_sound [OF assms(2)] ai_work_new_inv [OF assms(1)] by simp
  have busy: "0 < queued s" using assms(3) queued_pos [of s] by force
  then have st: "work_started s" "schedule_index s < 7" using inv by (auto simp: work_inv_def)
  obtain added q where a: "map task (queue_of l s) @ added = taken_from l evs @ map task (queue_of l s')"
    and q: "schedule_index s + takes evs \<le> q" "slots l q \<le> slots l (schedule_index s) + length (taken_from l evs)
       \<or> length (queue_of l s) \<le> length (taken_from l evs)"
    using lane_served_run [OF assms(4) st, of l] assms(5) unfolding lane_served_def fst_conv by blast
  have w: "0 < lane_weight l" by (cases l) (simp_all add: lane_weight_simps)
  have "slots l (schedule_index s) + lane_weight l * (k div lane_weight l + 1) \<le> slots l q"
    using slots_mono [of "schedule_index s + 7 * (k div lane_weight l + 1)" q l] q(1) assms(6) by (simp only: slots_turns)
  moreover have "k < lane_weight l * (k div lane_weight l + 1)"
    using w by (metis add.commute dividend_less_times_div mult.commute plus_1_eq_Suc mult_Suc_right)
  ultimately have long: "k < length (taken_from l evs)" using q(2) assms(3) by linarith
  have "take (k + 1) (taken_from l evs) = take (k + 1) (taken_from l evs @ map task (queue_of l s'))"
    using long by simp
  also have "\<dots> = take (k + 1) (map task (queue_of l s))" using assms(3) by (simp flip: a)
  finally show "take (k + 1) (taken_from l evs) = map task (take (k + 1) (queue_of l s))" by (simp add: take_map)
  show "\<forall>i < length (work_workers s). activity (work_workers s ! i) = Waiting \<and> \<not> stop_requested (work_workers s ! i)
         \<longrightarrow> (\<exists>m t s''. work_take i s = Some (Some (m, t), s''))"
    using busy by (auto simp: work_take_def Let_def split: prod.splits)
qed

lemma work_step_capacity: "work_step c new c' \<Longrightarrow> work_capacity (fst c') = work_capacity (fst c)"
  by (erule work_step.cases; auto simp: ai_work_start_def work_request_def work_join_def work_swap_def
      work_take_def Let_def dest!: ai_work_submit_Accepted(1) work_finish_Some(3) split: if_splits prod.splits)

lemma work_run_capacity: "work_run c evs c' \<Longrightarrow> work_capacity (fst c') = work_capacity (fst c)"
  by (induction rule: work_run.induct) (simp_all add: work_step_capacity)

text \<open>A part of the queue is kept for direct requests. In every interleaving the explicit
  and optional tasks together take at most 48 places and leave sixteen to direct work where the
  capacity has them, optional tasks take at most 32; and a direct request is refused by a service
  that accepts only when at least sixteen direct ones are waiting.\<close>

theorem direct_work_has_room:
  assumes "ai_work_new cap threads = Inr s\<^sub>0" and "work_run (s\<^sub>0, Outside) evs (s, ph)" and "16 < cap"
  shows "length (explicit_queue s) + length (optional_queue s) \<le> min (cap - 16) 48
    \<and> length (optional_queue s) \<le> 32
    \<and> (fst (ai_work_submit Direct_lane p s) = Full \<longrightarrow> 16 \<le> length (direct_queue s))
    \<and> (fst (ai_work_submit Direct_lane p s) = Stopping \<longleftrightarrow> \<not> work_accepting s)"
proof -
  have "work_inv (s, ph)" using work_run_sound [OF assms(2)] ai_work_new_inv [OF assms(1)] by simp
  moreover have "work_capacity s = cap"
    using work_run_capacity [OF assms(2)] ai_work_new_inv [OF assms(1)] by simp
  ultimately show ?thesis using assms(3)
    by (auto simp: work_inv_def ai_work_submit_def queued_def nondirect_def nondirect_capacity_def)
qed

text \<open>
  A concrete run, one worker: an optional task waits behind six direct ones and is taken fifth.
\<close>

definition desk :: "nat list \<Rightarrow> nat list \<Rightarrow> nat \<Rightarrow> nat worker list \<Rightarrow> bool \<Rightarrow> nat ai_work" where
  "desk ds opts index ws on = \<lparr>work_capacity = 64, work_threads = 1, direct_queue = map pending ds,
     explicit_queue = [], optional_queue = map pending opts, work_workers = ws, schedule_index = index,
     work_active = length (running ws), work_started = on, work_accepting = on\<rparr>"

lemma desk_new: "ai_work_new 64 1 = Inr (desk [] [] 0 [] False)"
  by (simp add: ai_work_new_def desk_def)

lemma scan_seven: "scan_lanes 7 s i = scan_lanes (Suc (Suc (Suc (Suc (Suc (Suc (Suc 0))))))) s i"
  by (rule arg_cong [of _ _ "\<lambda>n. scan_lanes n s i"]) simp

lemma desk_start: "work_step (desk [] [] 0 [] False, Outside) [] (desk [] [] 0 [demo_worker Waiting False] True, Outside)"
  by (rule work_start) (simp add: ai_work_start_def desk_def)

lemma desk_submit:
  "length ds < 8 \<Longrightarrow> length opts < 8 \<Longrightarrow>
    work_step (desk ds opts i ws True, ph) [Work_admitted Direct_lane n] (desk (ds @ [n]) opts i ws True, ph)"
  "length ds < 8 \<Longrightarrow> length opts < 8 \<Longrightarrow>
    work_step (desk ds opts i ws True, ph) [Work_admitted Optional_lane n] (desk ds (opts @ [n]) i ws True, ph)"
  using work_submit [of Direct_lane "pending n" "desk ds opts i ws True" "desk (ds @ [n]) opts i ws True" ph]
    work_submit [of Optional_lane "pending n" "desk ds opts i ws True" "desk ds (opts @ [n]) i ws True" ph]
  by (simp_all add: ai_work_submit_def desk_def pending_def queued_def nondirect_def nondirect_capacity_def)

lemma desk_take_direct:
  assumes "lane_schedule ! i = Direct_lane"
  shows "work_step (desk (n # ds) opts i [demo_worker Waiting False] True, ph)
     [Work_taken Direct_lane n] (desk ds opts ((i + 1) mod 7) [demo_worker (Running n) False] True, ph)"
proof (rule work_taken [of 0])
  let ?s = "desk (n # ds) opts i [demo_worker Waiting False] True"
  have "next_lane ?s = (Direct_lane, (i + 1) mod 7)"
    using assms by (simp add: next_lane_def scan_seven desk_def Let_def)
  then show "work_take 0 ?s = Some (Some (Direct_lane, n), desk ds opts ((i + 1) mod 7) [demo_worker (Running n) False] True)"
    by (simp add: work_take_def) (simp add: desk_def pending_def queued_def)
qed

lemma desk_take_optional:
  "work_step (desk ds (n # opts) 4 [demo_worker Waiting False] True, ph)
     [Work_taken Optional_lane n] (desk ds opts 0 [demo_worker (Running n) False] True, ph)"
proof (rule work_taken [of 0])
  let ?s = "desk ds (n # opts) 4 [demo_worker Waiting False] True"
  have "next_lane ?s = (Optional_lane, 0)"
    by (simp add: next_lane_def scan_seven desk_def Let_def lane_schedule_def)
  then show "work_take 0 ?s = Some (Some (Optional_lane, n), desk ds opts 0 [demo_worker (Running n) False] True)"
    by (simp add: work_take_def) (simp add: desk_def pending_def queued_def)
qed

lemma desk_finish:
  "work_step (desk ds opts i [demo_worker (Running n) False] True, ph) [Work_completed n]
     (desk ds opts i [demo_worker Waiting False] True, ph)"
  by (rule work_done [of 0]) (simp add: work_finish_def desk_def)

lemma desk_filled: "\<exists>evs. work_run (desk [] [] 0 [] False, Outside) evs
    (desk [11, 12, 13, 14, 15, 16] [9] 0 [demo_worker Waiting False] True, Outside)"
proof -
  note r = work_more [OF work_idle desk_start]
  note r = work_more [OF r desk_submit(2) [of "[]" "[]" _ _ _ 9], simplified]
  note r = work_more [OF r desk_submit(1) [of "[]" "[9]" _ _ _ 11], simplified]
  note r = work_more [OF r desk_submit(1) [of "[11]" "[9]" _ _ _ 12], simplified]
  note r = work_more [OF r desk_submit(1) [of "[11, 12]" "[9]" _ _ _ 13], simplified]
  note r = work_more [OF r desk_submit(1) [of "[11, 12, 13]" "[9]" _ _ _ 14], simplified]
  note r = work_more [OF r desk_submit(1) [of "[11, 12, 13, 14]" "[9]" _ _ _ 15], simplified]
  note r = work_more [OF r desk_submit(1) [of "[11, 12, 13, 14, 15]" "[9]" _ _ _ 16], simplified]
  then show ?thesis by blast
qed

lemma desk_turn: "work_run (desk [11, 12, 13, 14, 15, 16] [9] 0 [demo_worker Waiting False] True, Outside)
    [Work_taken Direct_lane 11, Work_completed 11, Work_taken Direct_lane 12, Work_completed 12, Work_taken Direct_lane 13,
     Work_completed 13, Work_taken Direct_lane 14, Work_completed 14, Work_taken Optional_lane 9, Work_completed 9,
     Work_taken Direct_lane 15, Work_completed 15, Work_taken Direct_lane 16]
    (desk [] [] 2 [demo_worker (Running 16) False] True, Outside)"
proof -
  have d: "lane_schedule ! 0 = Direct_lane" "lane_schedule ! 1 = Direct_lane" "lane_schedule ! Suc 0 = Direct_lane"
    "lane_schedule ! Suc (Suc 0) = Direct_lane" "lane_schedule ! 3 = Direct_lane"
    by (simp_all add: lane_schedule_def)
  note r = work_more [OF work_idle desk_take_direct [OF d(1)], of 11 "[12, 13, 14, 15, 16]" "[9]" Outside, simplified]
  note r = work_more [OF work_more [OF r desk_finish] desk_take_direct, simplified, OF d(3)]
  note r = work_more [OF work_more [OF r desk_finish] desk_take_direct, simplified, OF d(4)]
  note r = work_more [OF work_more [OF r desk_finish] desk_take_direct, simplified, OF d(5)]
  note r = work_more [OF work_more [OF r desk_finish] desk_take_optional, simplified]
  note r = work_more [OF work_more [OF r desk_finish] desk_take_direct, simplified, OF d(1)]
  note r = work_more [OF work_more [OF r desk_finish] desk_take_direct, simplified, OF d(3)]
  from r show ?thesis by (simp add: numeral_2_eq_2)
qed

theorem queued_work_is_taken_witness:
  "take 1 (taken_from Optional_lane [Work_taken Direct_lane 11, Work_completed 11, Work_taken Direct_lane 12, Work_completed 12,
     Work_taken Direct_lane 13, Work_completed 13, Work_taken Direct_lane 14, Work_completed 14, Work_taken Optional_lane 9,
     Work_completed 9, Work_taken Direct_lane 15, Work_completed 15, Work_taken Direct_lane (16::nat)]) = [9]"
proof -
  obtain before where "work_run (desk [] [] 0 [] False, Outside) before
    (desk [11, 12, 13, 14, 15, 16] [9] 0 [demo_worker Waiting False] True, Outside)" using desk_filled by blast
  from queued_work_is_taken [OF desk_new this _ desk_turn, of 0 Optional_lane] show ?thesis
    by (simp add: desk_def pending_def lane_weight_simps)
qed

theorem direct_work_has_room_witness:
  "length (optional_queue (desk [11, 12, 13, 14, 15, 16] [9] 0 [demo_worker Waiting False] True)) \<le> 32"
proof -
  obtain evs where "work_run (desk [] [] 0 [] False, Outside) evs
    (desk [11, 12, 13, 14, 15, 16] [9] 0 [demo_worker Waiting False] True, Outside)" using desk_filled by blast
  from direct_work_has_room [OF desk_new this, of undefined] show ?thesis by simp
qed

end
