(* ===== verification/Provider_Circuit.thy ===== *)
theory Provider_Circuit
  imports Identifiers Tts_Text
begin

text \<open>
  The provider circuits: the repository
  (\<^verbatim>\<open>src/src/persistence/sqlite_provider_circuit_repository.cpp\<close>) over its two tables, with
  the CHECK constraints of \<^verbatim>\<open>src/migrations/0016_cross_feature_reliability.sql\<close>, and the two
  circuit-breaking clients (\<^verbatim>\<open>src/src/provider_circuit.cpp\<close>) on the interface the
  repository provides. Every operation is one transaction: an exception leaves the tables as
  they were.
\<close>

section \<open>Tables\<close>

datatype circuit_state = Closed | Open | Half_open

record circuit_row =
  circuit_state :: circuit_state
  consecutive_failures :: int
  first_failure :: "int option"
  opened_at :: "int option"
  retry_after :: "int option"
  indefinite :: bool
  probe_in_flight :: bool
  last_error_code :: "string option"
  circuit_revision :: int
  circuit_updated_at :: int

record circuit_transition =
  circuit_transition_id :: string
  circuit_provider :: string
  circuit_from_state :: circuit_state
  circuit_to_state :: circuit_state
  circuit_reason :: string
  circuit_from_revision :: int
  circuit_to_revision :: int
  circuit_occurred_at :: int
  circuit_key :: string

record circuit_db =
  circuits :: "string \<Rightarrow> circuit_row option"
  transitions :: "circuit_transition list"

definition machine_code :: "string \<Rightarrow> bool" where
  "machine_code s \<longleftrightarrow> 1 \<le> length s \<and> length s \<le> 96 \<and>
     list_all (\<lambda>c. CHR ''a'' \<le> c \<and> c \<le> CHR ''z'' \<or> is_digit c \<or> c \<in> set ''_.-'') s"

definition circuit_row_check :: "circuit_row \<Rightarrow> bool" where
  [row_checks]: "circuit_row_check r \<longleftrightarrow>
     0 \<le> consecutive_failures r
     \<and> (case first_failure r of None \<Rightarrow> True | Some t \<Rightarrow> 0 \<le> t)
     \<and> (case opened_at r of None \<Rightarrow> True | Some t \<Rightarrow> 0 \<le> t)
     \<and> (case retry_after r of None \<Rightarrow> True
        | Some t \<Rightarrow> (case opened_at r of None \<Rightarrow> False | Some o' \<Rightarrow> o' \<le> t))
     \<and> (case last_error_code r of None \<Rightarrow> True | Some c \<Rightarrow> machine_code c)
     \<and> 0 < circuit_revision r \<and> 0 \<le> circuit_updated_at r
     \<and> (circuit_state r = Closed
        \<longleftrightarrow> opened_at r = None \<and> retry_after r = None \<and> \<not> indefinite r \<and> \<not> probe_in_flight r)
     \<and> (circuit_state r \<noteq> Half_open \<or> probe_in_flight r)"

definition transition_check :: "circuit_transition \<Rightarrow> bool" where
  [row_checks]: "transition_check t \<longleftrightarrow>
     valid_uuid_v4 (circuit_transition_id t) \<and> machine_code (circuit_reason t) \<and> 0 < circuit_from_revision t
     \<and> circuit_to_revision t = circuit_from_revision t + 1 \<and> 0 \<le> circuit_occurred_at t
     \<and> 1 \<le> length (circuit_key t) \<and> length (circuit_key t) \<le> 160"

text \<open>The rows the migration inserts.\<close>

definition initial_circuit :: "circuit_row" where
  "initial_circuit = \<lparr>circuit_state = Closed, consecutive_failures = 0, first_failure = None,
     opened_at = None, retry_after = None, indefinite = False, probe_in_flight = False,
     last_error_code = None, circuit_revision = 1, circuit_updated_at = 0\<rparr>"

definition provider_names :: "string list" where
  "provider_names = [''openai_text'', ''openai_tts'', ''openai_transcription'']"

definition initial_circuit_db :: "circuit_db" where
  "initial_circuit_db = \<lparr>circuits = (\<lambda>p. if p \<in> set provider_names then Some initial_circuit else None),
     transitions = []\<rparr>"

section \<open>Statements\<close>

text \<open>
  An UPDATE of the row of a provider: the number of rows it changed and the tables after,
  or the violated constraint.
\<close>

definition update_circuit ::
    "string \<Rightarrow> (circuit_row \<Rightarrow> bool) \<Rightarrow> (circuit_row \<Rightarrow> circuit_row) \<Rightarrow> circuit_db \<Rightarrow> (nat \<times> circuit_db) res"
  where
  "update_circuit p condition change db =
     (case circuits db p of
        None \<Rightarrow> Inr (0, db)
      | Some r \<Rightarrow>
          if \<not> condition r then Inr (0, db)
          else if circuit_row_check (change r)
          then Inr (1, db\<lparr>circuits := (circuits db)(p := Some (change r))\<rparr>)
          else Inl (Constraint ''provider_circuit_state''))"

definition insert_transition :: "circuit_transition \<Rightarrow> circuit_db \<Rightarrow> circuit_db res" where
  "insert_transition t db =
     (if list_ex (\<lambda>u. circuit_transition_id u = circuit_transition_id t \<or> circuit_key u = circuit_key t) (transitions db)
         \<or> circuits db (circuit_provider t) = None \<or> \<not> transition_check t
      then Inl (Constraint ''provider_circuit_transition'')
      else Inr (db\<lparr>transitions := transitions db @ [t]\<rparr>))"

section \<open>The repository\<close>

definition failure_window_ms :: int where "failure_window_ms = 5 * 60 * 1000"

definition validate_circuit :: "string \<Rightarrow> int \<Rightarrow> string \<Rightarrow> unit res" where
  "validate_circuit p now_ms tid =
     require (\<not> (p \<noteq> ''openai_tts'' \<and> p \<noteq> ''openai_transcription'' \<or> now_ms < 0 \<or> \<not> valid_uuid_v4 tid))
       (Invalid_argument ''Provider circuit request is invalid.'')"

definition load_circuit :: "string \<Rightarrow> circuit_db \<Rightarrow> circuit_row res" where
  "load_circuit p db = (case circuits db p of
      None \<Rightarrow> Inl (Runtime_error ''Provider circuit row is missing.'')
    | Some r \<Rightarrow> Inr r)"

definition require_circuit_changed :: "nat \<Rightarrow> unit res" where
  "require_circuit_changed changes =
     require (changes = 1) (Runtime_error ''Provider circuit transition became stale.'')"

definition append_transition ::
    "string \<Rightarrow> circuit_row \<Rightarrow> circuit_state \<Rightarrow> string \<Rightarrow> string \<Rightarrow> int \<Rightarrow> circuit_db \<Rightarrow> circuit_db res"
  where
  "append_transition p before target reason tid now_ms db =
     insert_transition
       \<lparr>circuit_transition_id = tid, circuit_provider = p, circuit_from_state = circuit_state before,
        circuit_to_state = target, circuit_reason = reason,
        circuit_from_revision = circuit_revision before,
        circuit_to_revision = circuit_revision before + 1,
        circuit_occurred_at = now_ms, circuit_key = ''circuit:'' @ p @ '':'' @ tid\<rparr> db"

text \<open>An UPDATE that must change the row, and the transition that records it.\<close>

definition transition_to ::
    "string \<Rightarrow> circuit_row \<Rightarrow> (circuit_row \<Rightarrow> bool) \<Rightarrow> (circuit_row \<Rightarrow> circuit_row) \<Rightarrow> circuit_state
     \<Rightarrow> string \<Rightarrow> string \<Rightarrow> int \<Rightarrow> circuit_db \<Rightarrow> circuit_db res"
  where
  "transition_to p before condition change target reason tid now_ms db =
     rbind (update_circuit p condition change db) (\<lambda>(changes, db').
     rbind (require_circuit_changed changes) (\<lambda>_.
     append_transition p before target reason tid now_ms db'))"

definition close_circuit ::
    "string \<Rightarrow> circuit_row \<Rightarrow> int \<Rightarrow> string \<Rightarrow> string \<Rightarrow> circuit_db \<Rightarrow> circuit_db res"
  where
  "close_circuit p before now_ms tid reason db =
     transition_to p before (\<lambda>r. circuit_revision r = circuit_revision before)
       (\<lambda>r. r\<lparr>circuit_state := Closed, consecutive_failures := 0, first_failure := None, opened_at := None,
            retry_after := None, indefinite := False, probe_in_flight := False,
            last_error_code := None, circuit_revision := circuit_revision r + 1, circuit_updated_at := now_ms\<rparr>)
       Closed reason tid now_ms db"

definition release_probe ::
    "string \<Rightarrow> circuit_row \<Rightarrow> int \<Rightarrow> string \<Rightarrow> string \<Rightarrow> circuit_db \<Rightarrow> circuit_db res"
  where
  "release_probe p before now_ms tid reason db =
     (if circuit_state before \<noteq> Half_open then Inr db
      else transition_to p before (\<lambda>r. circuit_state r = Half_open \<and> circuit_revision r = circuit_revision before)
       (\<lambda>r. r\<lparr>circuit_state := Open,
            retry_after := map_option (\<lambda>o'. max o' now_ms) (opened_at r),
            indefinite := False, probe_in_flight := False, last_error_code := Some ''probe_abandoned'',
            circuit_revision := circuit_revision r + 1, circuit_updated_at := now_ms\<rparr>)
       Open reason tid now_ms db)"

definition circuit_restart :: "string \<Rightarrow> int \<Rightarrow> string \<Rightarrow> circuit_db \<Rightarrow> circuit_db res" where
  "circuit_restart p now_ms tid db =
     rbind (validate_circuit p now_ms tid) (\<lambda>_.
     rbind (load_circuit p db) (\<lambda>before.
     if circuit_state before = Half_open
     then release_probe p before now_ms tid ''process_restart_probe'' db
     else if circuit_state before = Open \<and> indefinite before
     then close_circuit p before now_ms tid ''process_restart'' db
     else Inr db))"

definition circuit_admit :: "string \<Rightarrow> int \<Rightarrow> string \<Rightarrow> circuit_db \<Rightarrow> (bool \<times> circuit_db) res" where
  "circuit_admit p now_ms tid db =
     rbind (validate_circuit p now_ms tid) (\<lambda>_.
     rbind (load_circuit p db) (\<lambda>before.
     if circuit_state before = Closed then Inr (True, db)
     else if circuit_state before = Half_open \<or> indefinite before
       \<or> (case retry_after before of None \<Rightarrow> True | Some t \<Rightarrow> now_ms < t)
     then Inr (False, db)
     else rbind (transition_to p before (\<lambda>r. circuit_state r = Open \<and> circuit_revision r = circuit_revision before)
         (\<lambda>r. r\<lparr>circuit_state := Half_open, probe_in_flight := True,
              circuit_revision := circuit_revision r + 1, circuit_updated_at := now_ms\<rparr>)
         Half_open ''cooldown_probe'' tid now_ms db) (\<lambda>db'.
       Inr (True, db'))))"

definition circuit_state_of :: "string \<Rightarrow> circuit_db \<Rightarrow> circuit_state res" where
  "circuit_state_of p db =
     (if p \<noteq> ''openai_tts'' \<and> p \<noteq> ''openai_transcription''
      then Inl (Invalid_argument ''Provider circuit request is invalid.'')
      else rbind (load_circuit p db) (\<lambda>r. Inr (circuit_state r)))"

definition circuit_succeeded :: "string \<Rightarrow> int \<Rightarrow> string \<Rightarrow> circuit_db \<Rightarrow> circuit_db res" where
  "circuit_succeeded p now_ms tid db =
     rbind (validate_circuit p now_ms tid) (\<lambda>_.
     rbind (load_circuit p db) (\<lambda>before.
     if circuit_state before = Half_open
     then close_circuit p before now_ms tid ''probe_succeeded'' db
     else if circuit_state before = Closed \<and> consecutive_failures before \<noteq> 0
     then rbind (update_circuit p (\<lambda>r. circuit_state r = Closed)
         (\<lambda>r. r\<lparr>consecutive_failures := 0, first_failure := None, last_error_code := None, circuit_updated_at := now_ms\<rparr>)
         db) (\<lambda>(_, db'). Inr db')
     else Inr db))"

datatype circuit_failure = Ignored | Retryable | Authentication

text \<open>The three writes of \<open>failed\<close>, after the count and the start of its window are known.\<close>

definition count_only ::
    "string \<Rightarrow> string \<Rightarrow> int \<Rightarrow> int \<Rightarrow> int \<Rightarrow> circuit_db \<Rightarrow> circuit_db res"
  where
  "count_only p reason first n now_ms db =
     rbind (update_circuit p (\<lambda>r. circuit_state r = Closed)
       (\<lambda>r. r\<lparr>consecutive_failures := n, first_failure := Some first,
            last_error_code := Some reason, circuit_updated_at := now_ms\<rparr>) db) (\<lambda>(_, db'). Inr db')"

definition extend_open ::
    "string \<Rightarrow> circuit_row \<Rightarrow> bool \<Rightarrow> string \<Rightarrow> int \<Rightarrow> int \<Rightarrow> int \<Rightarrow> string \<Rightarrow> circuit_db \<Rightarrow> circuit_db res"
  where
  "extend_open p before authentication reason first n now_ms tid db =
     transition_to p before (\<lambda>r. circuit_state r = Open \<and> circuit_revision r = circuit_revision before)
       (\<lambda>r. r\<lparr>consecutive_failures := n, first_failure := Some first, indefinite := authentication,
            retry_after := (if authentication then None else Some (now_ms + failure_window_ms)),
            last_error_code := Some reason, circuit_revision := circuit_revision r + 1,
            circuit_updated_at := now_ms\<rparr>)
       Open (if authentication then ''configuration_failure'' else ''retryable_failure_while_open'')
       tid now_ms db"

definition trip_open ::
    "string \<Rightarrow> circuit_row \<Rightarrow> bool \<Rightarrow> string \<Rightarrow> int \<Rightarrow> int \<Rightarrow> int \<Rightarrow> string \<Rightarrow> circuit_db \<Rightarrow> circuit_db res"
  where
  "trip_open p before authentication reason first n now_ms tid db =
     transition_to p before (\<lambda>r. circuit_revision r = circuit_revision before)
       (\<lambda>r. r\<lparr>circuit_state := Open, consecutive_failures := n, first_failure := Some first,
            opened_at := Some now_ms,
            retry_after := (if authentication then None else Some (now_ms + failure_window_ms)),
            indefinite := authentication, probe_in_flight := False, last_error_code := Some reason,
            circuit_revision := circuit_revision r + 1, circuit_updated_at := now_ms\<rparr>)
       Open (if authentication then ''configuration_failure'' else ''retryable_threshold'')
       tid now_ms db"

definition circuit_failed ::
    "string \<Rightarrow> circuit_failure \<Rightarrow> string \<Rightarrow> int \<Rightarrow> string \<Rightarrow> circuit_db \<Rightarrow> circuit_db res"
  where
  "circuit_failed p failure reason now_ms tid db =
     rbind (validate_circuit p now_ms tid) (\<lambda>_.
     rbind (require (\<not> (reason = [] \<or> 96 < length reason))
        (Invalid_argument ''Provider circuit reason is invalid.'')) (\<lambda>_.
     rbind (load_circuit p db) (\<lambda>before.
     if failure = Ignored then release_probe p before now_ms tid ''probe_abandoned'' db
     else let
       authentication = (failure = Authentication);
       fresh = (case first_failure before of None \<Rightarrow> True | Some t \<Rightarrow> now_ms - t > failure_window_ms);
       count = (if fresh then 1 else consecutive_failures before + 1);
       first = (if fresh then now_ms else the (first_failure before));
       should_open = (authentication \<or> circuit_state before = Half_open \<or> 3 \<le> count)
     in
       if \<not> should_open then count_only p reason first count now_ms db
       else if circuit_state before = Open
       then if indefinite before then Inr db
         else extend_open p before authentication reason first count now_ms tid db
       else trip_open p before authentication reason first count now_ms tid db)))"

section \<open>The contract: a breaker\<close>

text \<open>
  What the rows of a provider promise, without revisions, audit rows and error codes: calls
  pass (with the window of recent failures), are refused until a time or indefinitely, or
  one probe is out.
\<close>

datatype breaker =
    Passing "(int \<times> int) option"
  | Tripped int "int option" "(int \<times> int) option"
  | Probing int "(int \<times> int) option"

fun count_failure :: "int \<Rightarrow> (int \<times> int) option \<Rightarrow> int \<times> int" where
  "count_failure now None = (now, 1)"
| "count_failure now (Some (t, n)) = (if now - t > failure_window_ms then (now, 1) else (t, n + 1))"

fun breaker_restart :: "int \<Rightarrow> breaker \<Rightarrow> breaker" where
  "breaker_restart now (Passing w) = Passing w"
| "breaker_restart now (Tripped opened (Some retry) w) = Tripped opened (Some retry) w"
| "breaker_restart now (Tripped opened None w) = Passing None"
| "breaker_restart now (Probing opened w) = Tripped opened (Some (max opened now)) w"

fun breaker_admit :: "int \<Rightarrow> breaker \<Rightarrow> bool \<times> breaker" where
  "breaker_admit now (Passing w) = (True, Passing w)"
| "breaker_admit now (Tripped opened None w) = (False, Tripped opened None w)"
| "breaker_admit now (Tripped opened (Some retry) w) =
     (if now < retry then (False, Tripped opened (Some retry) w) else (True, Probing opened w))"
| "breaker_admit now (Probing opened w) = (False, Probing opened w)"

fun breaker_succeeded :: "breaker \<Rightarrow> breaker" where
  "breaker_succeeded (Passing w) = Passing None"
| "breaker_succeeded (Tripped opened retry w) = Tripped opened retry w"
| "breaker_succeeded (Probing opened w) = Passing None"

definition trip_until :: "circuit_failure \<Rightarrow> int \<Rightarrow> int option" where
  "trip_until failure now = (if failure = Authentication then None else Some (now + failure_window_ms))"

fun breaker_failed :: "circuit_failure \<Rightarrow> int \<Rightarrow> breaker \<Rightarrow> breaker" where
  "breaker_failed Ignored now (Probing opened w) = Tripped opened (Some (max opened now)) w"
| "breaker_failed Ignored now b = b"
| "breaker_failed failure now (Passing w) =
     (if failure = Authentication \<or> 3 \<le> snd (count_failure now w)
      then Tripped now (trip_until failure now) (Some (count_failure now w))
      else Passing (Some (count_failure now w)))"
| "breaker_failed failure now (Tripped opened None w) = Tripped opened None w"
| "breaker_failed failure now (Tripped opened (Some retry) w) =
     (if failure = Authentication \<or> 3 \<le> snd (count_failure now w)
      then Tripped opened (trip_until failure now) (Some (count_failure now w))
      else Tripped opened (Some retry) w)"
| "breaker_failed failure now (Probing opened w) =
     Tripped now (trip_until failure now) (Some (count_failure now w))"

definition window_of :: "circuit_row \<Rightarrow> (int \<times> int) option" where
  "window_of r = map_option (\<lambda>t. (t, consecutive_failures r)) (first_failure r)"

definition breaker_of :: "circuit_row \<Rightarrow> breaker" where
  "breaker_of r = (case circuit_state r of
      Closed \<Rightarrow> Passing (window_of r)
    | Open \<Rightarrow> Tripped (the (opened_at r)) (retry_after r) (window_of r)
    | Half_open \<Rightarrow> Probing (the (opened_at r)) (window_of r))"

text \<open>The rows the repository writes, beyond what their CHECKs ask.\<close>

definition circuit_row_inv :: "circuit_row \<Rightarrow> bool" where
  "circuit_row_inv r \<longleftrightarrow> circuit_row_check r
     \<and> (consecutive_failures r = 0 \<longleftrightarrow> first_failure r = None)
     \<and> (circuit_state r = Closed \<longrightarrow> consecutive_failures r < 3)
     \<and> (circuit_state r \<noteq> Closed \<longrightarrow> opened_at r \<noteq> None)
     \<and> (circuit_state r = Open \<longrightarrow> (indefinite r \<longleftrightarrow> retry_after r = None) \<and> \<not> probe_in_flight r)
     \<and> (circuit_state r = Half_open \<longrightarrow> \<not> indefinite r)"

section \<open>Operations as values\<close>

datatype circuit_op =
    Restart string int string
  | Admit string int string
  | Succeeded string int string
  | Failed string circuit_failure string int string

fun op_provider :: "circuit_op \<Rightarrow> string" where
  "op_provider (Restart p now tid) = p"
| "op_provider (Admit p now tid) = p"
| "op_provider (Succeeded p now tid) = p"
| "op_provider (Failed p failure reason now tid) = p"

fun op_now :: "circuit_op \<Rightarrow> int" where
  "op_now (Restart p now tid) = now"
| "op_now (Admit p now tid) = now"
| "op_now (Succeeded p now tid) = now"
| "op_now (Failed p failure reason now tid) = now"

fun op_id :: "circuit_op \<Rightarrow> string" where
  "op_id (Restart p now tid) = tid"
| "op_id (Admit p now tid) = tid"
| "op_id (Succeeded p now tid) = tid"
| "op_id (Failed p failure reason now tid) = tid"

text \<open>The answer of \<open>admit\<close>; the other operations answer nothing.\<close>

fun circuit_exec :: "circuit_op \<Rightarrow> circuit_db \<Rightarrow> (bool option \<times> circuit_db) res" where
  "circuit_exec (Restart p now tid) db = rbind (circuit_restart p now tid db) (\<lambda>db'. Inr (None, db'))"
| "circuit_exec (Admit p now tid) db = rbind (circuit_admit p now tid db) (\<lambda>(b, db'). Inr (Some b, db'))"
| "circuit_exec (Succeeded p now tid) db = rbind (circuit_succeeded p now tid db) (\<lambda>db'. Inr (None, db'))"
| "circuit_exec (Failed p failure reason now tid) db =
     rbind (circuit_failed p failure reason now tid db) (\<lambda>db'. Inr (None, db'))"

fun breaker_exec :: "circuit_op \<Rightarrow> breaker \<Rightarrow> bool option \<times> breaker" where
  "breaker_exec (Restart p now tid) b = (None, breaker_restart now b)"
| "breaker_exec (Admit p now tid) b = map_prod Some id (breaker_admit now b)"
| "breaker_exec (Succeeded p now tid) b = (None, breaker_succeeded b)"
| "breaker_exec (Failed p failure reason now tid) b = (None, breaker_failed failure now b)"

section \<open>Every operation is at most one recorded change of one row\<close>

definition key_of :: "string \<Rightarrow> string \<Rightarrow> string" where
  "key_of p tid = ''circuit:'' @ p @ '':'' @ tid"

definition audit_of :: "circuit_op \<Rightarrow> circuit_row \<Rightarrow> circuit_row \<Rightarrow> circuit_transition \<Rightarrow> bool" where
  "audit_of operation r r' t \<longleftrightarrow>
     circuit_transition_id t = op_id operation \<and> circuit_provider t = op_provider operation
     \<and> circuit_from_state t = circuit_state r \<and> circuit_to_state t = circuit_state r'
     \<and> circuit_from_revision t = circuit_revision r
     \<and> circuit_to_revision t = circuit_revision r' \<and> circuit_occurred_at t = op_now operation
     \<and> circuit_key t = key_of (op_provider operation) (op_id operation) \<and> valid_uuid_v4 (op_id operation)"

definition circuit_change :: "circuit_op \<Rightarrow> circuit_row \<Rightarrow> circuit_row \<Rightarrow> circuit_db \<Rightarrow> circuit_db \<Rightarrow> bool" where
  "circuit_change operation r r' db db' \<longleftrightarrow>
     circuits db (op_provider operation) = Some r
     \<and> circuits db' = (circuits db)(op_provider operation := Some r')
     \<and> (circuit_state r' = circuit_state r \<and> circuit_revision r' = circuit_revision r
          \<and> transitions db' = transitions db
        \<or> circuit_revision r' = circuit_revision r + 1
          \<and> op_id operation \<notin> circuit_transition_id ` set (transitions db)
          \<and> (\<exists>t. audit_of operation r r' t \<and> transitions db' = transitions db @ [t]))"

lemma update_circuit_Inr:
  "update_circuit p condition change db = Inr (n, db') \<longleftrightarrow>
     (case circuits db p of
        None \<Rightarrow> n = 0 \<and> db' = db
      | Some r \<Rightarrow> if condition r
          then circuit_row_check (change r) \<and> n = 1
            \<and> db' = db\<lparr>circuits := (circuits db)(p := Some (change r))\<rparr>
          else n = 0 \<and> db' = db)"
  by (auto simp: update_circuit_def split: option.splits)

lemma transition_to_Inr:
  assumes "circuits db p = Some r" "condition r"
    and "transition_to p r condition change target reason tid now_ms db = Inr db'"
  shows "circuit_row_check (change r) \<and> circuits db' = (circuits db)(p := Some (change r))
     \<and> valid_uuid_v4 tid \<and> tid \<notin> circuit_transition_id ` set (transitions db)
     \<and> transitions db' = transitions db @
         [\<lparr>circuit_transition_id = tid, circuit_provider = p, circuit_from_state = circuit_state r,
           circuit_to_state = target, circuit_reason = reason, circuit_from_revision = circuit_revision r,
           circuit_to_revision = circuit_revision r + 1, circuit_occurred_at = now_ms,
           circuit_key = ''circuit:'' @ p @ '':'' @ tid\<rparr>]"
  using assms
  by (auto simp: transition_to_def rbind_eq_Inr update_circuit_Inr append_transition_def
      insert_transition_def transition_check_def list_ex_iff split: if_splits)

lemma validate_circuit_Inr:
  "validate_circuit p now_ms tid = Inr u \<longleftrightarrow>
     p \<in> {''openai_tts'', ''openai_transcription''} \<and> 0 \<le> now_ms \<and> valid_uuid_v4 tid"
  by (auto simp: validate_circuit_def)

lemma load_circuit_Inr: "load_circuit p db = Inr r \<longleftrightarrow> circuits db p = Some r"
  by (auto simp: load_circuit_def split: option.splits)

lemmas circuit_op_simps = rbind_eq_Inr validate_circuit_Inr load_circuit_Inr

definition circuit_sound :: "circuit_op \<Rightarrow> bool option \<Rightarrow> circuit_row \<Rightarrow> circuit_row \<Rightarrow> circuit_db \<Rightarrow> circuit_db \<Rightarrow> bool" where
  "circuit_sound operation a r r' db db' \<longleftrightarrow>
     circuit_change operation r r' db db' \<and> circuit_row_inv r'
     \<and> breaker_exec operation (breaker_of r) = (a, breaker_of r')"

lemma unchanged_sound:
  "circuits db (op_provider operation) = Some r \<Longrightarrow> circuit_row_inv r
   \<Longrightarrow> breaker_exec operation (breaker_of r) = (a, breaker_of r) \<Longrightarrow> circuit_sound operation a r r db db"
  by (auto simp: circuit_sound_def circuit_change_def fun_upd_idem)

lemma quiet_sound:
  assumes "update_circuit (op_provider operation) condition change db = Inr (n, db')"
    and "circuits db (op_provider operation) = Some r" "condition r"
    and "circuit_state (change r) = circuit_state r" "circuit_revision (change r) = circuit_revision r"
    and "circuit_row_check (change r) \<Longrightarrow> circuit_row_inv (change r)
      \<and> breaker_exec operation (breaker_of r) = (a, breaker_of (change r))"
  shows "\<exists>r'. circuit_sound operation a r r' db db'"
  using assms by (auto simp: circuit_sound_def circuit_change_def update_circuit_Inr)

lemma recorded_sound:
  assumes "transition_to (op_provider operation) r condition change target reason (op_id operation) (op_now operation) db = Inr db'"
    and "circuits db (op_provider operation) = Some r" "condition r"
    and "circuit_revision (change r) = circuit_revision r + 1" "target = circuit_state (change r)"
    and "circuit_row_check (change r) \<Longrightarrow> circuit_row_inv (change r)
      \<and> breaker_exec operation (breaker_of r) = (a, breaker_of (change r))"
  shows "\<exists>r'. circuit_sound operation a r r' db db'"
  using transition_to_Inr [OF assms(2,3,1)] assms(2,4-6)
  by (intro exI [of _ "change r"]) (auto simp: circuit_sound_def circuit_change_def audit_of_def key_of_def)

lemmas inv_simps = circuit_row_inv_def breaker_of_def window_of_def

lemma release_probe_sound:
  assumes "release_probe (op_provider operation) r (op_now operation) (op_id operation) reason db = Inr db'"
    and "circuits db (op_provider operation) = Some r" "circuit_row_inv r"
    and "breaker_exec operation (breaker_of r) = (case breaker_of r of
        Probing opened w \<Rightarrow> (None, Tripped opened (Some (max opened (op_now operation))) w)
      | b \<Rightarrow> (None, b))"
  shows "\<exists>r'. circuit_sound operation None r r' db db'"
proof (cases "circuit_state r = Half_open")
  case True
  with assms(1) show ?thesis unfolding release_probe_def
    by (simp, elim recorded_sound [OF _ assms(2)])
      (use assms(3,4) True in \<open>auto simp: inv_simps\<close>)
next
  case False
  with assms have "db' = db" by (simp add: release_probe_def)
  with unchanged_sound [OF assms(2,3)] False assms(4) show ?thesis
    by (auto simp: breaker_of_def split: circuit_state.splits)
qed

lemma close_circuit_sound:
  assumes "close_circuit (op_provider operation) r (op_now operation) (op_id operation) reason db = Inr db'"
    and "circuits db (op_provider operation) = Some r" "circuit_row_inv r"
    and "breaker_exec operation (breaker_of r) = (None, Passing None)"
  shows "\<exists>r'. circuit_sound operation None r r' db db'"
  using assms(1) unfolding close_circuit_def
  by (elim recorded_sound [OF _ assms(2)])
     (use assms(3,4) in \<open>auto simp: inv_simps\<close>)

lemma restart_sound:
  assumes "circuit_restart p now tid db = Inr db'" "circuits db p = Some r" "circuit_row_inv r"
  shows "\<exists>r'. circuit_sound (Restart p now tid) None r r' db db'"
proof -
  let ?op = "Restart p now tid"
  from assms(1,2) have "if circuit_state r = Half_open
     then release_probe p r now tid ''process_restart_probe'' db = Inr db'
     else if circuit_state r = Open \<and> indefinite r then close_circuit p r now tid ''process_restart'' db = Inr db'
     else db' = db"
    by (auto simp: circuit_restart_def circuit_op_simps split: if_splits)
  then consider
    (release) "circuit_state r = Half_open" "release_probe p r now tid ''process_restart_probe'' db = Inr db'"
  | (close) "circuit_state r = Open" "indefinite r" "close_circuit p r now tid ''process_restart'' db = Inr db'"
  | (same) "circuit_state r \<noteq> Half_open" "circuit_state r = Open \<longrightarrow> \<not> indefinite r" "db' = db"
    by (auto split: if_splits)
  then show ?thesis
  proof cases
    case release
    with release_probe_sound [of ?op] assms(2,3) show ?thesis
      by (auto simp: breaker_of_def)
  next
    case close
    with assms(3) have "breaker_of r = Tripped (the (opened_at r)) None (window_of r)"
      by (auto simp: circuit_row_inv_def breaker_of_def)
    with close close_circuit_sound [of ?op] assms(2,3) show ?thesis by auto
  next
    case same
    have "breaker_exec ?op (breaker_of r) = (None, breaker_of r)"
      using same assms(3) by (cases "circuit_state r") (auto simp: breaker_of_def circuit_row_inv_def)
    with unchanged_sound [of db ?op] assms(2,3) same show ?thesis by auto
  qed
qed

lemma admit_sound:
  assumes "circuit_admit p now tid db = Inr (b, db')" "circuits db p = Some r" "circuit_row_inv r"
  shows "\<exists>r'. circuit_sound (Admit p now tid) (Some b) r r' db db'"
proof -
  let ?op = "Admit p now tid"
  let ?wait = "circuit_state r = Half_open \<or> indefinite r \<or> (case retry_after r of None \<Rightarrow> True | Some t \<Rightarrow> now < t)"
  consider (pass) "circuit_state r = Closed" | (refuse) "circuit_state r \<noteq> Closed" ?wait
    | (probe) "circuit_state r = Open" "\<not> ?wait"
    by (cases "circuit_state r") auto
  then show ?thesis
  proof cases
    case pass
    with assms have "db' = db" "b" by (auto simp: circuit_admit_def circuit_op_simps)
    with pass unchanged_sound [of db ?op r] assms(2,3) show ?thesis by (auto simp: breaker_of_def)
  next
    case refuse
    with assms have s: "db' = db" "\<not> b" by (auto simp: circuit_admit_def circuit_op_simps)
    have "breaker_exec ?op (breaker_of r) = (Some False, breaker_of r)"
      using refuse assms(3)
      by (cases "circuit_state r") (auto simp: breaker_of_def circuit_row_inv_def split: option.splits)
    with s unchanged_sound [of db ?op r] assms(2,3) show ?thesis by auto
  next
    case probe
    with assms(1,2) have b: b and t: "transition_to p r (\<lambda>r'. circuit_state r' = Open \<and> circuit_revision r' = circuit_revision r)
         (\<lambda>r. r\<lparr>circuit_state := Half_open, probe_in_flight := True,
              circuit_revision := circuit_revision r + 1, circuit_updated_at := now\<rparr>)
         Half_open ''cooldown_probe'' tid now db = Inr db'"
      by (auto simp: circuit_admit_def circuit_op_simps)
    from probe obtain t' where "retry_after r = Some t'" "t' \<le> now" by (auto split: option.splits)
    then show ?thesis using probe b assms(3)
      by (intro recorded_sound [of ?op, simplified, OF t assms(2)])
         (auto simp: inv_simps breaker_of_def)
  qed
qed

lemma succeeded_sound:
  assumes "circuit_succeeded p now tid db = Inr db'" "circuits db p = Some r" "circuit_row_inv r"
  shows "\<exists>r'. circuit_sound (Succeeded p now tid) None r r' db db'"
proof -
  let ?op = "Succeeded p now tid"
  consider (close) "circuit_state r = Half_open" | (reset) "circuit_state r = Closed" "consecutive_failures r \<noteq> 0"
    | (same) "circuit_state r = Open \<or> circuit_state r = Closed \<and> consecutive_failures r = 0"
    by (cases "circuit_state r") auto
  then show ?thesis
  proof cases
    case close
    with assms have "close_circuit p r now tid ''probe_succeeded'' db = Inr db'"
      by (auto simp: circuit_succeeded_def circuit_op_simps)
    with close_circuit_sound [of ?op] close assms(2,3) show ?thesis by (auto simp: breaker_of_def)
  next
    case reset
    with assms(1,2) obtain n where "update_circuit p (\<lambda>r. circuit_state r = Closed)
         (\<lambda>r. r\<lparr>consecutive_failures := 0, first_failure := None, last_error_code := None,
            circuit_updated_at := now\<rparr>) db = Inr (n, db')"
      by (auto simp: circuit_succeeded_def circuit_op_simps)
    then show ?thesis
      by (rule quiet_sound [of ?op, simplified, OF _ assms(2)])
         (use reset assms(3) in \<open>auto simp: inv_simps\<close>)
  next
    case same
    with assms(1,2) have s: "db' = db" by (auto simp: circuit_succeeded_def circuit_op_simps)
    have "breaker_exec ?op (breaker_of r) = (None, breaker_of r)"
      using same assms(3) by (auto simp: inv_simps)
    with s unchanged_sound [of db ?op r] assms(2,3) show ?thesis by auto
  qed
qed

lemma breaker_failed_hits:
  "failure \<noteq> Ignored \<Longrightarrow> breaker_failed failure now (Passing w) =
     (if failure = Authentication \<or> 3 \<le> snd (count_failure now w)
      then Tripped now (trip_until failure now) (Some (count_failure now w))
      else Passing (Some (count_failure now w)))"
  "failure \<noteq> Ignored \<Longrightarrow> breaker_failed failure now (Tripped opened retry w) =
     (if retry \<noteq> None \<and> (failure = Authentication \<or> 3 \<le> snd (count_failure now w))
      then Tripped opened (trip_until failure now) (Some (count_failure now w))
      else Tripped opened retry w)"
  "failure \<noteq> Ignored \<Longrightarrow> breaker_failed failure now (Probing opened w) =
     Tripped now (trip_until failure now) (Some (count_failure now w))"
  by (cases failure; cases retry; simp)+

lemma circuit_failed_eq:
  assumes "circuits db p = Some r" "failure \<noteq> Ignored" "count_failure now (window_of r) = (first, n)"
  shows "circuit_failed p failure reason now tid db = rbind (validate_circuit p now tid) (\<lambda>_.
     rbind (require (\<not> (reason = [] \<or> 96 < length reason))
        (Invalid_argument ''Provider circuit reason is invalid.'')) (\<lambda>_.
     if \<not> (failure = Authentication \<or> circuit_state r = Half_open \<or> 3 \<le> n)
     then count_only p reason first n now db
     else if circuit_state r = Open
     then if indefinite r then Inr db
       else extend_open p r (failure = Authentication) reason first n now tid db
     else trip_open p r (failure = Authentication) reason first n now tid db))"
proof -
  have w: "first = (if (case first_failure r of None \<Rightarrow> True | Some t \<Rightarrow> now - t > failure_window_ms)
       then now else the (first_failure r))"
    "n = (if (case first_failure r of None \<Rightarrow> True | Some t \<Rightarrow> now - t > failure_window_ms) then 1
       else consecutive_failures r + 1)"
    using assms(3) by (auto simp: window_of_def split: option.splits if_splits)
  show ?thesis
    unfolding circuit_failed_def load_circuit_def assms(1) w Let_def
    using assms(2) by (simp only: option.case rbind_simps if_False)
qed

lemma failed_sound:
  assumes "circuit_failed p failure reason now tid db = Inr db'" "circuits db p = Some r" "circuit_row_inv r"
  shows "\<exists>r'. circuit_sound (Failed p failure reason now tid) None r r' db db'"
proof (cases "failure = Ignored")
  case True
  with assms(1,2) have "release_probe p r now tid ''probe_abandoned'' db = Inr db'"
    by (auto simp: circuit_failed_def circuit_op_simps)
  with release_probe_sound [of "Failed p failure reason now tid"] True assms(2,3) show ?thesis
    by (auto simp: breaker_of_def split: circuit_state.splits)
next
  case False
  let ?op = "Failed p failure reason now tid"
  obtain first n where w: "count_failure now (window_of r) = (first, n)" by fastforce
  have n: "0 < n"
    using w assms(3)
    by (auto simp: window_of_def circuit_row_inv_def circuit_row_check_def split: option.splits if_splits)
  note run = assms(1) [unfolded circuit_failed_eq [OF assms(2) False w] rbind_eq_Inr]
  consider (count) "\<not> (failure = Authentication \<or> circuit_state r = Half_open \<or> 3 \<le> n)" "circuit_state r = Closed"
    | (late) "circuit_state r = Open" "indefinite r \<or> \<not> (failure = Authentication \<or> 3 \<le> n)"
    | (extend) "circuit_state r = Open" "\<not> indefinite r" "failure = Authentication \<or> 3 \<le> n"
    | (trip) "circuit_state r \<noteq> Open" "failure = Authentication \<or> circuit_state r = Half_open \<or> 3 \<le> n"
    by (cases "circuit_state r") auto
  then show ?thesis
  proof cases
    case count
    with run have "count_only p reason first n now db = Inr db'" by auto
    then show ?thesis unfolding count_only_def rbind_eq_Inr
      by (elim exE conjE, clarsimp, elim quiet_sound [of ?op, simplified, OF _ assms(2)])
         (use count False assms(3) w n in \<open>auto simp: circuit_row_inv_def breaker_of_def breaker_failed_hits,
           auto simp: window_of_def\<close>)
  next
    case late
    with run assms(2) have s: "db' = db"
      by (auto simp: count_only_def rbind_eq_Inr update_circuit_Inr split: if_splits)
    have "breaker_exec ?op (breaker_of r) = (None, breaker_of r)"
      using late w False assms(3) by (auto simp: breaker_of_def breaker_failed_hits circuit_row_inv_def)
    with s unchanged_sound [of db ?op r] assms(2,3) show ?thesis by auto
  next
    case extend
    with run have "extend_open p r (failure = Authentication) reason first n now tid db = Inr db'" by auto
    then show ?thesis unfolding extend_open_def
      by (rule recorded_sound [of ?op, simplified, OF _ assms(2)])
         (use extend False assms(3) w n in \<open>auto simp: circuit_row_inv_def breaker_of_def
           breaker_failed_hits trip_until_def, auto simp: window_of_def\<close>)
  next
    case trip
    with run have "trip_open p r (failure = Authentication) reason first n now tid db = Inr db'" by auto
    then show ?thesis unfolding trip_open_def
      by (rule recorded_sound [of ?op, simplified, OF _ assms(2)])
         (use trip False assms(3) w n in \<open>auto simp: circuit_row_inv_def breaker_of_def
           breaker_failed_hits trip_until_def split: circuit_state.splits, auto simp: window_of_def\<close>)
  qed
qed

lemma circuit_exec_sound:
  assumes "circuit_exec operation db = Inr (a, db')" "circuits db (op_provider operation) = Some r"
    and "circuit_row_inv r"
  shows "\<exists>r'. circuit_sound operation a r r' db db'"
  using assms
  by (cases operation)
    (auto simp: rbind_eq_Inr dest!: restart_sound admit_sound succeeded_sound failed_sound)

section \<open>Runs\<close>

text \<open>An operation that throws is rolled back.\<close>

definition circuit_apply :: "circuit_op \<Rightarrow> circuit_db \<Rightarrow> circuit_db" where
  "circuit_apply operation db = (case circuit_exec operation db of Inl _ \<Rightarrow> db | Inr (_, db') \<Rightarrow> db')"

definition circuit_run :: "circuit_op list \<Rightarrow> circuit_db" where
  "circuit_run ops = fold circuit_apply ops initial_circuit_db"

definition rows_sound :: "circuit_db \<Rightarrow> bool" where
  "rows_sound db \<longleftrightarrow> (\<forall>p \<in> set provider_names. \<exists>r. circuits db p = Some r \<and> circuit_row_inv r)"

lemma exec_provider:
  "circuit_exec operation db = Inr (a, db') \<Longrightarrow> op_provider operation \<in> set provider_names"
  by (cases operation)
     (auto simp: rbind_eq_Inr circuit_restart_def circuit_admit_def circuit_succeeded_def
      circuit_failed_def validate_circuit_Inr provider_names_def)

lemma exec_sound_obtain:
  assumes "circuit_exec operation db = Inr (a, db')" "rows_sound db"
  obtains r r' where "circuits db (op_provider operation) = Some r" "circuit_row_inv r"
    "circuit_sound operation a r r' db db'"
  using assms exec_provider [OF assms(1)] circuit_exec_sound [OF assms(1)]
  unfolding rows_sound_def by blast

lemma rows_sound_initial: "rows_sound initial_circuit_db"
  by (auto simp: rows_sound_def initial_circuit_db_def initial_circuit_def circuit_row_inv_def
      circuit_row_check_def)

lemma rows_sound_exec:
  assumes "circuit_exec operation db = Inr (a, db')" "rows_sound db"
  shows "rows_sound db'"
proof (rule exec_sound_obtain [OF assms])
  fix r r'
  assume "circuits db (op_provider operation) = Some r" "circuit_sound operation a r r' db db'"
  then show ?thesis using assms(2) by (auto simp: rows_sound_def circuit_sound_def circuit_change_def)
qed

lemma rows_sound_apply: "rows_sound db \<Longrightarrow> rows_sound (circuit_apply operation db)"
  by (auto simp: circuit_apply_def rows_sound_exec split: sum.splits)

lemma rows_sound_run: "rows_sound (circuit_run ops)"
proof -
  have "rows_sound db \<Longrightarrow> rows_sound (fold circuit_apply ops db)" for db
    by (induction ops arbitrary: db) (auto simp: rows_sound_apply)
  then show ?thesis by (simp add: circuit_run_def rows_sound_initial)
qed

definition breaker_for :: "string \<Rightarrow> circuit_db \<Rightarrow> breaker option" where
  "breaker_for p db = map_option breaker_of (circuits db p)"

text \<open>
  Property C13: after any history of operations, of any provider, that the repository served
  or rejected, the next operation it serves answers and moves the circuit exactly as the
  breaker contract says, and touches the row of no other provider.
\<close>

theorem circuit_refines_breaker:
  assumes "circuit_exec operation (circuit_run ops) = Inr (a, db')"
  shows "\<exists>b. breaker_for (op_provider operation) (circuit_run ops) = Some b
     \<and> (a, breaker_for (op_provider operation) db') = map_prod id Some (breaker_exec operation b)
     \<and> (\<forall>p. p = op_provider operation \<or> circuits db' p = circuits (circuit_run ops) p)"
proof -
  from exec_sound_obtain [OF assms rows_sound_run] obtain r r' where
    "circuits (circuit_run ops) (op_provider operation) = Some r"
    "circuit_sound operation a r r' (circuit_run ops) db'" by blast
  then show ?thesis by (auto simp: circuit_sound_def circuit_change_def breaker_for_def)
qed

section \<open>Integrity\<close>











section \<open>Service: which requests are rejected\<close>

fun op_well_formed :: "circuit_op \<Rightarrow> bool" where
  "op_well_formed (Failed p failure reason now tid) \<longleftrightarrow>
     p \<in> {''openai_tts'', ''openai_transcription''} \<and> 0 \<le> now \<and> valid_uuid_v4 tid \<and> machine_code reason"
| "op_well_formed operation \<longleftrightarrow>
     op_provider operation \<in> {''openai_tts'', ''openai_transcription''} \<and> 0 \<le> op_now operation
     \<and> valid_uuid_v4 (op_id operation)"

definition timely :: "int \<Rightarrow> circuit_db \<Rightarrow> bool" where
  "timely now db \<longleftrightarrow> rows_sound db
     \<and> (\<forall>p r t. circuits db p = Some r \<longrightarrow> opened_at r = Some t \<longrightarrow> t \<le> now)
     \<and> list_all (\<lambda>t. length (circuit_transition_id t) = 36
          \<and> circuit_key t = key_of (circuit_provider t) (circuit_transition_id t)) (transitions db)"

lemma key_of_inj: "length i = 36 \<Longrightarrow> length j = 36 \<Longrightarrow> key_of p i = key_of q j \<Longrightarrow> i = j"
proof -
  assume "length i = 36" "length j = 36" "key_of p i = key_of q j"
  then have "length i = length j" "(p @ '':'') @ i = (q @ '':'') @ j" by (simp_all add: key_of_def)
  then show "i = j" by (blast dest: append_eq_append_conv [THEN iffD1, rotated])
qed

lemma valid_uuid_length: "valid_uuid_v4 s \<Longrightarrow> length s = 36"
  by (simp add: valid_uuid_v4_def)

lemma transition_to_served:
  assumes "timely now db" "circuits db p = Some r" "condition r" "circuit_row_check (change r)"
    and "valid_uuid_v4 tid" "tid \<notin> circuit_transition_id ` set (transitions db)" "0 \<le> now_ms"
    and "machine_code reason" "0 < circuit_revision r" "length p \<le> 20"
  shows "\<exists>db'. transition_to p r condition change target reason tid now_ms db = Inr db'"
proof -
  have "circuit_key u \<noteq> key_of p tid" if "u \<in> set (transitions db)" for u
    using assms(1,6) that key_of_inj [OF _ valid_uuid_length [OF assms(5)]]
    by (fastforce simp: timely_def list_all_iff)
  moreover have "1 \<le> length (key_of p tid) \<and> length (key_of p tid) \<le> 160"
    using assms(10) valid_uuid_length [OF assms(5)] by (simp add: key_of_def)
  ultimately show ?thesis
    using assms
    by (auto simp: transition_to_def update_circuit_def append_transition_def insert_transition_def
        require_circuit_changed_def transition_check_def list_ex_iff key_of_def)
qed

lemma fixed_reasons [simp]:
  "machine_code ''process_restart_probe''" "machine_code ''process_restart''"
  "machine_code ''cooldown_probe''" "machine_code ''probe_succeeded''"
  "machine_code ''probe_abandoned''" "machine_code ''configuration_failure''"
  "machine_code ''retryable_failure_while_open''" "machine_code ''retryable_threshold''"
  by code_simp+

lemma rows_sound_row: "rows_sound db \<Longrightarrow> p \<in> set provider_names \<Longrightarrow> \<exists>r. circuits db p = Some r \<and> circuit_row_inv r"
  by (simp add: rows_sound_def)

lemma machine_code_length: "machine_code s \<Longrightarrow> s \<noteq> [] \<and> length s \<le> 96"
  by (auto simp: machine_code_def)

lemma update_circuit_served:
  "circuits db p = Some r \<Longrightarrow> (condition r \<Longrightarrow> circuit_row_check (change r))
   \<Longrightarrow> \<exists>n db'. update_circuit p condition change db = Inr (n, db')"
  by (simp add: update_circuit_def)

lemma circuit_exec_served:
  assumes t: "timely now db" and w: "op_well_formed operation" and n: "now \<le> op_now operation"
    and f: "op_id operation \<notin> circuit_transition_id ` set (transitions db)"
  shows "\<exists>a db'. circuit_exec operation db = Inr (a, db')"
proof -
  let ?p = "op_provider operation"
  have p: "?p \<in> {''openai_tts'', ''openai_transcription''}" "0 \<le> op_now operation" "valid_uuid_v4 (op_id operation)"
    using w by (cases operation; auto)+
  then have "?p \<in> set provider_names" "length ?p \<le> 20" by (auto simp: provider_names_def)
  then obtain r where r: "circuits db ?p = Some r" "circuit_row_inv r" and lp: "length ?p \<le> 20"
    using t rows_sound_row unfolding timely_def by blast
  have o': "opened_at r = Some t' \<Longrightarrow> t' \<le> op_now operation" for t'
    using t r(1) n by (fastforce simp: timely_def)
  have v: "validate_circuit ?p (op_now operation) (op_id operation) = Inr ()" using p by (simp add: validate_circuit_Inr)
  have l: "load_circuit ?p db = Inr r" using r by (simp add: load_circuit_Inr)
  have c: "circuit_row_check r" "0 < circuit_revision r" using r(2) by (simp_all add: circuit_row_inv_def circuit_row_check_def)
  note served = transition_to_served [OF t r(1) _ _ p(3) f p(2) _ c(2) lp]
  have close: "\<exists>db'. close_circuit ?p r (op_now operation) (op_id operation) reason db = Inr db'"
    if "machine_code reason" for reason
    unfolding close_circuit_def using that c p(2) by (intro served) (auto simp: circuit_row_check_def)
  have release: "\<exists>db'. release_probe ?p r (op_now operation) (op_id operation) reason db = Inr db'"
    if "machine_code reason" for reason
  proof (cases "circuit_state r = Half_open")
    case True
    then show ?thesis unfolding release_probe_def
      using that c p(2) r(2) by (simp, intro served) (auto simp: circuit_row_check_def circuit_row_inv_def)
  qed (simp add: release_probe_def)
  note close = close [OF fixed_reasons(2)] close [OF fixed_reasons(4)]
  note release = release [OF fixed_reasons(1)] release [OF fixed_reasons(5)]
  show ?thesis
  proof (cases operation)
    case (Restart q m i)
    with close release v l show ?thesis by (auto simp: circuit_restart_def)
  next
    case (Admit q m i)
    show ?thesis
    proof (cases "circuit_state r = Open \<and> retry_after r \<noteq> None")
      case True
      have "\<exists>db'. transition_to q r (\<lambda>r'. circuit_state r' = Open \<and> circuit_revision r' = circuit_revision r)
         (\<lambda>r. r\<lparr>circuit_state := Half_open, probe_in_flight := True,
              circuit_revision := circuit_revision r + 1, circuit_updated_at := m\<rparr>)
         Half_open ''cooldown_probe'' i m db = Inr db'"
        using served Admit True c p(2) by (auto simp: circuit_row_check_def)
      with Admit v l show ?thesis by (auto simp: circuit_admit_def)
    next
      case False
      with Admit v l show ?thesis by (cases "circuit_state r") (auto simp: circuit_admit_def)
    qed
  next
    case (Succeeded q m i)
    have "\<exists>k db'. update_circuit q (\<lambda>r. circuit_state r = Closed)
         (\<lambda>r. r\<lparr>consecutive_failures := 0, first_failure := None, last_error_code := None,
            circuit_updated_at := m\<rparr>) db = Inr (k, db')"
      using Succeeded c p(2) r(1) by (intro update_circuit_served [of _ _ r]) (auto simp: circuit_row_check_def)
    with Succeeded close v l show ?thesis by (auto simp: circuit_succeeded_def)
  next
    case (Failed q failure reason m i)
    then have m: "machine_code reason" "reason \<noteq> []" "\<not> 96 < length reason" "0 \<le> m" "\<And>t. opened_at r = Some t \<Longrightarrow> t \<le> m"
      using w machine_code_length [of reason] p o' by auto
    show ?thesis
    proof (cases "failure = Ignored")
      case True
      with Failed release v l m show ?thesis by (auto simp: circuit_failed_def)
    next
      case False
      obtain first n where wn: "count_failure m (window_of r) = (first, n)" by fastforce
      have n: "0 < n" "0 \<le> first"
        using wn c(1) m(4)
        by (auto simp: window_of_def circuit_row_check_def split: option.splits if_splits)
      have "circuit_row_check (change r) \<Longrightarrow> condition r
        \<Longrightarrow> \<exists>db'. transition_to q r condition change target
          (if failure = Authentication then ''configuration_failure'' else why) i m db = Inr db'"
        if "machine_code why" for condition change target why
        using served [of condition change] that Failed by auto
      note tr = this
      have "\<exists>db'. count_only q reason first n m db = Inr db'"
      proof -
        have "\<exists>k db'. update_circuit q (\<lambda>r. circuit_state r = Closed)
           (\<lambda>r. r\<lparr>consecutive_failures := n, first_failure := Some first,
              last_error_code := Some reason, circuit_updated_at := m\<rparr>) db = Inr (k, db')"
          using Failed c m n r(1)
          by (intro update_circuit_served [of _ _ r]) (auto simp: circuit_row_check_def)
        then show ?thesis by (auto simp: count_only_def)
      qed
      moreover have "\<exists>db'. trip_open q r (failure = Authentication) reason first n m i db = Inr db'"
        unfolding trip_open_def using c m n
        by (intro tr) (auto simp: circuit_row_check_def failure_window_ms_def)
      moreover have "\<exists>db'. extend_open q r (failure = Authentication) reason first n m i db = Inr db'"
        if st: "circuit_state r = Open"
      proof -
        obtain t' where "opened_at r = Some t'" "t' \<le> m"
          using r(2) st m(5) by (auto simp: circuit_row_inv_def)
        then show ?thesis unfolding extend_open_def using c m(1-4) n r(2) st
          by (intro tr) (auto simp: circuit_row_check_def circuit_row_inv_def failure_window_ms_def)
      qed
      ultimately show ?thesis
        using Failed v r(1) m circuit_failed_eq [of db q r failure m first n reason i, OF _ False wn]
        by auto
    qed
  qed
qed


fun opened_of :: "breaker \<Rightarrow> int option" where
  "opened_of (Passing w) = None"
| "opened_of (Tripped opened retry w) = Some opened"
| "opened_of (Probing opened w) = Some opened"

lemma opened_of_row: "circuit_row_inv r \<Longrightarrow> opened_of (breaker_of r) = opened_at r"
  by (cases "circuit_state r") (auto simp: breaker_of_def circuit_row_inv_def circuit_row_check_def)

lemma breaker_tripped:
  "breaker_restart now (Tripped opened retry w) =
     (case retry of None \<Rightarrow> Passing None | Some t \<Rightarrow> Tripped opened (Some t) w)"
  "breaker_admit now (Tripped opened retry w) =
     (case retry of None \<Rightarrow> (False, Tripped opened None w)
      | Some t \<Rightarrow> if now < t then (False, Tripped opened (Some t) w) else (True, Probing opened w))"
  by (cases retry; simp)+

lemma opened_of_exec:
  "opened_of (snd (breaker_exec operation b)) = Some t \<Longrightarrow> t = op_now operation \<or> opened_of b = Some t"
proof (cases operation)
  case (Failed p failure reason now tid)
  assume "opened_of (snd (breaker_exec operation b)) = Some t"
  with Failed show ?thesis
    by (cases "failure = Ignored"; cases b) (auto simp: breaker_failed_hits split: if_splits)
qed (cases b; auto simp: breaker_tripped split: if_splits option.splits)+

lemma timely_exec:
  assumes "circuit_exec operation db = Inr (a, db')" "timely now db" "now \<le> op_now operation"
  shows "timely (op_now operation) db'"
proof -
  have rs: "rows_sound db" using assms(2) by (simp add: timely_def)
  from exec_sound_obtain [OF assms(1) rs] obtain r r' where
    r: "circuits db (op_provider operation) = Some r" "circuit_row_inv r"
      "circuit_change operation r r' db db'" "circuit_row_inv r'"
      "breaker_exec operation (breaker_of r) = (a, breaker_of r')"
    unfolding circuit_sound_def by blast
  have old: "t \<le> now" if "circuits db p = Some s" "opened_at s = Some t" for p s t
    using that assms(2) unfolding timely_def by blast
  have new: "t \<le> op_now operation" if "opened_at r' = Some t" for t
    using that opened_of_exec [of operation "breaker_of r" t] r assms(3) old [OF r(1), of t]
    by (auto simp: opened_of_row)
  have c: "circuits db' = (circuits db)(op_provider operation := Some r')"
    using r(3) by (simp add: circuit_change_def)
  have A: "\<forall>p s t. circuits db' p = Some s \<longrightarrow> opened_at s = Some t \<longrightarrow> t \<le> op_now operation"
    using new old order.trans [OF _ assms(3)] unfolding c by (simp split: if_splits)
  have B: "list_all (\<lambda>t. length (circuit_transition_id t) = 36
          \<and> circuit_key t = key_of (circuit_provider t) (circuit_transition_id t)) (transitions db')"
    using r(3) assms(2) by (auto simp: timely_def circuit_change_def audit_of_def valid_uuid_length)
  show ?thesis
    unfolding timely_def by (rule conjI [OF rows_sound_exec [OF assms(1) rs] conjI [OF A B]])
qed

definition used_ids :: "circuit_db \<Rightarrow> string set" where
  "used_ids db = circuit_transition_id ` set (transitions db)"

lemma ids_exec:
  assumes "circuit_exec operation db = Inr (a, db')" "rows_sound db"
  shows "used_ids db' \<subseteq> insert (op_id operation) (used_ids db)"
  by (rule exec_sound_obtain [OF assms])
    (auto simp: used_ids_def circuit_sound_def circuit_change_def audit_of_def)


lemma timely_mono: "timely now db \<Longrightarrow> now \<le> now' \<Longrightarrow> timely now' db"
  unfolding timely_def by (meson order.trans)

lemma timely_apply:
  "timely now db \<Longrightarrow> now \<le> op_now operation \<Longrightarrow> timely (op_now operation) (circuit_apply operation db)"
  using timely_mono timely_exec by (auto simp: circuit_apply_def split: sum.splits)

lemma timely_run:
  "timely now db \<Longrightarrow> sorted (now # map op_now ops) \<Longrightarrow>
   timely (last (now # map op_now ops)) (fold circuit_apply ops db)
   \<and> used_ids (fold circuit_apply ops db) \<subseteq> used_ids db \<union> op_id ` set ops"
proof (induction ops arbitrary: now db)
  case (Cons operation ops)
  have t: "timely (op_now operation) (circuit_apply operation db)"
    using Cons.prems timely_apply by auto
  have "used_ids (circuit_apply operation db) \<subseteq> insert (op_id operation) (used_ids db)"
    using Cons.prems ids_exec [of operation db]
    by (auto simp: circuit_apply_def timely_def split: sum.splits)
  moreover have "sorted (op_now operation # map op_now ops)" using Cons.prems by simp
  note Cons.IH [OF t this]
  ultimately show ?case by auto
qed simp

text \<open>
  The repository turns no well-formed request away: after any history, an
  operation of a known provider with a valid transition id that no earlier operation used, a
  machine-readable reason and a clock that has not gone back is served, whatever the state
  of the circuit; neither a table constraint nor a stale revision ever stops it.
\<close>

theorem circuit_serves_well_formed:
  assumes "op_well_formed operation" and "sorted (map op_now (ops @ [operation]))"
    and "op_id operation \<notin> op_id ` set ops"
  shows "\<exists>a db'. circuit_exec operation (circuit_run ops) = Inr (a, db')"
proof -
  let ?t = "hd (map op_now (ops @ [operation]))"
  have t: "timely ?t initial_circuit_db"
    using rows_sound_initial by (auto simp: timely_def initial_circuit_db_def initial_circuit_def)
  have s: "sorted (?t # map op_now ops)"
    using assms(2) by (cases ops) (auto simp: sorted_append)
  have "\<forall>m \<in> set (map op_now ops). m \<le> op_now operation"
    using assms(2) by (simp add: sorted_append)
  moreover have "last (?t # map op_now ops) \<in> set (?t # map op_now ops)" by (rule last_in_set) simp
  ultimately have l: "last (?t # map op_now ops) \<le> op_now operation"
    by (cases ops) (auto simp del: last.simps)
  note r = timely_run [OF t s, folded circuit_run_def]
  have "used_ids initial_circuit_db = {}" by (simp add: used_ids_def initial_circuit_db_def)
  with r assms(3) have "op_id operation \<notin> used_ids (circuit_run ops)" by blast
  then show ?thesis
    unfolding used_ids_def by (rule circuit_exec_served [OF conjunct1 [OF r] assms(1) l])
qed


theorem circuit_serves_well_formed_witness:
  "\<exists>a db'. circuit_exec (Admit ''openai_tts'' 5 ''123e4567-e89b-42d3-a456-426614174000'') (circuit_run []) = Inr (a, db')"
proof -
  have "op_well_formed (Admit ''openai_tts'' 5 ''123e4567-e89b-42d3-a456-426614174000'')"
    by code_simp
  from circuit_serves_well_formed [OF this, of "[]"] show ?thesis by simp
qed

section \<open>What the clients of a circuit see\<close>

text \<open>The breaker of one provider over a history.\<close>

lemma run_apply: "circuit_run (ops @ [operation]) = circuit_apply operation (circuit_run ops)"
  by (simp add: circuit_run_def)

lemma breaker_apply:
  assumes "rows_sound db" "breaker_for p db = Some b"
  obtains "breaker_for p (circuit_apply operation db) = Some b"
  | "op_provider operation = p" "breaker_for p (circuit_apply operation db) = Some (snd (breaker_exec operation b))"
proof (cases "circuit_exec operation db")
  case (Inl e)
  then show thesis using that(1) assms(2) by (simp add: circuit_apply_def)
next
  case (Inr x)
  obtain a db' where x: "circuit_exec operation db = Inr (a, db')" using Inr by (cases x) simp
  show thesis
  proof (rule exec_sound_obtain [OF x assms(1)])
    fix r r'
    assume "circuits db (op_provider operation) = Some r" "circuit_sound operation a r r' db db'"
    then show thesis using that assms(2) x
      by (cases "op_provider operation = p")
        (auto simp: circuit_apply_def breaker_for_def circuit_sound_def circuit_change_def)
  qed
qed

lemma breaker_run_invariant:
  assumes "I b" "breaker_for p db = Some b" "rows_sound db"
    and "\<And>operation b. operation \<in> set ops \<Longrightarrow> op_provider operation = p \<Longrightarrow> I b
      \<Longrightarrow> I (snd (breaker_exec operation b))"
  shows "\<exists>b'. breaker_for p (fold circuit_apply ops db) = Some b' \<and> I b' \<and> rows_sound (fold circuit_apply ops db)"
  using assms
proof (induction ops arbitrary: b db)
  case (Cons operation ops)
  have "\<exists>b'. breaker_for p (circuit_apply operation db) = Some b' \<and> I b'"
    by (rule breaker_apply [OF Cons.prems(3,2), of operation]) (use Cons.prems in auto)
  then obtain b' where b': "breaker_for p (circuit_apply operation db) = Some b'" "I b'" by blast
  have "\<exists>b'. breaker_for p (fold circuit_apply ops (circuit_apply operation db)) = Some b' \<and> I b'
      \<and> rows_sound (fold circuit_apply ops (circuit_apply operation db))"
  proof -
    have "I (snd (breaker_exec operation b))" if "operation \<in> set ops" "op_provider operation = p" "I b"
      for operation b
      by (rule Cons.prems(4)) (use that in simp_all)
    from Cons.IH [OF b'(2,1) rows_sound_apply [OF Cons.prems(3)] this] show ?thesis by simp
  qed
  then show ?case by simp
qed auto

fun is_restart :: "circuit_op \<Rightarrow> bool" where
  "is_restart (Restart p now tid) = True"
| "is_restart operation = False"

lemma exec_breaker:
  assumes "circuit_exec operation db = Inr (a, db')" "rows_sound db"
  obtains b where "breaker_for (op_provider operation) db = Some b"
    "a = fst (breaker_exec operation b)"
    "breaker_for (op_provider operation) db' = Some (snd (breaker_exec operation b))" "rows_sound db'"
proof (rule exec_sound_obtain [OF assms])
  fix r r'
  assume "circuits db (op_provider operation) = Some r" "circuit_sound operation a r r' db db'"
  then show thesis using rows_sound_exec [OF assms]
    by (intro that [of "breaker_of r"]) (auto simp: breaker_for_def circuit_sound_def circuit_change_def)
qed

lemma authentication_trips: "\<exists>opened w. breaker_failed Authentication now b = Tripped opened None w"
proof (cases b)
  case (Tripped opened retry w)
  then show ?thesis by (cases retry) (auto simp: trip_until_def)
qed (auto simp: trip_until_def)

lemma tripped_stays:
  "\<not> is_restart operation \<Longrightarrow> snd (breaker_exec operation (Tripped opened None w)) = Tripped opened None w"
proof (cases operation)
  case (Failed p failure reason now tid)
  then show ?thesis by (cases failure) auto
qed auto

text \<open>
  An authentication failure closes the door for good: once it is recorded, no
  later call of the provider is admitted, at any time and whatever else is reported of it,
  until the process restarts the circuit.
\<close>

theorem authentication_failure_blocks:
  assumes "circuit_exec (Failed p Authentication reason now tid) (circuit_run ops) = Inr (a, db)"
    and "\<not> list_ex is_restart later"
    and "circuit_exec (Admit p now' tid') (fold circuit_apply later db) = Inr (answer, db')"
  shows "answer = Some False"
proof -
  let ?I = "\<lambda>b. \<exists>opened w. b = Tripped opened None w"
  obtain b where b: "breaker_for p db = Some b" "?I b" "rows_sound db"
    using exec_breaker [OF assms(1) rows_sound_run] authentication_trips by (metis breaker_exec.simps(4) op_provider.simps(4) snd_conv)
  have "?I (snd (breaker_exec operation b))" if "operation \<in> set later" "?I b" for operation b
    using that assms(2) tripped_stays by (auto simp: list_ex_iff)
  then obtain b' where b': "breaker_for p (fold circuit_apply later db) = Some b'" "?I b'"
      "rows_sound (fold circuit_apply later db)"
    using breaker_run_invariant [of ?I b p db later] b by blast
  show ?thesis
    by (rule exec_breaker [OF assms(3) b'(3)]) (use b' in auto)
qed

fun reports_of :: "string \<Rightarrow> circuit_op \<Rightarrow> bool" where
  "reports_of p (Admit q now tid) = False"
| "reports_of p operation = (op_provider operation = p)"

text \<open>
  Half-open means one probe: after an open circuit has admitted a call, every
  other call of the provider is refused, at any time, until the probe is reported or the
  process restarts the circuit.
\<close>

theorem one_probe_at_a_time:
  assumes "circuit_state_of p (circuit_run ops) \<noteq> Inr Closed"
    and "circuit_exec (Admit p now tid) (circuit_run ops) = Inr (Some True, db)"
    and "\<not> list_ex (reports_of p) later"
    and "circuit_exec (Admit p now' tid') (fold circuit_apply later db) = Inr (answer, db')"
  shows "answer = Some False"
proof -
  let ?I = "\<lambda>b. \<exists>opened w. b = Probing opened w"
  obtain b where b: "breaker_for p (circuit_run ops) = Some b" "fst (breaker_admit now b)"
      "breaker_for p db = Some (snd (breaker_admit now b))" "rows_sound db"
    by (rule exec_breaker [OF assms(2) rows_sound_run]) auto
  have p: "p \<in> {''openai_tts'', ''openai_transcription''}"
    using assms(2) by (auto simp: circuit_admit_def rbind_eq_Inr validate_circuit_Inr)
  obtain r where r: "circuits (circuit_run ops) p = Some r" "b = breaker_of r"
    using b(1) by (auto simp: breaker_for_def)
  with p assms(1) have "circuit_state r \<noteq> Closed" by (auto simp: circuit_state_of_def load_circuit_def)
  with r have "\<not> (\<exists>w. b = Passing w)" by (cases "circuit_state r") (auto simp: breaker_of_def)
  with b(2) have i: "?I (snd (breaker_admit now b))"
    by (cases b) (auto simp: breaker_tripped split: option.splits if_splits)
  have "?I (snd (breaker_exec operation b))"
    if "operation \<in> set later" "op_provider operation = p" "?I b" for operation b
  proof -
    have "\<not> reports_of p operation" using that(1) assms(3) by (auto simp: list_ex_iff)
    with that(2,3) show ?thesis by (cases operation) auto
  qed
  then obtain b' where b': "breaker_for p (fold circuit_apply later db) = Some b'" "?I b'"
      "rows_sound (fold circuit_apply later db)"
    using breaker_run_invariant [of ?I "snd (breaker_admit now b)" p db later] b i by blast
  show ?thesis
    by (rule exec_breaker [OF assms(4) b'(3)]) (use b' in auto)
qed

text \<open>
  Three retryable failures within five minutes open a circuit that had none
  counted, and for five minutes from the third: a call is refused before that time, and the
  first after it is admitted as the probe.
\<close>

theorem three_failures_open_the_circuit:
  assumes "breaker_for p (circuit_run ops) = Some (Passing None)"
    and "circuit_exec (Failed p Retryable why1 t1 i1) (circuit_run ops) = Inr (a1, db1)"
    and "circuit_exec (Failed p Retryable why2 t2 i2) db1 = Inr (a2, db2)"
    and "circuit_exec (Failed p Retryable why3 t3 i3) db2 = Inr (a3, db3)"
    and "t2 \<le> t1 + failure_window_ms" "t3 \<le> t1 + failure_window_ms"
    and "circuit_exec (Admit p t i) db3 = Inr (answer, db4)"
  shows "answer = Some (t3 + failure_window_ms \<le> t)"
proof -
  have 1: "breaker_for p db1 = Some (Passing (Some (t1, 1)))" "rows_sound db1"
    by (rule exec_breaker [OF assms(2) rows_sound_run], use assms(1) in simp)+
  have 2: "breaker_for p db2 = Some (Passing (Some (t1, 2)))" "rows_sound db2"
    by (rule exec_breaker [OF assms(3) 1(2)], use 1 assms(5) in simp)+
  have 3: "breaker_for p db3 = Some (Tripped t3 (Some (t3 + failure_window_ms)) (Some (t1, 3)))" "rows_sound db3"
    by (rule exec_breaker [OF assms(4) 2(2)], use 2 assms(6) in \<open>simp add: trip_until_def\<close>)+
  show ?thesis by (rule exec_breaker [OF assms(7) 3(2)]) (use 3 in auto)
qed

text \<open>Concrete histories for the properties above.\<close>

definition sample_id :: "char \<Rightarrow> string" where
  "sample_id c = ''123e4567-e89b-42d3-a456-42661417400'' @ [c]"

lemma served_chain:
  assumes "timely now db" "op_well_formed operation" "now \<le> op_now operation" "op_id operation \<notin> used_ids db"
  shows "\<exists>a db'. circuit_exec operation db = Inr (a, db') \<and> timely (op_now operation) db'
    \<and> used_ids db' \<subseteq> insert (op_id operation) (used_ids db)"
proof -
  obtain a db' where x: "circuit_exec operation db = Inr (a, db')"
    using circuit_exec_served [OF assms(1-3) assms(4) [unfolded used_ids_def]] by blast
  have "rows_sound db" using assms(1) by (simp add: timely_def)
  with x timely_exec [OF x assms(1,3)] ids_exec [OF x] show ?thesis by blast
qed

lemma sample_well_formed:
  "op_well_formed (Failed ''openai_tts'' Authentication ''authentication'' 10 (sample_id CHR ''1''))"
  "op_well_formed (Failed ''openai_tts'' Retryable ''timeout'' 10 (sample_id CHR ''1''))"
  "op_well_formed (Failed ''openai_tts'' Retryable ''timeout'' 20 (sample_id CHR ''2''))"
  "op_well_formed (Failed ''openai_tts'' Retryable ''timeout'' 30 (sample_id CHR ''3''))"
  "op_well_formed (Admit ''openai_tts'' 40 (sample_id CHR ''4''))"
  "op_well_formed (Admit ''openai_tts'' 300030 (sample_id CHR ''4''))"
  "op_well_formed (Admit ''openai_tts'' 300040 (sample_id CHR ''5''))"
  by code_simp+

lemma timely_initial: "timely 0 (circuit_run []) \<and> used_ids (circuit_run []) = {}"
  using rows_sound_initial
  by (auto simp: timely_def circuit_run_def initial_circuit_db_def initial_circuit_def used_ids_def)

theorem authentication_failure_blocks_witness:
  "\<exists>db db'. circuit_exec (Failed ''openai_tts'' Authentication ''authentication'' 10 (sample_id CHR ''1''))
       (circuit_run []) = Inr (None, db)
     \<and> circuit_exec (Admit ''openai_tts'' 300030 (sample_id CHR ''4'')) db = Inr (Some False, db')"
proof -
  obtain a db where 1: "circuit_exec (Failed ''openai_tts'' Authentication ''authentication'' 10 (sample_id CHR ''1''))
       (circuit_run []) = Inr (a, db)" "timely 10 db" "used_ids db \<subseteq> {sample_id CHR ''1''}"
    using served_chain [OF conjunct1 [OF timely_initial] sample_well_formed(1)] timely_initial by auto
  obtain a' db' where 2: "circuit_exec (Admit ''openai_tts'' 300030 (sample_id CHR ''4'')) db = Inr (a', db')"
    using served_chain [OF 1(2) sample_well_formed(6)] 1(3) by (auto simp: sample_id_def)
  have "a' = Some False"
    using authentication_failure_blocks [OF 1(1), of "[]"] 2 by simp
  moreover have "a = None" by (rule exec_breaker [OF 1(1) rows_sound_run]) simp
  ultimately show ?thesis using 1 2 by blast
qed

lemma state_of_breaker:
  assumes "breaker_for ''openai_tts'' db = Some b"
  shows "circuit_state_of ''openai_tts'' db =
    Inr (case b of Passing w \<Rightarrow> Closed | Tripped opened t w \<Rightarrow> Open | Probing opened w \<Rightarrow> Half_open)"
proof -
  obtain r where "circuits db ''openai_tts'' = Some r" "b = breaker_of r"
    using assms by (auto simp: breaker_for_def)
  then show ?thesis
    by (cases "circuit_state r") (auto simp: circuit_state_of_def load_circuit_def breaker_of_def)
qed

lemma sample_history:
  "\<exists>db1 db2 db3. circuit_exec (Failed ''openai_tts'' Retryable ''timeout'' 10 (sample_id CHR ''1'')) (circuit_run []) = Inr (None, db1)
     \<and> circuit_exec (Failed ''openai_tts'' Retryable ''timeout'' 20 (sample_id CHR ''2'')) db1 = Inr (None, db2)
     \<and> circuit_exec (Failed ''openai_tts'' Retryable ''timeout'' 30 (sample_id CHR ''3'')) db2 = Inr (None, db3)
     \<and> timely 30 db3 \<and> sample_id CHR ''4'' \<notin> used_ids db3 \<and> sample_id CHR ''5'' \<notin> used_ids db3
     \<and> breaker_for ''openai_tts'' db3 = Some (Tripped 30 (Some 300030) (Some (10, 3)))"
proof -
  have i: "breaker_for ''openai_tts'' (circuit_run []) = Some (Passing None)"
    by (simp add: circuit_run_def initial_circuit_db_def initial_circuit_def breaker_for_def
        breaker_of_def window_of_def provider_names_def)
  obtain a1 db1 where 1: "circuit_exec (Failed ''openai_tts'' Retryable ''timeout'' 10 (sample_id CHR ''1'')) (circuit_run []) = Inr (a1, db1)"
      "timely 10 db1" "used_ids db1 \<subseteq> {sample_id CHR ''1''}"
    using served_chain [OF conjunct1 [OF timely_initial] sample_well_formed(2)] timely_initial by auto
  obtain a2 db2 where 2: "circuit_exec (Failed ''openai_tts'' Retryable ''timeout'' 20 (sample_id CHR ''2'')) db1 = Inr (a2, db2)"
      "timely 20 db2" "used_ids db2 \<subseteq> {sample_id CHR ''1'', sample_id CHR ''2''}"
    using served_chain [OF 1(2) sample_well_formed(3)] 1(3) by (fastforce simp: sample_id_def)
  obtain a3 db3 where 3: "circuit_exec (Failed ''openai_tts'' Retryable ''timeout'' 30 (sample_id CHR ''3'')) db2 = Inr (a3, db3)"
      "timely 30 db3" "used_ids db3 \<subseteq> {sample_id CHR ''1'', sample_id CHR ''2'', sample_id CHR ''3''}"
    using served_chain [OF 2(2) sample_well_formed(4)] 2(3) by (fastforce simp: sample_id_def)
  have b1: "a1 = None" "breaker_for ''openai_tts'' db1 = Some (Passing (Some (10, 1)))" "rows_sound db1"
    by (rule exec_breaker [OF 1(1) rows_sound_run], use i in simp)+
  have b2: "a2 = None" "breaker_for ''openai_tts'' db2 = Some (Passing (Some (10, 2)))" "rows_sound db2"
    by (rule exec_breaker [OF 2(1) b1(3)], use b1 in \<open>simp add: failure_window_ms_def\<close>)+
  have b3: "a3 = None" "breaker_for ''openai_tts'' db3 = Some (Tripped 30 (Some 300030) (Some (10, 3)))"
    by (rule exec_breaker [OF 3(1) b2(3)], use b2 in \<open>simp add: failure_window_ms_def trip_until_def\<close>)+
  have "sample_id CHR ''4'' \<notin> used_ids db3" "sample_id CHR ''5'' \<notin> used_ids db3"
    using 3(3) by (auto simp: sample_id_def)
  with 1 2 3 b1 b2 b3 show ?thesis by blast
qed

theorem three_failures_open_the_circuit_witness:
  "\<exists>db db'. circuit_exec (Admit ''openai_tts'' 300030 (sample_id CHR ''4'')) db = Inr (Some True, db')
     \<and> breaker_for ''openai_tts'' db = Some (Tripped 30 (Some 300030) (Some (10, 3)))"
proof -
  obtain db1 db2 db3 where h:
    "circuit_exec (Failed ''openai_tts'' Retryable ''timeout'' 10 (sample_id CHR ''1'')) (circuit_run []) = Inr (None, db1)"
    "circuit_exec (Failed ''openai_tts'' Retryable ''timeout'' 20 (sample_id CHR ''2'')) db1 = Inr (None, db2)"
    "circuit_exec (Failed ''openai_tts'' Retryable ''timeout'' 30 (sample_id CHR ''3'')) db2 = Inr (None, db3)"
    "timely 30 db3" "sample_id CHR ''4'' \<notin> used_ids db3"
    "breaker_for ''openai_tts'' db3 = Some (Tripped 30 (Some 300030) (Some (10, 3)))"
    using sample_history by blast
  obtain a db4 where 4: "circuit_exec (Admit ''openai_tts'' 300030 (sample_id CHR ''4'')) db3 = Inr (a, db4)"
    using served_chain [OF h(4) sample_well_formed(6)] h(5) by auto
  have i: "breaker_for ''openai_tts'' (circuit_run []) = Some (Passing None)"
    by (simp add: circuit_run_def initial_circuit_db_def initial_circuit_def breaker_for_def
        breaker_of_def window_of_def provider_names_def)
  have "a = Some (30 + failure_window_ms \<le> 300030)"
    by (rule three_failures_open_the_circuit [OF i h(1) h(2) h(3) _ _ 4]) (simp_all add: failure_window_ms_def)
  with 4 h show ?thesis by (auto simp: failure_window_ms_def)
qed

theorem one_probe_at_a_time_witness:
  "\<exists>db db'. circuit_exec (Admit ''openai_tts'' 300040 (sample_id CHR ''5'')) db = Inr (Some False, db')
     \<and> circuit_state_of ''openai_tts'' db = Inr Half_open"
proof -
  let ?f = "\<lambda>t c. Failed ''openai_tts'' Retryable ''timeout'' t (sample_id c)"
  obtain db1 db2 db3 where h:
    "circuit_exec (?f 10 CHR ''1'') (circuit_run []) = Inr (None, db1)"
    "circuit_exec (?f 20 CHR ''2'') db1 = Inr (None, db2)"
    "circuit_exec (?f 30 CHR ''3'') db2 = Inr (None, db3)"
    "timely 30 db3" "sample_id CHR ''4'' \<notin> used_ids db3" "sample_id CHR ''5'' \<notin> used_ids db3"
    "breaker_for ''openai_tts'' db3 = Some (Tripped 30 (Some 300030) (Some (10, 3)))"
    using sample_history by blast
  let ?ops = "[?f 10 CHR ''1'', ?f 20 CHR ''2'', ?f 30 CHR ''3'']"
  have run: "circuit_run ?ops = db3"
    using h(1-3) by (simp add: circuit_run_def circuit_apply_def)
  obtain a db4 where 4: "circuit_exec (Admit ''openai_tts'' 300030 (sample_id CHR ''4'')) db3 = Inr (a, db4)"
      "timely 300030 db4" "used_ids db4 \<subseteq> insert (sample_id CHR ''4'') (used_ids db3)"
    using served_chain [OF h(4) sample_well_formed(6)] h(5) by auto
  have rs: "rows_sound db3" using h(4) unfolding timely_def by blast
  have b4: "a = Some True" "breaker_for ''openai_tts'' db4 = Some (Probing 30 (Some (10, 3)))"
    by (rule exec_breaker [OF 4(1) rs], use h(7) in simp)+
  have "sample_id CHR ''5'' \<notin> used_ids db4" using 4(3) h(6) by (auto simp: sample_id_def)
  then obtain a5 db5 where 5: "circuit_exec (Admit ''openai_tts'' 300040 (sample_id CHR ''5'')) db4 = Inr (a5, db5)"
    using served_chain [OF 4(2) sample_well_formed(7)] by auto
  have s: "circuit_state_of ''openai_tts'' (circuit_run ?ops) \<noteq> Inr Closed"
    unfolding run using state_of_breaker [OF h(7)] by simp
  have p: "circuit_exec (Admit ''openai_tts'' 300030 (sample_id CHR ''4'')) (circuit_run ?ops) = Inr (Some True, db4)"
    unfolding run using 4(1) b4(1) by simp
  have "a5 = Some False"
    by (rule one_probe_at_a_time [OF s p, of "[]"]) (use 5 in simp_all)
  with 5 state_of_breaker [OF b4(2)] show ?thesis by auto
qed

theorem circuit_refines_breaker_witness:
  "\<exists>a db'. circuit_exec (Failed ''openai_tts'' Authentication ''authentication'' 10 (sample_id CHR ''1''))
       (circuit_run []) = Inr (a, db') \<and> (\<exists>b. breaker_for ''openai_tts'' (circuit_run []) = Some b
       \<and> breaker_for ''openai_tts'' db' = Some (breaker_failed Authentication 10 b))"
proof -
  obtain a db' where 1: "circuit_exec (Failed ''openai_tts'' Authentication ''authentication'' 10 (sample_id CHR ''1''))
       (circuit_run []) = Inr (a, db')"
    using served_chain [OF conjunct1 [OF timely_initial] sample_well_formed(1)] timely_initial by auto
  from circuit_refines_breaker [OF 1] 1 show ?thesis by auto
qed


end
