(* ===== verification/Circuit_Clients.thy ===== *)
theory Circuit_Clients
  imports Provider_Circuit
begin

text \<open>
  The circuit-breaking clients (\<^verbatim>\<open>src/src/provider_circuit.cpp\<close>): text to speech and
  transcription behind a circuit. They call the circuit through its abstract class, here a
  record of the virtual operations with a locale of the laws they rely on, interpreted on the
  SQLite repository of \<^theory_text>\<open>Provider_Circuit\<close>. The provider itself is a parameter:
  what the call gives and what other threads do to the tables while it runs.
\<close>

section \<open>Failures\<close>

datatype transcription_failure_category =
    Tr_cancelled | Tr_invalid_request | Tr_timeout | Tr_rate_limited | Tr_authentication
  | Tr_provider_rejected | Tr_provider_unavailable | Tr_invalid_response
  | Tr_oversized_response | Tr_transport | Tr_unavailable

fun transcription_failure_category_name :: "transcription_failure_category \<Rightarrow> string" where
  "transcription_failure_category_name Tr_cancelled = ''cancelled''"
| "transcription_failure_category_name Tr_invalid_request = ''invalid_request''"
| "transcription_failure_category_name Tr_timeout = ''timeout''"
| "transcription_failure_category_name Tr_rate_limited = ''rate_limited''"
| "transcription_failure_category_name Tr_authentication = ''authentication''"
| "transcription_failure_category_name Tr_provider_rejected = ''provider_rejected''"
| "transcription_failure_category_name Tr_provider_unavailable = ''provider_unavailable''"
| "transcription_failure_category_name Tr_invalid_response = ''invalid_response''"
| "transcription_failure_category_name Tr_oversized_response = ''oversized_response''"
| "transcription_failure_category_name Tr_transport = ''transport''"
| "transcription_failure_category_name Tr_unavailable = ''unavailable''"

record transcription_error =
  tr_category :: transcription_failure_category
  tr_message :: string

definition tts_failure :: "tts_error \<Rightarrow> circuit_failure" where
  "tts_failure err =
     (if tts_category err = Tts_authentication then Authentication
      else case tts_category err of
          Tts_timeout \<Rightarrow> Retryable | Tts_transport \<Rightarrow> Retryable | Tts_rate_limited \<Rightarrow> Retryable
        | Tts_provider_unavailable \<Rightarrow> Retryable | Tts_invalid_media \<Rightarrow> Retryable
        | Tts_oversized_media \<Rightarrow> Retryable | Tts_decoder_failed \<Rightarrow> Retryable
        | Tts_authentication \<Rightarrow> Authentication
        | _ \<Rightarrow> if tts_retryable err then Retryable else Ignored)"

definition transcription_failure :: "transcription_error \<Rightarrow> circuit_failure" where
  "transcription_failure err = (case tr_category err of
      Tr_authentication \<Rightarrow> Authentication
    | Tr_timeout \<Rightarrow> Retryable | Tr_rate_limited \<Rightarrow> Retryable | Tr_provider_unavailable \<Rightarrow> Retryable
    | Tr_invalid_response \<Rightarrow> Retryable | Tr_oversized_response \<Rightarrow> Retryable | Tr_transport \<Rightarrow> Retryable
    | Tr_cancelled \<Rightarrow> Ignored | Tr_invalid_request \<Rightarrow> Ignored | Tr_provider_rejected \<Rightarrow> Ignored
    | Tr_unavailable \<Rightarrow> Ignored)"

section \<open>The clients\<close>

text \<open>The virtual operations of \<^verbatim>\<open>ProviderCircuitRepository\<close>.\<close>

record 'db circuit_ops =
  ops_restart :: "string \<Rightarrow> int \<Rightarrow> string \<Rightarrow> 'db \<Rightarrow> 'db res"
  ops_admit :: "string \<Rightarrow> int \<Rightarrow> string \<Rightarrow> 'db \<Rightarrow> (bool \<times> 'db) res"
  ops_state :: "string \<Rightarrow> 'db \<Rightarrow> circuit_state res"
  ops_succeeded :: "string \<Rightarrow> int \<Rightarrow> string \<Rightarrow> 'db \<Rightarrow> 'db res"
  ops_failed :: "string \<Rightarrow> circuit_failure \<Rightarrow> string \<Rightarrow> int \<Rightarrow> string \<Rightarrow> 'db \<Rightarrow> 'db res"

text \<open>
  How a call ends: with a value, with an error of its own class, with any other exception of
  the provider, or with an exception of the circuit.
\<close>

datatype ('a, 'e) outcome = Returned 'a | Raised 'e | Unexpected | Circuit_error exn

text \<open>A clock reading and a fresh id, drawn together for one circuit operation.\<close>

type_synonym stamp = "int \<times> string"

definition with_report :: "'db res \<Rightarrow> ('a, 'e) outcome \<Rightarrow> 'db \<Rightarrow> ('a, 'e) outcome \<times> 'db" where
  "with_report report result db = (case report of Inl e \<Rightarrow> (Circuit_error e, db) | Inr db' \<Rightarrow> (result, db'))"

definition breaking_synthesize ::
    "'db circuit_ops \<Rightarrow> ('db \<Rightarrow> ('a, tts_error) outcome \<times> 'db) \<Rightarrow> stamp \<Rightarrow> stamp \<Rightarrow> 'db
     \<Rightarrow> ('a, tts_error) outcome \<times> 'db"
  where
  "breaking_synthesize ops provider = (\<lambda>(t1, i1) (t2, i2) db.
     case ops_admit ops ''openai_tts'' t1 i1 db of
       Inl e \<Rightarrow> (Circuit_error e, db)
     | Inr (admitted, db) \<Rightarrow>
         if \<not> admitted
         then (Raised (tts_error Tts_circuit_open ''TTS provider circuit is open.''), db)
         else (case provider db of
             (Returned audio, db) \<Rightarrow> (Returned audio, db)
           | (Raised err, db) \<Rightarrow>
               with_report (ops_failed ops ''openai_tts'' (tts_failure err)
                 (tts_failure_category_name (tts_category err)) t2 i2 db) (Raised err) db
           | (other, db) \<Rightarrow>
               with_report (ops_failed ops ''openai_tts'' Retryable ''unexpected_failure'' t2 i2 db)
                 other db))"

definition provider_response_validated :: "'db circuit_ops \<Rightarrow> stamp \<Rightarrow> 'db \<Rightarrow> 'db res" where
  "provider_response_validated ops = (\<lambda>(t, i) db. ops_succeeded ops ''openai_tts'' t i db)"

definition provider_response_rejected ::
    "'db circuit_ops \<Rightarrow> tts_failure_category \<Rightarrow> stamp \<Rightarrow> 'db \<Rightarrow> 'db res"
  where
  "provider_response_rejected ops category = (\<lambda>(t, i) db.
     ops_failed ops ''openai_tts''
       (tts_failure (tts_error category ''TTS response failed local validation.''))
       (tts_failure_category_name category) t i db)"

definition breaking_transcribe ::
    "'db circuit_ops \<Rightarrow> ('db \<Rightarrow> ('a, transcription_error) outcome \<times> 'db)
     \<Rightarrow> stamp \<Rightarrow> stamp \<Rightarrow> stamp \<Rightarrow> 'db \<Rightarrow> ('a, transcription_error) outcome \<times> 'db"
  where
  "breaking_transcribe ops provider = (\<lambda>(t1, i1) (t2, i2) (t3, i3) db.
     case ops_admit ops ''openai_transcription'' t1 i1 db of
       Inl e \<Rightarrow> (Circuit_error e, db)
     | Inr (admitted, db) \<Rightarrow>
         if \<not> admitted
         then (Raised \<lparr>tr_category = Tr_provider_unavailable,
                 tr_message = ''Transcription provider circuit is open.''\<rparr>, db)
         else (case provider db of
             (Returned text', db) \<Rightarrow>
               (case ops_succeeded ops ''openai_transcription'' t2 i2 db of
                  Inr db' \<Rightarrow> (Returned text', db')
                | Inl e \<Rightarrow>
                    with_report (ops_failed ops ''openai_transcription'' Retryable
                      ''unexpected_failure'' t3 i3 db) (Circuit_error e) db)
           | (Raised err, db) \<Rightarrow>
               with_report (ops_failed ops ''openai_transcription'' (transcription_failure err)
                 (transcription_failure_category_name (tr_category err)) t2 i2 db) (Raised err) db
           | (other, db) \<Rightarrow>
               with_report (ops_failed ops ''openai_transcription'' Retryable
                 ''unexpected_failure'' t2 i2 db) other db))"

text \<open>Constructing a client restarts its circuit.\<close>

definition breaking_client_start :: "'db circuit_ops \<Rightarrow> string \<Rightarrow> stamp \<Rightarrow> 'db \<Rightarrow> 'db res" where
  "breaking_client_start ops provider = (\<lambda>(t, i) db. ops_restart ops provider t i db)"

section \<open>The contract the clients rely on\<close>

locale circuit_contract =
  fixes ops :: "'db circuit_ops"
    and sound :: "'db \<Rightarrow> bool"
    and probing :: "string \<Rightarrow> 'db \<Rightarrow> bool"
  assumes refusal_changes_nothing: "ops_admit ops p t i db = Inr (False, db') \<Longrightarrow> db' = db"
    and admit_sound: "sound db \<Longrightarrow> ops_admit ops p t i db = Inr (b, db') \<Longrightarrow> sound db'"
    and succeeded_settles: "sound db \<Longrightarrow> ops_succeeded ops p t i db = Inr db' \<Longrightarrow> \<not> probing p db'"
    and failed_settles: "sound db \<Longrightarrow> ops_failed ops p failure reason t i db = Inr db' \<Longrightarrow> \<not> probing p db'"
    and restart_settles: "sound db \<Longrightarrow> ops_restart ops p t i db = Inr db' \<Longrightarrow> \<not> probing p db'"
begin

lemma transcribe_settles:
  assumes "sound db" "\<And>db. sound db \<Longrightarrow> sound (snd (provider db))"
    and "breaking_transcribe ops provider s1 s2 s3 db = (out, db')"
    and "ops_admit ops ''openai_transcription'' (fst s1) (snd s1) db = Inr (True, db1)"
  shows "\<not> probing ''openai_transcription'' db' \<or> (\<exists>e. out = Circuit_error e)"
proof -
  obtain res db2 where p: "provider db1 = (res, db2)" by fastforce
  have s: "sound db2" using assms(2) [OF admit_sound [OF assms(1,4)]] p by simp
  show ?thesis
    using assms(3,4) p failed_settles [OF s] succeeded_settles [OF s]
    by (cases s1; cases s2; cases s3; cases res)
       (auto simp: breaking_transcribe_def with_report_def split: sum.splits)
qed

lemma synthesize_refused:
  assumes "ops_admit ops ''openai_tts'' (fst s1) (snd s1) db = Inr (False, db1)"
  shows "breaking_synthesize ops provider s1 s2 db
    = (Raised (tts_error Tts_circuit_open ''TTS provider circuit is open.''), db)"
  using assms refusal_changes_nothing [OF assms]
  by (cases s1; cases s2) (simp add: breaking_synthesize_def)

lemma synthesize_error_settles:
  assumes "sound db" "\<And>db. sound db \<Longrightarrow> sound (snd (provider db))"
    and "breaking_synthesize ops provider s1 s2 db = (Raised err, db')"
    and "ops_admit ops ''openai_tts'' (fst s1) (snd s1) db = Inr (True, db1)"
  shows "\<not> probing ''openai_tts'' db'"
proof -
  obtain res db2 where p: "provider db1 = (res, db2)" by fastforce
  have s: "sound db2" using assms(2) [OF admit_sound [OF assms(1,4)]] p by simp
  show ?thesis
    using assms(3,4) p failed_settles [OF s]
    by (cases s1; cases s2; cases res)
       (auto simp: breaking_synthesize_def with_report_def split: sum.splits)
qed

end

section \<open>The repository keeps the contract\<close>

definition sqlite_circuit :: "circuit_db circuit_ops" where
  "sqlite_circuit = \<lparr>ops_restart = circuit_restart, ops_admit = circuit_admit,
     ops_state = circuit_state_of, ops_succeeded = circuit_succeeded, ops_failed = circuit_failed\<rparr>"

definition probe_out :: "string \<Rightarrow> circuit_db \<Rightarrow> bool" where
  "probe_out p db \<longleftrightarrow> (\<exists>opened w. breaker_for p db = Some (Probing opened w))"

lemma breaker_not_probing:
  "snd (breaker_exec (Succeeded p t i) b) \<noteq> Probing opened w"
  "snd (breaker_exec (Failed p failure reason t i) b) \<noteq> Probing opened w"
  "snd (breaker_exec (Restart p t i) b) \<noteq> Probing opened w"
  by (cases b; auto simp: breaker_tripped split: option.splits)
     (cases failure; cases b; auto simp: breaker_failed_hits split: if_splits;
      cases b; auto simp: breaker_tripped split: option.splits)+

interpretation sqlite: circuit_contract sqlite_circuit rows_sound probe_out
proof
  fix p t i b failure reason and db db' :: circuit_db
  show "db' = db" if "ops_admit sqlite_circuit p t i db = Inr (False, db')"
    using that by (auto simp: sqlite_circuit_def circuit_admit_def rbind_eq_Inr split: if_splits)
  show "rows_sound db'" if "rows_sound db" "ops_admit sqlite_circuit p t i db = Inr (b, db')"
    using that rows_sound_exec [of "Admit p t i" db "Some b" db'] by (simp add: sqlite_circuit_def)
  show "\<not> probe_out p db'" if "rows_sound db" "ops_succeeded sqlite_circuit p t i db = Inr db'"
    by (rule exec_breaker [of "Succeeded p t i" db None db'])
       (use that breaker_not_probing(1) in \<open>auto simp: sqlite_circuit_def probe_out_def\<close>)
  show "\<not> probe_out p db'" if "rows_sound db" "ops_failed sqlite_circuit p failure reason t i db = Inr db'"
    by (rule exec_breaker [of "Failed p failure reason t i" db None db'])
       (use that breaker_not_probing(2) in \<open>auto simp: sqlite_circuit_def probe_out_def\<close>)
  show "\<not> probe_out p db'" if "rows_sound db" "ops_restart sqlite_circuit p t i db = Inr db'"
    by (rule exec_breaker [of "Restart p t i" db None db'])
       (use that breaker_not_probing(3) in \<open>auto simp: sqlite_circuit_def probe_out_def\<close>)
qed

lemma rows_sound_fold: "rows_sound db \<Longrightarrow> rows_sound (fold circuit_apply ops db)"
  by (induction ops arbitrary: db) (auto simp: rows_sound_apply)



text \<open>
  A refused synthesis does not reach the provider: whatever the provider would
  have done, the caller gets the circuit-open error and the tables are unchanged.
\<close>

theorem refused_synthesis_calls_nobody:
  assumes "circuit_admit ''openai_tts'' t i db = Inr (False, db1)"
  shows "breaking_synthesize sqlite_circuit provider (t, i) s2 db
    = (Raised (tts_error Tts_circuit_open ''TTS provider circuit is open.''), db)"
  by (rule sqlite.synthesize_refused [of "(t, i)"]) (simp add: sqlite_circuit_def assms)

lemma admit_refused_when_tripped:
  assumes "rows_sound db" "breaker_for ''openai_tts'' db = Some (Tripped opened None w)"
    and "circuit_admit ''openai_tts'' t i db = Inr (b, db')"
  shows "\<not> b"
  by (rule exec_breaker [of "Admit ''openai_tts'' t i" db "Some b" db']) (use assms in auto)

text \<open>
  A synthesis that the provider answers with an authentication error blocks the
  provider for the rest of the process: every later synthesis, after any other reports, ends
  in the circuit-open error without calling the provider, or in an error of the table itself.
\<close>

theorem authentication_error_blocks_synthesis:
  assumes "breaking_synthesize sqlite_circuit (\<lambda>db. (Raised err, fold circuit_apply others db)) s1 s2
      (circuit_run ops) = (Raised err, db1)"
    and "tts_category err = Tts_authentication"
    and "\<not> list_ex is_restart later"
    and "breaking_synthesize sqlite_circuit provider s3 s4 (fold circuit_apply later db1) = (out, db2)"
  shows "out = Raised (tts_error Tts_circuit_open ''TTS provider circuit is open.'')
    \<or> (\<exists>e. out = Circuit_error e)"
proof -
  obtain t1 i1 t2 i2 t3 i3 t4 i4 where s: "s1 = (t1, i1)" "s2 = (t2, i2)" "s3 = (t3, i3)" "s4 = (t4, i4)"
    by (metis surj_pair)
  have "err \<noteq> tts_error Tts_circuit_open ''TTS provider circuit is open.''"
    using assms(2) by (auto simp: tts_error_def)
  with assms(1,2) obtain db0 where a: "circuit_admit ''openai_tts'' t1 i1 (circuit_run ops) = Inr (True, db0)"
    and f: "circuit_failed ''openai_tts'' Authentication ''authentication'' t2 i2 (fold circuit_apply others db0) = Inr db1"
    by (auto simp: s breaking_synthesize_def sqlite_circuit_def with_report_def tts_failure_def
        split: sum.splits if_splits)
  have "rows_sound db0"
    by (rule rows_sound_exec [of "Admit ''openai_tts'' t1 i1" "circuit_run ops" "Some True"])
       (simp_all add: a rows_sound_run)
  then have s0: "rows_sound (fold circuit_apply others db0)" by (rule rows_sound_fold)
  obtain opened w where b1: "breaker_for ''openai_tts'' db1 = Some (Tripped opened None w)" and s1: "rows_sound db1"
    by (rule exec_breaker [of "Failed ''openai_tts'' Authentication ''authentication'' t2 i2" _ None db1, OF _ s0])
       (use f authentication_trips in \<open>auto, metis\<close>)
  let ?I = "\<lambda>b. \<exists>opened w. b = Tripped opened None w"
  have "?I (snd (breaker_exec operation b))" if "operation \<in> set later" "?I b" for operation b
    using that assms(3) tripped_stays by (auto simp: list_ex_iff)
  then obtain opened w where b2: "breaker_for ''openai_tts'' (fold circuit_apply later db1) = Some (Tripped opened None w)"
      "rows_sound (fold circuit_apply later db1)"
    using breaker_run_invariant [of ?I _ _ db1 later] b1 s1 by blast
  show ?thesis
  proof (cases "circuit_admit ''openai_tts'' t3 i3 (fold circuit_apply later db1)")
    case (Inl e)
    then show ?thesis using assms(4) by (auto simp: s breaking_synthesize_def sqlite_circuit_def)
  next
    case (Inr r)
    then obtain db3 where "circuit_admit ''openai_tts'' t3 i3 (fold circuit_apply later db1) = Inr (False, db3)"
      using admit_refused_when_tripped [OF b2(2,1), of t3 i3 "fst r" "snd r"] by (cases r) auto
    then show ?thesis using assms(4) by (auto simp: s breaking_synthesize_def sqlite_circuit_def)
  qed
qed

lemma closed_admits:
  "circuit_admit ''openai_tts'' 5 (sample_id CHR ''1'') (circuit_run []) = Inr (True, circuit_run [])"
  "circuit_admit ''openai_transcription'' 5 (sample_id CHR ''1'') (circuit_run []) = Inr (True, circuit_run [])"
proof -
  have v: "valid_uuid_v4 (sample_id CHR ''1'')" by code_simp
  have l: "load_circuit p (circuit_run []) = Inr initial_circuit" if "p \<in> set provider_names" for p
    using that by (simp add: load_circuit_def circuit_run_def initial_circuit_db_def)
  show "circuit_admit ''openai_tts'' 5 (sample_id CHR ''1'') (circuit_run []) = Inr (True, circuit_run [])"
    "circuit_admit ''openai_transcription'' 5 (sample_id CHR ''1'') (circuit_run []) = Inr (True, circuit_run [])"
    using v by (simp_all add: circuit_admit_def l provider_names_def initial_circuit_def validate_circuit_def)
qed


lemma sample_authentication_failure:
  "\<exists>db1. circuit_failed ''openai_tts'' Authentication ''authentication'' 10 (sample_id CHR ''1'') (circuit_run []) = Inr db1
     \<and> circuit_admit ''openai_tts'' 300030 (sample_id CHR ''4'') db1 = Inr (False, db1)"
proof -
  obtain a db1 where f: "circuit_exec (Failed ''openai_tts'' Authentication ''authentication'' 10 (sample_id CHR ''1''))
       (circuit_run []) = Inr (a, db1)" "timely 10 db1" "used_ids db1 \<subseteq> {sample_id CHR ''1''}"
    using served_chain [OF conjunct1 [OF timely_initial] sample_well_formed(1)] timely_initial by auto
  obtain b db2 where g: "circuit_exec (Admit ''openai_tts'' 300030 (sample_id CHR ''4'')) db1 = Inr (Some b, db2)"
    using served_chain [OF f(2) sample_well_formed(6)] f(3) by (auto simp: sample_id_def rbind_eq_Inr)
  obtain opened w where t: "breaker_for ''openai_tts'' db1 = Some (Tripped opened None w)" "rows_sound db1"
    by (rule exec_breaker [OF f(1) rows_sound_run]) (use authentication_trips in \<open>auto, metis\<close>)
  have "\<not> b" using admit_refused_when_tripped [OF t(2,1)] g by (auto simp: rbind_eq_Inr)
  with f g sqlite.refusal_changes_nothing [of "''openai_tts''" 300030 "sample_id CHR ''4''" db1 db2]
  show ?thesis by (auto simp: rbind_eq_Inr sqlite_circuit_def)
qed

theorem refused_synthesis_calls_nobody_witness:
  "\<exists>db. breaking_synthesize sqlite_circuit (\<lambda>db. (Returned ''audio'', db)) (300030, sample_id CHR ''4'')
      (300031, sample_id CHR ''5'') db
    = (Raised (tts_error Tts_circuit_open ''TTS provider circuit is open.''), db)"
proof -
  obtain db1 where "circuit_admit ''openai_tts'' 300030 (sample_id CHR ''4'') db1 = Inr (False, db1)"
    using sample_authentication_failure by blast
  from refused_synthesis_calls_nobody [OF this] show ?thesis by blast
qed

theorem authentication_error_blocks_synthesis_witness:
  "\<exists>db1. breaking_synthesize sqlite_circuit
       (\<lambda>db. (Raised (tts_error Tts_authentication ''key''), fold circuit_apply [] db))
       (5, sample_id CHR ''1'') (10, sample_id CHR ''1'') (circuit_run [])
       = ((Raised (tts_error Tts_authentication ''key'') :: (string, tts_error) outcome), db1)
     \<and> fst (breaking_synthesize sqlite_circuit (\<lambda>db. (Returned ''audio'', db)) (300030, sample_id CHR ''4'')
         (300031, sample_id CHR ''5'') db1)
       = Raised (tts_error Tts_circuit_open ''TTS provider circuit is open.'')"
proof -
  let ?e = "tts_error Tts_authentication ''key''"
  obtain db1 where f: "circuit_failed ''openai_tts'' Authentication ''authentication'' 10 (sample_id CHR ''1'') (circuit_run []) = Inr db1"
    and a: "circuit_admit ''openai_tts'' 300030 (sample_id CHR ''4'') db1 = Inr (False, db1)"
    using sample_authentication_failure by blast
  have 1: "breaking_synthesize sqlite_circuit (\<lambda>db. (Raised ?e, fold circuit_apply [] db))
       (5, sample_id CHR ''1'') (10, sample_id CHR ''1'') (circuit_run []) = ((Raised ?e :: (string, tts_error) outcome), db1)"
    using f closed_admits(1)
    by (simp add: breaking_synthesize_def sqlite_circuit_def with_report_def tts_failure_def tts_error_def)
  obtain out db2 where 2: "breaking_synthesize sqlite_circuit (\<lambda>db. (Returned ''audio'', db)) (300030, sample_id CHR ''4'')
         (300031, sample_id CHR ''5'') (fold circuit_apply [] db1) = (out, db2)" by fastforce
  have "\<not> (\<exists>e. out = Circuit_error e)"
    using 2 a by (auto simp: breaking_synthesize_def sqlite_circuit_def)
  with authentication_error_blocks_synthesis [OF 1 _ _ 2] have
    "out = Raised (tts_error Tts_circuit_open ''TTS provider circuit is open.'')"
    by (auto simp: tts_error_def)
  with 1 2 show ?thesis by auto
qed

end
