(* ===== verification/Tables.thy ===== *)
theory Tables
  imports Identifiers "HOL-Library.List_Lexorder" "HOL-Library.Product_Lexorder"
begin

text \<open>
  Tables as the repositories use them: lists of rows in insertion order, an UPDATE with its
  condition and the CHECK constraints of the table, and the argument checks the durable
  repositories share (\<^verbatim>\<open>require_timestamp\<close>, \<^verbatim>\<open>require_key\<close>, \<^verbatim>\<open>require_type\<close>,
  \<^verbatim>\<open>require_boot_session_id\<close> of
  \<^verbatim>\<open>src/src/persistence/sqlite_durable_work_repository.cpp\<close>).
\<close>

section \<open>Text as SQLite measures it\<close>

text \<open>
  \<^verbatim>\<open>length(X)\<close> of a text: its characters before the first NUL, a character being a byte that
  is not a UTF-8 continuation.
\<close>

definition sql_length :: "string \<Rightarrow> nat" where
  "sql_length s = length (filter (\<lambda>c. of_char c < (128 :: nat) \<or> 192 \<le> (of_char c :: nat))
     (takeWhile (\<lambda>c. c \<noteq> CHR 0x00) s))"

definition between :: "nat \<Rightarrow> nat \<Rightarrow> nat \<Rightarrow> bool" where
  "between lo hi n \<longleftrightarrow> lo \<le> n \<and> n \<le> hi"

definition machine_char :: "char \<Rightarrow> bool" where
  "machine_char c \<longleftrightarrow> CHR ''a'' \<le> c \<and> c \<le> CHR ''z'' \<or> is_digit c \<or> c \<in> set ''_.-''"

definition machine_text :: "nat \<Rightarrow> string \<Rightarrow> bool" where
  "machine_text maximum s \<longleftrightarrow> s \<noteq> [] \<and> length s \<le> maximum \<and> list_all machine_char s"

lemma machine_char_plain: "machine_char c \<Longrightarrow> of_char c < (128 :: nat) \<and> c \<noteq> CHR 0x00"
  by (auto simp: machine_char_def is_digit_def less_eq_char_def)

lemma sql_length_machine: "list_all machine_char s \<Longrightarrow> sql_length s = length s"
proof -
  assume s: "list_all machine_char s"
  have "takeWhile (\<lambda>c. c \<noteq> CHR 0x00) s = s"
    using s machine_char_plain by (auto simp: takeWhile_eq_all_conv list_all_iff)
  moreover have "filter (\<lambda>c. of_char c < (128 :: nat) \<or> 192 \<le> (of_char c :: nat)) s = s"
    using s machine_char_plain by (auto simp: filter_id_conv list_all_iff)
  ultimately show ?thesis by (simp only: sql_length_def)
qed

section \<open>Argument checks\<close>

definition require_timestamp :: "int \<Rightarrow> unit res" where
  "require_timestamp value =
     require (0 \<le> value) (Invalid_argument ''Persistent timestamps must be nonnegative.'')"

definition require_key :: "string \<Rightarrow> unit res" where
  "require_key value =
     require (value \<noteq> [] \<and> length value \<le> 160)
       (Invalid_argument ''Idempotency keys must be 1-160 bytes.'')"

definition require_type :: "string \<Rightarrow> nat \<Rightarrow> unit res" where
  "require_type value maximum =
     require (machine_text maximum value) (Invalid_argument ''Durable work type is invalid.'')"

definition boot_char :: "char \<Rightarrow> bool" where
  "boot_char c \<longleftrightarrow> CHR ''a'' \<le> c \<and> c \<le> CHR ''z'' \<or> is_digit c \<or> c = CHR ''-''"

definition require_boot_session_id :: "string \<Rightarrow> unit res" where
  "require_boot_session_id value =
     require (value \<noteq> [] \<and> length value \<le> 64 \<and> list_all boot_char value)
       (Invalid_argument ''Boot session ID is invalid.'')"

lemmas require_simps = require_timestamp_def require_key_def require_type_def
  require_boot_session_id_def

section \<open>UPDATE\<close>

text \<open>
  \<^verbatim>\<open>UPDATE table SET change WHERE condition\<close>: the number of rows changed and the rows after,
  or the violated CHECK.
\<close>

definition update_rows ::
    "('r \<Rightarrow> bool) \<Rightarrow> string \<Rightarrow> ('r \<Rightarrow> bool) \<Rightarrow> ('r \<Rightarrow> 'r) \<Rightarrow> 'r list \<Rightarrow> (nat \<times> 'r list) res"
  where
  "update_rows check table condition change rows =
     (if list_all (\<lambda>r. \<not> condition r \<or> check (change r)) rows
      then Inr (length (filter condition rows), map (\<lambda>r. if condition r then change r else r) rows)
      else Inl (Constraint table))"

lemma update_rows_Inr:
  "update_rows check table condition change rows = Inr (n, rows') \<longleftrightarrow>
     (\<forall>r \<in> set rows. condition r \<longrightarrow> check (change r)) \<and> n = length (filter condition rows)
     \<and> rows' = map (\<lambda>r. if condition r then change r else r) rows"
  by (auto simp: update_rows_def list_all_iff)

lemma update_rows_served:
  "(\<And>r. r \<in> set rows \<Longrightarrow> condition r \<Longrightarrow> check (change r)) \<Longrightarrow>
   update_rows check table condition change rows =
     Inr (length (filter condition rows), map (\<lambda>r. if condition r then change r else r) rows)"
  by (auto simp: update_rows_def list_all_iff)

lemma update_rows_all:
  assumes "update_rows check table condition change rows = Inr (n, rows')"
    and "\<And>r. r \<in> set rows \<Longrightarrow> P r" "\<And>r. P r \<Longrightarrow> condition r \<Longrightarrow> check (change r) \<Longrightarrow> P (change r)"
  shows "r \<in> set rows' \<Longrightarrow> P r"
  using assms by (auto simp: update_rows_Inr split: if_splits)

lemma update_rows_key:
  "update_rows check table condition change rows = Inr (n, rows') \<Longrightarrow> (\<And>r. key (change r) = key r)
   \<Longrightarrow> map key rows' = map key rows"
  by (auto simp: update_rows_Inr)

lemma update_rows_none:
  "update_rows check table condition change rows = Inr (0, rows') \<Longrightarrow> rows' = rows"
  by (auto simp: update_rows_Inr filter_empty_conv intro!: map_idI)

text \<open>Lookup by a unique key.\<close>

definition find_row :: "('r \<Rightarrow> 'k) \<Rightarrow> 'k \<Rightarrow> 'r list \<Rightarrow> 'r option" where
  "find_row key k rows = List.find (\<lambda>r. key r = k) rows"

lemma find_row_Some: "find_row key k rows = Some r \<Longrightarrow> r \<in> set rows \<and> key r = k"
  by (auto simp: find_row_def find_Some_iff)

lemma find_row_None: "find_row key k rows = None \<longleftrightarrow> k \<notin> key ` set rows"
  by (auto simp: find_row_def find_None_iff)

lemma find_row_unique:
  "distinct (map key rows) \<Longrightarrow> r \<in> set rows \<Longrightarrow> find_row key (key r) rows = Some r"
  by (induction rows) (auto simp: find_row_def)

lemma distinct_key_eq:
  "distinct (map key rows) \<Longrightarrow> r \<in> set rows \<Longrightarrow> s \<in> set rows \<Longrightarrow> key r = key s \<Longrightarrow> r = s"
  by (auto simp: distinct_map inj_on_def)

lemma find_row_update:
  assumes "distinct (map key rows)" "\<And>r. key (change r) = key r"
  shows "find_row key k (map (\<lambda>r. if condition r then change r else r) rows)
    = map_option (\<lambda>r. if condition r then change r else r) (find_row key k rows)"
  using assms(2) by (induction rows) (auto simp: find_row_def)

lemma find_row_append_new:
  "key r \<notin> key ` set rows \<Longrightarrow>
   find_row key k (rows @ [r]) = (if k = key r then Some r else find_row key k rows)"
  by (induction rows) (auto simp: find_row_def)

section \<open>SELECT ... ORDER BY ... LIMIT 1\<close>

text \<open>Texts compare bytewise, as \<^theory_text>\<open>BINARY\<close> collation does.\<close>

definition first_by :: "('r \<Rightarrow> 'k::linorder) \<Rightarrow> 'r list \<Rightarrow> 'r option" where
  "first_by key rows = (if rows = [] then None else Some (arg_min_list key rows))"

lemma first_by_None: "first_by key rows = None \<longleftrightarrow> rows = []"
  by (simp add: first_by_def)

lemma first_by_Some:
  assumes "first_by key rows = Some r"
  shows "r \<in> set rows" and "\<And>s. s \<in> set rows \<Longrightarrow> key r \<le> key s"
proof -
  have ne: "rows \<noteq> []" and r: "r = arg_min_list key rows"
    using assms by (auto simp: first_by_def split: if_splits)
  show "r \<in> set rows" using arg_min_list_in [OF ne] r by simp
  show "key r \<le> key s" if "s \<in> set rows" for s
    using f_arg_min_list_f [OF ne, of key] r that by simp
qed

section \<open>Rows that move\<close>

text \<open>What an UPDATE does to each row, as a relation between the rows before and after.\<close>

lemma update_rows_move:
  assumes "update_rows check table condition change rows = Inr (n, rows')"
    and "\<And>r. r \<in> set rows \<Longrightarrow> condition r \<Longrightarrow> check (change r) \<Longrightarrow> R r (change r)"
  shows "list_all2 R\<^sup>*\<^sup>* rows rows'"
  using assms by (auto simp: update_rows_Inr list_all2_conv_all_nth)

lemma list_all2_rtranclp_trans:
  "list_all2 R\<^sup>*\<^sup>* xs ys \<Longrightarrow> list_all2 R\<^sup>*\<^sup>* ys zs \<Longrightarrow> list_all2 R\<^sup>*\<^sup>* xs zs"
  by (rule list_all2_trans [where ?P1.0 = "R\<^sup>*\<^sup>*" and ?P2.0 = "R\<^sup>*\<^sup>*"]) auto

lemma list_all2_rtranclp_refl [simp]: "list_all2 R\<^sup>*\<^sup>* xs xs"
  by (simp add: list_all2_refl)

lemma moved_keep:
  assumes "R\<^sup>*\<^sup>* r s" "P r" "\<And>r s. R r s \<Longrightarrow> P r \<Longrightarrow> P s"
  shows "P s"
  using assms by (induction) auto

end
