(* ===== verification/Calendar.thy ===== *)
theory Calendar
  imports Tables
begin

text \<open>
  The civil calendar as the budgets use it (\<^verbatim>\<open>month_start\<close> of
  \<^verbatim>\<open>src/src/persistence/sqlite_ai_generation_repository.cpp\<close>): \<^verbatim>\<open>floor<days>\<close>, \<^verbatim>\<open>year_month_day\<close> and
  \<^verbatim>\<open>sys_days\<close> of \<^verbatim>\<open>std::chrono\<close>, by counting the months since 1970. The library's years end at 32767;
  a reading of the clock stays far below.
\<close>

definition day_ms :: int where "day_ms = 24 * 60 * 60 * 1000"

definition leap_year :: "nat \<Rightarrow> bool" where
  "leap_year y \<longleftrightarrow> 4 dvd y \<and> (\<not> 100 dvd y \<or> 400 dvd y)"

definition month_days :: "nat \<Rightarrow> nat \<Rightarrow> nat" where
  "month_days y m = (if m = 2 then if leap_year y then 29 else 28
     else if m \<in> {4, 6, 9, 11} then 30 else 31)"

lemma month_days_pos: "0 < month_days y m"
  by (simp add: month_days_def)

text \<open>The first day, since the epoch, of the month of a day: \<open>y\<close> and \<open>m\<close> begin at \<open>first\<close>.\<close>

function first_of_month :: "nat \<Rightarrow> nat \<Rightarrow> nat \<Rightarrow> nat \<Rightarrow> nat" where
  "first_of_month y m first day =
     (if day < first + month_days y m then first
      else if m = 12 then first_of_month (y + 1) 1 (first + month_days y m) day
      else first_of_month y (m + 1) (first + month_days y m) day)"
  by pat_completeness auto
termination
proof (relation "measure (\<lambda>(y, m, first, day). day - first)")
  fix y m first day :: nat
  assume "\<not> day < first + month_days y m"
  then have "day - (first + month_days y m) < day - first" using month_days_pos [of y m] by linarith
  then show "((y + 1, 1, first + month_days y m, day), y, m, first, day) \<in> measure (\<lambda>(y, m, first, day). day - first)"
    "((y, m + 1, first + month_days y m, day), y, m, first, day) \<in> measure (\<lambda>(y, m, first, day). day - first)"
    by simp_all
qed simp

declare first_of_month.simps [simp del]

definition month_start :: "int \<Rightarrow> int res" where
  "month_start now_ms =
     rbind (require (0 \<le> now_ms) (Invalid_argument ''AI generation timestamp is invalid.'')) (\<lambda>_.
     Inr (int (first_of_month 1970 1 0 (nat (now_ms div day_ms))) * day_ms))"

lemma first_of_month_lower: "first \<le> first_of_month y m first day"
proof (induction y m first day rule: first_of_month.induct)
  case (1 y m first day)
  then show ?case by (subst first_of_month.simps) (auto intro: order.trans [OF le_add1])
qed

lemma first_of_month_upper: "first \<le> day \<Longrightarrow> first_of_month y m first day \<le> day"
proof (induction y m first day rule: first_of_month.induct)
  case (1 y m first day)
  then show ?case by (subst first_of_month.simps) auto
qed

lemma first_of_month_mono: "d \<le> d' \<Longrightarrow> first_of_month y m first d \<le> first_of_month y m first d'"
proof (induction y m first d arbitrary: d' rule: first_of_month.induct)
  case (1 y m first d)
  show ?case
  proof (cases "d < first + month_days y m")
    case True
    then show ?thesis using first_of_month_lower [of first y m d'] by (simp add: first_of_month.simps [of y m first d])
  next
    case False
    then have "\<not> d' < first + month_days y m" using 1(3) by simp
    then show ?thesis using 1(1) [OF False _ 1(3)] 1(2) [OF False _ 1(3)] False
      by (cases "m = 12") (simp_all add: first_of_month.simps [of y m first] first_of_month.simps [of y 12 first])
  qed
qed

lemma month_start_ok: "0 \<le> t \<Longrightarrow> \<exists>u. month_start t = Inr u \<and> 0 \<le> u \<and> u \<le> t"
proof -
  assume t: "0 \<le> t"
  let ?f = "first_of_month 1970 1 0 (nat (t div day_ms))"
  have "int ?f \<le> t div day_ms"
    using first_of_month_upper [of 0 "nat (t div day_ms)" 1970 1] t by (simp add: day_ms_def nat_le_iff pos_imp_zdiv_nonneg_iff)
  then have "int ?f * day_ms \<le> t div day_ms * day_ms" by (intro mult_right_mono) (simp_all add: day_ms_def)
  also have "\<dots> \<le> t" by (simp add: day_ms_def minus_mod_eq_div_mult [symmetric])
  finally show ?thesis using t by (simp add: month_start_def day_ms_def)
qed

lemma month_start_mono: "month_start s = Inr a \<Longrightarrow> month_start t = Inr b \<Longrightarrow> s \<le> t \<Longrightarrow> a \<le> b"
proof -
  assume a: "month_start s = Inr a" and b: "month_start t = Inr b" and "s \<le> t"
  then have "first_of_month 1970 1 0 (nat (s div day_ms)) \<le> first_of_month 1970 1 0 (nat (t div day_ms))"
    by (intro first_of_month_mono nat_mono zdiv_mono1) (simp_all add: day_ms_def)
  then show "a \<le> b" using a b by (auto simp: month_start_def rbind_eq_Inr day_ms_def)
qed

end
