(* ===== verification/Ai_Budget.thy ===== *)
theory Ai_Budget
  imports Calendar Provider_Circuit
begin

text \<open>
  The table of the attempts of the text generator and what is charged to its budgets
  (\<^verbatim>\<open>src/src/persistence/sqlite_ai_generation_repository.cpp\<close>, the tables of
  \<^verbatim>\<open>src/migrations/0016_cross_feature_reliability.sql\<close>). The circuit of the provider is in
  \<open>Ai_Circuit\<close>.
\<close>

section \<open>Rows and requests\<close>

datatype ai_purpose = Direct_purpose | Chronicle_summary | Appearance_purpose | Vox_narration | Vox_session

datatype ai_priority = Direct_priority | Explicit_priority | Optional_priority

datatype attempt_state = Reserved | Submitted | Succeeded_attempt | Failed_attempt | Cancelled | Unknown_attempt

record attempt_row =
  attempt_id :: string
  attempt_guild :: u64
  attempt_requester :: "string option"
  attempt_purpose :: ai_purpose
  attempt_priority :: ai_priority
  attempt_model :: string
  input_rate :: int
  output_rate :: int
  reserved_input :: int
  reserved_output :: int
  reserved_cost :: int
  actual_input :: "int option"
  actual_output :: "int option"
  actual_cost :: "int option"
  provider_sent :: bool
  provider_request :: "string option"
  attempt_state :: attempt_state
  result_code :: "string option"
  attempt_key :: string
  attempt_created_at :: int
  attempt_submitted_at :: "int option"
  attempt_completed_at :: "int option"

record ai_policy =
  day_cost_limit :: int
  month_cost_limit :: int
  day_generations :: nat
  direct_generations :: nat
  maximum_input_bytes :: nat
  maximum_output_tokens :: nat
  policy_input_rate :: int
  policy_output_rate :: int
  policy_model :: string

datatype ai_admission = Admitted_generation | Duplicate_generation | Generation_disabled | Daily_count
  | Direct_rate | Daily_cost | Monthly_cost | Provider_unavailable

record ai_reservation =
  rsv_attempt :: string
  rsv_key :: string
  rsv_requester :: "string option"
  rsv_purpose :: ai_purpose
  rsv_priority :: ai_priority
  rsv_model :: string
  rsv_input_rate :: int
  rsv_output_rate :: int
  rsv_input_tokens :: nat
  rsv_output_tokens :: nat
  rsv_cost :: int
  rsv_now :: int

record ai_usage =
  used_input :: nat
  used_output :: nat
  used_cost :: int
  used_request :: string
  used_completed_at :: int

text \<open>
  \<open>text_control\<close> is the \<^verbatim>\<open>disabled\<close> of the row of \<^verbatim>\<open>text-ai\<close> in the feature controls. Members and
  guilds are the rows other tables may refer to.
\<close>

record ai_db =
  attempts :: "attempt_row list"
  text_control :: "bool option"
  ai_guilds :: "u64 list"
  ai_members :: "u64 list"
  ai_circuits :: circuit_db

section \<open>Constraints\<close>

definition attempt_check :: "attempt_row \<Rightarrow> ai_db \<Rightarrow> bool" where
  [row_checks]: "attempt_check r db \<longleftrightarrow> valid_uuid_v4 (attempt_id r) \<and> attempt_guild r \<in> set (ai_guilds db)
     \<and> (case attempt_requester r of None \<Rightarrow> True | Some u \<Rightarrow> u \<in> snowflake_str ` set (ai_members db))
     \<and> between 1 128 (length (attempt_model r)) \<and> 0 < input_rate r \<and> 0 < output_rate r
     \<and> 1 \<le> reserved_input r \<and> reserved_input r \<le> 16000 \<and> 1 \<le> reserved_output r \<and> reserved_output r \<le> 500
     \<and> 0 < reserved_cost r
     \<and> (case actual_input r of None \<Rightarrow> True | Some n \<Rightarrow> 0 \<le> n \<and> n \<le> 16000)
     \<and> (case actual_output r of None \<Rightarrow> True | Some n \<Rightarrow> 0 \<le> n \<and> n \<le> 500)
     \<and> (case actual_cost r of None \<Rightarrow> True | Some n \<Rightarrow> 0 \<le> n \<and> n \<le> reserved_cost r)
     \<and> (case provider_request r of None \<Rightarrow> True | Some i \<Rightarrow> between 1 128 (length i))
     \<and> (case result_code r of None \<Rightarrow> True | Some c \<Rightarrow> machine_text 96 c)
     \<and> between 1 160 (length (attempt_key r)) \<and> 0 \<le> attempt_created_at r
     \<and> (case attempt_submitted_at r of None \<Rightarrow> True | Some t \<Rightarrow> attempt_created_at r \<le> t)
     \<and> (case attempt_completed_at r of None \<Rightarrow> True | Some t \<Rightarrow> attempt_created_at r \<le> t)
     \<and> (attempt_state r \<in> {Succeeded_attempt, Failed_attempt, Cancelled, Unknown_attempt} \<longleftrightarrow> attempt_completed_at r \<noteq> None)
     \<and> (attempt_state r \<in> {Submitted, Succeeded_attempt, Failed_attempt, Unknown_attempt} \<longrightarrow> provider_sent r)
     \<and> (attempt_state r = Succeeded_attempt
        \<longleftrightarrow> actual_input r \<noteq> None \<and> actual_output r \<noteq> None \<and> actual_cost r \<noteq> None)"

definition insert_attempt :: "attempt_row \<Rightarrow> ai_db \<Rightarrow> ai_db res" where
  "insert_attempt r db =
     rbind (require (attempt_check r db \<and> attempt_id r \<notin> attempt_id ` set (attempts db)
        \<and> attempt_key r \<notin> attempt_key ` set (attempts db)) (Constraint ''ai_generation_attempt'')) (\<lambda>_.
     Inr (db\<lparr>attempts := attempts db @ [r]\<rparr>))"

definition update_attempts ::
    "(attempt_row \<Rightarrow> bool) \<Rightarrow> (attempt_row \<Rightarrow> attempt_row) \<Rightarrow> ai_db \<Rightarrow> (nat \<times> ai_db) res" where
  "update_attempts condition change db =
     rbind (update_rows (\<lambda>r. attempt_check r db) ''ai_generation_attempt'' condition change (attempts db))
       (\<lambda>(changes, rows). Inr (changes, db\<lparr>attempts := rows\<rparr>))"

section \<open>Charges\<close>

definition rolling_day_ms :: int where "rolling_day_ms = 24 * 60 * 60 * 1000"
definition direct_window_ms :: int where "direct_window_ms = 10 * 60 * 1000"

definition charge :: "attempt_row \<Rightarrow> int" where
  "charge r = (if attempt_state r = Succeeded_attempt then the (actual_cost r) else reserved_cost r)"

text \<open>The rows a budget counts: of the guild, from a time on, not cancelled.\<close>

definition counted_rows :: "u64 \<Rightarrow> int \<Rightarrow> ai_db \<Rightarrow> attempt_row list" where
  "counted_rows guild since db =
     filter (\<lambda>r. attempt_guild r = guild \<and> since \<le> attempt_created_at r \<and> attempt_state r \<noteq> Cancelled) (attempts db)"

text \<open>\<^verbatim>\<open>SUM\<close> of integers throws where it leaves 64 bits; no charge is negative.\<close>

definition charged_usage :: "u64 \<Rightarrow> int \<Rightarrow> ai_db \<Rightarrow> int res" where
  "charged_usage guild since db = (let total = (\<Sum>r\<leftarrow>counted_rows guild since db. charge r) in
     rbind (require (total \<le> int64_max) (Runtime_error ''integer overflow'')) (\<lambda>_. Inr total))"

definition accepted_count :: "u64 \<Rightarrow> int \<Rightarrow> ai_db \<Rightarrow> int" where
  "accepted_count guild since db = int (length (counted_rows guild since db))"

definition direct_count :: "u64 \<Rightarrow> string \<Rightarrow> int \<Rightarrow> ai_db \<Rightarrow> int" where
  "direct_count guild user since db = int (length (filter
     (\<lambda>r. attempt_requester r = Some user \<and> attempt_priority r = Direct_priority) (counted_rows guild since db)))"

definition would_exceed :: "int \<Rightarrow> int \<Rightarrow> int \<Rightarrow> bool" where
  "would_exceed used reserved limit \<longleftrightarrow> used < 0 \<or> reserved < 0 \<or> limit < 0 \<or> limit < used \<or> limit - used < reserved"

definition require_ai_timestamp :: "int \<Rightarrow> unit res" where
  "require_ai_timestamp t = require (0 \<le> t) (Invalid_argument ''AI generation timestamp is invalid.'')"

definition require_identifier :: "string \<Rightarrow> nat \<Rightarrow> unit res" where
  "require_identifier s maximum =
     require (s \<noteq> [] \<and> length s \<le> maximum) (Invalid_argument ''AI generation identifier is invalid.'')"

definition require_changed :: "nat \<Rightarrow> unit res" where
  "require_changed changes = require (changes = 1) (Runtime_error ''AI generation state transition was stale.'')"

section \<open>Reservation\<close>

definition reservation_valid :: "u64 \<Rightarrow> ai_reservation \<Rightarrow> ai_policy \<Rightarrow> unit res" where
  "reservation_valid guild v policy =
     rbind (require (\<not> (guild = 0 \<or> rsv_requester v = None \<and> rsv_priority v = Direct_priority))
       (Invalid_argument ''Direct AI generation requester is required.'')) (\<lambda>_.
     rbind (require_identifier (rsv_attempt v) 36) (\<lambda>_.
     rbind (require_identifier (rsv_key v) 160) (\<lambda>_.
     rbind (require_identifier (rsv_model v) 128) (\<lambda>_.
     rbind (require_ai_timestamp (rsv_now v)) (\<lambda>_.
     require (\<not> (rsv_input_tokens v = 0 \<or> maximum_input_bytes policy < rsv_input_tokens v
        \<or> rsv_output_tokens v = 0 \<or> maximum_output_tokens policy < rsv_output_tokens v \<or> rsv_cost v \<le> 0))
       (Invalid_argument ''AI generation reservation is invalid.''))))))"

definition window_start :: "int \<Rightarrow> int \<Rightarrow> int" where
  "window_start window now_ms = (if window < now_ms then now_ms - window else 0)"

definition reserved_row :: "u64 \<Rightarrow> ai_reservation \<Rightarrow> attempt_row" where
  "reserved_row guild v = \<lparr>attempt_id = rsv_attempt v, attempt_guild = guild, attempt_requester = rsv_requester v,
     attempt_purpose = rsv_purpose v, attempt_priority = rsv_priority v, attempt_model = rsv_model v,
     input_rate = rsv_input_rate v, output_rate = rsv_output_rate v, reserved_input = int (rsv_input_tokens v),
     reserved_output = int (rsv_output_tokens v), reserved_cost = rsv_cost v, actual_input = None,
     actual_output = None, actual_cost = None, provider_sent = False, provider_request = None,
     attempt_state = Reserved, result_code = None, attempt_key = rsv_key v, attempt_created_at = rsv_now v,
     attempt_submitted_at = None, attempt_completed_at = None\<rparr>"

text \<open>The two budgets of cost, after the counts.\<close>

definition reserve_cost :: "u64 \<Rightarrow> ai_reservation \<Rightarrow> ai_policy \<Rightarrow> ai_db \<Rightarrow> ((ai_admission \<times> string) \<times> ai_db) res" where
  "reserve_cost guild v policy db =
     rbind (charged_usage guild (window_start rolling_day_ms (rsv_now v)) db) (\<lambda>day.
     if would_exceed day (rsv_cost v) (day_cost_limit policy) then Inr ((Daily_cost, []), db)
     else
     rbind (month_start (rsv_now v)) (\<lambda>start.
     rbind (charged_usage guild start db) (\<lambda>month.
     if would_exceed month (rsv_cost v) (month_cost_limit policy) then Inr ((Monthly_cost, []), db)
     else
     rbind (insert_attempt (reserved_row guild v) db) (\<lambda>db.
     Inr ((Admitted_generation, rsv_attempt v), db)))))"

definition direct_exhausted :: "u64 \<Rightarrow> ai_reservation \<Rightarrow> ai_policy \<Rightarrow> ai_db \<Rightarrow> bool" where
  "direct_exhausted guild v policy db \<longleftrightarrow> rsv_priority v = Direct_priority
     \<and> int (direct_generations policy)
       \<le> direct_count guild (the (rsv_requester v)) (window_start direct_window_ms (rsv_now v)) db"

definition ai_reserve ::
    "u64 \<Rightarrow> ai_reservation \<Rightarrow> ai_policy \<Rightarrow> ai_db \<Rightarrow> ((ai_admission \<times> string) \<times> ai_db) res" where
  "ai_reserve guild v policy db =
     rbind (reservation_valid guild v policy) (\<lambda>_.
     case find_row attempt_key (rsv_key v) (attempts db) of
       Some r \<Rightarrow> Inr ((Duplicate_generation, attempt_id r), db)
     | None \<Rightarrow>
       if text_control db \<noteq> Some False then Inr ((Generation_disabled, []), db)
       else if int (day_generations policy) \<le> accepted_count guild (window_start rolling_day_ms (rsv_now v)) db
       then Inr ((Daily_count, []), db)
       else if direct_exhausted guild v policy db then Inr ((Direct_rate, []), db)
       else reserve_cost guild v policy db)"

section \<open>Settlement\<close>

definition in_range :: "char \<Rightarrow> char \<Rightarrow> char \<Rightarrow> bool" where
  "in_range low high c \<longleftrightarrow> low \<le> c \<and> c \<le> high"

definition request_char :: "char \<Rightarrow> bool" where
  "request_char c \<longleftrightarrow> in_range CHR ''a'' CHR ''z'' c \<or> in_range CHR ''A'' CHR ''Z'' c \<or> in_range CHR ''0'' CHR ''9'' c
     \<or> c \<in> set ''_-.''"

definition sanitize_request_id :: "string \<Rightarrow> string" where
  "sanitize_request_id s = (if s = [] \<or> 128 < length s \<or> \<not> list_all request_char s then [] else s)"

definition request_id :: "string \<Rightarrow> string option res" where
  "request_id s = rbind (require (s = [] \<or> sanitize_request_id s \<noteq> [])
     (Invalid_argument ''Provider request ID is invalid.'')) (\<lambda>_.
     Inr (if sanitize_request_id s = [] then None else Some (sanitize_request_id s)))"

text \<open>An UPDATE of the attempt that must change its row.\<close>

definition settle_attempt ::
    "string \<Rightarrow> attempt_state \<Rightarrow> (attempt_row \<Rightarrow> attempt_row) \<Rightarrow> ai_db \<Rightarrow> ai_db res" where
  "settle_attempt i from_state change db =
     rbind (update_attempts (\<lambda>r. attempt_id r = i \<and> attempt_state r = from_state) change db) (\<lambda>(changes, db).
     rbind (require_changed changes) (\<lambda>_. Inr db))"

definition mark_submitted :: "string \<Rightarrow> int \<Rightarrow> ai_db \<Rightarrow> ai_db res" where
  "mark_submitted i now_ms db =
     rbind (require_ai_timestamp now_ms) (\<lambda>_.
     settle_attempt i Reserved
       (\<lambda>r. r\<lparr>provider_sent := True, attempt_state := Submitted, attempt_submitted_at := Some now_ms\<rparr>) db)"

definition complete_attempt :: "string \<Rightarrow> ai_usage \<Rightarrow> ai_db \<Rightarrow> ai_db res" where
  "complete_attempt i u db =
     rbind (require_ai_timestamp (used_completed_at u)) (\<lambda>_.
     rbind (request_id (used_request u)) (\<lambda>request.
     settle_attempt i Submitted
       (\<lambda>r. r\<lparr>attempt_state := Succeeded_attempt, actual_input := Some (int (used_input u)),
          actual_output := Some (int (used_output u)), actual_cost := Some (used_cost u),
          provider_request := request, result_code := Some ''success'',
          attempt_completed_at := Some (used_completed_at u)\<rparr>) db))"

definition fail_attempt :: "string \<Rightarrow> string \<Rightarrow> string \<Rightarrow> int \<Rightarrow> ai_db \<Rightarrow> ai_db res" where
  "fail_attempt i code provider now_ms db =
     rbind (require_ai_timestamp now_ms) (\<lambda>_.
     rbind (require_identifier code 96) (\<lambda>_.
     rbind (request_id provider) (\<lambda>request.
     settle_attempt i Submitted
       (\<lambda>r. r\<lparr>attempt_state := Failed_attempt, result_code := Some code, provider_request := request,
          attempt_completed_at := Some now_ms\<rparr>) db)))"

definition cancel_attempt :: "string \<Rightarrow> string \<Rightarrow> int \<Rightarrow> ai_db \<Rightarrow> ai_db res" where
  "cancel_attempt i code now_ms db =
     rbind (require_ai_timestamp now_ms) (\<lambda>_.
     rbind (require_identifier code 96) (\<lambda>_.
     settle_attempt i Reserved
       (\<lambda>r. r\<lparr>attempt_state := Cancelled, result_code := Some code, attempt_completed_at := Some now_ms\<rparr>) db))"

definition recover_reserved :: "int \<Rightarrow> ai_db \<Rightarrow> (nat \<times> ai_db) res" where
  "recover_reserved now_ms db =
     rbind (require_ai_timestamp now_ms) (\<lambda>_.
     update_attempts (\<lambda>r. attempt_state r = Reserved \<and> \<not> provider_sent r)
       (\<lambda>r. r\<lparr>attempt_state := Cancelled, result_code := Some ''process_restart_before_send'',
          attempt_completed_at := Some now_ms\<rparr>) db)"

definition recover_submitted :: "int \<Rightarrow> ai_db \<Rightarrow> (nat \<times> ai_db) res" where
  "recover_submitted now_ms db =
     rbind (require_ai_timestamp now_ms) (\<lambda>_.
     update_attempts (\<lambda>r. attempt_state r = Submitted)
       (\<lambda>r. r\<lparr>attempt_state := Unknown_attempt, result_code := Some ''process_restart'',
          attempt_completed_at := Some now_ms\<rparr>) db)"

text \<open>What the operator is shown: usage of the day and of the month against the limits.\<close>

record ai_health =
  operator_disabled :: bool
  shown_circuit :: circuit_state
  shown_generations :: int
  shown_day_cost :: int
  shown_month_cost :: int
  generation_limit_exhausted :: bool
  day_budget_exhausted :: bool
  month_budget_exhausted :: bool

definition text_circuit :: "circuit_db \<Rightarrow> circuit_row res" where
  "text_circuit db = (case circuits db ''openai_text'' of
      None \<Rightarrow> Inl (Runtime_error ''Text provider circuit is missing.'') | Some r \<Rightarrow> Inr r)"

definition ai_health :: "u64 \<Rightarrow> int \<Rightarrow> ai_policy \<Rightarrow> ai_db \<Rightarrow> ai_health res" where
  "ai_health guild now_ms policy db =
     rbind (require (guild \<noteq> 0) (Invalid_argument ''AI generation health scope is invalid.'')) (\<lambda>_.
     rbind (require_ai_timestamp now_ms) (\<lambda>_.
     rbind (case text_control db of None \<Rightarrow> Inl (Runtime_error ''Text AI runtime control is missing.'')
       | Some disabled \<Rightarrow> Inr disabled) (\<lambda>disabled.
     rbind (text_circuit (ai_circuits db)) (\<lambda>circuit.
     let since = window_start rolling_day_ms now_ms; generations = accepted_count guild since db in
     rbind (charged_usage guild since db) (\<lambda>day.
     rbind (month_start now_ms) (\<lambda>start.
     rbind (charged_usage guild start db) (\<lambda>month.
     Inr \<lparr>operator_disabled = disabled, shown_circuit = circuit_state circuit, shown_generations = generations,
       shown_day_cost = day, shown_month_cost = month,
       generation_limit_exhausted = (int (day_generations policy) \<le> generations),
       day_budget_exhausted = (day_cost_limit policy \<le> day),
       month_budget_exhausted = (month_cost_limit policy \<le> month)\<rparr>)))))))"

end
