(* ===== verification/Ai_Spending.thy ===== *)
theory Ai_Spending
  imports Ai_Budget
begin

text \<open>
  The budgets of the text generator hold in every history of the calls of
  \<open>Ai_Budget\<close>: usage over windows, how a call changes it, and the property over all
  reachable tables.
\<close>

section \<open>Usage\<close>

text \<open>What rows weigh that satisfy a condition and are not cancelled.\<close>

definition usage :: "(attempt_row \<Rightarrow> bool) \<Rightarrow> (attempt_row \<Rightarrow> int) \<Rightarrow> attempt_row list \<Rightarrow> int" where
  "usage P w rows = (\<Sum>r\<leftarrow>rows. if P r \<and> attempt_state r \<noteq> Cancelled then w r else 0)"

definition from_time :: "u64 \<Rightarrow> int \<Rightarrow> attempt_row \<Rightarrow> bool" where
  "from_time guild since r \<longleftrightarrow> attempt_guild r = guild \<and> since \<le> attempt_created_at r"

definition in_window :: "u64 \<Rightarrow> int \<Rightarrow> int \<Rightarrow> attempt_row \<Rightarrow> bool" where
  "in_window guild since until r \<longleftrightarrow> from_time guild since r \<and> attempt_created_at r \<le> until"

definition direct_by :: "string \<Rightarrow> attempt_row \<Rightarrow> bool" where
  "direct_by user r \<longleftrightarrow> attempt_requester r = Some user \<and> attempt_priority r = Direct_priority"

lemma usage_simps [simp]:
  "usage P w [] = 0"
  "usage P w (xs @ ys) = usage P w xs + usage P w ys"
  "usage P w (r # rows) = (if P r \<and> attempt_state r \<noteq> Cancelled then w r else 0) + usage P w rows"
  by (simp_all add: usage_def)

lemma usage_filter:
  fixes w :: "attempt_row \<Rightarrow> int"
  shows "(\<Sum>r\<leftarrow>filter (\<lambda>r. P r \<and> attempt_state r \<noteq> Cancelled) rows. w r) = usage P w rows"
  by (induction rows) auto

lemma usage_length: "int (length (filter (\<lambda>r. P r \<and> attempt_state r \<noteq> Cancelled) rows)) = usage P (\<lambda>r. 1) rows"
  by (induction rows) auto

lemma charged_usage_Inr:
  "charged_usage guild since db = Inr b \<longleftrightarrow> b = usage (from_time guild since) charge (attempts db) \<and> b \<le> int64_max"
  using usage_filter [where P = "from_time guild since" and w = charge and rows = "attempts db"]
  by (auto simp: charged_usage_def counted_rows_def from_time_def Let_def rbind_eq_Inr)

lemma accepted_count_usage: "accepted_count guild since db = usage (from_time guild since) (\<lambda>r. 1) (attempts db)"
  using usage_length [where P = "from_time guild since" and rows = "attempts db"]
  by (simp add: accepted_count_def counted_rows_def from_time_def)

lemma direct_count_usage:
  "direct_count guild user since db
     = usage (\<lambda>r. from_time guild since r \<and> direct_by user r) (\<lambda>r. 1) (attempts db)"
  using usage_length [where P = "\<lambda>r. from_time guild since r \<and> direct_by user r" and rows = "attempts db"]
  by (simp add: direct_count_def counted_rows_def from_time_def direct_by_def conj_ac filter_filter)

lemma usage_mono:
  assumes "\<And>r. r \<in> set rows \<Longrightarrow> P r \<Longrightarrow> Q r" "\<And>r. r \<in> set rows \<Longrightarrow> 0 \<le> w r"
  shows "usage P w rows \<le> usage Q w rows"
  using assms unfolding usage_def by (intro sum_list_mono) auto

lemma usage_sub: "(\<And>r. r \<in> set rows \<Longrightarrow> 0 \<le> w r) \<Longrightarrow> usage P w (filter keep rows) \<le> usage P w rows"
  by (induction rows) (auto simp: order.trans [OF _ add_increasing])

lemma usage_nonneg: "(\<And>r. r \<in> set rows \<Longrightarrow> 0 \<le> w r) \<Longrightarrow> 0 \<le> usage P w rows"
  unfolding usage_def by (intro sum_list_nonneg) auto

section \<open>Rows settle downwards\<close>

definition attempt_ok :: "attempt_row \<Rightarrow> bool" where
  "attempt_ok r \<longleftrightarrow> 0 \<le> attempt_created_at r \<and> 0 \<le> charge r \<and> charge r \<le> reserved_cost r"

definition settles :: "attempt_row \<Rightarrow> attempt_row \<Rightarrow> bool" where
  "settles r r' \<longleftrightarrow> attempt_id r' = attempt_id r \<and> attempt_key r' = attempt_key r \<and> attempt_guild r' = attempt_guild r
     \<and> attempt_requester r' = attempt_requester r \<and> attempt_priority r' = attempt_priority r
     \<and> attempt_created_at r' = attempt_created_at r \<and> reserved_cost r' = reserved_cost r
     \<and> (attempt_state r = Cancelled \<longrightarrow> attempt_state r' = Cancelled)
     \<and> charge r' \<le> charge r \<and> attempt_ok r'"

lemma usage_settles:
  assumes "list_all2 settles rows rows'" "\<And>r. r \<in> set rows \<Longrightarrow> attempt_ok r"
    and "\<And>r r'. settles r r' \<Longrightarrow> P r' = P r"
  shows "usage P charge rows' \<le> usage P charge rows" "usage P (\<lambda>r. 1) rows' \<le> usage P (\<lambda>r. 1) rows"
  using assms
  by (induction rule: list_all2_induct)
    (force simp: settles_def attempt_ok_def intro: add_mono)+

lemma attempt_check_ok: "attempt_check r db \<Longrightarrow> attempt_ok r"
  by (auto simp: attempt_check_def attempt_ok_def charge_def split: option.splits)

lemma update_attempts_settles:
  assumes "update_attempts condition change db = Inr (n, db')" "\<And>r. r \<in> set (attempts db) \<Longrightarrow> attempt_ok r"
    and "\<And>r. condition r \<Longrightarrow> attempt_check (change r) db \<Longrightarrow> attempt_ok r \<Longrightarrow> settles r (change r)"
  shows "list_all2 settles (attempts db) (attempts db')" "db' = db\<lparr>attempts := attempts db'\<rparr>"
  using assms
  by (auto simp: update_attempts_def rbind_eq_Inr update_rows_Inr list_all2_conv_all_nth settles_def)

section \<open>Histories\<close>

text \<open>
  The calls of the repository on the attempts, with any arguments, that were served; the daily
  retention, which deletes settled rows; and whatever else the program does to the other tables.
  \<open>policy\<close> is the one the service was built with.
\<close>

inductive budget_later :: "u64 \<Rightarrow> ai_policy \<Rightarrow> ai_db \<Rightarrow> ai_db \<Rightarrow> bool" for guild policy db where
  started: "budget_later guild policy db db"
| reserved: "budget_later guild policy db db1 \<Longrightarrow> ai_reserve guild v policy db1 = Inr (answer, db2)
    \<Longrightarrow> budget_later guild policy db db2"
| submitted: "budget_later guild policy db db1 \<Longrightarrow> mark_submitted i t db1 = Inr db2 \<Longrightarrow> budget_later guild policy db db2"
| completed: "budget_later guild policy db db1 \<Longrightarrow> complete_attempt i u db1 = Inr db2 \<Longrightarrow> budget_later guild policy db db2"
| failed: "budget_later guild policy db db1 \<Longrightarrow> fail_attempt i code req t db1 = Inr db2 \<Longrightarrow> budget_later guild policy db db2"
| cancelled: "budget_later guild policy db db1 \<Longrightarrow> cancel_attempt i code t db1 = Inr db2 \<Longrightarrow> budget_later guild policy db db2"
| unreserved: "budget_later guild policy db db1 \<Longrightarrow> recover_reserved t db1 = Inr (n, db2) \<Longrightarrow> budget_later guild policy db db2"
| unsubmitted: "budget_later guild policy db db1 \<Longrightarrow> recover_submitted t db1 = Inr (n, db2) \<Longrightarrow> budget_later guild policy db db2"
| retained: "budget_later guild policy db db1 \<Longrightarrow> db2 = db1\<lparr>attempts := filter (\<lambda>r. \<not> gone r) (attempts db1)\<rparr>
    \<Longrightarrow> (\<And>r. gone r \<Longrightarrow> attempt_completed_at r \<noteq> None) \<Longrightarrow> budget_later guild policy db db2"
| elsewhere: "budget_later guild policy db db1 \<Longrightarrow> attempts db2 = attempts db1 \<Longrightarrow> budget_later guild policy db db2"

lemma settle_attempt_Inr:
  "settle_attempt i st change db = Inr db' \<longleftrightarrow>
     update_attempts (\<lambda>r. attempt_id r = i \<and> attempt_state r = st) change db = Inr (1, db')"
  by (auto simp: settle_attempt_def rbind_eq_Inr require_changed_def)

text \<open>A call that settles, or leaves the attempts alone.\<close>

lemma settles_change:
  assumes "attempt_check r' db" "attempt_state r = Reserved \<or> attempt_state r = Submitted"
    and "attempt_id r' = attempt_id r" "attempt_key r' = attempt_key r" "attempt_guild r' = attempt_guild r"
    "attempt_requester r' = attempt_requester r" "attempt_priority r' = attempt_priority r"
    "attempt_created_at r' = attempt_created_at r" "reserved_cost r' = reserved_cost r"
  shows "settles r r'"
  using assms attempt_check_ok [OF assms(1)] by (auto simp: settles_def attempt_ok_def charge_def [of r])

lemma settled_calls:
  assumes "\<And>r. r \<in> set (attempts db) \<Longrightarrow> attempt_ok r"
  shows "mark_submitted i t db = Inr db' \<Longrightarrow> list_all2 settles (attempts db) (attempts db')"
    and "complete_attempt i u db = Inr db' \<Longrightarrow> list_all2 settles (attempts db) (attempts db')"
    and "fail_attempt i code req t db = Inr db' \<Longrightarrow> list_all2 settles (attempts db) (attempts db')"
    and "cancel_attempt i code t db = Inr db' \<Longrightarrow> list_all2 settles (attempts db) (attempts db')"
    and "recover_reserved t db = Inr (n, db') \<Longrightarrow> list_all2 settles (attempts db) (attempts db')"
    and "recover_submitted t db = Inr (n, db') \<Longrightarrow> list_all2 settles (attempts db) (attempts db')"
proof -
  have u: "list_all2 settles (attempts db) (attempts db')"
    if "update_attempts condition change db = Inr (n, db')"
      "\<And>r. condition r \<Longrightarrow> attempt_check (change r) db \<Longrightarrow> settles r (change r)" for condition change n
    using update_attempts_settles(1) [OF that(1) assms that(2)] by blast
  show "list_all2 settles (attempts db) (attempts db')" if "mark_submitted i t db = Inr db'"
    using that by (auto simp: mark_submitted_def rbind_eq_Inr settle_attempt_Inr elim!: u intro: settles_change)
  show "list_all2 settles (attempts db) (attempts db')" if "complete_attempt i u db = Inr db'"
    using that by (auto simp: complete_attempt_def rbind_eq_Inr settle_attempt_Inr elim!: u intro: settles_change)
  show "list_all2 settles (attempts db) (attempts db')" if "fail_attempt i code req t db = Inr db'"
    using that by (auto simp: fail_attempt_def rbind_eq_Inr settle_attempt_Inr elim!: u intro: settles_change)
  show "list_all2 settles (attempts db) (attempts db')" if "cancel_attempt i code t db = Inr db'"
    using that by (auto simp: cancel_attempt_def rbind_eq_Inr settle_attempt_Inr elim!: u intro: settles_change)
  show "list_all2 settles (attempts db) (attempts db')" if "recover_reserved t db = Inr (n, db')"
    using that by (auto simp: recover_reserved_def rbind_eq_Inr elim!: u intro: settles_change)
  show "list_all2 settles (attempts db) (attempts db')" if "recover_submitted t db = Inr (n, db')"
    using that by (auto simp: recover_submitted_def rbind_eq_Inr elim!: u intro: settles_change)
qed

lemma reserve_cases:
  assumes "ai_reserve guild v policy db = Inr ((a, i), db')"
  obtains (refused) "db' = db" "a \<noteq> Admitted_generation"
  | (accepted) start where "a = Admitted_generation" "i = rsv_attempt v"
    "db' = db\<lparr>attempts := attempts db @ [reserved_row guild v]\<rparr>"
    "attempt_check (reserved_row guild v) db" "rsv_attempt v \<notin> attempt_id ` set (attempts db)"
    "rsv_key v \<notin> attempt_key ` set (attempts db)" "0 \<le> rsv_now v"
    "usage (from_time guild (window_start rolling_day_ms (rsv_now v))) charge (attempts db) + rsv_cost v
       \<le> day_cost_limit policy"
    "month_start (rsv_now v) = Inr start"
    "usage (from_time guild start) charge (attempts db) + rsv_cost v \<le> month_cost_limit policy"
    "usage (from_time guild (window_start rolling_day_ms (rsv_now v))) (\<lambda>r. 1) (attempts db) < int (day_generations policy)"
    "rsv_priority v = Direct_priority \<Longrightarrow> rsv_requester v \<noteq> None
      \<and> usage (\<lambda>r. from_time guild (window_start direct_window_ms (rsv_now v)) r \<and> direct_by (the (rsv_requester v)) r)
           (\<lambda>r. 1) (attempts db) < int (direct_generations policy)"
proof (cases "a = Admitted_generation")
  case False
  then have "db' = db" using assms
    by (auto simp: ai_reserve_def reserve_cost_def rbind_eq_Inr split: option.splits if_splits)
  with False show thesis by (rule refused [rotated])
next
  case True
  from assms have v: "reservation_valid guild v policy = Inr ()"
    by (auto simp: ai_reserve_def rbind_eq_Inr)
  from assms True have c: "reserve_cost guild v policy db = Inr ((a, i), db')" "\<not> direct_exhausted guild v policy db"
    "\<not> int (day_generations policy) \<le> accepted_count guild (window_start rolling_day_ms (rsv_now v)) db"
    by (auto simp: ai_reserve_def rbind_eq_Inr split: option.splits if_splits)
  obtain day start month where m: "charged_usage guild (window_start rolling_day_ms (rsv_now v)) db = Inr day"
    "\<not> would_exceed day (rsv_cost v) (day_cost_limit policy)" "month_start (rsv_now v) = Inr start"
    "charged_usage guild start db = Inr month" "\<not> would_exceed month (rsv_cost v) (month_cost_limit policy)"
    "insert_attempt (reserved_row guild v) db = Inr db'" "i = rsv_attempt v"
    using c(1) True by (auto simp: reserve_cost_def rbind_eq_Inr split: if_splits)
  have "0 \<le> rsv_now v" "rsv_priority v = Direct_priority \<Longrightarrow> rsv_requester v \<noteq> None"
    using v by (auto simp: reservation_valid_def rbind_eq_Inr require_ai_timestamp_def)
  moreover have "db' = db\<lparr>attempts := attempts db @ [reserved_row guild v]\<rparr>" "attempt_check (reserved_row guild v) db"
    "rsv_attempt v \<notin> attempt_id ` set (attempts db)" "rsv_key v \<notin> attempt_key ` set (attempts db)"
    using m(6) by (auto simp: insert_attempt_def rbind_eq_Inr reserved_row_def)
  ultimately show thesis
    using True m(1-5,7) c(2,3)
    by (intro accepted [of start])
      (auto simp: charged_usage_Inr would_exceed_def accepted_count_usage direct_count_usage direct_exhausted_def)
qed

section \<open>The budgets hold\<close>

definition within_budget :: "u64 \<Rightarrow> ai_policy \<Rightarrow> ai_db \<Rightarrow> bool" where
  "within_budget guild policy db \<longleftrightarrow> (\<forall>t.
       usage (in_window guild (t - rolling_day_ms) t) charge (attempts db) \<le> day_cost_limit policy
     \<and> (\<forall>start. month_start t = Inr start
          \<longrightarrow> usage (in_window guild start t) charge (attempts db) \<le> month_cost_limit policy)
     \<and> usage (in_window guild (t - rolling_day_ms) t) (\<lambda>r. 1) (attempts db) \<le> int (day_generations policy)
     \<and> (\<forall>u. usage (\<lambda>r. in_window guild (t - direct_window_ms) t r \<and> direct_by u r) (\<lambda>r. 1) (attempts db)
          \<le> int (direct_generations policy)))"

lemma within_budget_settles:
  assumes "within_budget guild policy db" "list_all2 settles (attempts db) (attempts db')"
    and "\<And>r. r \<in> set (attempts db) \<Longrightarrow> attempt_ok r"
  shows "within_budget guild policy db'" "\<And>r. r \<in> set (attempts db') \<Longrightarrow> attempt_ok r"
proof -
  have p: "in_window guild a b r' = in_window guild a b r" "direct_by u r' = direct_by u r" if "settles r r'" for a b u r r'
    using that by (auto simp: settles_def in_window_def from_time_def direct_by_def)
  show "within_budget guild policy db'"
    using assms(1) unfolding within_budget_def
    by (intro allI conjI impI)
      (rule order.trans [OF usage_settles(1) [OF assms(2,3)]] order.trans [OF usage_settles(2) [OF assms(2,3)]];
        auto simp: p)+
  show "\<And>r. r \<in> set (attempts db') \<Longrightarrow> attempt_ok r"
    using assms(2) by (auto simp: list_all2_conv_all_nth in_set_conv_nth settles_def)
qed

lemma window_start_le: "0 \<le> a \<Longrightarrow> a \<le> t \<Longrightarrow> window_start w a \<le> max 0 (t - w)"
  by (auto simp: window_start_def)

text \<open>A new row falls into a window only where the window is part of what the reservation counted.\<close>

lemma usage_new_row:
  assumes "\<And>r. r \<in> set rows \<Longrightarrow> 0 \<le> w r" "\<And>r. r \<in> set rows \<Longrightarrow> 0 \<le> attempt_created_at r"
    and "usage P w rows \<le> limit" "Q new \<Longrightarrow> usage R w rows + w new \<le> limit"
    and "\<And>r. Q new \<Longrightarrow> P r \<Longrightarrow> 0 \<le> attempt_created_at r \<Longrightarrow> R r"
    and "P new \<Longrightarrow> Q new"
  shows "usage P w (rows @ [new]) \<le> limit"
proof (cases "P new")
  case True
  have "usage P w rows \<le> usage R w rows" using assms(1,2,5) assms(6) [OF True] by (intro usage_mono) auto
  then show ?thesis using assms(4) [OF assms(6) [OF True]] assms(3) by auto
qed (use assms(3) in simp)

lemma within_budget_reserve:
  assumes "within_budget guild policy db" "\<And>r. r \<in> set (attempts db) \<Longrightarrow> attempt_ok r"
    and "ai_reserve guild v policy db = Inr (answer, db')"
  shows "within_budget guild policy db' \<and> (\<forall>r \<in> set (attempts db'). attempt_ok r)"
proof -
  obtain a i where "answer = (a, i)" by fastforce
  with assms(3) have "ai_reserve guild v policy db = Inr ((a, i), db')" by simp
  then show ?thesis
  proof (cases rule: reserve_cases)
    case refused
    then show ?thesis using assms by simp
  next
    case (accepted start)
    let ?new = "reserved_row guild v"
    have new: "attempt_created_at ?new = rsv_now v" "charge ?new = rsv_cost v" "attempt_requester ?new = rsv_requester v"
      "attempt_priority ?new = rsv_priority v"
      by (simp_all add: reserved_row_def charge_def)
    have pos: "0 \<le> charge r" "0 \<le> attempt_created_at r" if "r \<in> set (attempts db)" for r
      using assms(2) [OF that] by (auto simp: attempt_ok_def)
    note b = assms(1) [unfolded within_budget_def, rule_format]
    have day: "from_time guild (window_start rolling_day_ms (rsv_now v)) r"
      if "rsv_now v \<le> t" "in_window guild (t - rolling_day_ms) t r" "0 \<le> attempt_created_at r" for t r
      using that accepted(7) window_start_le [of "rsv_now v" t rolling_day_ms] by (auto simp: in_window_def from_time_def)
    have ten: "from_time guild (window_start direct_window_ms (rsv_now v)) r"
      if "rsv_now v \<le> t" "in_window guild (t - direct_window_ms) t r" "0 \<le> attempt_created_at r" for t r
      using that accepted(7) window_start_le [of "rsv_now v" t direct_window_ms] by (auto simp: in_window_def from_time_def)
    have rows: "attempts db' = attempts db @ [?new]" by (simp add: accepted(3))
    have "within_budget guild policy db'"
      unfolding within_budget_def rows
    proof (intro allI conjI impI)
      fix t
      show "usage (in_window guild (t - rolling_day_ms) t) charge (attempts db @ [?new]) \<le> day_cost_limit policy"
        using b [of t] accepted(8) new
        by (intro usage_new_row [where Q = "\<lambda>r. rsv_now v \<le> t"
            and R = "from_time guild (window_start rolling_day_ms (rsv_now v))", OF pos]) (auto intro: day simp: in_window_def)
      show "usage (in_window guild (t - rolling_day_ms) t) (\<lambda>r. 1) (attempts db @ [?new]) \<le> int (day_generations policy)"
        using b [of t] accepted(11) new pos(2)
        by (intro usage_new_row [where Q = "\<lambda>r. rsv_now v \<le> t"
            and R = "from_time guild (window_start rolling_day_ms (rsv_now v))"]) (auto intro: day simp: in_window_def)
      fix u
      show "usage (\<lambda>r. in_window guild (t - direct_window_ms) t r \<and> direct_by u r) (\<lambda>r. 1) (attempts db @ [?new])
          \<le> int (direct_generations policy)"
        using b [of t] accepted(12) new pos(2)
        by (intro usage_new_row [where Q = "\<lambda>r. rsv_now v \<le> t \<and> rsv_priority v = Direct_priority \<and> rsv_requester v = Some u"
            and R = "\<lambda>r. from_time guild (window_start direct_window_ms (rsv_now v)) r \<and> direct_by u r"])
          (auto intro: ten simp: in_window_def direct_by_def)
    next
      fix t start'
      assume s: "month_start t = Inr start'"
      show "usage (in_window guild start' t) charge (attempts db @ [?new]) \<le> month_cost_limit policy"
        using b [of t] s accepted(10) new
        by (intro usage_new_row [where Q = "\<lambda>r. rsv_now v \<le> t" and R = "from_time guild start", OF pos])
          (auto simp: in_window_def from_time_def dest: month_start_mono [OF accepted(9) s])
    qed
    then show ?thesis using rows accepted(4) assms(2) attempt_check_ok by auto
  qed
qed

definition budget_kept :: "u64 \<Rightarrow> ai_policy \<Rightarrow> ai_db \<Rightarrow> bool" where
  "budget_kept guild policy db \<longleftrightarrow> within_budget guild policy db \<and> (\<forall>r \<in> set (attempts db). attempt_ok r)"

lemma budget_kept_settled:
  "budget_kept guild policy db \<Longrightarrow> list_all2 settles (attempts db) (attempts db') \<Longrightarrow> budget_kept guild policy db'"
  unfolding budget_kept_def using within_budget_settles by blast

lemma budget_kept_ok: "budget_kept guild policy db \<Longrightarrow> r \<in> set (attempts db) \<Longrightarrow> attempt_ok r"
  by (simp add: budget_kept_def)

lemma budget_kept_later:
  assumes "budget_later guild policy db db'" "budget_kept guild policy db"
  shows "budget_kept guild policy db'"
  using assms(1)
proof induction
  case started
  show ?case by (rule assms(2))
next
  case (reserved db1 v answer db2)
  then show ?case using within_budget_reserve unfolding budget_kept_def by blast
next
  case (submitted db1 i t db2)
  then show ?case by (blast intro: budget_kept_settled settled_calls(1) budget_kept_ok)
next
  case (completed db1 i u db2)
  then show ?case by (blast intro: budget_kept_settled settled_calls(2) budget_kept_ok)
next
  case (failed db1 i code req t db2)
  then show ?case by (blast intro: budget_kept_settled settled_calls(3) budget_kept_ok)
next
  case (cancelled db1 i code t db2)
  then show ?case by (blast intro: budget_kept_settled settled_calls(4) budget_kept_ok)
next
  case (unreserved db1 t n db2)
  then show ?case by (blast intro: budget_kept_settled settled_calls(5) budget_kept_ok)
next
  case (unsubmitted db1 t n db2)
  then show ?case by (blast intro: budget_kept_settled settled_calls(6) budget_kept_ok)
next
  case (retained db1 db2 gone)
  have rows: "attempts db2 = filter (\<lambda>r. \<not> gone r) (attempts db1)" by (simp add: retained(2))
  have pos: "0 \<le> charge r" if "r \<in> set (attempts db1)" for r
    using budget_kept_ok [OF retained(4) that] by (simp add: attempt_ok_def)
  have "within_budget guild policy db2"
    using retained(4) unfolding budget_kept_def within_budget_def rows
    by (intro allI conjI impI) (rule order.trans [OF usage_sub]; auto simp: pos)+
  then show ?case using retained(4) rows by (auto simp: budget_kept_def)
next
  case (elsewhere db1 db2)
  then show ?case by (simp add: budget_kept_def within_budget_def)
qed

text \<open>
  Whatever calls were served, with whatever clocks and in whatever order, in every
  24 hours and in every calendar month the attempts of the guild together cost at most what the
  policy allows, a settled one its actual cost and an unsettled one what was reserved for it; in
  every 24 hours there are at most as many as the policy allows, and in every ten minutes at most
  as many direct ones of one member.
\<close>

theorem spending_within_budget:
  assumes "budget_later guild policy db0 db" "attempts db0 = []"
    and "0 \<le> day_cost_limit policy" "0 \<le> month_cost_limit policy"
  shows "within_budget guild policy db"
proof -
  have "budget_kept guild policy db0" using assms(2-4) by (simp add: budget_kept_def within_budget_def)
  with assms(1) have "budget_kept guild policy db" by (rule budget_kept_later)
  then show ?thesis by (simp add: budget_kept_def)
qed

definition budget_policy :: ai_policy where
  "budget_policy = \<lparr>day_cost_limit = 100, month_cost_limit = 150, day_generations = 5, direct_generations = 2,
     maximum_input_bytes = 4000, maximum_output_tokens = 400, policy_input_rate = 1, policy_output_rate = 2,
     policy_model = ''m''\<rparr>"

definition budget_db :: ai_db where
  "budget_db = \<lparr>attempts = [], text_control = Some False, ai_guilds = [1], ai_members = [7],
     ai_circuits = \<lparr>circuits = Map.empty, transitions = []\<rparr>\<rparr>"

definition budget_request :: "string \<Rightarrow> ai_reservation" where
  "budget_request i = \<lparr>rsv_attempt = i, rsv_key = i, rsv_requester = Some ''7'',
     rsv_purpose = Direct_purpose, rsv_priority = Direct_priority, rsv_model = ''m'', rsv_input_rate = 1,
     rsv_output_rate = 2, rsv_input_tokens = 30, rsv_output_tokens = 10, rsv_cost = 60, rsv_now = 1000\<rparr>"

abbreviation "call_1 \<equiv> ''123e4567-e89b-42d3-a456-426614174000''"
abbreviation "call_2 \<equiv> ''123e4567-e89b-42d3-a456-426614174001''"

lemma budget_month: "month_start 1000 = Inr 0"
  by code_simp

lemmas budget_example = ai_reserve_def reservation_valid_def require_identifier_def require_ai_timestamp_def
  accepted_count_def counted_rows_def direct_exhausted_def direct_count_def reserve_cost_def charged_usage_def
  would_exceed_def insert_attempt_def budget_request_def budget_policy_def budget_db_def budget_month reserved_row_def
  attempt_check_def charge_def window_start_def rolling_day_ms_def direct_window_ms_def between_def

lemma call_ids: "valid_uuid_v4 call_1" "snowflake_str 7 = ''7''"
  by code_simp+

lemma budget_reserved:
  "ai_reserve 1 (budget_request call_1) budget_policy budget_db
     = Inr ((Admitted_generation, call_1), budget_db\<lparr>attempts := [reserved_row 1 (budget_request call_1)]\<rparr>)"
  using call_ids by (simp add: budget_example find_row_def require_def)

lemma budget_refused:
  "ai_reserve 1 (budget_request call_2) budget_policy
       (budget_db\<lparr>attempts := [reserved_row 1 (budget_request call_1)]\<rparr>)
     = Inr ((Daily_cost, []), budget_db\<lparr>attempts := [reserved_row 1 (budget_request call_1)]\<rparr>)"
  using call_ids by (simp add: budget_example find_row_def require_def)

lemma spending_within_budget_witness:
  "within_budget 1 budget_policy (budget_db\<lparr>attempts := [reserved_row 1 (budget_request call_1)]\<rparr>)"
  by (rule spending_within_budget [OF reserved [OF reserved [OF started budget_reserved] budget_refused]])
    (simp_all add: budget_db_def budget_policy_def)

end
