(* ===== verification/Ai_Circuit.thy ===== *)
theory Ai_Circuit
  imports Ai_Budget
begin

text \<open>
  The circuit of the text provider. The repository of the attempts
  (\<^verbatim>\<open>src/src/persistence/sqlite_ai_generation_repository.cpp\<close>) has its own operations on the
  row of \<^verbatim>\<open>openai_text\<close>; they keep the same contract, the breaker of
  \<open>Provider_Circuit\<close>.
\<close>

section \<open>Categories\<close>

datatype ai_category = Ai_timeout | Ai_rate_limited | Ai_authentication | Ai_server
  | Ai_invalid_request | Ai_invalid_response | Ai_transport

definition retryable_category :: "ai_category \<Rightarrow> bool" where
  "retryable_category c \<longleftrightarrow> c = Ai_timeout \<or> c = Ai_rate_limited \<or> c = Ai_server
     \<or> c = Ai_invalid_response \<or> c = Ai_transport"

fun circuit_failure_code :: "ai_category \<Rightarrow> string" where
  "circuit_failure_code Ai_timeout = ''timeout''"
| "circuit_failure_code Ai_rate_limited = ''rate_limited''"
| "circuit_failure_code Ai_authentication = ''authentication''"
| "circuit_failure_code Ai_server = ''server''"
| "circuit_failure_code Ai_invalid_request = ''invalid_request''"
| "circuit_failure_code Ai_invalid_response = ''invalid_response''"
| "circuit_failure_code Ai_transport = ''transport''"

section \<open>The operations\<close>

abbreviation text_provider :: string where "text_provider \<equiv> ''openai_text''"

definition text_key :: "string \<Rightarrow> string" where
  "text_key tid = ''circuit:openai-text:'' @ tid"

definition append_circuit_transition ::
    "circuit_row \<Rightarrow> circuit_state \<Rightarrow> string \<Rightarrow> string \<Rightarrow> int \<Rightarrow> circuit_db \<Rightarrow> circuit_db res" where
  "append_circuit_transition before target reason tid now_ms db =
     insert_transition
       \<lparr>circuit_transition_id = tid, circuit_provider = text_provider,
        circuit_from_state = circuit_state before, circuit_to_state = target, circuit_reason = reason,
        circuit_from_revision = circuit_revision before, circuit_to_revision = circuit_revision before + 1,
        circuit_occurred_at = now_ms, circuit_key = text_key tid\<rparr> db"

text \<open>An UPDATE that must change the row, and the transition that records it.\<close>

definition text_transition ::
    "circuit_row \<Rightarrow> (circuit_row \<Rightarrow> bool) \<Rightarrow> (circuit_row \<Rightarrow> circuit_row) \<Rightarrow> circuit_state
     \<Rightarrow> string \<Rightarrow> string \<Rightarrow> int \<Rightarrow> circuit_db \<Rightarrow> circuit_db res"
  where
  "text_transition before condition change target reason tid now_ms db =
     rbind (update_circuit text_provider condition change db) (\<lambda>(changes, db).
     rbind (require_changed changes) (\<lambda>_.
     append_circuit_transition before target reason tid now_ms db))"

definition text_request :: "int \<Rightarrow> string \<Rightarrow> unit res" where
  "text_request now_ms tid = rbind (require_ai_timestamp now_ms) (\<lambda>_. require_identifier tid 36)"

definition release_text_probe :: "circuit_row \<Rightarrow> string \<Rightarrow> int \<Rightarrow> string \<Rightarrow> circuit_db \<Rightarrow> circuit_db res" where
  "release_text_probe before reason now_ms tid db =
     text_transition before (\<lambda>r. circuit_state r = Half_open \<and> circuit_revision r = circuit_revision before)
       (\<lambda>r. r\<lparr>circuit_state := Open, retry_after := map_option (\<lambda>o'. max o' now_ms) (opened_at r),
            indefinite := False, probe_in_flight := False, last_error_code := Some ''probe_abandoned'',
            circuit_revision := circuit_revision r + 1, circuit_updated_at := now_ms\<rparr>)
       Open reason tid now_ms db"

definition close_text_circuit ::
    "circuit_row \<Rightarrow> (circuit_row \<Rightarrow> bool) \<Rightarrow> string \<Rightarrow> int \<Rightarrow> string \<Rightarrow> circuit_db \<Rightarrow> circuit_db res" where
  "close_text_circuit before condition reason now_ms tid db =
     text_transition before (\<lambda>r. condition r \<and> circuit_revision r = circuit_revision before)
       (\<lambda>r. r\<lparr>circuit_state := Closed, consecutive_failures := 0, first_failure := None, opened_at := None,
            retry_after := None, indefinite := False, probe_in_flight := False, last_error_code := None,
            circuit_revision := circuit_revision r + 1, circuit_updated_at := now_ms\<rparr>)
       Closed reason tid now_ms db"

definition restart_provider :: "int \<Rightarrow> string \<Rightarrow> circuit_db \<Rightarrow> circuit_db res" where
  "restart_provider now_ms tid db =
     rbind (text_request now_ms tid) (\<lambda>_.
     rbind (text_circuit db) (\<lambda>before.
     if circuit_state before = Half_open then release_text_probe before ''process_restart_probe'' now_ms tid db
     else if circuit_state before = Open \<and> indefinite before
     then close_text_circuit before (\<lambda>r. True) ''process_restart'' now_ms tid db
     else Inr db))"

definition release_provider_probe :: "int \<Rightarrow> string \<Rightarrow> circuit_db \<Rightarrow> circuit_db res" where
  "release_provider_probe now_ms tid db =
     rbind (text_request now_ms tid) (\<lambda>_.
     rbind (text_circuit db) (\<lambda>before.
     if circuit_state before = Half_open then release_text_probe before ''probe_abandoned'' now_ms tid db
     else Inr db))"

definition admit_provider :: "int \<Rightarrow> string \<Rightarrow> circuit_db \<Rightarrow> (bool \<times> circuit_db) res" where
  "admit_provider now_ms tid db =
     rbind (text_request now_ms tid) (\<lambda>_.
     rbind (text_circuit db) (\<lambda>before.
     if circuit_state before = Closed then Inr (True, db)
     else if circuit_state before = Half_open \<or> indefinite before
       \<or> (case retry_after before of None \<Rightarrow> True | Some t \<Rightarrow> now_ms < t)
     then Inr (False, db)
     else rbind (text_transition before
         (\<lambda>r. circuit_state r = Open \<and> circuit_revision r = circuit_revision before)
         (\<lambda>r. r\<lparr>circuit_state := Half_open, probe_in_flight := True,
              circuit_revision := circuit_revision r + 1, circuit_updated_at := now_ms\<rparr>)
         Half_open ''cooldown_probe'' tid now_ms db) (\<lambda>db.
       Inr (True, db))))"

definition provider_succeeded :: "int \<Rightarrow> string \<Rightarrow> circuit_db \<Rightarrow> circuit_db res" where
  "provider_succeeded now_ms tid db =
     rbind (text_request now_ms tid) (\<lambda>_.
     rbind (text_circuit db) (\<lambda>before.
     if circuit_state before = Closed
     then rbind (update_circuit text_provider (\<lambda>r. True)
         (\<lambda>r. r\<lparr>consecutive_failures := 0, first_failure := None, last_error_code := None,
              circuit_updated_at := now_ms\<rparr>) db) (\<lambda>(_, db). Inr db)
     else if circuit_state before \<noteq> Half_open then Inr db
     else close_text_circuit before (\<lambda>r. circuit_state r = Half_open) ''probe_succeeded'' now_ms tid db))"

text \<open>The writes of \<^verbatim>\<open>provider_failed\<close>, after the count and the start of its window are known.\<close>

definition keep_text_open ::
    "circuit_row \<Rightarrow> ai_category \<Rightarrow> int \<Rightarrow> int \<Rightarrow> int \<Rightarrow> string \<Rightarrow> circuit_db \<Rightarrow> circuit_db res" where
  "keep_text_open before category first failures now_ms tid db =
     (let authentication = (category = Ai_authentication) in
     text_transition before (\<lambda>r. circuit_state r = Open \<and> circuit_revision r = circuit_revision before)
       (\<lambda>r. r\<lparr>consecutive_failures := failures, first_failure := Some first, indefinite := authentication,
            retry_after := (if authentication then None else Some (now_ms + failure_window_ms)),
            last_error_code := Some (circuit_failure_code category),
            circuit_revision := circuit_revision r + 1, circuit_updated_at := now_ms\<rparr>)
       Open (if authentication then ''configuration_failure'' else ''retryable_failure_while_open'') tid now_ms db)"

definition open_text_circuit ::
    "circuit_row \<Rightarrow> ai_category \<Rightarrow> int \<Rightarrow> int \<Rightarrow> int \<Rightarrow> string \<Rightarrow> circuit_db \<Rightarrow> circuit_db res" where
  "open_text_circuit before category first failures now_ms tid db =
     (let authentication = (category = Ai_authentication) in
     text_transition before (\<lambda>r. circuit_revision r = circuit_revision before)
       (\<lambda>r. r\<lparr>circuit_state := Open, consecutive_failures := failures, first_failure := Some first,
            opened_at := Some now_ms,
            retry_after := (if authentication then None else Some (now_ms + failure_window_ms)),
            indefinite := authentication, probe_in_flight := False,
            last_error_code := Some (circuit_failure_code category),
            circuit_revision := circuit_revision r + 1, circuit_updated_at := now_ms\<rparr>)
       Open (if authentication then ''configuration_failure'' else ''retryable_threshold'') tid now_ms db)"

definition provider_failed :: "ai_category \<Rightarrow> int \<Rightarrow> string \<Rightarrow> circuit_db \<Rightarrow> circuit_db res" where
  "provider_failed category now_ms tid db =
     rbind (text_request now_ms tid) (\<lambda>_.
     if category \<noteq> Ai_authentication \<and> \<not> retryable_category category then Inr db
     else
     rbind (text_circuit db) (\<lambda>before.
     let
       fresh = (case first_failure before of None \<Rightarrow> True | Some t \<Rightarrow> now_ms - t > failure_window_ms);
       failures = (if fresh then 1 else consecutive_failures before + 1);
       first = (if fresh then now_ms else the (first_failure before));
       should_open = (category = Ai_authentication \<or> circuit_state before = Half_open \<or> 3 \<le> failures)
     in
       if \<not> should_open
       then rbind (update_circuit text_provider (\<lambda>r. circuit_state r = Closed)
           (\<lambda>r. r\<lparr>consecutive_failures := failures, first_failure := Some first,
                last_error_code := Some (circuit_failure_code category), circuit_updated_at := now_ms\<rparr>) db)
           (\<lambda>(_, db). Inr db)
       else if circuit_state before = Open
       then if indefinite before then Inr db
         else keep_text_open before category first failures now_ms tid db
       else open_text_circuit before category first failures now_ms tid db))"

section \<open>The contract\<close>

text \<open>A request that the repository has to serve: a time, and an id that is new.\<close>

definition usable :: "int \<Rightarrow> string \<Rightarrow> circuit_db \<Rightarrow> bool" where
  "usable now_ms tid db \<longleftrightarrow> 0 \<le> now_ms \<and> valid_uuid_v4 tid
     \<and> tid \<notin> circuit_transition_id ` set (transitions db) \<and> text_key tid \<notin> circuit_key ` set (transitions db)"

text \<open>
  What a served operation leaves: the row with a breaker, the other rows, and where the state
  machine moved, one transition that records it.
\<close>

definition text_sound :: "breaker \<Rightarrow> int \<Rightarrow> string \<Rightarrow> circuit_row \<Rightarrow> circuit_db \<Rightarrow> circuit_db \<Rightarrow> bool" where
  "text_sound b now_ms tid r db db' \<longleftrightarrow> (\<exists>r'. circuits db' = (circuits db)(text_provider := Some r')
     \<and> circuit_row_inv r' \<and> breaker_of r' = b
     \<and> (circuit_state r' = circuit_state r \<and> circuit_revision r' = circuit_revision r \<and> transitions db' = transitions db
        \<or> circuit_revision r' = circuit_revision r + 1 \<and> (\<exists>reason. transitions db' = transitions db @
            [\<lparr>circuit_transition_id = tid, circuit_provider = text_provider, circuit_from_state = circuit_state r,
              circuit_to_state = circuit_state r', circuit_reason = reason, circuit_from_revision = circuit_revision r,
              circuit_to_revision = circuit_revision r', circuit_occurred_at = now_ms,
              circuit_key = text_key tid\<rparr>])))"

text \<open>Served with a result, or a request that need not be served.\<close>

definition serves :: "bool \<Rightarrow> 'a res \<Rightarrow> ('a \<Rightarrow> bool) \<Rightarrow> bool" where
  "serves wanted m P \<longleftrightarrow> (case m of Inl e \<Rightarrow> \<not> wanted | Inr x \<Rightarrow> P x)"

lemma serves_simps [simp]: "serves wanted (Inr x) P \<longleftrightarrow> P x" "serves wanted (Inl e) P \<longleftrightarrow> \<not> wanted"
  by (simp_all add: serves_def)

lemma serves_wanted: "serves wanted m P \<Longrightarrow> (wanted' \<Longrightarrow> wanted) \<Longrightarrow> serves wanted' m P"
  by (cases m) auto

lemma serves_request:
  assumes "0 \<le> now_ms \<Longrightarrow> serves wanted m P" "wanted \<Longrightarrow> usable now_ms tid db"
  shows "serves wanted (rbind (text_request now_ms tid) (\<lambda>_. m)) P"
proof (cases wanted)
  case True
  with assms(2) have "text_request now_ms tid = Inr ()" "0 \<le> now_ms"
    by (auto simp: text_request_def require_ai_timestamp_def require_identifier_def require_def usable_def
        dest: valid_uuid_length)
  with assms(1) show ?thesis by simp
next
  case False
  with assms(1) show ?thesis
    by (auto simp: text_request_def require_ai_timestamp_def require_identifier_def require_def serves_def)
qed

lemma text_same:
  "circuits db text_provider = Some r \<Longrightarrow> circuit_row_inv r \<Longrightarrow> text_sound (breaker_of r) now_ms tid r db db"
  unfolding text_sound_def by (intro exI [of _ r]) (simp add: fun_upd_idem)

lemma text_quiet:
  assumes "circuits db text_provider = Some r" "circuit_row_check (change r)"
    and "circuit_row_inv (change r)" "breaker_of (change r) = b"
    and "circuit_state (change r) = circuit_state r" "circuit_revision (change r) = circuit_revision r" "condition r"
  shows "serves wanted (rbind (update_circuit text_provider condition change db) (\<lambda>(_, db). Inr db))
    (text_sound b now_ms tid r db)"
  using assms by (auto simp: update_circuit_def text_sound_def)

lemma append_serves:
  assumes "circuits db text_provider \<noteq> None" "machine_code reason" "0 < circuit_revision r"
    and "transitions db = ts" "usable now_ms tid db"
  shows "append_circuit_transition r target reason tid now_ms db = Inr (db\<lparr>transitions := ts @
     [\<lparr>circuit_transition_id = tid, circuit_provider = text_provider, circuit_from_state = circuit_state r,
       circuit_to_state = target, circuit_reason = reason, circuit_from_revision = circuit_revision r,
       circuit_to_revision = circuit_revision r + 1, circuit_occurred_at = now_ms,
       circuit_key = text_key tid\<rparr>]\<rparr>)"
proof -
  have "\<not> list_ex (\<lambda>u. circuit_transition_id u = tid \<or> circuit_key u = text_key tid) (transitions db)"
    using assms(5) unfolding usable_def list_ex_iff by (metis image_eqI)
  moreover have "1 \<le> length (text_key tid)" "length (text_key tid) \<le> 160" "0 \<le> now_ms" "valid_uuid_v4 tid"
    using assms(5) by (auto simp: usable_def text_key_def dest: valid_uuid_length)
  ultimately show ?thesis
    using assms(1-4) by (simp add: append_circuit_transition_def insert_transition_def transition_check_def)
qed

lemma append_Inr:
  "append_circuit_transition r target reason tid now_ms db = Inr db' \<Longrightarrow> db' = db\<lparr>transitions := transitions db @
     [\<lparr>circuit_transition_id = tid, circuit_provider = text_provider, circuit_from_state = circuit_state r,
       circuit_to_state = target, circuit_reason = reason, circuit_from_revision = circuit_revision r,
       circuit_to_revision = circuit_revision r + 1, circuit_occurred_at = now_ms,
       circuit_key = text_key tid\<rparr>]\<rparr>"
  by (simp add: append_circuit_transition_def insert_transition_def split: if_splits)

lemma text_transition_serves:
  assumes "circuits db text_provider = Some r" "condition r"
    and "circuit_row_inv (change r)" "breaker_of (change r) = b" "circuit_revision (change r) = circuit_revision r + 1"
    and "circuit_state (change r) = target" "machine_code reason" "0 < circuit_revision r"
  shows "serves (usable now_ms tid db) (text_transition r condition change target reason tid now_ms db)
    (text_sound b now_ms tid r db)"
proof -
  let ?db = "db\<lparr>circuits := (circuits db)(text_provider := Some (change r))\<rparr>"
  have "update_circuit text_provider condition change db = Inr (1, ?db)"
    using assms(1-3) by (simp add: update_circuit_def circuit_row_inv_def)
  then have t: "text_transition r condition change target reason tid now_ms db
      = append_circuit_transition r target reason tid now_ms ?db"
    by (simp add: text_transition_def require_changed_def require_def)
  have u: "usable now_ms tid ?db = usable now_ms tid db" by (simp add: usable_def)
  have s: "text_sound b now_ms tid r db db'"
    if "append_circuit_transition r target reason tid now_ms ?db = Inr db'" for db'
    using append_Inr [OF that] assms(3-6) unfolding text_sound_def
    by (intro exI [of _ "change r"]) auto
  show ?thesis
  proof (cases "append_circuit_transition r target reason tid now_ms ?db")
    case (Inl e)
    then have "\<not> usable now_ms tid db"
      using append_serves [of ?db reason r "transitions ?db" now_ms tid target] assms(7,8) u by fastforce
    with Inl t show ?thesis by simp
  qed (use s t in simp)
qed

lemma text_transition_checked:
  assumes "circuits db text_provider = Some r" "condition r"
    and "circuit_row_check (change r) \<Longrightarrow> circuit_row_inv (change r) \<and> breaker_of (change r) = b"
    and "circuit_revision (change r) = circuit_revision r + 1"
    and "circuit_state (change r) = target" "machine_code reason" "0 < circuit_revision r"
  shows "serves (usable now_ms tid db \<and> circuit_row_check (change r))
    (text_transition r condition change target reason tid now_ms db) (text_sound b now_ms tid r db)"
proof (cases "circuit_row_check (change r)")
  case True
  with assms text_transition_serves [of db r condition change b target reason now_ms tid] show ?thesis by simp
next
  case False
  with assms(1,2) show ?thesis by (simp add: text_transition_def update_circuit_def)
qed

section \<open>Every operation keeps it\<close>

lemma text_circuit_row: "circuits db text_provider = Some r \<Longrightarrow> text_circuit db = Inr r"
  by (simp add: text_circuit_def)

lemma failure_code_machine: "machine_code (circuit_failure_code c)"
proof -
  have "list_all machine_code (map circuit_failure_code [Ai_timeout, Ai_rate_limited, Ai_authentication, Ai_server,
      Ai_invalid_request, Ai_invalid_response, Ai_transport])"
    by code_simp
  then show ?thesis by (cases c) simp_all
qed

lemma inv_revision: "circuit_row_inv r \<Longrightarrow> 0 < circuit_revision r"
  by (simp add: circuit_row_inv_def circuit_row_check_def)

lemma release_text_probe_serves:
  assumes "circuits db text_provider = Some r" "circuit_row_inv r" "circuit_state r = Half_open" "machine_code reason"
    and "0 \<le> now_ms"
  shows "serves (usable now_ms tid db) (release_text_probe r reason now_ms tid db)
    (text_sound (breaker_failed Ignored now_ms (breaker_of r)) now_ms tid r db)"
  unfolding release_text_probe_def
  by (rule text_transition_serves)
    (use assms inv_revision [OF assms(2)] fixed_reasons in \<open>auto simp: inv_simps circuit_row_check_def\<close>)

lemma close_text_circuit_serves:
  assumes "circuits db text_provider = Some r" "circuit_row_inv r" "condition r" "machine_code reason" "0 \<le> now_ms"
  shows "serves (usable now_ms tid db) (close_text_circuit r condition reason now_ms tid db)
    (text_sound (Passing None) now_ms tid r db)"
  unfolding close_text_circuit_def
  by (rule text_transition_serves)
    (use assms inv_revision [OF assms(2)] in \<open>auto simp: inv_simps circuit_row_check_def\<close>)

lemma restart_provider_serves:
  assumes "circuits db text_provider = Some r" "circuit_row_inv r"
  shows "serves (usable now_ms tid db) (restart_provider now_ms tid db)
    (text_sound (breaker_restart now_ms (breaker_of r)) now_ms tid r db)"
  unfolding restart_provider_def text_circuit_row [OF assms(1)] rbind_simps
proof (rule serves_request [of _ _ _ _ _ db])
  assume now: "0 \<le> now_ms"
  consider (half) "circuit_state r = Half_open" | (indef) "circuit_state r = Open" "indefinite r"
    | (same) "circuit_state r \<noteq> Half_open" "\<not> (circuit_state r = Open \<and> indefinite r)" by blast
  then show "serves (usable now_ms tid db)
     (if circuit_state r = Half_open then release_text_probe r ''process_restart_probe'' now_ms tid db
      else if circuit_state r = Open \<and> indefinite r
      then close_text_circuit r (\<lambda>r. True) ''process_restart'' now_ms tid db else Inr db)
     (text_sound (breaker_restart now_ms (breaker_of r)) now_ms tid r db)"
  proof cases
    case half
    then show ?thesis
      using release_text_probe_serves [OF assms half fixed_reasons(1) now, of tid] by (simp add: breaker_of_def)
  next
    case indef
    then have "breaker_restart now_ms (breaker_of r) = Passing None"
      using assms(2) by (simp add: inv_simps)
    then show ?thesis
      using indef close_text_circuit_serves [OF assms, of "\<lambda>r. True", OF _ fixed_reasons(2) now] by simp
  next
    case same
    then have "breaker_restart now_ms (breaker_of r) = breaker_of r"
      using assms(2) by (cases "circuit_state r") (auto simp: inv_simps)
    then show ?thesis using text_same [OF assms] by (simp only: same if_False serves_simps)
  qed
qed

lemma release_provider_probe_serves:
  assumes "circuits db text_provider = Some r" "circuit_row_inv r"
  shows "serves (usable now_ms tid db) (release_provider_probe now_ms tid db)
    (text_sound (breaker_failed Ignored now_ms (breaker_of r)) now_ms tid r db)"
  unfolding release_provider_probe_def text_circuit_row [OF assms(1)] rbind_simps
proof (rule serves_request [of _ _ _ _ _ db])
  assume now: "0 \<le> now_ms"
  have "breaker_failed Ignored now_ms (breaker_of r) = breaker_of r" if "circuit_state r \<noteq> Half_open"
    using that by (cases "circuit_state r") (auto simp: breaker_of_def)
  then show "serves (usable now_ms tid db)
     (if circuit_state r = Half_open then release_text_probe r ''probe_abandoned'' now_ms tid db else Inr db)
     (text_sound (breaker_failed Ignored now_ms (breaker_of r)) now_ms tid r db)"
    using text_same [OF assms] release_text_probe_serves [OF assms _ fixed_reasons(5) now] by auto
qed

lemma serves_answer:
  "serves wanted m P \<Longrightarrow> serves wanted (rbind m (\<lambda>x. Inr (f x))) (\<lambda>y. \<exists>x. y = f x \<and> P x)"
  by (cases m) auto

lemma serves_mono: "serves wanted m P \<Longrightarrow> (\<And>x. P x \<Longrightarrow> Q x) \<Longrightarrow> serves wanted m Q"
  by (cases m) auto

lemma admit_provider_serves:
  assumes "circuits db text_provider = Some r" "circuit_row_inv r"
  shows "serves (usable now_ms tid db) (admit_provider now_ms tid db)
    (\<lambda>(b, db'). b = fst (breaker_admit now_ms (breaker_of r))
       \<and> text_sound (snd (breaker_admit now_ms (breaker_of r))) now_ms tid r db db')"
  unfolding admit_provider_def text_circuit_row [OF assms(1)] rbind_simps
proof (rule serves_request [of _ _ _ _ _ db])
  assume now: "0 \<le> now_ms"
  let ?wait = "circuit_state r = Half_open \<or> indefinite r \<or> (case retry_after r of None \<Rightarrow> True | Some t \<Rightarrow> now_ms < t)"
  let ?probe = "text_transition r (\<lambda>r'. circuit_state r' = Open \<and> circuit_revision r' = circuit_revision r)
     (\<lambda>r. r\<lparr>circuit_state := Half_open, probe_in_flight := True,
          circuit_revision := circuit_revision r + 1, circuit_updated_at := now_ms\<rparr>)
     Half_open ''cooldown_probe'' tid now_ms db"
  consider (pass) "circuit_state r = Closed" | (refuse) "circuit_state r \<noteq> Closed" ?wait
    | (probe) "circuit_state r = Open" "\<not> ?wait"
    by (cases "circuit_state r") auto
  then show "serves (usable now_ms tid db)
     (if circuit_state r = Closed then Inr (True, db) else if ?wait then Inr (False, db)
      else rbind ?probe (\<lambda>db. Inr (True, db)))
     (\<lambda>(b, db'). b = fst (breaker_admit now_ms (breaker_of r))
       \<and> text_sound (snd (breaker_admit now_ms (breaker_of r))) now_ms tid r db db')"
  proof cases
    case pass
    then have b: "breaker_admit now_ms (breaker_of r) = (True, breaker_of r)" by (simp add: breaker_of_def)
    show ?thesis using pass text_same [OF assms] unfolding b by simp
  next
    case refuse
    then have b: "breaker_admit now_ms (breaker_of r) = (False, breaker_of r)"
      using assms(2) by (cases "circuit_state r") (auto simp: inv_simps split: option.splits)
    show ?thesis using refuse text_same [OF assms] unfolding b by simp
  next
    case probe
    then obtain t where t: "retry_after r = Some t" "t \<le> now_ms" by (auto split: option.splits)
    then have b: "breaker_admit now_ms (breaker_of r) = (True, Probing (the (opened_at r)) (window_of r))"
      using probe by (simp add: breaker_of_def)
    have "serves (usable now_ms tid db) ?probe
      (text_sound (Probing (the (opened_at r)) (window_of r)) now_ms tid r db)"
      by (rule text_transition_serves)
        (use assms probe t now inv_revision [OF assms(2)] fixed_reasons in \<open>auto simp: inv_simps circuit_row_check_def\<close>)
    then have s: "serves (usable now_ms tid db) (rbind ?probe (\<lambda>db. Inr (True, db)))
      (\<lambda>(b, db'). b = True \<and> text_sound (Probing (the (opened_at r)) (window_of r)) now_ms tid r db db')"
      by (rule serves_mono [OF serves_answer]) auto
    from probe(1) have "circuit_state r \<noteq> Closed" by simp
    then show ?thesis using s probe(2) unfolding b by (simp only: if_False fst_conv snd_conv)
  qed
qed

lemma provider_succeeded_serves:
  assumes "circuits db text_provider = Some r" "circuit_row_inv r"
  shows "serves (usable now_ms tid db) (provider_succeeded now_ms tid db)
    (text_sound (breaker_succeeded (breaker_of r)) now_ms tid r db)"
  unfolding provider_succeeded_def text_circuit_row [OF assms(1)] rbind_simps
proof (rule serves_request [of _ _ _ _ _ db])
  assume now: "0 \<le> now_ms"
  show "serves (usable now_ms tid db)
     (if circuit_state r = Closed
      then rbind (update_circuit text_provider (\<lambda>r. True)
         (\<lambda>r. r\<lparr>consecutive_failures := 0, first_failure := None, last_error_code := None,
              circuit_updated_at := now_ms\<rparr>) db) (\<lambda>(_, db). Inr db)
      else if circuit_state r \<noteq> Half_open then Inr db
      else close_text_circuit r (\<lambda>r. circuit_state r = Half_open) ''probe_succeeded'' now_ms tid db)
     (text_sound (breaker_succeeded (breaker_of r)) now_ms tid r db)"
  proof (cases "circuit_state r")
    case Closed
    then show ?thesis
      by (simp, intro text_quiet [OF assms(1)]) (use assms(2) Closed now in \<open>auto simp: inv_simps circuit_row_check_def\<close>)
  next
    case Open
    then show ?thesis using text_same [OF assms] by (simp add: breaker_of_def)
  next
    case Half_open
    then show ?thesis
      using close_text_circuit_serves [OF assms, of "\<lambda>r. circuit_state r = Half_open", OF Half_open fixed_reasons(4) now]
      by (simp add: breaker_of_def)
  qed
qed


text \<open>What a category counts as for the breaker.\<close>

definition category_failure :: "ai_category \<Rightarrow> circuit_failure" where
  "category_failure c = (if c = Ai_authentication then Authentication else if retryable_category c then Retryable
     else Ignored)"

lemma provider_failed_eq:
  assumes "circuits db text_provider = Some r" "count_failure now_ms (window_of r) = (first, n)"
    and "category_failure c \<noteq> Ignored"
  shows "provider_failed c now_ms tid db = rbind (text_request now_ms tid) (\<lambda>_.
     if \<not> (c = Ai_authentication \<or> circuit_state r = Half_open \<or> 3 \<le> n)
     then rbind (update_circuit text_provider (\<lambda>r. circuit_state r = Closed)
           (\<lambda>r. r\<lparr>consecutive_failures := n, first_failure := Some first,
                last_error_code := Some (circuit_failure_code c), circuit_updated_at := now_ms\<rparr>) db)
           (\<lambda>(_, db). Inr db)
     else if circuit_state r = Open
     then if indefinite r then Inr db else keep_text_open r c first n now_ms tid db
     else open_text_circuit r c first n now_ms tid db)"
proof -
  have w: "first = (if (case first_failure r of None \<Rightarrow> True | Some t \<Rightarrow> now_ms - t > failure_window_ms)
       then now_ms else the (first_failure r))"
    "n = (if (case first_failure r of None \<Rightarrow> True | Some t \<Rightarrow> now_ms - t > failure_window_ms) then 1
       else consecutive_failures r + 1)"
    using assms(2) by (auto simp: window_of_def split: option.splits if_splits)
  have c: "\<not> (c \<noteq> Ai_authentication \<and> \<not> retryable_category c)"
    using assms(3) by (auto simp: category_failure_def split: if_splits)
  show ?thesis
    unfolding provider_failed_def text_circuit_row [OF assms(1)] w Let_def by (simp only: c rbind_simps if_False)
qed

lemma provider_failed_serves:
  assumes "circuits db text_provider = Some r" "circuit_row_inv r" "category_failure c \<noteq> Ignored"
  shows "serves (usable now_ms tid db \<and> (\<forall>t. opened_at r = Some t \<longrightarrow> t \<le> now_ms + failure_window_ms))
    (provider_failed c now_ms tid db)
    (text_sound (breaker_failed (category_failure c) now_ms (breaker_of r)) now_ms tid r db)"
proof -
  obtain first n where w: "count_failure now_ms (window_of r) = (first, n)" by fastforce
  have n: "0 < n"
    using w assms(2)
    by (auto simp: window_of_def circuit_row_inv_def circuit_row_check_def split: option.splits if_splits)
  have auth: "c = Ai_authentication \<longleftrightarrow> category_failure c = Authentication"
    using assms(3) by (auto simp: category_failure_def)
  note code = failure_code_machine [of c]
  note facts = assms(2,3) w n auth code inv_revision [OF assms(2)] fixed_reasons
  show ?thesis
    unfolding provider_failed_eq [OF assms(1) w assms(3)]
  proof (rule serves_request [of _ _ _ _ _ db])
    assume now: "0 \<le> now_ms"
    have first: "0 \<le> first"
      using w now assms(2)
      by (auto simp: window_of_def circuit_row_inv_def circuit_row_check_def split: option.splits if_splits)
    let ?wanted = "usable now_ms tid db \<and> (\<forall>t. opened_at r = Some t \<longrightarrow> t \<le> now_ms + failure_window_ms)"
    let ?body = "if \<not> (c = Ai_authentication \<or> circuit_state r = Half_open \<or> 3 \<le> n)
      then rbind (update_circuit text_provider (\<lambda>r. circuit_state r = Closed)
         (\<lambda>r. r\<lparr>consecutive_failures := n, first_failure := Some first,
              last_error_code := Some (circuit_failure_code c), circuit_updated_at := now_ms\<rparr>) db)
         (\<lambda>(_, db). Inr db)
      else if circuit_state r = Open
      then if indefinite r then Inr db else keep_text_open r c first n now_ms tid db
      else open_text_circuit r c first n now_ms tid db"
    consider (count) "\<not> (c = Ai_authentication \<or> circuit_state r = Half_open \<or> 3 \<le> n)" "circuit_state r = Closed"
      | (late) "circuit_state r = Open" "indefinite r \<or> \<not> (c = Ai_authentication \<or> 3 \<le> n)"
      | (extend) "circuit_state r = Open" "\<not> indefinite r" "c = Ai_authentication \<or> 3 \<le> n"
      | (trip) "circuit_state r \<noteq> Open" "c = Ai_authentication \<or> circuit_state r = Half_open \<or> 3 \<le> n"
      by (cases "circuit_state r") auto
    then show "serves ?wanted ?body
      (text_sound (breaker_failed (category_failure c) now_ms (breaker_of r)) now_ms tid r db)"
    proof cases
      case count
      show ?thesis
        unfolding if_P [OF count(1)]
        by (rule text_quiet [OF assms(1)])
          (use count facts now first in \<open>auto simp: inv_simps circuit_row_check_def breaker_failed_hits\<close>)
    next
      case late
      have "breaker_failed (category_failure c) now_ms (breaker_of r) = breaker_of r"
        using late facts by (auto simp: breaker_of_def breaker_failed_hits circuit_row_inv_def)
      moreover have "?body = Inr db"
        using late assms(1) by (auto simp: update_circuit_def)
      ultimately show ?thesis using text_same [OF assms(1,2)] by simp
    next
      case extend
      have "?body = keep_text_open r c first n now_ms tid db" using extend by auto
      moreover have "serves ?wanted (keep_text_open r c first n now_ms tid db)
        (text_sound (breaker_failed (category_failure c) now_ms (breaker_of r)) now_ms tid r db)"
        unfolding keep_text_open_def Let_def
        by (rule serves_wanted, rule text_transition_checked [OF assms(1)])
          (use extend facts now first in \<open>auto simp: inv_simps circuit_row_check_def breaker_failed_hits
            trip_until_def\<close>)
      ultimately show ?thesis by (simp only:)
    next
      case trip
      have "?body = open_text_circuit r c first n now_ms tid db" using trip by auto
      moreover have "serves ?wanted (open_text_circuit r c first n now_ms tid db)
        (text_sound (breaker_failed (category_failure c) now_ms (breaker_of r)) now_ms tid r db)"
        unfolding open_text_circuit_def Let_def
        by (rule serves_wanted, rule text_transition_serves [OF assms(1)])
          (use trip facts now first in \<open>auto simp: inv_simps circuit_row_check_def breaker_failed_hits
            trip_until_def failure_window_ms_def split: circuit_state.splits\<close>)
      ultimately show ?thesis by (simp only:)
    qed
  qed auto
qed

section \<open>Histories\<close>

datatype text_op =
    Text_restart int string
  | Text_release int string
  | Text_admit int string
  | Text_succeeded int string
  | Text_failed ai_category int string

fun text_exec :: "text_op \<Rightarrow> circuit_db \<Rightarrow> (bool option \<times> circuit_db) res" where
  "text_exec (Text_restart now_ms tid) db = rbind (restart_provider now_ms tid db) (\<lambda>db. Inr (None, db))"
| "text_exec (Text_release now_ms tid) db = rbind (release_provider_probe now_ms tid db) (\<lambda>db. Inr (None, db))"
| "text_exec (Text_admit now_ms tid) db = rbind (admit_provider now_ms tid db) (\<lambda>(b, db). Inr (Some b, db))"
| "text_exec (Text_succeeded now_ms tid) db = rbind (provider_succeeded now_ms tid db) (\<lambda>db. Inr (None, db))"
| "text_exec (Text_failed c now_ms tid) db = rbind (provider_failed c now_ms tid db) (\<lambda>db. Inr (None, db))"

text \<open>What it does to the breaker; a category that says nothing of the provider does nothing.\<close>

fun text_breaker :: "text_op \<Rightarrow> breaker \<Rightarrow> bool option \<times> breaker" where
  "text_breaker (Text_restart now_ms tid) b = (None, breaker_restart now_ms b)"
| "text_breaker (Text_release now_ms tid) b = (None, breaker_failed Ignored now_ms b)"
| "text_breaker (Text_admit now_ms tid) b = map_prod Some id (breaker_admit now_ms b)"
| "text_breaker (Text_succeeded now_ms tid) b = (None, breaker_succeeded b)"
| "text_breaker (Text_failed c now_ms tid) b =
     (None, if category_failure c = Ignored then b else breaker_failed (category_failure c) now_ms b)"

fun text_time :: "text_op \<Rightarrow> int" where
  "text_time (Text_restart now_ms tid) = now_ms"
| "text_time (Text_release now_ms tid) = now_ms"
| "text_time (Text_admit now_ms tid) = now_ms"
| "text_time (Text_succeeded now_ms tid) = now_ms"
| "text_time (Text_failed c now_ms tid) = now_ms"

fun text_id :: "text_op \<Rightarrow> string" where
  "text_id (Text_restart now_ms tid) = tid"
| "text_id (Text_release now_ms tid) = tid"
| "text_id (Text_admit now_ms tid) = tid"
| "text_id (Text_succeeded now_ms tid) = tid"
| "text_id (Text_failed c now_ms tid) = tid"

text \<open>A failure while open is refused by the table where the clock stands before the opening.\<close>

fun clock_ok :: "text_op \<Rightarrow> circuit_row \<Rightarrow> bool" where
  "clock_ok (Text_failed c now_ms tid) r \<longleftrightarrow> (\<forall>t. opened_at r = Some t \<longrightarrow> t \<le> now_ms + failure_window_ms)"
| "clock_ok _ r \<longleftrightarrow> True"

lemma serves_rbind:
  "serves wanted m P \<Longrightarrow> (\<And>x. P x \<Longrightarrow> Q (f x)) \<Longrightarrow> serves wanted (rbind m (\<lambda>x. Inr (f x))) Q"
  by (cases m) auto

lemma text_exec_serves:
  assumes "circuits db text_provider = Some r" "circuit_row_inv r"
  shows "serves (usable (text_time operation) (text_id operation) db \<and> clock_ok operation r) (text_exec operation db)
    (\<lambda>(a, db'). \<exists>b. text_breaker operation (breaker_of r) = (a, b)
       \<and> text_sound b (text_time operation) (text_id operation) r db db')"
proof (cases operation)
  case (Text_restart now_ms tid)
  then show ?thesis by (auto intro: serves_rbind restart_provider_serves [OF assms])
next
  case (Text_release now_ms tid)
  then show ?thesis by (auto intro: serves_rbind release_provider_probe_serves [OF assms])
next
  case (Text_admit now_ms tid)
  show ?thesis
    using admit_provider_serves [OF assms, of now_ms tid] Text_admit
    by (cases "admit_provider now_ms tid db"; cases "breaker_admit now_ms (breaker_of r)") auto
next
  case (Text_succeeded now_ms tid)
  then show ?thesis by (auto intro: serves_rbind provider_succeeded_serves [OF assms])
next
  case (Text_failed c now_ms tid)
  show ?thesis
  proof (cases "category_failure c = Ignored")
    case True
    then have "provider_failed c now_ms tid db = rbind (text_request now_ms tid) (\<lambda>_. Inr db)"
      by (auto simp: provider_failed_def category_failure_def split: if_splits)
    moreover have "serves (usable now_ms tid db) (rbind (text_request now_ms tid) (\<lambda>_. Inr db))
        (text_sound (breaker_of r) now_ms tid r db)"
      by (rule serves_request [of _ _ _ _ _ db]) (use text_same [OF assms] in simp_all)
    ultimately have "serves (usable now_ms tid db) (provider_failed c now_ms tid db)
        (text_sound (breaker_of r) now_ms tid r db)"
      by (simp only:)
    then show ?thesis using Text_failed True by (auto intro!: serves_rbind [OF serves_wanted])
  next
    case False
    with Text_failed show ?thesis by (auto intro: serves_rbind provider_failed_serves [OF assms])
  qed
qed

definition text_apply :: "text_op \<Rightarrow> circuit_db \<Rightarrow> circuit_db" where
  "text_apply operation db = (case text_exec operation db of Inl e \<Rightarrow> db | Inr (a, db') \<Rightarrow> db')"

text \<open>Calls of both repositories on the same tables.\<close>

fun any_apply :: "circuit_op + text_op \<Rightarrow> circuit_db \<Rightarrow> circuit_db" where
  "any_apply (Inl operation) db = circuit_apply operation db"
| "any_apply (Inr operation) db = text_apply operation db"

definition any_run :: "(circuit_op + text_op) list \<Rightarrow> circuit_db" where
  "any_run ops = fold any_apply ops initial_circuit_db"

lemma text_exec_sound:
  assumes "text_exec operation db = Inr (a, db')" "circuits db text_provider = Some r" "circuit_row_inv r"
  obtains b where "text_breaker operation (breaker_of r) = (a, b)"
    "text_sound b (text_time operation) (text_id operation) r db db'"
  using text_exec_serves [OF assms(2,3), of operation] assms(1) by auto

lemma rows_sound_text: "rows_sound db \<Longrightarrow> \<exists>r. circuits db text_provider = Some r \<and> circuit_row_inv r"
  by (auto simp: rows_sound_def provider_names_def)

lemma rows_sound_text_exec:
  assumes "text_exec operation db = Inr (a, db')" "rows_sound db"
  shows "rows_sound db'"
proof -
  obtain r where r: "circuits db text_provider = Some r" "circuit_row_inv r" using rows_sound_text [OF assms(2)] by blast
  obtain b where "text_sound b (text_time operation) (text_id operation) r db db'"
    using text_exec_sound [OF assms(1) r] .
  then show ?thesis using assms(2) by (auto simp: text_sound_def rows_sound_def)
qed

lemma rows_sound_any_apply: "rows_sound db \<Longrightarrow> rows_sound (any_apply operation db)"
  by (cases operation) (auto simp: text_apply_def rows_sound_apply split: sum.splits intro: rows_sound_text_exec)

lemma rows_sound_any_run: "rows_sound (any_run ops)"
proof -
  have "rows_sound db \<Longrightarrow> rows_sound (fold any_apply ops db)" for db
    by (induction ops arbitrary: db) (simp_all add: rows_sound_any_apply)
  then show ?thesis by (simp add: any_run_def rows_sound_initial)
qed

text \<open>The calls that have to be served.\<close>

definition must_serve :: "text_op \<Rightarrow> circuit_db \<Rightarrow> bool" where
  "must_serve operation db \<longleftrightarrow> usable (text_time operation) (text_id operation) db
     \<and> (case circuits db text_provider of None \<Rightarrow> False | Some r \<Rightarrow> clock_ok operation r)"

text \<open>
  Property C12: after whatever calls of both repositories, the text generator's own operations on
  its circuit are the operations of the breaker that also stands before the other providers, and
  leave the other providers alone; a call with a new transition id and a time is served, unless it
  reports a failure with a clock that stands more than the cooldown before the circuit opened.
\<close>

theorem text_circuit_refines_breaker:
  "case text_exec operation (any_run ops) of
      Inr (a, db') \<Rightarrow> \<exists>b b'. breaker_for text_provider (any_run ops) = Some b
        \<and> breaker_for text_provider db' = Some b' \<and> text_breaker operation b = (a, b')
        \<and> (\<forall>p. p = text_provider \<or> circuits db' p = circuits (any_run ops) p)
    | Inl e \<Rightarrow> \<not> must_serve operation (any_run ops)"
proof -
  obtain r where r: "circuits (any_run ops) text_provider = Some r" "circuit_row_inv r"
    using rows_sound_text [OF rows_sound_any_run] by blast
  from text_exec_serves [OF this, of operation] r(1) show ?thesis
    unfolding serves_def breaker_for_def must_serve_def
    by (auto simp: text_sound_def split: sum.splits)
qed

end
