(* ===== verification/Openai_Client.thy ===== *)
theory Openai_Client
  imports Ai_Circuit
begin

text \<open>
  The client of the text provider (\<^verbatim>\<open>src/src/openai_client.cpp\<close>, the types of
  \<^verbatim>\<open>src/src/ai_client.cpp\<close>): bounded bodies, the request id of the headers, the reading of the
  response and the class of every failure. \<^verbatim>\<open>libcurl\<close> and the parser of \<^verbatim>\<open>nlohmann::json\<close> are
  parameters: what they deliver of a transfer, and the value of a text.
\<close>

section \<open>Requests, results and exceptions\<close>

record json_schema =
  schema_name :: string
  schema_text :: string
  schema_strict :: bool

record ai_request =
  instructions :: string
  conversation :: "(string \<times> string) list"
  max_output_tokens :: nat
  request_schema :: "json_schema option"
  request_purpose :: ai_purpose
  request_priority :: ai_priority
  requester_user :: "string option"
  request_key :: string

record ai_result =
  result_text :: string
  result_request :: string
  result_input :: nat
  result_output :: nat

text \<open>
  The exceptions of a generation. The classes with a request id sanitize it when they are built:
  \<open>exn_request\<close> is what their accessor returns.
\<close>

datatype ai_exn =
    Provider_error ai_category string
  | Operation_cancelled
  | Refusal string
  | Incomplete string
  | Admission_error ai_admission
  | Standard exn

fun exn_request :: "ai_exn \<Rightarrow> string" where
  "exn_request (Provider_error c i) = sanitize_request_id i"
| "exn_request (Refusal i) = sanitize_request_id i"
| "exn_request (Incomplete i) = sanitize_request_id i"
| "exn_request _ = []"

definition ebind :: "'e + 'a \<Rightarrow> ('a \<Rightarrow> 'e + 'b) \<Rightarrow> 'e + 'b" where
  "ebind m f = (case m of Inl e \<Rightarrow> Inl e | Inr x \<Rightarrow> f x)"

lemma ebind_simps [simp]: "ebind (Inl e) f = Inl e" "ebind (Inr x) f = f x"
  by (simp_all add: ebind_def)

lemma ebind_eq_Inr: "ebind m f = Inr y \<longleftrightarrow> (\<exists>x. m = Inr x \<and> f x = Inr y)"
  by (cases m) simp_all

lemma ebind_eq_Inl: "ebind m f = Inl e \<longleftrightarrow> m = Inl e \<or> (\<exists>x. m = Inr x \<and> f x = Inl e)"
  by (cases m) simp_all

definition standard :: "'a res \<Rightarrow> ai_exn + 'a" where
  "standard m = (case m of Inl e \<Rightarrow> Inl (Standard e) | Inr x \<Rightarrow> Inr x)"

section \<open>What libcurl delivers\<close>

definition maximum_response_bytes :: nat where "maximum_response_bytes = 1024 * 1024"

definition append_bounded_response :: "string \<Rightarrow> string \<Rightarrow> nat \<Rightarrow> bool \<times> string" where
  "append_bounded_response destination chunk maximum_bytes =
     (if length destination > maximum_bytes \<or> length chunk > maximum_bytes - length destination
      then (False, destination) else (True, destination @ chunk))"

record response_buffer =
  body :: string
  header_request :: string
  oversized :: bool

text \<open>The write callback: \<open>items\<close> elements of \<open>width\<close> bytes, and what it tells libcurl it has taken.\<close>

definition append_response :: "nat \<Rightarrow> nat \<Rightarrow> string \<Rightarrow> response_buffer \<Rightarrow> nat \<times> response_buffer" where
  "append_response width items bytes buffer =
     (if width \<noteq> 0 \<and> items > (2 ^ 64 - 1) div width then (0, buffer\<lparr>oversized := True\<rparr>)
      else (case append_bounded_response (body buffer) (take (width * items) bytes) maximum_response_bytes of
          (False, _) \<Rightarrow> (0, buffer\<lparr>oversized := True\<rparr>)
        | (True, all) \<Rightarrow> (width * items, buffer\<lparr>body := all\<rparr>)))"

definition ascii_lower :: "char \<Rightarrow> char" where
  "ascii_lower c = (if CHR ''A'' \<le> c \<and> c \<le> CHR ''Z'' then char_of (of_char c + 32 :: nat) else c)"

definition ascii_equal_case_insensitive :: "string \<Rightarrow> string \<Rightarrow> bool" where
  "ascii_equal_case_insensitive left right \<longleftrightarrow> list_all2 (\<lambda>a b. ascii_lower a = ascii_lower b) left right"

definition tab :: char where "tab = char_of (9 :: nat)"
definition line_feed :: char where "line_feed = char_of (10 :: nat)"
definition carriage_return :: char where "carriage_return = char_of (13 :: nat)"

definition provider_request_id_from_header :: "string \<Rightarrow> string" where
  "provider_request_id_from_header line =
     (let name = takeWhile (\<lambda>c. c \<noteq> CHR '':'') line; rest = dropWhile (\<lambda>c. c \<noteq> CHR '':'') line in
      if rest = [] \<or> \<not> ascii_equal_case_insensitive name ''x-request-id'' then []
      else sanitize_request_id
        (rev (dropWhile (\<lambda>c. c \<in> {carriage_return, line_feed, CHR '' '', tab})
           (rev (dropWhile (\<lambda>c. c \<in> {CHR '' '', tab}) (tl rest))))))"

definition capture_response_header :: "nat \<Rightarrow> nat \<Rightarrow> string \<Rightarrow> response_buffer \<Rightarrow> nat \<times> response_buffer" where
  "capture_response_header width items bytes buffer =
     (if width \<noteq> 0 \<and> items > (2 ^ 64 - 1) div width then (0, buffer)
      else (let request = provider_request_id_from_header (take (width * items) bytes) in
        (width * items, if request = [] then buffer else buffer\<lparr>header_request := request\<rparr>)))"

text \<open>The calls libcurl makes while it performs the transfer, in their order.\<close>

datatype curl_call = Header_call nat nat string | Body_call nat nat string

fun curl_callback :: "curl_call \<Rightarrow> response_buffer \<Rightarrow> response_buffer" where
  "curl_callback (Header_call width items bytes) buffer = snd (capture_response_header width items bytes buffer)"
| "curl_callback (Body_call width items bytes) buffer = snd (append_response width items bytes buffer)"

definition empty_buffer :: response_buffer where
  "empty_buffer = \<lparr>body = [], header_request = [], oversized = False\<rparr>"

definition received :: "curl_call list \<Rightarrow> response_buffer" where
  "received calls = fold curl_callback calls empty_buffer"

section \<open>Reading the response\<close>

text \<open>
  A parsed value. An object has each key once; \<open>Real n\<close> is a number that is not an integer, given
  by the size its conversion yields.
\<close>

datatype json = Null | Boolean bool | Number int | Real nat | Text string | Array "json list"
  | Object "(string \<times> json) list"

definition json_error :: exn where "json_error = Runtime_error ''json''"

definition value_of :: "json \<Rightarrow> string \<Rightarrow> json \<Rightarrow> json res" where
  "value_of j key fallback = (case j of
      Object entries \<Rightarrow> Inr (case map_of entries key of None \<Rightarrow> fallback | Some v \<Rightarrow> v)
    | _ \<Rightarrow> Inl json_error)"

definition text_value :: "json \<Rightarrow> string \<Rightarrow> string res" where
  "text_value j key = rbind (value_of j key (Text [])) (\<lambda>v. case v of Text s \<Rightarrow> Inr s | _ \<Rightarrow> Inl json_error)"

definition size_value :: "json \<Rightarrow> string \<Rightarrow> nat res" where
  "size_value j key = rbind (value_of j key (Number 0)) (\<lambda>v. case v of
      Number n \<Rightarrow> Inr (nat (n mod 2 ^ 64)) | Real n \<Rightarrow> Inr n
    | _ \<Rightarrow> Inl json_error)"

fun elements :: "json \<Rightarrow> json list" where
  "elements Null = []"
| "elements (Array xs) = xs"
| "elements (Object entries) = map snd entries"
| "elements j = [j]"

fun content_text :: "string \<Rightarrow> json list \<Rightarrow> string \<Rightarrow> ai_exn + string" where
  "content_text request [] gathered = Inr gathered"
| "content_text request (c # cs) gathered =
     ebind (standard (text_value c ''type'')) (\<lambda>kind.
     if kind = ''refusal'' then Inl (Refusal request)
     else if kind = ''output_text''
     then ebind (standard (text_value c ''text'')) (\<lambda>s. content_text request cs (gathered @ s))
     else content_text request cs gathered)"

fun output_text :: "string \<Rightarrow> json list \<Rightarrow> string \<Rightarrow> ai_exn + string" where
  "output_text request [] gathered = Inr gathered"
| "output_text request (item # items) gathered =
     ebind (standard (text_value item ''type'')) (\<lambda>kind.
     if kind \<noteq> ''message'' then output_text request items gathered
     else
     ebind (standard (value_of item ''content'' (Array []))) (\<lambda>contents.
     ebind (content_text request (elements contents) gathered) (\<lambda>gathered. output_text request items gathered)))"

definition response_request :: "json \<Rightarrow> string \<Rightarrow> ai_exn + string" where
  "response_request response header = (if sanitize_request_id header \<noteq> [] then Inr (sanitize_request_id header)
     else ebind (standard (text_value response ''id'')) (\<lambda>i. Inr (sanitize_request_id i)))"

definition direct_text :: "json \<Rightarrow> string" where
  "direct_text response = (case response of
      Object entries \<Rightarrow> (case map_of entries ''output_text'' of Some (Text s) \<Rightarrow> s | _ \<Rightarrow> [])
    | _ \<Rightarrow> [])"

definition response_result :: "(string \<Rightarrow> json res) \<Rightarrow> string \<Rightarrow> string \<Rightarrow> ai_exn + ai_result" where
  "response_result parse source header =
     ebind (standard (parse source)) (\<lambda>response.
     ebind (response_request response header) (\<lambda>request.
     ebind (standard (text_value response ''status'')) (\<lambda>status.
     if status = ''incomplete'' then Inl (Incomplete request)
     else
     ebind (if direct_text response \<noteq> [] then Inr (direct_text response)
        else ebind (standard (value_of response ''output'' (Array []))) (\<lambda>out.
          output_text request (elements out) [])) (\<lambda>gathered.
     if gathered = [] then Inl (Standard (Runtime_error ''OpenAI returned no text response.''))
     else
     ebind (standard (value_of response ''usage'' (Object []))) (\<lambda>usage.
     ebind (standard (size_value usage ''input_tokens'')) (\<lambda>input.
     ebind (standard (size_value usage ''output_tokens'')) (\<lambda>output.
     Inr \<lparr>result_text = gathered, result_request = request, result_input = input, result_output = output\<rparr>)))))))"

section \<open>The call\<close>

datatype curl_code = Curl_ok | Curl_timed_out | Curl_aborted | Curl_failed

record transfer =
  curl_result :: curl_code
  http_status :: int
  curl_calls :: "curl_call list"
  stopped_during :: bool

definition status_category :: "int \<Rightarrow> ai_category" where
  "status_category status = (if status = 401 \<or> status = 403 then Ai_authentication
     else if status = 429 then Ai_rate_limited
     else if 500 \<le> status then Ai_server else Ai_invalid_request)"

text \<open>What the transfer amounts to.\<close>

definition openai_answer :: "(string \<Rightarrow> json res) \<Rightarrow> transfer \<Rightarrow> ai_exn + ai_result" where
  "openai_answer parse t = (let response = received (curl_calls t); request = header_request response in
     if curl_result t = Curl_aborted \<and> stopped_during t then Inl Operation_cancelled
     else if oversized response then Inl (Provider_error Ai_invalid_response request)
     else if curl_result t \<noteq> Curl_ok
     then Inl (Provider_error (if curl_result t = Curl_timed_out then Ai_timeout else Ai_transport) request)
     else if http_status t < 200 \<or> 300 \<le> http_status t
     then Inl (Provider_error (status_category (http_status t)) request)
     else (case response_result parse (body response) request of
         Inl (Refusal i) \<Rightarrow> Inl (Refusal i)
       | Inl (Incomplete i) \<Rightarrow> Inl (Incomplete i)
       | Inl _ \<Rightarrow> Inl (Provider_error Ai_invalid_response request)
       | Inr r \<Rightarrow> Inr r))"

text \<open>
  How a provider deals with one call: it ends without announcing the transmission, or it announces
  it once and, where the announcement does not throw, ends in the answer.
\<close>

datatype conduct = Unsent "ai_exn + ai_result" | Sent "ai_exn + ai_result"

definition openai_generate ::
    "(string \<Rightarrow> json res) \<Rightarrow> bool \<Rightarrow> unit res \<Rightarrow> bool \<Rightarrow> transfer \<Rightarrow> conduct" where
  "openai_generate parse stopped prepared stopped_before_send t =
     (if stopped then Unsent (Inl Operation_cancelled)
      else case prepared of
          Inl e \<Rightarrow> Unsent (Inl (Standard e))
        | Inr _ \<Rightarrow> if stopped_before_send then Unsent (Inl Operation_cancelled) else Sent (openai_answer parse t))"

section \<open>What the client promises\<close>

lemma received_bounded: "length (body (received calls)) \<le> maximum_response_bytes"
proof -
  have step: "length (body (curl_callback c b)) \<le> maximum_response_bytes"
    if "length (body b) \<le> maximum_response_bytes" for c b
    using that
    by (cases c) (auto simp: append_response_def append_bounded_response_def capture_response_header_def Let_def)
  have "length (body (fold curl_callback calls b)) \<le> maximum_response_bytes"
    if "length (body b) \<le> maximum_response_bytes" for b
    using that by (induction calls arbitrary: b) (simp_all add: step)
  then show ?thesis by (simp add: received_def empty_buffer_def)
qed

lemma sanitize_request_id_idem: "sanitize_request_id (sanitize_request_id i) = sanitize_request_id i"
  by (simp add: sanitize_request_id_def)

lemma header_sanitized: "sanitize_request_id (provider_request_id_from_header line) = provider_request_id_from_header line"
  by (simp add: provider_request_id_from_header_def Let_def sanitize_request_id_idem) (simp add: sanitize_request_id_def)

lemma received_request: "sanitize_request_id (header_request (received calls)) = header_request (received calls)"
proof -
  have step: "sanitize_request_id (header_request (curl_callback c b)) = header_request (curl_callback c b)"
    if "sanitize_request_id (header_request b) = header_request b" for c b
    using that header_sanitized
    by (cases c) (auto simp: append_response_def capture_response_header_def Let_def split: prod.splits bool.splits)
  have "sanitize_request_id (header_request (fold curl_callback calls b)) = header_request (fold curl_callback calls b)"
    if "sanitize_request_id (header_request b) = header_request b" for b
    using that by (induction calls arbitrary: b) (simp_all add: step)
  then show ?thesis by (simp add: received_def empty_buffer_def sanitize_request_id_def)
qed

lemma response_result_Inr:
  assumes "response_result parse source header = Inr r"
  shows "result_text r \<noteq> [] \<and> sanitize_request_id (result_request r) = result_request r"
  using assms
  by (auto simp: response_result_def ebind_eq_Inr response_request_def sanitize_request_id_idem split: if_splits)

text \<open>How a call of the provider may end.\<close>

fun provider_class :: "ai_exn \<Rightarrow> bool" where
  "provider_class (Provider_error c i) = True"
| "provider_class Operation_cancelled = True"
| "provider_class (Refusal i) = True"
| "provider_class (Incomplete i) = True"
| "provider_class _ = False"

fun conduct_ok :: "conduct \<Rightarrow> bool" where
  "conduct_ok (Unsent (Inl x)) = True"
| "conduct_ok (Unsent (Inr r)) = False"
| "conduct_ok (Sent (Inl x)) = provider_class x"
| "conduct_ok (Sent (Inr r)) = (result_text r \<noteq> [] \<and> sanitize_request_id (result_request r) = result_request r)"

text \<open>
  Property C27: whatever the transfer delivers, also a body that is no JSON, lacks fields or holds
  them with other types, a call that was sent ends in a result with a text and a sanitized request
  id, or in one of the four classes the accounting knows, never in an exception of the JSON
  library; and nothing is read of a response above the limit.
\<close>

theorem openai_outcome_classified:
  "conduct_ok (openai_generate parse stopped prepared stopped_before_send t)
   \<and> length (body (received (curl_calls t))) \<le> maximum_response_bytes"
proof -
  have "conduct_ok (Sent (openai_answer parse t))"
    using response_result_Inr [of parse "body (received (curl_calls t))" "header_request (received (curl_calls t))"]
    by (auto simp: openai_answer_def Let_def split: sum.splits ai_exn.splits)
  then show ?thesis by (auto simp: openai_generate_def received_bounded split: sum.splits)
qed

lemma dropWhile_all: "list_all P xs \<Longrightarrow> dropWhile P (xs @ ys) = dropWhile P ys"
  by (induction xs) auto

lemma dropWhile_stop: "xs \<noteq> [] \<Longrightarrow> \<not> P (hd xs) \<Longrightarrow> dropWhile P xs = xs"
  by (cases xs) auto

lemma request_char_blank: "request_char c \<Longrightarrow> c \<notin> {carriage_return, line_feed, CHR '' '', tab, CHR '':''}"
proof -
  have "list_all (\<lambda>c. \<not> request_char c) [carriage_return, line_feed, CHR '' '', tab, CHR '':'']" by code_simp
  then show "request_char c \<Longrightarrow> ?thesis" by auto
qed

text \<open>
  Property C28: the request id that a server sends is the one the program keeps, for any spelling of
  the header's name in upper and lower case, any blanks before the value and any after it.
\<close>

theorem request_id_header_read:
  assumes "sanitize_request_id i = i" "i \<noteq> []" "CHR '':'' \<notin> set name"
    and "ascii_equal_case_insensitive name ''x-request-id''"
    and "list_all (\<lambda>c. c \<in> {CHR '' '', tab}) blanks"
    and "list_all (\<lambda>c. c \<in> {carriage_return, line_feed, CHR '' '', tab}) ending"
  shows "provider_request_id_from_header (name @ CHR '':'' # blanks @ i @ ending) = i"
proof -
  have i: "list_all request_char i" using assms(1,2) by (auto simp: sanitize_request_id_def split: if_splits)
  have first: "hd i \<notin> {CHR '' '', tab}" "last i \<notin> {carriage_return, line_feed, CHR '' '', tab}"
    using i assms(2) request_char_blank hd_in_set [of i] last_in_set [of i] by (auto simp: list_all_iff)
  have "takeWhile (\<lambda>c. c \<noteq> CHR '':'') (name @ CHR '':'' # blanks @ i @ ending) = name"
    "dropWhile (\<lambda>c. c \<noteq> CHR '':'') (name @ CHR '':'' # blanks @ i @ ending) = CHR '':'' # blanks @ i @ ending"
    using assms(3) by (induction name) auto
  moreover have "dropWhile (\<lambda>c. c \<in> {CHR '' '', tab}) (blanks @ i @ ending) = i @ ending"
    using dropWhile_all [OF assms(5), of "i @ ending"] dropWhile_stop [of "i @ ending" "\<lambda>c. c \<in> {CHR '' '', tab}"]
      first(1) assms(2) by simp
  moreover have "rev (dropWhile (\<lambda>c. c \<in> {carriage_return, line_feed, CHR '' '', tab}) (rev (i @ ending))) = i"
    using dropWhile_all [of "\<lambda>c. c \<in> {carriage_return, line_feed, CHR '' '', tab}" "rev ending" "rev i"]
      dropWhile_stop [of "rev i" "\<lambda>c. c \<in> {carriage_return, line_feed, CHR '' '', tab}"] first(2) assms(2,6)
    by (simp add: hd_rev)
  ultimately show ?thesis using assms(1,4) by (simp add: provider_request_id_from_header_def Let_def)
qed

lemma request_id_header_read_witness:
  "provider_request_id_from_header
     (''X-Request-ID'' @ CHR '':'' # '' '' @ ''req_7'' @ [carriage_return, line_feed]) = ''req_7''"
  by (rule request_id_header_read [where i = "''req_7''" and blanks = "'' ''" and ending = "[carriage_return, line_feed]"])
    (code_simp | simp)+

end
