(* ===== verification/Ai_Generation.thy ===== *)
theory Ai_Generation
  imports Openai_Client Ai_Spending
begin

text \<open>
  The service in front of the text provider (\<^verbatim>\<open>src/src/ai_generation.cpp\<close>): what a generation
  may cost, the reservation before it, the accounting after it on every way it can end, and the
  report to the circuit.
\<close>

section \<open>Sizes and costs\<close>

definition size_max :: nat where "size_max = 2 ^ 64 - 1"

definition add_bytes :: "nat \<Rightarrow> string \<Rightarrow> nat res" where
  "add_bytes so_far part =
     rbind (require (\<not> length part > size_max - so_far) (Invalid_argument ''AI request is too large.''))
       (\<lambda>_. Inr (so_far + length part))"

fun conversation_bytes :: "(string \<times> string) list \<Rightarrow> nat \<Rightarrow> nat res" where
  "conversation_bytes [] so_far = Inr so_far"
| "conversation_bytes ((role, content) # messages) so_far =
     rbind (add_bytes so_far role) (\<lambda>so_far.
     rbind (add_bytes so_far content) (\<lambda>so_far. conversation_bytes messages so_far))"

definition request_bytes :: "ai_request \<Rightarrow> nat res" where
  "request_bytes req =
     rbind (conversation_bytes (conversation req) (length (instructions req))) (\<lambda>so_far.
     case request_schema req of None \<Rightarrow> Inr so_far | Some s \<Rightarrow> add_bytes so_far (schema_text s))"

definition token_charge :: "nat \<Rightarrow> int \<Rightarrow> int res" where
  "token_charge tokens rate =
     rbind (require (\<not> int tokens > (int64_max - 999999) div rate) (Overflow_error ''AI cost calculation overflowed.''))
       (\<lambda>_. Inr ((int tokens * rate + 999999) div 1000000))"

definition estimated_cost :: "nat \<Rightarrow> nat \<Rightarrow> int \<Rightarrow> int \<Rightarrow> int res" where
  "estimated_cost input output in_rate out_rate =
     rbind (require (\<not> (in_rate \<le> 0 \<or> out_rate \<le> 0 \<or> input > 16000 \<or> output > 500))
       (Invalid_argument ''AI cost input is invalid.'')) (\<lambda>_.
     rbind (token_charge input in_rate) (\<lambda>a.
     rbind (token_charge output out_rate) (\<lambda>b. Inr (a + b))))"

datatype failure_accounting = Cancel_reservation | Fail_attempt

fun failure_code :: "ai_category \<Rightarrow> string" where
  "failure_code Ai_timeout = ''timeout''"
| "failure_code Ai_rate_limited = ''rate_limited''"
| "failure_code Ai_authentication = ''authentication''"
| "failure_code Ai_server = ''server''"
| "failure_code Ai_invalid_request = ''invalid_request''"
| "failure_code Ai_invalid_response = ''invalid_response''"
| "failure_code Ai_transport = ''transport''"

definition classify_failure :: "ai_category \<Rightarrow> bool \<Rightarrow> failure_accounting \<times> string" where
  "classify_failure c transmission_started =
     (if transmission_started then Fail_attempt else Cancel_reservation,
      if transmission_started then failure_code c else ''provider_not_sent'')"

section \<open>The surroundings of a call\<close>

text \<open>
  What the \<open>n\<close>-th call of the repository meets: the reading of the clock, the id drawn for it, and
  what other threads have done to the tables since the call before. The numbers name the calls of
  \<open>ai_generate\<close>: 0 reserves, 1 admits, 2 cancels where the circuit is open, 3 marks the
  transmission, 4 completes, 5 reports the success, 6 settles a failure, 7 and 8 report it.
\<close>

record ai_env =
  reading :: "nat \<Rightarrow> int"
  drawn :: "nat \<Rightarrow> string"
  others :: "nat \<Rightarrow> ai_db \<Rightarrow> ai_db"

definition on_circuits :: "(circuit_db \<Rightarrow> circuit_db res) \<Rightarrow> ai_db \<Rightarrow> ai_db res" where
  "on_circuits f db = rbind (f (ai_circuits db)) (\<lambda>c. Inr (db\<lparr>ai_circuits := c\<rparr>))"

text \<open>A call whose exceptions are swallowed.\<close>

definition tolerate :: "(ai_db \<Rightarrow> ai_db res) \<Rightarrow> ai_db \<Rightarrow> ai_db" where
  "tolerate f db = (case f db of Inl e \<Rightarrow> db | Inr db' \<Rightarrow> db')"

text \<open>A report whose exceptions are swallowed; what other threads did stays done.\<close>

definition report :: "ai_env \<Rightarrow> nat \<Rightarrow> (int \<Rightarrow> string \<Rightarrow> circuit_db \<Rightarrow> circuit_db res) \<Rightarrow> ai_db \<Rightarrow> ai_db" where
  "report env n f db = tolerate (on_circuits (f (reading env n) (drawn env n))) (others env n db)"

section \<open>Settling\<close>

definition release_unsent :: "ai_env \<Rightarrow> string \<Rightarrow> string \<Rightarrow> ai_db \<Rightarrow> ai_db" where
  "release_unsent env attempt reason db =
     report env 7 release_provider_probe
       (tolerate (cancel_attempt attempt reason (reading env 6)) (others env 6 db))"

definition settle_failed ::
    "ai_env \<Rightarrow> string \<Rightarrow> string \<Rightarrow> ai_exn \<Rightarrow> (ai_db \<Rightarrow> ai_db) \<Rightarrow> ai_db \<Rightarrow> ai_exn \<times> ai_db" where
  "settle_failed env attempt code x reports db =
     (case fail_attempt attempt code (exn_request x) (reading env 6) (others env 6 db) of
        Inl e \<Rightarrow> (Standard e, others env 6 db)
      | Inr db' \<Rightarrow> (x, reports db'))"

text \<open>The second report is made only where the first did not throw.\<close>

definition report_failure :: "ai_env \<Rightarrow> ai_category \<Rightarrow> ai_db \<Rightarrow> ai_db" where
  "report_failure env c db =
     (case on_circuits (provider_failed c (reading env 7) (drawn env 7)) (others env 7 db) of
        Inl e \<Rightarrow> others env 7 db
      | Inr db' \<Rightarrow> if c = Ai_invalid_request then report env 8 provider_succeeded db' else db')"

text \<open>The handlers of \<^verbatim>\<open>generate\<close>: what is thrown on, and the tables after.\<close>

fun ai_settle :: "ai_env \<Rightarrow> string \<Rightarrow> bool \<Rightarrow> ai_exn \<Rightarrow> ai_db \<Rightarrow> ai_exn \<times> ai_db" where
  "ai_settle env attempt submitted (Provider_error c i) db =
     (case classify_failure c submitted of
        (Cancel_reservation, code) \<Rightarrow> (Provider_error c i, release_unsent env attempt code db)
      | (Fail_attempt, code) \<Rightarrow> settle_failed env attempt code (Provider_error c i) (report_failure env c) db)"
| "ai_settle env attempt submitted Operation_cancelled db =
     (if submitted
      then settle_failed env attempt ''cancelled_after_send'' Operation_cancelled (report env 7 release_provider_probe) db
      else (Operation_cancelled, release_unsent env attempt ''cancelled_before_send'' db))"
| "ai_settle env attempt submitted (Refusal i) db =
     (if submitted then settle_failed env attempt ''refusal'' (Refusal i) (report env 7 provider_succeeded) db
      else (Refusal i, release_unsent env attempt ''refusal_before_send'' db))"
| "ai_settle env attempt submitted (Incomplete i) db =
     (if submitted then settle_failed env attempt ''incomplete'' (Incomplete i) (report env 7 release_provider_probe) db
      else (Incomplete i, release_unsent env attempt ''incomplete_before_send'' db))"
| "ai_settle env attempt submitted x db =
     (if submitted then settle_failed env attempt ''provider_failure'' x (report env 7 release_provider_probe) db
      else (x, release_unsent env attempt ''submission_not_started'' db))"

section \<open>Generation\<close>

text \<open>The call of the provider, with the announcement it makes; \<open>started\<close> is what the caller's
  own callback throws, if it throws.\<close>

definition ai_call ::
    "ai_env \<Rightarrow> string \<Rightarrow> conduct \<Rightarrow> ai_exn option \<Rightarrow> ai_db \<Rightarrow> (ai_exn + ai_result) \<times> bool \<times> ai_db" where
  "ai_call env attempt c started db = (case c of
      Unsent answer \<Rightarrow> (answer, False, db)
    | Sent answer \<Rightarrow> (case mark_submitted attempt (reading env 3) (others env 3 db) of
        Inl e \<Rightarrow> (Inl (Standard e), False, others env 3 db)
      | Inr db' \<Rightarrow> (case started of Some x \<Rightarrow> Inl x | None \<Rightarrow> answer, True, db')))"

text \<open>What follows an answer, inside the handlers.\<close>

definition ai_finish ::
    "ai_policy \<Rightarrow> ai_request \<Rightarrow> ai_env \<Rightarrow> string \<Rightarrow> int \<Rightarrow> bool \<Rightarrow> ai_result \<Rightarrow> ai_db \<Rightarrow> (ai_exn + ai_result) \<times> ai_db" where
  "ai_finish policy req env attempt cost submitted answer db =
     (let r = answer\<lparr>result_request := sanitize_request_id (result_request answer)\<rparr>;
        input = (if result_input r = 0 then maximum_input_bytes policy else result_input r);
        output = (if result_output r = 0 then max_output_tokens req else result_output r)
      in
      if \<not> submitted then (Inl (Provider_error Ai_invalid_response (result_request r)), db)
      else if result_input r > maximum_input_bytes policy \<or> result_output r > max_output_tokens req
      then (Inl (Provider_error Ai_invalid_response (result_request r)), db)
      else case estimated_cost input output (policy_input_rate policy) (policy_output_rate policy) of
          Inl e \<Rightarrow> (Inl (Standard e), db)
        | Inr actual \<Rightarrow>
            if actual > cost then (Inl (Provider_error Ai_invalid_response (result_request r)), db)
            else (case complete_attempt attempt \<lparr>used_input = input, used_output = output, used_cost = actual,
                used_request = result_request r, used_completed_at = reading env 4\<rparr> (others env 4 db) of
                Inl e \<Rightarrow> (Inl (Standard e), others env 4 db)
              | Inr db' \<Rightarrow> (Inr r, report env 5 provider_succeeded db')))"

text \<open>The part inside the handlers, and the handlers.\<close>

definition ai_attempt ::
    "ai_policy \<Rightarrow> ai_request \<Rightarrow> ai_env \<Rightarrow> string \<Rightarrow> int \<Rightarrow> conduct \<Rightarrow> ai_exn option \<Rightarrow> ai_db
     \<Rightarrow> (ai_exn + ai_result) \<times> ai_db" where
  "ai_attempt policy req env attempt cost c started db =
     (let (answer, submitted, db) = ai_call env attempt c started db;
        (outcome, db) = (case answer of Inl x \<Rightarrow> (Inl x, db)
          | Inr r \<Rightarrow> ai_finish policy req env attempt cost submitted r db)
      in case outcome of
          Inr r \<Rightarrow> (Inr r, db)
        | Inl x \<Rightarrow> (let (x', db') = ai_settle env attempt submitted x db in (Inl x', db')))"

definition ai_reservation_of :: "ai_policy \<Rightarrow> ai_request \<Rightarrow> ai_env \<Rightarrow> int \<Rightarrow> ai_reservation" where
  "ai_reservation_of policy req env cost = \<lparr>rsv_attempt = drawn env 0,
     rsv_key = (if request_key req = [] then ''ai:attempt:'' @ drawn env 0 else request_key req),
     rsv_requester = requester_user req, rsv_purpose = request_purpose req, rsv_priority = request_priority req,
     rsv_model = policy_model policy, rsv_input_rate = policy_input_rate policy,
     rsv_output_rate = policy_output_rate policy, rsv_input_tokens = maximum_input_bytes policy,
     rsv_output_tokens = max_output_tokens req, rsv_cost = cost, rsv_now = reading env 0\<rparr>"

text \<open>From the reservation on.\<close>

definition ai_reserved ::
    "u64 \<Rightarrow> ai_policy \<Rightarrow> ai_request \<Rightarrow> ai_env \<Rightarrow> int \<Rightarrow> conduct \<Rightarrow> ai_exn option \<Rightarrow> ai_db
     \<Rightarrow> (ai_exn + ai_result) \<times> ai_db" where
  "ai_reserved guild policy req env cost c started db =
     (case ai_reserve guild (ai_reservation_of policy req env cost) policy (others env 0 db) of
        Inl e \<Rightarrow> (Inl (Standard e), others env 0 db)
      | Inr ((answer, i), db) \<Rightarrow>
          if answer \<noteq> Admitted_generation then (Inl (Admission_error answer), db)
          else let attempt = (if i = [] then drawn env 0 else i) in
          (case admit_provider (reading env 0) (drawn env 1) (ai_circuits (others env 1 db)) of
             Inl e \<Rightarrow> (Inl (Standard e), others env 1 db)
           | Inr (allowed, cs) \<Rightarrow>
               let db = (others env 1 db)\<lparr>ai_circuits := cs\<rparr> in
               if \<not> allowed
               then (case cancel_attempt attempt ''circuit_open'' (reading env 0) (others env 2 db) of
                   Inl e \<Rightarrow> (Inl (Standard e), others env 2 db)
                 | Inr db \<Rightarrow> (Inl (Admission_error Provider_unavailable), db))
               else ai_attempt policy req env attempt cost c started db))"

definition ai_generate ::
    "u64 \<Rightarrow> ai_policy \<Rightarrow> ai_request \<Rightarrow> bool \<Rightarrow> ai_env \<Rightarrow> conduct \<Rightarrow> ai_exn option \<Rightarrow> ai_db
     \<Rightarrow> (ai_exn + ai_result) \<times> ai_db" where
  "ai_generate guild policy req stopped env c started db =
     (if stopped then (Inl Operation_cancelled, db)
      else case request_bytes req of
          Inl e \<Rightarrow> (Inl (Standard e), db)
        | Inr bytes \<Rightarrow>
            if bytes = 0 \<or> bytes > maximum_input_bytes policy \<or> max_output_tokens req = 0
              \<or> max_output_tokens req > maximum_output_tokens policy
            then (Inl (Standard (Invalid_argument ''AI request exceeds configured token limits.'')), db)
            else (case estimated_cost (maximum_input_bytes policy) (max_output_tokens req)
                (policy_input_rate policy) (policy_output_rate policy) of
                Inl e \<Rightarrow> (Inl (Standard e), db)
              | Inr cost \<Rightarrow> ai_reserved guild policy req env cost c started db))"

section \<open>Construction\<close>

definition service_ready :: "u64 \<Rightarrow> ai_policy \<Rightarrow> unit res" where
  "service_ready guild policy =
     require (\<not> (guild = 0 \<or> policy_model policy = [] \<or> policy_input_rate policy \<le> 0 \<or> policy_output_rate policy \<le> 0
        \<or> maximum_input_bytes policy = 0 \<or> maximum_input_bytes policy > 16000
        \<or> maximum_output_tokens policy = 0 \<or> maximum_output_tokens policy > 500))
       (Invalid_argument ''AI generation policy is incomplete.'')"

text \<open>
  A new service settles what an earlier process left: what it had reserved and what it had sent, and
  the probe it had out. An exception ends the construction; what was recovered before stays.
\<close>

definition ai_service_start :: "u64 \<Rightarrow> ai_policy \<Rightarrow> int \<Rightarrow> string \<Rightarrow> ai_db \<Rightarrow> unit res \<times> ai_db" where
  "ai_service_start guild policy current tid db =
     (case service_ready guild policy of
        Inl e \<Rightarrow> (Inl e, db)
      | Inr _ \<Rightarrow> (case recover_reserved current db of
          Inl e \<Rightarrow> (Inl e, db)
        | Inr (_, db) \<Rightarrow> (case recover_submitted current db of
            Inl e \<Rightarrow> (Inl e, db)
          | Inr (_, db) \<Rightarrow> (case on_circuits (restart_provider current tid) db of
              Inl e \<Rightarrow> (Inl e, db)
            | Inr db \<Rightarrow> (Inr (), db)))))"

end
