(* ===== verification/Ai_Settlement.thy ===== *)
theory Ai_Settlement
  imports Ai_Generation
begin

text \<open>
  What a generation costs and that it never leaves its reservation open: every call of the
  repository that the service makes is served while the clock does not run back behind the
  reservation and other threads leave the attempt alone.
\<close>

section \<open>Costs\<close>

lemma token_charge_Inr:
  "token_charge n rate = Inr a \<longleftrightarrow> int n \<le> (int64_max - 999999) div rate \<and> a = (int n * rate + 999999) div 1000000"
  by (auto simp: token_charge_def rbind_eq_Inr)

lemma token_charge_bounds:
  assumes "token_charge n rate = Inr a" "0 < rate"
  shows "int n * rate + 999999 \<le> int64_max" "int n * rate \<le> 1000000 * a" "1000000 * a < int n * rate + 1000000" "0 \<le> a"
proof -
  have n: "int n \<le> (int64_max - 999999) div rate" and a: "a = (int n * rate + 999999) div 1000000"
    using assms(1) by (auto simp: token_charge_Inr)
  have "int n * rate \<le> (int64_max - 999999) div rate * rate" using n assms(2) by (intro mult_right_mono) auto
  also have "\<dots> \<le> int64_max - 999999"
    using div_mult_mod_eq [of "int64_max - 999999" rate] pos_mod_sign [OF assms(2), of "int64_max - 999999"] by linarith
  finally show "int n * rate + 999999 \<le> int64_max" by simp
  have "0 \<le> int n * rate" using assms(2) by simp
  then show "int n * rate \<le> 1000000 * a" "1000000 * a < int n * rate + 1000000" "0 \<le> a"
    unfolding a by linarith+
qed

lemma estimated_cost_nonneg: "estimated_cost input output in_rate out_rate = Inr cost \<Longrightarrow> 0 \<le> cost"
  using token_charge_bounds(4) by (fastforce simp: estimated_cost_def rbind_eq_Inr)

text \<open>
  Property C29: an estimate is the price of the tokens in millionths, each of the two parts rounded
  up, and no step of the 64-bit arithmetic overflows; a reservation is never too small for it.
\<close>

theorem estimated_cost_exact:
  assumes "estimated_cost input output in_rate out_rate = Inr cost"
  shows "int input * in_rate + 999999 \<le> int64_max \<and> int output * out_rate + 999999 \<le> int64_max
    \<and> cost \<le> int64_max \<and> 0 \<le> cost
    \<and> int input * in_rate + int output * out_rate \<le> 1000000 * cost
    \<and> 1000000 * cost < int input * in_rate + int output * out_rate + 2000000"
proof -
  obtain a b where c: "0 < in_rate" "0 < out_rate" "token_charge input in_rate = Inr a" "token_charge output out_rate = Inr b"
    "cost = a + b"
    using assms by (auto simp: estimated_cost_def rbind_eq_Inr)
  show ?thesis
    using token_charge_bounds [OF c(3,1)] token_charge_bounds [OF c(4,2)] c(5) by linarith
qed

lemma estimated_cost_exact_witness:
  "int 16000 * 150000 + int 500 * 600000 \<le> 1000000 * (2700::int)
   \<and> estimated_cost 16000 500 150000 600000 = Inr 2700"
proof -
  have "estimated_cost 16000 500 150000 600000 = Inr 2700"
    by (simp add: estimated_cost_def token_charge_def require_def)
  with estimated_cost_exact [OF this] show ?thesis by simp
qed

section \<open>The row of a generation\<close>

definition own :: "string \<Rightarrow> ai_db \<Rightarrow> attempt_row list" where
  "own i db = filter (\<lambda>r. attempt_id r = i) (attempts db)"

text \<open>
  What other threads keep: the rows of this attempt, and the guilds and members they refer to.
\<close>

definition quiet :: "string \<Rightarrow> ai_db \<Rightarrow> ai_db \<Rightarrow> bool" where
  "quiet i db db' \<longleftrightarrow> own i db' = own i db \<and> set (ai_guilds db) \<subseteq> set (ai_guilds db')
     \<and> set (ai_members db) \<subseteq> set (ai_members db')"

definition quiet_others :: "ai_env \<Rightarrow> bool" where
  "quiet_others env \<longleftrightarrow> (\<forall>n db. quiet (drawn env 0) db (others env n db))"

text \<open>The row is the only one of its attempt and satisfies the constraints of its table.\<close>

definition holds_row :: "string \<Rightarrow> attempt_row \<Rightarrow> ai_db \<Rightarrow> bool" where
  "holds_row i r db \<longleftrightarrow> own i db = [r] \<and> attempt_check r db"

definition refers :: "attempt_row \<Rightarrow> ai_db \<Rightarrow> bool" where
  "refers r db \<longleftrightarrow> attempt_guild r \<in> set (ai_guilds db)
     \<and> (case attempt_requester r of None \<Rightarrow> True | Some u \<Rightarrow> u \<in> snowflake_str ` set (ai_members db))"

lemma attempt_check_refers: "attempt_check r db \<Longrightarrow> refers r db"
  unfolding attempt_check_def refers_def by (elim conjE, intro conjI)

lemma attempt_check_move:
  assumes "attempt_check r db" "refers r db'"
  shows "attempt_check r db'"
proof -
  have g: "(attempt_guild r \<in> set (ai_guilds db')) = (attempt_guild r \<in> set (ai_guilds db))"
    and m: "(case attempt_requester r of None \<Rightarrow> True | Some u \<Rightarrow> u \<in> snowflake_str ` set (ai_members db'))
      = (case attempt_requester r of None \<Rightarrow> True | Some u \<Rightarrow> u \<in> snowflake_str ` set (ai_members db))"
    using assms(2) attempt_check_refers [OF assms(1)] unfolding refers_def by (simp_all only: simp_thms)
  show ?thesis using assms(1) unfolding attempt_check_def g m .
qed

lemma attempt_check_quiet:
  assumes "attempt_check r db" "set (ai_guilds db) \<subseteq> set (ai_guilds db')" "set (ai_members db) \<subseteq> set (ai_members db')"
  shows "attempt_check r db'"
proof (rule attempt_check_move [OF assms(1)])
  show "refers r db'"
    using attempt_check_refers [OF assms(1)] assms(2,3) by (cases "attempt_requester r") (auto simp: refers_def)
qed

lemma attempt_check_eq: "refers r db = refers r db' \<Longrightarrow> attempt_check r db = attempt_check r db'"
  using attempt_check_refers attempt_check_move by blast

lemma attempt_check_same [simp]:
  "attempt_check r (db\<lparr>ai_circuits := c\<rparr>) = attempt_check r db" "attempt_check r (db\<lparr>attempts := rows\<rparr>) = attempt_check r db"
  by (rule attempt_check_eq, simp add: refers_def split: option.split)+

lemma holds_row_quiet: "holds_row i r db \<Longrightarrow> quiet i db db' \<Longrightarrow> holds_row i r db'"
  by (auto simp: holds_row_def quiet_def intro: attempt_check_quiet)

lemma holds_row_others: "quiet_others env \<Longrightarrow> holds_row (drawn env 0) r db \<Longrightarrow> holds_row (drawn env 0) r (others env n db)"
  unfolding quiet_others_def using holds_row_quiet by blast

lemma holds_row_circuits [simp]: "holds_row i r (db\<lparr>ai_circuits := c\<rparr>) = holds_row i r db"
  by (simp add: holds_row_def own_def)

lemma settle_attempt_served:
  assumes "holds_row i r db" "attempt_state r = st" "attempt_check (change r) db" "attempt_id (change r) = i"
  shows "\<exists>db'. settle_attempt i st change db = Inr db' \<and> holds_row i (change r) db' \<and> ai_circuits db' = ai_circuits db"
proof -
  let ?condition = "\<lambda>s. attempt_id s = i \<and> attempt_state s = st"
  have own: "filter (\<lambda>s. attempt_id s = i) (attempts db) = [r]" using assms(1) by (simp add: holds_row_def own_def)
  have only: "s = r" if "s \<in> set (attempts db)" "attempt_id s = i" for s
  proof -
    have "s \<in> set (filter (\<lambda>s. attempt_id s = i) (attempts db))" using that by simp
    then show "s = r" unfolding own by simp
  qed
  have "filter ?condition (attempts db) = filter (\<lambda>s. attempt_state s = st) [r]"
    unfolding own [symmetric] by (simp add: conj_commute)
  then have n: "length (filter ?condition (attempts db)) = 1" using assms(2) by simp
  let ?rows = "map (\<lambda>s. if ?condition s then change s else s) (attempts db)"
  have u: "update_attempts ?condition change db = Inr (1, db\<lparr>attempts := ?rows\<rparr>)"
    using only assms(3) n by (auto simp: update_attempts_def update_rows_def list_all_iff)
  have "filter (\<lambda>s. attempt_id s = i) ?rows = map change [r]"
  proof -
    have "filter (\<lambda>s. attempt_id s = i) (map (\<lambda>s. if ?condition s then change s else s) rows)
        = map change (filter (\<lambda>s. attempt_id s = i) rows)" if "set rows \<subseteq> set (attempts db)" for rows
      using that only assms(2,4) by (induction rows) auto
    then show ?thesis using own by simp
  qed
  with u assms(3) show ?thesis
    by (intro exI [of _ "db\<lparr>attempts := ?rows\<rparr>"])
      (simp add: settle_attempt_def require_changed_def require_def holds_row_def own_def)
qed

section \<open>Served calls\<close>

lemma attempt_check_time: "attempt_check r db \<Longrightarrow> 0 \<le> attempt_created_at r"
  unfolding attempt_check_def by (elim conjE)

lemma check_submitted:
  "attempt_check r db \<Longrightarrow> attempt_state r = Reserved \<Longrightarrow> attempt_created_at r \<le> t
   \<Longrightarrow> attempt_check (r\<lparr>provider_sent := True, attempt_state := Submitted, attempt_submitted_at := Some t\<rparr>) db"
  unfolding attempt_check_def by (simp cong: option.case_cong)

lemma check_cancelled:
  "attempt_check r db \<Longrightarrow> attempt_state r = Reserved \<Longrightarrow> attempt_created_at r \<le> t \<Longrightarrow> machine_text 96 code
   \<Longrightarrow> attempt_check (r\<lparr>attempt_state := Cancelled, result_code := Some code, attempt_completed_at := Some t\<rparr>) db"
  unfolding attempt_check_def by (simp cong: option.case_cong)

lemma check_failed:
  "attempt_check r db \<Longrightarrow> attempt_state r = Submitted \<Longrightarrow> attempt_created_at r \<le> t \<Longrightarrow> machine_text 96 code
   \<Longrightarrow> (case request of None \<Rightarrow> True | Some i \<Rightarrow> between 1 128 (length i))
   \<Longrightarrow> attempt_check (r\<lparr>attempt_state := Failed_attempt, result_code := Some code, provider_request := request,
         attempt_completed_at := Some t\<rparr>) db"
  unfolding attempt_check_def by (simp cong: option.case_cong)

lemma check_completed:
  "attempt_check r db \<Longrightarrow> attempt_state r = Submitted \<Longrightarrow> attempt_created_at r \<le> used_completed_at u
   \<Longrightarrow> used_input u \<le> 16000 \<Longrightarrow> used_output u \<le> 500 \<Longrightarrow> 0 \<le> used_cost u \<Longrightarrow> used_cost u \<le> reserved_cost r
   \<Longrightarrow> (case request of None \<Rightarrow> True | Some i \<Rightarrow> between 1 128 (length i)) \<Longrightarrow> machine_text 96 ''success''
   \<Longrightarrow> attempt_check (r\<lparr>attempt_state := Succeeded_attempt, actual_input := Some (int (used_input u)),
          actual_output := Some (int (used_output u)), actual_cost := Some (used_cost u),
          provider_request := request, result_code := Some ''success'',
          attempt_completed_at := Some (used_completed_at u)\<rparr>) db"
  unfolding attempt_check_def by (simp cong: option.case_cong)

definition stands :: "string \<Rightarrow> attempt_state \<Rightarrow> int \<Rightarrow> int \<Rightarrow> ai_db \<Rightarrow> bool" where
  "stands i st t0 cost db \<longleftrightarrow> (\<exists>r. holds_row i r db \<and> attempt_state r = st \<and> attempt_created_at r = t0
     \<and> reserved_cost r = cost)"

lemma stands_others: "quiet_others env \<Longrightarrow> stands (drawn env 0) st t0 k db \<Longrightarrow> stands (drawn env 0) st t0 k (others env n db)"
  unfolding stands_def using holds_row_others by blast

lemma stands_circuits [simp]: "stands i st t0 k (db\<lparr>ai_circuits := c\<rparr>) = stands i st t0 k db"
  by (simp add: stands_def)

lemma on_circuits_stands: "on_circuits f db = Inr db' \<Longrightarrow> stands i st t0 k db' = stands i st t0 k db"
  by (auto simp: on_circuits_def rbind_eq_Inr)

lemma report_stands:
  "quiet_others env \<Longrightarrow> stands (drawn env 0) st t0 k db \<Longrightarrow> stands (drawn env 0) st t0 k (report env n f db)"
  using stands_others [of env st t0 k db n] on_circuits_stands
  by (auto simp: report_def tolerate_def split: sum.splits)

text \<open>A change of the row that its table accepts.\<close>

lemma settle_stands:
  assumes "stands i st t0 k db"
    and "\<And>r. attempt_check r db \<Longrightarrow> attempt_state r = st \<Longrightarrow> attempt_created_at r = t0 \<Longrightarrow> reserved_cost r = k
      \<Longrightarrow> attempt_check (change r) db"
    and "\<And>r. attempt_id (change r) = attempt_id r" "\<And>r. attempt_state (change r) = st'"
      "\<And>r. attempt_created_at (change r) = attempt_created_at r" "\<And>r. reserved_cost (change r) = reserved_cost r"
  shows "\<exists>db'. settle_attempt i st change db = Inr db' \<and> stands i st' t0 k db' \<and> ai_circuits db' = ai_circuits db"
proof -
  obtain r where r: "holds_row i r db" "attempt_state r = st" "attempt_created_at r = t0" "reserved_cost r = k"
    using assms(1) by (auto simp: stands_def)
  then have "attempt_id r = i" by (auto simp: holds_row_def own_def filter_eq_Cons_iff)
  with settle_attempt_served [OF r(1,2), of change] assms(2) r assms(3-6) show ?thesis
    by (fastforce simp: stands_def holds_row_def)
qed

lemma stands_time: "stands i st t0 k db \<Longrightarrow> 0 \<le> t0"
  by (auto simp: stands_def holds_row_def dest: attempt_check_time)

lemma mark_served:
  assumes "stands i Reserved t0 k db" "t0 \<le> t"
  shows "\<exists>db'. mark_submitted i t db = Inr db' \<and> stands i Submitted t0 k db' \<and> ai_circuits db' = ai_circuits db"
proof -
  have "require_ai_timestamp t = Inr ()" using stands_time [OF assms(1)] assms(2) by (simp add: require_ai_timestamp_def)
  then show ?thesis
    unfolding mark_submitted_def by (simp, intro settle_stands [OF assms(1)]) (use assms(2) in \<open>auto intro: check_submitted\<close>)
qed

lemma code_served: "machine_text 96 code \<Longrightarrow> require_identifier code 96 = Inr ()"
  by (auto simp: machine_text_def require_identifier_def)

lemma cancel_served:
  assumes "stands i Reserved t0 k db" "t0 \<le> t" "machine_text 96 code"
  shows "\<exists>db'. cancel_attempt i code t db = Inr db' \<and> stands i Cancelled t0 k db' \<and> ai_circuits db' = ai_circuits db"
proof -
  have "require_ai_timestamp t = Inr ()" using stands_time [OF assms(1)] assms(2) by (simp add: require_ai_timestamp_def)
  then show ?thesis
    unfolding cancel_attempt_def
    by (simp add: code_served [OF assms(3)], intro settle_stands [OF assms(1)])
      (use assms(2,3) in \<open>auto intro: check_cancelled\<close>)
qed

lemma request_id_served:
  "request_id (sanitize_request_id s) = Inr (if sanitize_request_id s = [] then None else Some (sanitize_request_id s))"
  "case (if sanitize_request_id s = [] then None else Some (sanitize_request_id s)) of None \<Rightarrow> True
    | Some i \<Rightarrow> between 1 128 (length i)"
  by (auto simp: request_id_def sanitize_request_id_idem require_def)
    (auto simp: sanitize_request_id_def between_def Suc_le_eq split: if_splits)

lemma exn_request_sanitized: "\<exists>s. exn_request x = sanitize_request_id s"
  by (cases x) (auto simp: sanitize_request_id_def intro: exI [of _ "[]"])

lemma fail_served:
  assumes "stands i Submitted t0 k db" "t0 \<le> t" "machine_text 96 code"
  shows "\<exists>db'. fail_attempt i code (exn_request x) t db = Inr db' \<and> stands i Failed_attempt t0 k db'
    \<and> ai_circuits db' = ai_circuits db"
proof -
  have t: "require_ai_timestamp t = Inr ()" using stands_time [OF assms(1)] assms(2) by (simp add: require_ai_timestamp_def)
  obtain s where s: "exn_request x = sanitize_request_id s" using exn_request_sanitized by blast
  show ?thesis
    unfolding fail_attempt_def t code_served [OF assms(3)] s request_id_served(1) rbind_simps
    by (intro settle_stands [OF assms(1)] check_failed request_id_served(2)) (use assms(2,3) in simp_all)
qed

lemma success_code: "machine_text 96 ''success''"
  by code_simp

lemma complete_served:
  assumes "stands i Submitted t0 k db" "t0 \<le> used_completed_at u"
    and "used_request u = sanitize_request_id s" "used_input u \<le> 16000" "used_output u \<le> 500"
    and "0 \<le> used_cost u" "used_cost u \<le> k"
  shows "\<exists>db'. complete_attempt i u db = Inr db' \<and> stands i Succeeded_attempt t0 k db' \<and> ai_circuits db' = ai_circuits db"
proof -
  have t: "require_ai_timestamp (used_completed_at u) = Inr ()"
    using stands_time [OF assms(1)] assms(2) by (simp add: require_ai_timestamp_def)
  show ?thesis
    unfolding complete_attempt_def t assms(3) request_id_served(1) rbind_simps
    by (intro settle_stands [OF assms(1)] check_completed request_id_served(2) success_code) (use assms in simp_all)
qed

section \<open>Every way out settles\<close>

definition steady :: "ai_env \<Rightarrow> bool" where
  "steady env \<longleftrightarrow> quiet_others env \<and> (\<forall>n. reading env 0 \<le> reading env n)"

lemma result_codes:
  "list_all (machine_text 96) [''provider_not_sent'', ''cancelled_before_send'', ''refusal_before_send'',
     ''incomplete_before_send'', ''submission_not_started'', ''cancelled_after_send'', ''refusal'', ''incomplete'',
     ''provider_failure'', ''circuit_open'', ''timeout'', ''rate_limited'', ''authentication'', ''server'',
     ''invalid_request'', ''invalid_response'', ''transport'']"
  by code_simp

lemma failure_code_text: "machine_text 96 (failure_code c)"
  using result_codes by (cases c) simp_all

lemma release_unsent_stands:
  assumes "steady env" "stands (drawn env 0) Reserved (reading env 0) k db" "machine_text 96 code"
  shows "stands (drawn env 0) Cancelled (reading env 0) k (release_unsent env (drawn env 0) code db)"
proof -
  have q: "quiet_others env" "reading env 0 \<le> reading env 6" using assms(1) by (simp_all add: steady_def)
  obtain db' where "cancel_attempt (drawn env 0) code (reading env 6) (others env 6 db) = Inr db'"
    "stands (drawn env 0) Cancelled (reading env 0) k db'"
    using cancel_served [OF stands_others [OF q(1) assms(2)] q(2) assms(3)] by blast
  then show ?thesis using report_stands [OF q(1)] by (simp add: release_unsent_def tolerate_def)
qed

lemma settle_failed_stands:
  assumes "steady env" "stands (drawn env 0) Submitted (reading env 0) k db" "machine_text 96 code"
    and "\<And>db. stands (drawn env 0) Failed_attempt (reading env 0) k db
      \<Longrightarrow> stands (drawn env 0) Failed_attempt (reading env 0) k (reports db)"
  shows "fst (settle_failed env (drawn env 0) code x reports db) = x
    \<and> stands (drawn env 0) Failed_attempt (reading env 0) k (snd (settle_failed env (drawn env 0) code x reports db))"
proof -
  have q: "quiet_others env" "reading env 0 \<le> reading env 6" using assms(1) by (simp_all add: steady_def)
  obtain db' where "fail_attempt (drawn env 0) code (exn_request x) (reading env 6) (others env 6 db) = Inr db'"
    "stands (drawn env 0) Failed_attempt (reading env 0) k db'"
    using fail_served [OF stands_others [OF q(1) assms(2)] q(2) assms(3)] by blast
  then show ?thesis using assms(4) by (simp add: settle_failed_def)
qed

lemma report_failure_stands:
  "quiet_others env \<Longrightarrow> stands (drawn env 0) st t0 k db \<Longrightarrow> stands (drawn env 0) st t0 k (report_failure env c db)"
  using stands_others [of env st t0 k db 7]
  by (auto simp: report_failure_def on_circuits_stands intro: report_stands split: sum.splits)

definition unsettled :: "bool \<Rightarrow> attempt_state" where
  "unsettled submitted = (if submitted then Submitted else Reserved)"

definition settled_failure :: "bool \<Rightarrow> attempt_state" where
  "settled_failure submitted = (if submitted then Failed_attempt else Cancelled)"

lemma ai_settle_stands:
  assumes "steady env" "stands (drawn env 0) (unsettled submitted) (reading env 0) k db"
  shows "fst (ai_settle env (drawn env 0) submitted x db) = x
    \<and> stands (drawn env 0) (settled_failure submitted) (reading env 0) k (snd (ai_settle env (drawn env 0) submitted x db))"
proof -
  have q: "quiet_others env" using assms(1) by (simp add: steady_def)
  note reports = report_stands [OF q] report_failure_stands [OF q]
  show ?thesis
  proof (cases submitted)
    case True
    then have s: "stands (drawn env 0) Submitted (reading env 0) k db" using assms(2) by (simp add: unsettled_def)
    show ?thesis
      using result_codes failure_code_text True
      by (cases x) (simp_all add: classify_failure_def settled_failure_def settle_failed_stands [OF assms(1) s] reports)
  next
    case False
    then have s: "stands (drawn env 0) Reserved (reading env 0) k db" using assms(2) by (simp add: unsettled_def)
    show ?thesis
      using result_codes False
      by (cases x) (simp_all add: classify_failure_def settled_failure_def release_unsent_stands [OF assms(1) s])
  qed
qed

lemma ai_finish_stands:
  assumes "steady env" "stands (drawn env 0) (unsettled submitted) (reading env 0) k db"
    and "maximum_input_bytes policy \<le> 16000" "max_output_tokens req \<le> 500"
  shows "case ai_finish policy req env (drawn env 0) k submitted answer db of
      (Inr r, db') \<Rightarrow> submitted \<and> r = answer\<lparr>result_request := sanitize_request_id (result_request answer)\<rparr>
        \<and> stands (drawn env 0) Succeeded_attempt (reading env 0) k db'
    | (Inl x, db') \<Rightarrow> stands (drawn env 0) (unsettled submitted) (reading env 0) k db'"
proof -
  let ?r = "answer\<lparr>result_request := sanitize_request_id (result_request answer)\<rparr>"
  let ?input = "if result_input ?r = 0 then maximum_input_bytes policy else result_input ?r"
  let ?output = "if result_output ?r = 0 then max_output_tokens req else result_output ?r"
  let ?refused = "result_input ?r > maximum_input_bytes policy \<or> result_output ?r > max_output_tokens req"
  have q: "quiet_others env" "reading env 0 \<le> reading env 4" using assms(1) by (simp_all add: steady_def)
  show ?thesis
  proof (cases "submitted \<and> \<not> ?refused")
    case False
    then show ?thesis using assms(2) by (auto simp: ai_finish_def Let_def)
  next
    case True
    show ?thesis
    proof (cases "estimated_cost ?input ?output (policy_input_rate policy) (policy_output_rate policy)")
      case (Inl e)
      with True assms(2) show ?thesis by (auto simp: ai_finish_def Let_def)
    next
      case (Inr actual)
      let ?u = "\<lparr>used_input = ?input, used_output = ?output, used_cost = actual,
        used_request = result_request ?r, used_completed_at = reading env 4\<rparr>"
      have s: "stands (drawn env 0) Submitted (reading env 0) k (others env 4 db)"
        using stands_others [OF q(1) assms(2)] True by (simp add: unsettled_def)
      have "0 \<le> actual" using estimated_cost_nonneg [OF Inr] .
      have "actual > k \<or> (\<exists>db'. complete_attempt (drawn env 0) ?u (others env 4 db) = Inr db'
          \<and> stands (drawn env 0) Succeeded_attempt (reading env 0) k db')"
      proof (cases "actual > k")
        case False
        then have "\<exists>db'. complete_attempt (drawn env 0) ?u (others env 4 db) = Inr db'
            \<and> stands (drawn env 0) Succeeded_attempt (reading env 0) k db' \<and> ai_circuits db' = ai_circuits (others env 4 db)"
          using True assms(3,4) q(2) \<open>0 \<le> actual\<close>
          by (intro complete_served [OF s, where s = "result_request answer"]) auto
        then show ?thesis by blast
      qed simp
      then show ?thesis
      proof
        assume "actual > k"
        then show ?thesis using True Inr assms(2) by (auto simp: ai_finish_def Let_def)
      next
        assume "\<exists>db'. complete_attempt (drawn env 0) ?u (others env 4 db) = Inr db'
          \<and> stands (drawn env 0) Succeeded_attempt (reading env 0) k db'"
        then obtain db' where "complete_attempt (drawn env 0) ?u (others env 4 db) = Inr db'"
          "stands (drawn env 0) Succeeded_attempt (reading env 0) k db'" by blast
        then show ?thesis
          using True Inr assms(2) report_stands [OF q(1)] by (auto simp: ai_finish_def Let_def)
      qed
    qed
  qed
qed

fun announces :: "conduct \<Rightarrow> bool" where
  "announces (Sent a) = True"
| "announces (Unsent a) = False"

lemma ai_call_stands:
  assumes "steady env" "stands (drawn env 0) Reserved (reading env 0) k db"
  shows "\<exists>answer db'. ai_call env (drawn env 0) c started db = (answer, announces c, db')
    \<and> stands (drawn env 0) (unsettled (announces c)) (reading env 0) k db'"
proof (cases c)
  case (Unsent a)
  then show ?thesis using assms(2) by (simp add: ai_call_def unsettled_def)
next
  case (Sent a)
  have q: "quiet_others env" "reading env 0 \<le> reading env 3" using assms(1) by (simp_all add: steady_def)
  obtain db' where "mark_submitted (drawn env 0) (reading env 3) (others env 3 db) = Inr db'"
    "stands (drawn env 0) Submitted (reading env 0) k db'"
    using mark_served [OF stands_others [OF q(1) assms(2)] q(2)] by blast
  then show ?thesis using Sent by (simp add: ai_call_def unsettled_def)
qed

lemma ai_attempt_stands:
  assumes "steady env" "stands (drawn env 0) Reserved (reading env 0) k db"
    and "maximum_input_bytes policy \<le> 16000" "max_output_tokens req \<le> 500"
  shows "case ai_attempt policy req env (drawn env 0) k c started db of
      (Inr r, db') \<Rightarrow> announces c \<and> stands (drawn env 0) Succeeded_attempt (reading env 0) k db'
    | (Inl x, db') \<Rightarrow> stands (drawn env 0) (settled_failure (announces c)) (reading env 0) k db'"
proof -
  obtain answer db1 where c: "ai_call env (drawn env 0) c started db = (answer, announces c, db1)"
    "stands (drawn env 0) (unsettled (announces c)) (reading env 0) k db1"
    using ai_call_stands [OF assms(1,2)] by blast
  obtain outcome db2 where f: "(case answer of Inl x \<Rightarrow> (Inl x, db1)
      | Inr r \<Rightarrow> ai_finish policy req env (drawn env 0) k (announces c) r db1) = (outcome, db2)" by fastforce
  have o: "case outcome of Inr r \<Rightarrow> announces c \<and> stands (drawn env 0) Succeeded_attempt (reading env 0) k db2
    | Inl x \<Rightarrow> stands (drawn env 0) (unsettled (announces c)) (reading env 0) k db2"
  proof (cases answer)
    case (Inl x)
    with f c(2) show ?thesis by auto
  next
    case (Inr r)
    with f have "ai_finish policy req env (drawn env 0) k (announces c) r db1 = (outcome, db2)" by simp
    with ai_finish_stands [OF assms(1) c(2) assms(3,4), of r] show ?thesis by (cases outcome) auto
  qed
  have run: "ai_attempt policy req env (drawn env 0) k c started db = (case outcome of Inr r \<Rightarrow> (Inr r, db2)
      | Inl x \<Rightarrow> (Inl (fst (ai_settle env (drawn env 0) (announces c) x db2)),
          snd (ai_settle env (drawn env 0) (announces c) x db2)))"
    unfolding ai_attempt_def c(1) Let_def prod.case f by (cases outcome) (simp_all add: split_beta)
  show ?thesis
  proof (cases outcome)
    case (Inl x)
    with o have "stands (drawn env 0) (unsettled (announces c)) (reading env 0) k db2" by simp
    from ai_settle_stands [OF assms(1) this, of x] Inl show ?thesis unfolding run by simp
  next
    case (Inr r)
    with o show ?thesis unfolding run by simp
  qed
qed

text \<open>The circuit can serve the admission of this call, and other threads leave it so.\<close>

definition circuit_ready :: "ai_env \<Rightarrow> ai_db \<Rightarrow> bool" where
  "circuit_ready env db \<longleftrightarrow> (case circuits (ai_circuits db) text_provider of None \<Rightarrow> False | Some r \<Rightarrow> circuit_row_inv r)
     \<and> usable (reading env 0) (drawn env 1) (ai_circuits db)"

definition circuit_kept :: "ai_env \<Rightarrow> bool" where
  "circuit_kept env \<longleftrightarrow> (\<forall>n db. circuit_ready env db \<longrightarrow> circuit_ready env (others env n db))"

lemma circuit_ready_admits: "circuit_ready env db \<Longrightarrow> \<exists>b cs. admit_provider (reading env 0) (drawn env 1) (ai_circuits db) = Inr (b, cs)"
  using admit_provider_serves [of "ai_circuits db" _ "reading env 0" "drawn env 1"]
  by (cases "admit_provider (reading env 0) (drawn env 1) (ai_circuits db)")
    (auto simp: circuit_ready_def serves_def split: option.splits)

definition accounted :: "conduct \<Rightarrow> ai_exn + ai_result \<Rightarrow> attempt_row \<Rightarrow> bool" where
  "accounted c outcome r \<longleftrightarrow> (case outcome of
      Inr _ \<Rightarrow> announces c \<and> attempt_state r = Succeeded_attempt
    | Inl x \<Rightarrow> announces c \<and> attempt_state r = Failed_attempt
        \<or> attempt_state r = Cancelled \<and> (\<not> announces c \<or> x = Admission_error Provider_unavailable))"

definition settled_row :: "string \<Rightarrow> conduct \<Rightarrow> ai_exn + ai_result \<Rightarrow> ai_db \<Rightarrow> bool" where
  "settled_row i c outcome db \<longleftrightarrow> (case own i db of
      [] \<Rightarrow> (case outcome of Inl x \<Rightarrow> True | Inr _ \<Rightarrow> False)
    | [r] \<Rightarrow> accounted c outcome r
    | _ \<Rightarrow> False)"

lemma stands_own: "stands i st t0 k db \<Longrightarrow> \<exists>r. own i db = [r] \<and> attempt_state r = st"
  by (auto simp: stands_def holds_row_def)

lemma reserve_stands:
  assumes "ai_reserve guild v policy db = Inr ((a, i), db')" "own (rsv_attempt v) db = []"
  shows "a \<noteq> Admitted_generation \<and> db' = db
    \<or> a = Admitted_generation \<and> i = rsv_attempt v \<and> ai_circuits db' = ai_circuits db
      \<and> stands (rsv_attempt v) Reserved (rsv_now v) (rsv_cost v) db'"
  using assms(1)
proof (cases rule: reserve_cases)
  case refused
  then show ?thesis by simp
next
  case (accepted start)
  have "holds_row (rsv_attempt v) (reserved_row guild v) db'"
    using accepted(3,4) assms(2) by (simp add: holds_row_def own_def) (simp add: reserved_row_def)
  then have "stands (rsv_attempt v) Reserved (rsv_now v) (rsv_cost v) db'"
    unfolding stands_def by (intro exI [of _ "reserved_row guild v"]) (simp add: reserved_row_def)
  with accepted(1-3) show ?thesis by simp
qed

lemma own_others: "quiet_others env \<Longrightarrow> own (drawn env 0) (others env n db) = own (drawn env 0) db"
  by (simp add: quiet_others_def quiet_def)

lemma ai_reserved_settles:
  assumes "steady env" "circuit_kept env" "circuit_ready env db" "own (drawn env 0) db = []"
    and "maximum_input_bytes policy \<le> 16000" "max_output_tokens req \<le> 500"
    and "ai_reserved guild policy req env k c started db = (outcome, db')"
  shows "settled_row (drawn env 0) c outcome db'"
proof -
  let ?i = "drawn env 0"
  let ?v = "ai_reservation_of policy req env k"
  have q: "quiet_others env" using assms(1) by (simp add: steady_def)
  have none: "own ?i (others env 0 db) = []" using own_others [OF q] assms(4) by simp
  have v: "rsv_attempt ?v = ?i" "rsv_now ?v = reading env 0" "rsv_cost ?v = k" by (simp_all add: ai_reservation_of_def)
  show ?thesis
  proof (cases "ai_reserve guild ?v policy (others env 0 db)")
    case (Inl e)
    with assms(7) none show ?thesis by (auto simp: ai_reserved_def settled_row_def)
  next
    case (Inr answer)
    obtain a i db1 where a: "answer = ((a, i), db1)" by (cases answer; cases "fst answer") auto
    from reserve_stands [OF Inr [unfolded a]] none v consider
      (refused) "a \<noteq> Admitted_generation" "db1 = others env 0 db"
      | (accepted) "a = Admitted_generation" "i = ?i" "ai_circuits db1 = ai_circuits (others env 0 db)"
        "stands ?i Reserved (reading env 0) k db1"
      by auto
    then show ?thesis
    proof cases
      case refused
      with assms(7) Inr a none show ?thesis by (auto simp: ai_reserved_def settled_row_def)
    next
      case accepted
      have "circuit_ready env db1"
        using assms(2,3) accepted(3) by (simp add: circuit_kept_def circuit_ready_def)
      then have "circuit_ready env (others env 1 db1)" using assms(2) by (simp add: circuit_kept_def)
      then obtain b cs where adm: "admit_provider (reading env 0) (drawn env 1) (ai_circuits (others env 1 db1)) = Inr (b, cs)"
        using circuit_ready_admits by blast
      let ?db = "(others env 1 db1)\<lparr>ai_circuits := cs\<rparr>"
      have s: "stands ?i Reserved (reading env 0) k ?db" using stands_others [OF q accepted(4)] by simp
      have run: "ai_reserved guild policy req env k c started db =
        (if \<not> b then (case cancel_attempt ?i ''circuit_open'' (reading env 0) (others env 2 ?db) of
            Inl e \<Rightarrow> (Inl (Standard e), others env 2 ?db)
          | Inr db \<Rightarrow> (Inl (Admission_error Provider_unavailable), db))
         else ai_attempt policy req env ?i k c started ?db)"
        using Inr a accepted(1,2) adm by (simp add: ai_reserved_def Let_def del: One_nat_def)
      show ?thesis
      proof (cases b)
        case True
        with run assms(7) ai_attempt_stands [OF assms(1) s assms(5,6), of c started] show ?thesis
          by (cases outcome)
            (auto simp: settled_row_def accounted_def settled_failure_def dest!: stands_own split: if_splits)
      next
        case False
        have "machine_text 96 ''circuit_open''" using result_codes by simp
        then obtain db2 where "cancel_attempt ?i ''circuit_open'' (reading env 0) (others env 2 ?db) = Inr db2"
          "stands ?i Cancelled (reading env 0) k db2"
          using cancel_served [OF stands_others [OF q s], of "reading env 0"] by blast
        with run assms(7) False show ?thesis
          by (auto simp: settled_row_def accounted_def dest!: stands_own)
      qed
    qed
  qed
qed

text \<open>
  Property C9: a generation leaves no reservation open. Whatever the provider does, throws or
  answers, and whatever other threads do to other attempts meanwhile, when \<open>generate\<close> is over the
  attempt it reserved is settled: succeeded where it returns a result, failed and charged with what
  was reserved where the request had been announced as sent, and cancelled, so charged with
  nothing, where it had not been sent or the circuit was open. A call that reserves nothing throws.
\<close>

theorem generation_settles:
  assumes "service_ready guild policy = Inr ()" "steady env" "circuit_kept env" "circuit_ready env db"
    and "own (drawn env 0) db = []"
    and "ai_generate guild policy req stopped env c started db = (outcome, db')"
  shows "settled_row (drawn env 0) c outcome db'"
proof (cases "\<exists>x. outcome = Inl x \<and> db' = db")
  case True
  then show ?thesis using assms(5) by (auto simp: settled_row_def)
next
  case False
  then obtain k where "ai_reserved guild policy req env k c started db = (outcome, db')"
    "max_output_tokens req \<le> maximum_output_tokens policy"
    using assms(6) by (auto simp: ai_generate_def split: if_splits sum.splits)
  moreover have "maximum_input_bytes policy \<le> 16000" "maximum_output_tokens policy \<le> 500"
    using assms(1) by (auto simp: service_ready_def require_def split: if_splits)
  ultimately show ?thesis by (meson ai_reserved_settles [OF assms(2-5)] order.trans)
qed

definition example_request :: ai_request where
  "example_request = \<lparr>instructions = ''Answer.'', conversation = [(''user'', ''Hail'')], max_output_tokens = 200,
     request_schema = None, request_purpose = Direct_purpose, request_priority = Direct_priority,
     requester_user = Some ''7'', request_key = []\<rparr>"

definition example_env :: ai_env where
  "example_env = \<lparr>reading = (\<lambda>n. 1000 + int n),
     drawn = (\<lambda>n. ''123e4567-e89b-42d3-a456-42661417400'' @ [char_of (48 + n)]), others = (\<lambda>n db. db)\<rparr>"

definition example_conduct :: conduct where
  "example_conduct = Sent (Inr \<lparr>result_text = ''Hail.'', result_request = ''r1'', result_input = 20, result_output = 5\<rparr>)"

definition example_tables :: ai_db where
  "example_tables = budget_db\<lparr>ai_circuits := initial_circuit_db\<rparr>"

lemma example_ids: "list_all (\<lambda>n. valid_uuid_v4 (drawn example_env n)) [0, 1, 5, 7, 8]"
  by code_simp

lemma example_ready: "usable (reading example_env n) i initial_circuit_db \<longleftrightarrow> valid_uuid_v4 i"
  by (simp add: usable_def example_env_def initial_circuit_db_def)

lemma example_setting:
  "service_ready 1 budget_policy = Inr ()" "steady example_env" "circuit_kept example_env"
  "circuit_ready example_env example_tables" "own (drawn example_env 0) example_tables = []"
proof -
  show "service_ready 1 budget_policy = Inr ()"
    by (simp add: service_ready_def budget_policy_def require_def)
  have same: "others example_env n db = db" for n db by (simp add: example_env_def)
  show "steady example_env"
    by (simp add: steady_def quiet_others_def quiet_def same) (simp add: example_env_def)
  show "circuit_kept example_env" by (simp add: circuit_kept_def same)
  have "circuit_row_inv initial_circuit" using rows_sound_initial
    by (auto simp: rows_sound_def provider_names_def initial_circuit_db_def)
  then show "circuit_ready example_env example_tables"
    using example_ids by (simp add: circuit_ready_def example_tables_def example_ready)
      (simp add: initial_circuit_db_def provider_names_def)
  show "own (drawn example_env 0) example_tables = []"
    by (simp add: own_def example_tables_def budget_db_def)
qed

lemma generation_settles_witness:
  "case ai_generate 1 budget_policy example_request False example_env example_conduct None example_tables of
     (outcome, db) \<Rightarrow> settled_row (drawn example_env 0) example_conduct outcome db"
  using generation_settles [OF example_setting] by (simp split: prod.split)

end
