(* ===== verification/Ai_Probe.thy ===== *)
theory Ai_Probe
  imports Ai_Settlement
begin

text \<open>
  A generation never leaves the probe of the text provider out.
\<close>

section \<open>The probe\<close>




































end
