(* ===== verification/Ai_Life.thy ===== *)
theory Ai_Life
  imports Ai_Probe
begin

text \<open>
  The whole life of the service: restarts, generations and other threads stay within the budgets.
\<close>

section \<open>The life of the service\<close>

datatype service_event =
    Start_service int string
  | Generate ai_request bool ai_env conduct "ai_exn option"

fun service_step :: "u64 \<Rightarrow> ai_policy \<Rightarrow> service_event \<Rightarrow> ai_db \<Rightarrow> ai_db" where
  "service_step guild policy (Start_service current tid) db = snd (ai_service_start guild policy current tid db)"
| "service_step guild policy (Generate req stopped env c started) db =
     snd (ai_generate guild policy req stopped env c started db)"

text \<open>What other threads do to the tables are calls of the same repository.\<close>

fun fair_event :: "u64 \<Rightarrow> ai_policy \<Rightarrow> service_event \<Rightarrow> bool" where
  "fair_event guild policy (Start_service current tid) \<longleftrightarrow> True"
| "fair_event guild policy (Generate req stopped env c started) \<longleftrightarrow>
     (\<forall>n db. budget_later guild policy db (others env n db))"

lemmas one_call = budget_later.intros(2-8) [OF started]

lemma kept_calls:
  "ai_reserve guild v policy db = Inr (answer, db') \<Longrightarrow> budget_kept guild policy db \<Longrightarrow> budget_kept guild policy db'"
  "mark_submitted i t db = Inr db' \<Longrightarrow> budget_kept guild policy db \<Longrightarrow> budget_kept guild policy db'"
  "complete_attempt i u db = Inr db' \<Longrightarrow> budget_kept guild policy db \<Longrightarrow> budget_kept guild policy db'"
  "fail_attempt i code request t db = Inr db' \<Longrightarrow> budget_kept guild policy db \<Longrightarrow> budget_kept guild policy db'"
  "cancel_attempt i code t db = Inr db' \<Longrightarrow> budget_kept guild policy db \<Longrightarrow> budget_kept guild policy db'"
  "recover_reserved t db = Inr (n, db') \<Longrightarrow> budget_kept guild policy db \<Longrightarrow> budget_kept guild policy db'"
  "recover_submitted t db = Inr (n, db') \<Longrightarrow> budget_kept guild policy db \<Longrightarrow> budget_kept guild policy db'"
  by (blast intro: budget_kept_later one_call)+

lemma kept_circuits [simp]: "budget_kept guild policy (db\<lparr>ai_circuits := cs\<rparr>) = budget_kept guild policy db"
  by (simp add: budget_kept_def within_budget_def)

lemma kept_on_circuits: "on_circuits f db = Inr db' \<Longrightarrow> budget_kept guild policy db \<Longrightarrow> budget_kept guild policy db'"
  by (auto simp: on_circuits_def rbind_eq_Inr)

definition others_keep :: "u64 \<Rightarrow> ai_policy \<Rightarrow> ai_env \<Rightarrow> bool" where
  "others_keep guild policy env \<longleftrightarrow> (\<forall>n db. budget_kept guild policy db \<longrightarrow> budget_kept guild policy (others env n db))"

lemma kept_others:
  "others_keep guild policy env \<Longrightarrow> budget_kept guild policy db \<Longrightarrow> budget_kept guild policy (others env n db)"
  by (simp add: others_keep_def)

lemma kept_report:
  "others_keep guild policy env \<Longrightarrow> budget_kept guild policy db \<Longrightarrow> budget_kept guild policy (report env n f db)"
  by (auto simp: report_def tolerate_def intro: kept_on_circuits kept_others split: sum.splits)

lemma kept_report_failure:
  "others_keep guild policy env \<Longrightarrow> budget_kept guild policy db \<Longrightarrow> budget_kept guild policy (report_failure env c db)"
  by (auto simp: report_failure_def intro: kept_others kept_on_circuits kept_report split: sum.splits)

lemma kept_release_unsent:
  "others_keep guild policy env \<Longrightarrow> budget_kept guild policy db \<Longrightarrow> budget_kept guild policy (release_unsent env i code db)"
  unfolding release_unsent_def
  by (rule kept_report) (auto simp: tolerate_def intro: kept_others kept_calls(5) split: sum.splits)

lemma kept_settle_failed:
  assumes "others_keep guild policy env" "budget_kept guild policy db"
    and "\<And>db. budget_kept guild policy db \<Longrightarrow> budget_kept guild policy (reports db)"
  shows "budget_kept guild policy (snd (settle_failed env i code x reports db))"
  using kept_others [OF assms(1,2), of 6] assms(3) kept_calls(4) by (fastforce simp: settle_failed_def split: sum.splits)

lemma kept_settle:
  assumes "others_keep guild policy env" "budget_kept guild policy db"
  shows "budget_kept guild policy (snd (ai_settle env i submitted x db))"
  using kept_settle_failed [OF assms] kept_release_unsent [OF assms] kept_report [OF assms(1)] kept_report_failure [OF assms(1)]
  by (cases x; cases submitted) (simp_all add: classify_failure_def)

lemma kept_call:
  assumes "others_keep guild policy env" "budget_kept guild policy db"
    and "ai_call env i c started db = (answer, submitted, db')"
  shows "budget_kept guild policy db'"
  using assms(3) kept_others [OF assms(1,2)] assms(2)
  by (cases c) (auto simp: ai_call_def intro: kept_calls(2) split: sum.splits)

lemma kept_finish:
  assumes "others_keep guild policy env" "budget_kept guild policy db"
    and "ai_finish policy' req env i k submitted answer db = (outcome, db')"
  shows "budget_kept guild policy db'"
  using assms(3) kept_others [OF assms(1,2), of 4] assms(2)
  by (auto simp: ai_finish_def Let_def intro: kept_report [OF assms(1)] kept_calls(3) split: if_splits sum.splits)

lemma kept_attempt:
  assumes "others_keep guild policy env" "budget_kept guild policy db"
  shows "budget_kept guild policy (snd (ai_attempt policy req env i k c started db))"
proof -
  obtain answer submitted db1 where c: "ai_call env i c started db = (answer, submitted, db1)" by (metis prod_cases3)
  note k1 = kept_call [OF assms c]
  obtain outcome db2 where f: "(case answer of Inl x \<Rightarrow> (Inl x, db1)
      | Inr r \<Rightarrow> ai_finish policy req env i k submitted r db1) = (outcome, db2)" by fastforce
  have "budget_kept guild policy db2" using f k1 by (auto intro: kept_finish [OF assms(1)] split: sum.splits)
  then show ?thesis
    using kept_settle [OF assms(1), of db2] unfolding ai_attempt_def c Let_def prod.case f
    by (cases outcome) (simp_all add: split_beta)
qed

lemma kept_reserved:
  assumes "others_keep guild policy env" "budget_kept guild policy db"
  shows "budget_kept guild policy (snd (ai_reserved guild policy req env k c started db))"
proof (cases "ai_reserve guild (ai_reservation_of policy req env k) policy (others env 0 db)")
  case (Inl e)
  then show ?thesis using kept_others [OF assms] by (simp add: ai_reserved_def)
next
  case (Inr answer)
  obtain a i db1 where a: "answer = ((a, i), db1)" by (cases answer; cases "fst answer") auto
  note k0 = kept_calls(1) [OF Inr [unfolded a] kept_others [OF assms, of 0]]
  note k1 = kept_others [OF assms(1) k0]
  show ?thesis
    using Inr a k0 k1 kept_attempt [OF assms(1)] kept_others [OF assms(1)]
    by (auto simp: ai_reserved_def Let_def intro: kept_calls(5) split: sum.splits if_splits)
qed

lemma kept_generate:
  assumes "others_keep guild policy env" "budget_kept guild policy db"
  shows "budget_kept guild policy (snd (ai_generate guild policy req stopped env c started db))"
  using assms(2) kept_reserved [OF assms] by (auto simp: ai_generate_def split: sum.splits)

lemma kept_start:
  "budget_kept guild policy db \<Longrightarrow> budget_kept guild policy (snd (ai_service_start guild policy current tid db))"
  by (auto simp: ai_service_start_def split: sum.splits prod.splits)
    (blast intro: kept_calls(6,7) kept_on_circuits)+

lemma fair_others: "fair_event guild policy (Generate req stopped env c started) \<Longrightarrow> others_keep guild policy env"
  unfolding others_keep_def fair_event.simps using budget_kept_later by blast

lemma kept_service_step:
  "fair_event guild policy e \<Longrightarrow> budget_kept guild policy db \<Longrightarrow> budget_kept guild policy (service_step guild policy e db)"
  by (cases e) (simp_all only: service_step.simps kept_start kept_generate fair_others)

text \<open>
  Property C10: over the whole life of the service, through restarts and generations that end in any
  way, with other threads that call the same repository between any two of its steps, and with any
  readings of the clock, what the attempts of the guild cost stays within the day and the month the
  policy allows, and their number within its limits.
\<close>

theorem service_within_budget:
  assumes "\<And>e. e \<in> set events \<Longrightarrow> fair_event guild policy e"
    and "attempts db = []" "0 \<le> day_cost_limit policy" "0 \<le> month_cost_limit policy"
  shows "within_budget guild policy (fold (service_step guild policy) events db)"
proof -
  have "budget_kept guild policy (fold (service_step guild policy) events db')" if "budget_kept guild policy db'" for db'
    using assms(1) that by (induction events arbitrary: db') (simp_all add: kept_service_step)
  moreover have "budget_kept guild policy db" using assms(2-4) by (simp add: budget_kept_def within_budget_def)
  ultimately show ?thesis by (simp add: budget_kept_def)
qed

lemma service_within_budget_witness:
  "within_budget 1 budget_policy (fold (service_step 1 budget_policy)
     [Start_service 900 call_1, Generate example_request False example_env example_conduct None] example_tables)"
proof (rule service_within_budget)
  fix e
  assume "e \<in> set [Start_service 900 call_1, Generate example_request False example_env example_conduct None]"
  then show "fair_event 1 budget_policy e" by (auto simp: example_env_def intro: started)
qed (simp_all add: example_tables_def budget_db_def budget_policy_def)

end
