(* ===== verification/Durable_Work.thy ===== *)
theory Durable_Work
  imports Tables
begin

text \<open>
  The durable tables (\<^verbatim>\<open>src/migrations/0003_durable_work.sql\<close>) and what is inserted into them
  (\<^verbatim>\<open>src/src/persistence/sqlite_durable_work_repository.cpp\<close>): the append-only event
  journal, the scheduled jobs and the outbox, each insert idempotent by its key, and the
  compound operations that insert an event together with a job or a message. A payload is
  the JSON text it is stored as; the JSON library is outside the sources, so what parses and
  how two payloads compare after normalisation are parameters.
\<close>

section \<open>Rows\<close>

record event_row =
  event_id :: string
  event_type :: string
  event_aggregate_type :: string
  event_aggregate_id :: string
  actor_user_id :: "u64 option"
  event_guild_id :: u64
  event_channel_id :: "u64 option"
  source_message_id :: "u64 option"
  event_occurred_at :: int
  recorded_at :: int
  correlation_id :: string
  causation_id :: "string option"
  event_key :: string
  event_payload :: string

datatype job_state = Job_pending | Job_claimed | Job_completed | Job_cancelled | Job_dead

record job_row =
  job_id :: string
  job_type :: string
  job_aggregate_type :: "string option"
  job_aggregate_id :: "string option"
  job_payload :: string
  due_at :: int
  job_state :: job_state
  job_attempts :: int
  job_max_attempts :: int
  job_lease_owner :: "string option"
  job_lease_token :: "string option"
  job_lease_until :: "int option"
  job_last_error :: "string option"
  job_key :: string
  job_created_at :: int
  job_updated_at :: int
  job_completed_at :: "int option"
  job_terminal_at :: "int option"

datatype outbox_state =
    Out_pending | Out_claimed | Out_delivered | Out_failed | Out_dead | Out_cancelled

record outbox_row =
  outbox_id :: string
  out_kind :: string
  out_aggregate_type :: "string option"
  out_aggregate_id :: "string option"
  target_guild_id :: u64
  target_channel_id :: u64
  target_user_id :: "u64 option"
  out_payload :: string
  out_state :: outbox_state
  out_attempts :: int
  out_max_attempts :: int
  out_lease_owner :: "string option"
  out_lease_token :: "string option"
  out_lease_until :: "int option"
  out_key :: string
  provider_nonce :: string
  provider_message_id :: "u64 option"
  out_created_at :: int
  available_at :: int
  first_attempt_at :: "int option"
  first_attempt_elapsed :: "int option"
  first_attempt_boot :: "string option"
  submission_started_at :: "int option"
  delivered_at :: "int option"
  out_terminal_at :: "int option"
  out_updated_at :: int
  out_last_error :: "string option"

definition scheduled_job_state_name :: "job_state \<Rightarrow> string" where
  "scheduled_job_state_name s = (case s of Job_pending \<Rightarrow> ''pending'' | Job_claimed \<Rightarrow> ''claimed''
     | Job_completed \<Rightarrow> ''completed'' | Job_cancelled \<Rightarrow> ''cancelled'' | Job_dead \<Rightarrow> ''dead'')"

definition outbox_state_name :: "outbox_state \<Rightarrow> string" where
  "outbox_state_name s = (case s of Out_pending \<Rightarrow> ''pending'' | Out_claimed \<Rightarrow> ''claimed''
     | Out_delivered \<Rightarrow> ''delivered'' | Out_failed \<Rightarrow> ''failed'' | Out_dead \<Rightarrow> ''dead''
     | Out_cancelled \<Rightarrow> ''cancelled'')"

section \<open>CHECK constraints\<close>

definition opt_check :: "('a \<Rightarrow> bool) \<Rightarrow> 'a option \<Rightarrow> bool" where
  "opt_check P v = (case v of None \<Rightarrow> True | Some x \<Rightarrow> P x)"

lemma opt_check_simps [simp]: "opt_check P None" "opt_check P (Some x) \<longleftrightarrow> P x"
  by (simp_all add: opt_check_def)

text \<open>The two constraints on a payload: its length, and that SQLite parses it.\<close>

definition payload_check :: "(string \<Rightarrow> bool) \<Rightarrow> string \<Rightarrow> bool" where
  "payload_check json_valid p \<longleftrightarrow> between 2 16384 (sql_length p) \<and> json_valid p"

definition event_check :: "(string \<Rightarrow> bool) \<Rightarrow> event_row \<Rightarrow> bool" where
  [row_checks]: "event_check json_valid e \<longleftrightarrow>
     valid_uuid_v4 (event_id e) \<and> machine_text 96 (event_type e)
     \<and> machine_text 64 (event_aggregate_type e) \<and> between 1 128 (sql_length (event_aggregate_id e))
     \<and> opt_check (\<lambda>c. c \<noteq> 0) (event_channel_id e) \<and> opt_check (\<lambda>m. m \<noteq> 0) (source_message_id e)
     \<and> 0 \<le> event_occurred_at e \<and> 0 \<le> recorded_at e \<and> between 1 160 (sql_length (correlation_id e))
     \<and> between 1 160 (sql_length (event_key e)) \<and> payload_check json_valid (event_payload e)"

definition terminal_job :: "job_state \<Rightarrow> bool" where
  "terminal_job s \<longleftrightarrow> s = Job_completed \<or> s = Job_cancelled \<or> s = Job_dead"

text \<open>The constraints on the columns an UPDATE of a job can change.\<close>

definition job_check :: "job_row \<Rightarrow> bool" where
  [row_checks]: "job_check j \<longleftrightarrow>
     0 \<le> due_at j \<and> 0 \<le> job_attempts j
     \<and> opt_check (\<lambda>w. between 1 128 (sql_length w)) (job_lease_owner j)
     \<and> opt_check valid_uuid_v4 (job_lease_token j)
     \<and> opt_check (\<lambda>t. 0 \<le> t) (job_lease_until j)
     \<and> opt_check (machine_text 96) (job_last_error j)
     \<and> job_created_at j \<le> job_updated_at j
     \<and> opt_check (\<lambda>t. job_created_at j \<le> t) (job_completed_at j)
     \<and> opt_check (\<lambda>t. job_created_at j \<le> t) (job_terminal_at j)
     \<and> (job_state j = Job_claimed
        \<longleftrightarrow> job_lease_owner j \<noteq> None \<and> job_lease_token j \<noteq> None \<and> job_lease_until j \<noteq> None)
     \<and> (job_state j = Job_completed \<longleftrightarrow> job_completed_at j \<noteq> None)
     \<and> (terminal_job (job_state j) \<longleftrightarrow> job_terminal_at j \<noteq> None)"

text \<open>The constraints on the columns that are set once, by the INSERT.\<close>

definition job_insert_check :: "(string \<Rightarrow> bool) \<Rightarrow> job_row \<Rightarrow> bool" where
  [row_checks]: "job_insert_check json_valid j \<longleftrightarrow>
     valid_uuid_v4 (job_id j) \<and> machine_text 96 (job_type j)
     \<and> opt_check (machine_text 64) (job_aggregate_type j)
     \<and> opt_check (\<lambda>a. between 1 128 (sql_length a)) (job_aggregate_id j)
     \<and> payload_check json_valid (job_payload j)
     \<and> 1 \<le> job_max_attempts j \<and> job_max_attempts j \<le> 20
     \<and> between 1 160 (sql_length (job_key j)) \<and> 0 \<le> job_created_at j
     \<and> (job_aggregate_type j = None \<longleftrightarrow> job_aggregate_id j = None)"

definition terminal_outbox :: "outbox_state \<Rightarrow> bool" where
  "terminal_outbox s \<longleftrightarrow> s = Out_delivered \<or> s = Out_failed \<or> s = Out_dead \<or> s = Out_cancelled"

definition outbox_check :: "outbox_row \<Rightarrow> bool" where
  [row_checks]: "outbox_check r \<longleftrightarrow>
     0 \<le> out_attempts r
     \<and> opt_check (\<lambda>w. between 1 128 (sql_length w)) (out_lease_owner r)
     \<and> opt_check valid_uuid_v4 (out_lease_token r)
     \<and> opt_check (\<lambda>t. 0 \<le> t) (out_lease_until r)
     \<and> opt_check (\<lambda>m. m \<noteq> 0) (provider_message_id r)
     \<and> out_created_at r \<le> available_at r
     \<and> opt_check (\<lambda>t. out_created_at r \<le> t) (first_attempt_at r)
     \<and> opt_check (\<lambda>t. 0 \<le> t) (first_attempt_elapsed r)
     \<and> opt_check (\<lambda>b. between 1 64 (sql_length b) \<and> list_all boot_char b) (first_attempt_boot r)
     \<and> opt_check (\<lambda>t. out_created_at r \<le> t) (submission_started_at r)
     \<and> opt_check (\<lambda>t. out_created_at r \<le> t) (delivered_at r)
     \<and> opt_check (\<lambda>t. out_created_at r \<le> t) (out_terminal_at r)
     \<and> out_created_at r \<le> out_updated_at r
     \<and> opt_check (machine_text 96) (out_last_error r)
     \<and> (out_state r = Out_claimed
        \<longleftrightarrow> out_lease_owner r \<noteq> None \<and> out_lease_token r \<noteq> None \<and> out_lease_until r \<noteq> None)
     \<and> (submission_started_at r = None \<or> out_state r = Out_claimed)
     \<and> (submission_started_at r = None \<or> first_attempt_at r \<noteq> None)
     \<and> (first_attempt_at r = None \<longleftrightarrow> first_attempt_elapsed r = None)
     \<and> (first_attempt_at r = None \<longleftrightarrow> first_attempt_boot r = None)
     \<and> (out_state r = Out_delivered \<longleftrightarrow> delivered_at r \<noteq> None)
     \<and> (terminal_outbox (out_state r) \<longleftrightarrow> out_terminal_at r \<noteq> None)
     \<and> (provider_message_id r = None \<or> out_state r = Out_delivered)"

definition nonce_char :: "char \<Rightarrow> bool" where
  "nonce_char c \<longleftrightarrow> is_digit c \<or> CHR ''a'' \<le> c \<and> c \<le> CHR ''f''"

definition outbox_insert_check :: "(string \<Rightarrow> bool) \<Rightarrow> outbox_row \<Rightarrow> bool" where
  [row_checks]: "outbox_insert_check json_valid r \<longleftrightarrow>
     valid_uuid_v4 (outbox_id r) \<and> machine_text 96 (out_kind r)
     \<and> opt_check (machine_text 64) (out_aggregate_type r)
     \<and> opt_check (\<lambda>a. between 1 128 (sql_length a)) (out_aggregate_id r)
     \<and> target_channel_id r \<noteq> 0
     \<and> payload_check json_valid (out_payload r)
     \<and> 1 \<le> out_max_attempts r \<and> out_max_attempts r \<le> 20
     \<and> between 1 160 (sql_length (out_key r))
     \<and> sql_length (provider_nonce r) = 25 \<and> list_all nonce_char (provider_nonce r)
     \<and> 0 \<le> out_created_at r
     \<and> (out_aggregate_type r = None \<longleftrightarrow> out_aggregate_id r = None)"

section \<open>The database\<close>

record durable_db =
  guild_configs :: "u64 list"
  discord_users :: "u64 list"
  event_journal :: "event_row list"
  scheduled_jobs :: "job_row list"
  outbox_messages :: "outbox_row list"

section \<open>The event journal\<close>

definition event_key_conflict :: exn where
  "event_key_conflict = Constraint ''Event idempotency key conflicts with existing data.''"

text \<open>
  \<open>event_matches\<close>: whether the event is in the journal already; a different event under its
  key is a conflict. The key is unique, so the query never gives a second row.
\<close>

definition event_matches :: "event_row \<Rightarrow> 'd durable_db_scheme \<Rightarrow> bool res" where
  "event_matches event db = (case find_row event_key (event_key event) (event_journal db) of
      None \<Rightarrow> Inr False
    | Some stored \<Rightarrow> if stored = event then Inr True else Inl event_key_conflict)"

definition event_references :: "event_row \<Rightarrow> 'd durable_db_scheme \<Rightarrow> bool" where
  "event_references event db \<longleftrightarrow>
     event_guild_id event \<in> set (guild_configs db)
     \<and> opt_check (\<lambda>u. u \<in> set (discord_users db)) (actor_user_id event)
     \<and> opt_check (\<lambda>c. c \<in> event_id ` set (event_journal db)) (causation_id event)"

definition insert_event :: "(string \<Rightarrow> bool) \<Rightarrow> event_row \<Rightarrow> 'd durable_db_scheme \<Rightarrow> (bool \<times> 'd durable_db_scheme) res" where
  "insert_event json_valid event db =
     rbind (require (valid_uuid_v4 (event_id event) \<and> snowflake_is_set (event_guild_id event))
       (Invalid_argument ''Event identity or guild is invalid.'')) (\<lambda>_.
     rbind (require_type (event_type event) 96) (\<lambda>_.
     rbind (require_type (event_aggregate_type event) 64) (\<lambda>_.
     rbind (require_key (event_key event)) (\<lambda>_.
     rbind (require_timestamp (event_occurred_at event)) (\<lambda>_.
     rbind (require_timestamp (recorded_at event)) (\<lambda>_.
     rbind (event_matches event db) (\<lambda>present.
     if present then Inr (False, db)
     else if event_check json_valid event \<and> event_references event db
       \<and> event_id event \<notin> event_id ` set (event_journal db)
     then Inr (True, db\<lparr>event_journal := event_journal db @ [event]\<rparr>)
     else Inl (Constraint ''event_journal''))))))))"

text \<open>
  \<open>compound_replay\<close>: the same comparison without the identity and the times of the event,
  which a repeated request draws anew.
\<close>

definition same_request :: "event_row \<Rightarrow> event_row \<Rightarrow> bool" where
  "same_request stored event \<longleftrightarrow>
     event_type stored = event_type event
     \<and> event_aggregate_type stored = event_aggregate_type event
     \<and> event_aggregate_id stored = event_aggregate_id event
     \<and> actor_user_id stored = actor_user_id event \<and> event_guild_id stored = event_guild_id event
     \<and> event_channel_id stored = event_channel_id event
     \<and> source_message_id stored = source_message_id event
     \<and> correlation_id stored = correlation_id event \<and> causation_id stored = causation_id event
     \<and> event_payload stored = event_payload event"

definition compound_conflict :: exn where
  "compound_conflict = Constraint ''Compound operation idempotency conflict.''"

definition compound_replay :: "event_row \<Rightarrow> 'd durable_db_scheme \<Rightarrow> bool res" where
  "compound_replay event db = (case find_row event_key (event_key event) (event_journal db) of
      None \<Rightarrow> Inr False
    | Some stored \<Rightarrow> if same_request stored event then Inr True else Inl compound_conflict)"

section \<open>Jobs\<close>

record job_request =
  req_job_id :: string
  req_job_type :: string
  req_job_aggregate_type :: "string option"
  req_job_aggregate_id :: "string option"
  req_due_at :: int
  req_job_max_attempts :: nat
  req_job_key :: string
  req_job_created_at :: int

definition new_job_row :: "job_request \<Rightarrow> string \<Rightarrow> job_row" where
  "new_job_row job payload = \<lparr>job_id = req_job_id job, job_type = req_job_type job,
     job_aggregate_type = req_job_aggregate_type job, job_aggregate_id = req_job_aggregate_id job,
     job_payload = payload, due_at = req_due_at job, job_state = Job_pending, job_attempts = 0,
     job_max_attempts = int (req_job_max_attempts job), job_lease_owner = None,
     job_lease_token = None, job_lease_until = None, job_last_error = None,
     job_key = req_job_key job, job_created_at = req_job_created_at job,
     job_updated_at = req_job_created_at job, job_completed_at = None, job_terminal_at = None\<rparr>"

definition job_matches :: "job_request \<Rightarrow> string \<Rightarrow> 'd durable_db_scheme \<Rightarrow> bool res" where
  "job_matches job payload db = (case find_row job_key (req_job_key job) (scheduled_jobs db) of
      None \<Rightarrow> Inr False
    | Some stored \<Rightarrow>
        if job_id stored = req_job_id job \<and> job_type stored = req_job_type job
          \<and> job_aggregate_type stored = req_job_aggregate_type job
          \<and> job_aggregate_id stored = req_job_aggregate_id job \<and> job_payload stored = payload
          \<and> due_at stored = req_due_at job \<and> job_max_attempts stored = int (req_job_max_attempts job)
          \<and> job_created_at stored = req_job_created_at job
        then Inr True
        else Inl (Constraint ''Job idempotency key conflicts with existing data.''))"

definition insert_job ::
    "(string \<Rightarrow> bool) \<Rightarrow> job_request \<Rightarrow> string \<Rightarrow> 'd durable_db_scheme \<Rightarrow> (bool \<times> 'd durable_db_scheme) res"
  where
  "insert_job json_valid job payload db =
     rbind (require (\<not> (\<not> valid_uuid_v4 (req_job_id job) \<or> req_job_max_attempts job = 0
         \<or> 20 < req_job_max_attempts job))
       (Invalid_argument ''Scheduled job metadata is invalid.'')) (\<lambda>_.
     rbind (require_type (req_job_type job) 96) (\<lambda>_.
     rbind (require_key (req_job_key job)) (\<lambda>_.
     rbind (require_timestamp (req_job_created_at job)) (\<lambda>_.
     rbind (require_timestamp (req_due_at job)) (\<lambda>_.
     rbind (job_matches job payload db) (\<lambda>present.
     let row = new_job_row job payload in
     if present then Inr (False, db)
     else if job_insert_check json_valid row \<and> job_check row
       \<and> job_id row \<notin> job_id ` set (scheduled_jobs db)
     then Inr (True, db\<lparr>scheduled_jobs := scheduled_jobs db @ [row]\<rparr>)
     else Inl (Constraint ''scheduled_job'')))))))"

section \<open>Outbox messages\<close>

record outbox_request =
  req_outbox_id :: string
  req_kind :: string
  req_out_aggregate_type :: "string option"
  req_out_aggregate_id :: "string option"
  req_target_guild :: u64
  req_target_channel :: u64
  req_target_user :: "u64 option"
  req_available_at :: int
  req_out_max_attempts :: nat
  req_out_key :: string
  req_nonce :: string
  req_out_created_at :: int

definition new_outbox_row :: "outbox_request \<Rightarrow> string \<Rightarrow> outbox_row" where
  "new_outbox_row outbox payload = \<lparr>outbox_id = req_outbox_id outbox, out_kind = req_kind outbox,
     out_aggregate_type = req_out_aggregate_type outbox,
     out_aggregate_id = req_out_aggregate_id outbox, target_guild_id = req_target_guild outbox,
     target_channel_id = req_target_channel outbox, target_user_id = req_target_user outbox,
     out_payload = payload, out_state = Out_pending, out_attempts = 0,
     out_max_attempts = int (req_out_max_attempts outbox), out_lease_owner = None,
     out_lease_token = None, out_lease_until = None, out_key = req_out_key outbox,
     provider_nonce = req_nonce outbox, provider_message_id = None,
     out_created_at = req_out_created_at outbox, available_at = req_available_at outbox,
     first_attempt_at = None, first_attempt_elapsed = None, first_attempt_boot = None,
     submission_started_at = None, delivered_at = None, out_terminal_at = None,
     out_updated_at = req_out_created_at outbox, out_last_error = None\<rparr>"

definition outbox_matches :: "outbox_request \<Rightarrow> string \<Rightarrow> 'd durable_db_scheme \<Rightarrow> bool res" where
  "outbox_matches outbox payload db = (case find_row out_key (req_out_key outbox) (outbox_messages db) of
      None \<Rightarrow> Inr False
    | Some stored \<Rightarrow>
        if outbox_id stored = req_outbox_id outbox \<and> out_kind stored = req_kind outbox
          \<and> out_aggregate_type stored = req_out_aggregate_type outbox
          \<and> out_aggregate_id stored = req_out_aggregate_id outbox
          \<and> target_guild_id stored = req_target_guild outbox
          \<and> target_channel_id stored = req_target_channel outbox
          \<and> target_user_id stored = req_target_user outbox \<and> out_payload stored = payload
          \<and> available_at stored = req_available_at outbox
          \<and> out_max_attempts stored = int (req_out_max_attempts outbox)
          \<and> provider_nonce stored = req_nonce outbox \<and> out_created_at stored = req_out_created_at outbox
        then Inr True
        else Inl (Constraint ''Outbox idempotency key conflicts with existing data.''))"

definition insert_outbox ::
    "(string \<Rightarrow> bool) \<Rightarrow> outbox_request \<Rightarrow> string \<Rightarrow> 'd durable_db_scheme \<Rightarrow> (bool \<times> 'd durable_db_scheme) res"
  where
  "insert_outbox json_valid outbox payload db =
     rbind (require (\<not> (\<not> valid_uuid_v4 (req_outbox_id outbox)
         \<or> \<not> snowflake_is_set (req_target_guild outbox) \<or> \<not> snowflake_is_set (req_target_channel outbox)
         \<or> req_out_max_attempts outbox = 0 \<or> 20 < req_out_max_attempts outbox
         \<or> length (req_nonce outbox) \<noteq> 25))
       (Invalid_argument ''Outbox metadata is invalid.'')) (\<lambda>_.
     rbind (require_type (req_kind outbox) 96) (\<lambda>_.
     rbind (require_key (req_out_key outbox)) (\<lambda>_.
     rbind (require_timestamp (req_out_created_at outbox)) (\<lambda>_.
     rbind (require_timestamp (req_available_at outbox)) (\<lambda>_.
     rbind (outbox_matches outbox payload db) (\<lambda>present.
     let row = new_outbox_row outbox payload in
     if present then Inr (False, db)
     else if outbox_insert_check json_valid row \<and> outbox_check row
       \<and> outbox_id row \<notin> outbox_id ` set (outbox_messages db)
       \<and> provider_nonce row \<notin> provider_nonce ` set (outbox_messages db)
       \<and> target_guild_id row \<in> set (guild_configs db)
       \<and> opt_check (\<lambda>u. u \<in> set (discord_users db)) (target_user_id row)
     then Inr (True, db\<lparr>outbox_messages := outbox_messages db @ [row]\<rparr>)
     else Inl (Constraint ''outbox_message'')))))))"

section \<open>Compound operations\<close>

text \<open>
  \<open>norm_payload\<close> stands for \<^verbatim>\<open>normalized_replay_payload\<close>, which parses the JSON and drops what
  a repeated request draws anew; \<open>None\<close> when the text does not parse.
\<close>

definition same_payload :: "(string \<Rightarrow> string \<Rightarrow> 'j option) \<Rightarrow> string \<Rightarrow> string \<Rightarrow> string \<Rightarrow> bool" where
  "same_payload norm_payload kind p q \<longleftrightarrow> norm_payload kind p \<noteq> None \<and> norm_payload kind p = norm_payload kind q"

definition compound_job_replay ::
    "(string \<Rightarrow> string \<Rightarrow> 'j option) \<Rightarrow> event_row \<Rightarrow> job_request \<Rightarrow> string \<Rightarrow> 'd durable_db_scheme \<Rightarrow> bool res"
  where
  "compound_job_replay norm_payload event job payload db =
     rbind (compound_replay event db) (\<lambda>replayed.
     if \<not> replayed then Inr False
     else case find_row job_key (req_job_key job) (scheduled_jobs db) of
        None \<Rightarrow> Inl compound_conflict
      | Some stored \<Rightarrow>
          if job_type stored = req_job_type job
            \<and> job_aggregate_type stored = req_job_aggregate_type job
            \<and> job_aggregate_id stored = req_job_aggregate_id job
            \<and> same_payload norm_payload (req_job_type job) (job_payload stored) payload
            \<and> due_at stored - job_created_at stored = req_due_at job - req_job_created_at job
            \<and> job_max_attempts stored = int (req_job_max_attempts job)
          then Inr True else Inl compound_conflict)"

definition compound_outbox_replay ::
    "(string \<Rightarrow> string \<Rightarrow> 'j option) \<Rightarrow> event_row \<Rightarrow> outbox_request \<Rightarrow> string \<Rightarrow> 'd durable_db_scheme \<Rightarrow> bool res"
  where
  "compound_outbox_replay norm_payload event outbox payload db =
     rbind (compound_replay event db) (\<lambda>replayed.
     if \<not> replayed then Inr False
     else case find_row out_key (req_out_key outbox) (outbox_messages db) of
        None \<Rightarrow> Inl compound_conflict
      | Some stored \<Rightarrow>
          if out_kind stored = req_kind outbox
            \<and> out_aggregate_type stored = req_out_aggregate_type outbox
            \<and> out_aggregate_id stored = req_out_aggregate_id outbox
            \<and> target_guild_id stored = req_target_guild outbox
            \<and> target_channel_id stored = req_target_channel outbox
            \<and> target_user_id stored = req_target_user outbox
            \<and> same_payload norm_payload (req_kind outbox) (out_payload stored) payload
            \<and> available_at stored - out_created_at stored = req_available_at outbox - req_out_created_at outbox
            \<and> out_max_attempts stored = int (req_out_max_attempts outbox)
          then Inr True else Inl compound_conflict)"

text \<open>
  \<open>enqueue_notice\<close> and \<open>enqueue_public\<close>, which differ in how the payload is encoded, and
  \<open>schedule_notice\<close>: one transaction each, answering whether anything was created.
\<close>

definition enqueue_message ::
    "(string \<Rightarrow> bool) \<Rightarrow> (string \<Rightarrow> string \<Rightarrow> 'j option) \<Rightarrow> event_row \<Rightarrow> outbox_request \<Rightarrow> string
     \<Rightarrow> 'd durable_db_scheme \<Rightarrow> (bool \<times> 'd durable_db_scheme) res"
  where
  "enqueue_message json_valid norm_payload event outbox payload db =
     rbind (compound_outbox_replay norm_payload event outbox payload db) (\<lambda>replayed.
     if replayed then Inr (False, db)
     else rbind (insert_event json_valid event db) (\<lambda>(event_created, db).
       rbind (insert_outbox json_valid outbox payload db) (\<lambda>(outbox_created, db).
       Inr (event_created \<or> outbox_created, db))))"

definition schedule_notice ::
    "(string \<Rightarrow> bool) \<Rightarrow> (string \<Rightarrow> string \<Rightarrow> 'j option) \<Rightarrow> event_row \<Rightarrow> job_request \<Rightarrow> string
     \<Rightarrow> 'd durable_db_scheme \<Rightarrow> (bool \<times> 'd durable_db_scheme) res"
  where
  "schedule_notice json_valid norm_payload event job payload db =
     rbind (compound_job_replay norm_payload event job payload db) (\<lambda>replayed.
     if replayed then Inr (False, db)
     else rbind (insert_event json_valid event db) (\<lambda>(event_created, db).
       rbind (insert_job json_valid job payload db) (\<lambda>(job_created, db).
       Inr (event_created \<or> job_created, db))))"

definition append_event :: "(string \<Rightarrow> bool) \<Rightarrow> event_row \<Rightarrow> 'd durable_db_scheme \<Rightarrow> (bool \<times> 'd durable_db_scheme) res" where
  "append_event json_valid event db = insert_event json_valid event db"

section \<open>Repeated requests\<close>

text \<open>
  Requests the code means to treat as one: the same keys and contents, with ids, nonces and
  times drawn anew, the delay until the message is due being the same.
\<close>

definition same_outbox_request :: "outbox_request \<Rightarrow> outbox_request \<Rightarrow> bool" where
  "same_outbox_request a b \<longleftrightarrow>
     req_out_key a = req_out_key b \<and> req_kind a = req_kind b
     \<and> req_out_aggregate_type a = req_out_aggregate_type b
     \<and> req_out_aggregate_id a = req_out_aggregate_id b
     \<and> req_target_guild a = req_target_guild b \<and> req_target_channel a = req_target_channel b
     \<and> req_target_user a = req_target_user b \<and> req_out_max_attempts a = req_out_max_attempts b
     \<and> req_available_at a - req_out_created_at a = req_available_at b - req_out_created_at b"

definition same_job_request :: "job_request \<Rightarrow> job_request \<Rightarrow> bool" where
  "same_job_request a b \<longleftrightarrow>
     req_job_key a = req_job_key b \<and> req_job_type a = req_job_type b
     \<and> req_job_aggregate_type a = req_job_aggregate_type b
     \<and> req_job_aggregate_id a = req_job_aggregate_id b
     \<and> req_job_max_attempts a = req_job_max_attempts b
     \<and> req_due_at a - req_job_created_at a = req_due_at b - req_job_created_at b"

lemma insert_event_inserted:
  assumes "insert_event json_valid event db = Inr (created, db')"
  shows "find_row event_key (event_key event) (event_journal db') = Some event"
    "scheduled_jobs db' = scheduled_jobs db" "outbox_messages db' = outbox_messages db"
    "created \<longleftrightarrow> find_row event_key (event_key event) (event_journal db) = None"
proof -
  have k: "find_row event_key k (event_journal db @ [event])
      = (if k = event_key event then Some event else find_row event_key k (event_journal db))"
    if "find_row event_key (event_key event) (event_journal db) = None" for k
    using that by (simp add: find_row_append_new find_row_None)
  show "find_row event_key (event_key event) (event_journal db') = Some event"
    "scheduled_jobs db' = scheduled_jobs db" "outbox_messages db' = outbox_messages db"
    "created \<longleftrightarrow> find_row event_key (event_key event) (event_journal db) = None"
    using assms k [of "event_key event"]
    by (auto simp: insert_event_def rbind_eq_Inr event_matches_def split: if_splits option.splits)
qed

lemma insert_outbox_inserted:
  assumes "insert_outbox json_valid outbox payload db = Inr (created, db')"
  obtains stored where "find_row out_key (req_out_key outbox) (outbox_messages db') = Some stored"
    "event_journal db' = event_journal db" "out_kind stored = req_kind outbox"
    "out_aggregate_type stored = req_out_aggregate_type outbox"
    "out_aggregate_id stored = req_out_aggregate_id outbox"
    "target_guild_id stored = req_target_guild outbox"
    "target_channel_id stored = req_target_channel outbox"
    "target_user_id stored = req_target_user outbox" "out_payload stored = payload"
    "available_at stored = req_available_at outbox" "out_created_at stored = req_out_created_at outbox"
    "out_max_attempts stored = int (req_out_max_attempts outbox)"
proof (cases "find_row out_key (req_out_key outbox) (outbox_messages db)")
  case None
  have k: "out_key (new_outbox_row outbox payload) = req_out_key outbox"
    by (simp add: new_outbox_row_def)
  have "db' = db\<lparr>outbox_messages := outbox_messages db @ [new_outbox_row outbox payload]\<rparr>"
    using assms None by (auto simp: insert_outbox_def rbind_eq_Inr outbox_matches_def Let_def split: if_splits)
  moreover have "find_row out_key (req_out_key outbox) (outbox_messages db @ [new_outbox_row outbox payload])
      = Some (new_outbox_row outbox payload)"
    using None by (simp add: find_row_append_new find_row_None k)
  ultimately show ?thesis by (intro that [of "new_outbox_row outbox payload"]) (simp_all add: new_outbox_row_def)
next
  case (Some stored)
  have "db' = db" using assms Some
    by (auto simp: insert_outbox_def rbind_eq_Inr outbox_matches_def Let_def split: if_splits)
  moreover have "outbox_matches outbox payload db = Inr True" using assms Some
    by (auto simp: insert_outbox_def rbind_eq_Inr outbox_matches_def split: if_splits)
  ultimately show ?thesis using Some
    by (intro that [of stored]) (auto simp: outbox_matches_def split: if_splits)
qed

lemma insert_job_inserted:
  assumes "insert_job json_valid job payload db = Inr (created, db')"
  obtains stored where "find_row job_key (req_job_key job) (scheduled_jobs db') = Some stored"
    "event_journal db' = event_journal db" "job_type stored = req_job_type job"
    "job_aggregate_type stored = req_job_aggregate_type job"
    "job_aggregate_id stored = req_job_aggregate_id job" "job_payload stored = payload"
    "due_at stored = req_due_at job" "job_created_at stored = req_job_created_at job"
    "job_max_attempts stored = int (req_job_max_attempts job)"
proof (cases "find_row job_key (req_job_key job) (scheduled_jobs db)")
  case None
  have k: "job_key (new_job_row job payload) = req_job_key job" by (simp add: new_job_row_def)
  have "db' = db\<lparr>scheduled_jobs := scheduled_jobs db @ [new_job_row job payload]\<rparr>"
    using assms None by (auto simp: insert_job_def rbind_eq_Inr job_matches_def Let_def split: if_splits)
  moreover have "find_row job_key (req_job_key job) (scheduled_jobs db @ [new_job_row job payload])
      = Some (new_job_row job payload)"
    using None by (simp add: find_row_append_new find_row_None k)
  ultimately show ?thesis by (intro that [of "new_job_row job payload"]) (simp_all add: new_job_row_def)
next
  case (Some stored)
  have "db' = db" using assms Some
    by (auto simp: insert_job_def rbind_eq_Inr job_matches_def Let_def split: if_splits)
  moreover have "job_matches job payload db = Inr True" using assms Some
    by (auto simp: insert_job_def rbind_eq_Inr job_matches_def split: if_splits)
  ultimately show ?thesis using Some
    by (intro that [of stored]) (auto simp: job_matches_def split: if_splits)
qed

text \<open>What a request that was served leaves behind for its repetitions.\<close>

lemma compound_outbox_replayD:
  assumes "compound_outbox_replay norm_payload event outbox payload db = Inr True"
  obtains e stored where "find_row event_key (event_key event) (event_journal db) = Some e"
    "same_request e event"
    "find_row out_key (req_out_key outbox) (outbox_messages db) = Some stored"
    "out_kind stored = req_kind outbox"
    "out_aggregate_type stored = req_out_aggregate_type outbox"
    "out_aggregate_id stored = req_out_aggregate_id outbox"
    "target_guild_id stored = req_target_guild outbox"
    "target_channel_id stored = req_target_channel outbox"
    "target_user_id stored = req_target_user outbox"
    "same_payload norm_payload (req_kind outbox) (out_payload stored) payload"
    "available_at stored - out_created_at stored = req_available_at outbox - req_out_created_at outbox"
    "out_max_attempts stored = int (req_out_max_attempts outbox)"
  using assms
  by (auto simp: compound_outbox_replay_def compound_replay_def rbind_eq_Inr
      split: option.splits if_splits)

lemma compound_job_replayD:
  assumes "compound_job_replay norm_payload event job payload db = Inr True"
  obtains e stored where "find_row event_key (event_key event) (event_journal db) = Some e"
    "same_request e event"
    "find_row job_key (req_job_key job) (scheduled_jobs db) = Some stored"
    "job_type stored = req_job_type job"
    "job_aggregate_type stored = req_job_aggregate_type job"
    "job_aggregate_id stored = req_job_aggregate_id job"
    "same_payload norm_payload (req_job_type job) (job_payload stored) payload"
    "due_at stored - job_created_at stored = req_due_at job - req_job_created_at job"
    "job_max_attempts stored = int (req_job_max_attempts job)"
  using assms
  by (auto simp: compound_job_replay_def compound_replay_def rbind_eq_Inr
      split: option.splits if_splits)

lemma same_request_trans: "same_request a b \<Longrightarrow> same_request b c \<Longrightarrow> same_request a c"
  by (simp add: same_request_def)

lemma same_request_refl [simp]: "same_request a a" by (simp add: same_request_def)

lemma same_payload_trans:
  "same_payload np k a b \<Longrightarrow> same_payload np k b c \<Longrightarrow> same_payload np k a c"
  unfolding same_payload_def by metis

lemma enqueue_message_stored:
  assumes "enqueue_message json_valid norm_payload event outbox payload db = Inr (created, db')"
    and "norm_payload (req_kind outbox) payload \<noteq> None"
  obtains e stored where "find_row event_key (event_key event) (event_journal db') = Some e"
    "same_request e event"
    "find_row out_key (req_out_key outbox) (outbox_messages db') = Some stored"
    "out_kind stored = req_kind outbox"
    "out_aggregate_type stored = req_out_aggregate_type outbox"
    "out_aggregate_id stored = req_out_aggregate_id outbox"
    "target_guild_id stored = req_target_guild outbox"
    "target_channel_id stored = req_target_channel outbox"
    "target_user_id stored = req_target_user outbox"
    "same_payload norm_payload (req_kind outbox) (out_payload stored) payload"
    "available_at stored - out_created_at stored = req_available_at outbox - req_out_created_at outbox"
    "out_max_attempts stored = int (req_out_max_attempts outbox)"
proof -
  obtain replayed where r: "compound_outbox_replay norm_payload event outbox payload db = Inr replayed"
    using assms(1) by (auto simp: enqueue_message_def rbind_eq_Inr)
  show ?thesis
  proof (cases replayed)
    case True
    then have "db' = db" using assms(1) r by (simp add: enqueue_message_def)
    with compound_outbox_replayD r True that show ?thesis by metis
  next
    case False
    then obtain c1 db1 c2 where i: "insert_event json_valid event db = Inr (c1, db1)"
        "insert_outbox json_valid outbox payload db1 = Inr (c2, db')"
      using assms(1) r by (auto simp: enqueue_message_def rbind_eq_Inr split: prod.splits)
    obtain stored where s: "find_row out_key (req_out_key outbox) (outbox_messages db') = Some stored"
      "event_journal db' = event_journal db1" "out_kind stored = req_kind outbox"
      "out_aggregate_type stored = req_out_aggregate_type outbox"
      "out_aggregate_id stored = req_out_aggregate_id outbox"
      "target_guild_id stored = req_target_guild outbox"
      "target_channel_id stored = req_target_channel outbox"
      "target_user_id stored = req_target_user outbox" "out_payload stored = payload"
      "available_at stored = req_available_at outbox" "out_created_at stored = req_out_created_at outbox"
      "out_max_attempts stored = int (req_out_max_attempts outbox)"
      by (rule insert_outbox_inserted [OF i(2)])
    show ?thesis
      using s insert_event_inserted(1) [OF i(1)] assms(2)
      by (intro that [of event stored]) (simp_all add: same_payload_def)
  qed
qed

text \<open>Property C19: a request to enqueue a message that was served once is idempotent: repeating it, with
  its ids and times drawn anew, answers that nothing was created and changes nothing.\<close>
theorem enqueue_message_idempotent:
  assumes "enqueue_message json_valid norm_payload event outbox payload db = Inr (created, db')"
    and "event_key event' = event_key event" "same_request event event'"
    and "same_outbox_request outbox outbox'"
    and "same_payload norm_payload (req_kind outbox) payload payload'"
  shows "enqueue_message json_valid norm_payload event' outbox' payload' db' = Inr (False, db')"
proof -
  have n: "norm_payload (req_kind outbox) payload \<noteq> None" using assms(5) unfolding same_payload_def by metis
  obtain e stored where s: "find_row event_key (event_key event) (event_journal db') = Some e"
    "same_request e event"
    "find_row out_key (req_out_key outbox) (outbox_messages db') = Some stored"
    "out_kind stored = req_kind outbox"
    "out_aggregate_type stored = req_out_aggregate_type outbox"
    "out_aggregate_id stored = req_out_aggregate_id outbox"
    "target_guild_id stored = req_target_guild outbox"
    "target_channel_id stored = req_target_channel outbox"
    "target_user_id stored = req_target_user outbox"
    "same_payload norm_payload (req_kind outbox) (out_payload stored) payload"
    "available_at stored - out_created_at stored = req_available_at outbox - req_out_created_at outbox"
    "out_max_attempts stored = int (req_out_max_attempts outbox)"
    by (rule enqueue_message_stored [OF assms(1) n])
  have "same_request e event'" by (rule same_request_trans [OF s(2) assms(3)])
  moreover have "same_payload norm_payload (req_kind outbox) (out_payload stored) payload'"
    by (rule same_payload_trans [OF s(10) assms(5)])
  ultimately have "compound_outbox_replay norm_payload event' outbox' payload' db' = Inr True"
    using s assms(2,4)
    by (simp add: compound_outbox_replay_def compound_replay_def same_outbox_request_def)
  then show ?thesis by (simp add: enqueue_message_def)
qed

text \<open>A concrete request, and the same request made again later.\<close>

definition sample_event :: event_row where
  "sample_event = \<lparr>event_id = ''00000000-0000-4000-8000-000000000001'', event_type = ''owner_test.v1'',
     event_aggregate_type = ''owner_test'', event_aggregate_id = ''a'', actor_user_id = None,
     event_guild_id = 7, event_channel_id = Some 9, source_message_id = None,
     event_occurred_at = 10, recorded_at = 10, correlation_id = ''c'', causation_id = None,
     event_key = ''event:1'', event_payload = ''{}''\<rparr>"

definition sample_outbox :: outbox_request where
  "sample_outbox = \<lparr>req_outbox_id = ''00000000-0000-4000-8000-000000000002'',
     req_kind = ''discord.message.v1'', req_out_aggregate_type = None, req_out_aggregate_id = None,
     req_target_guild = 7, req_target_channel = 9, req_target_user = None, req_available_at = 10,
     req_out_max_attempts = 5, req_out_key = ''outbox:1'', req_nonce = ''0000000040008000000000000'',
     req_out_created_at = 10\<rparr>"

definition empty_durable_db :: durable_db where
  "empty_durable_db = \<lparr>guild_configs = [7], discord_users = [], event_journal = [],
     scheduled_jobs = [], outbox_messages = []\<rparr>"

abbreviation "sample_db \<equiv> empty_durable_db\<lparr>event_journal := [sample_event],
  outbox_messages := [new_outbox_row sample_outbox ''{}'']\<rparr>"

lemma sample_enqueued:
  "enqueue_message (\<lambda>_. True) (\<lambda>_. Some) sample_event sample_outbox ''{}'' empty_durable_db
     = Inr (True, sample_db)"
proof -
  have "insert_event (\<lambda>_. True) sample_event empty_durable_db
     = Inr (True, empty_durable_db\<lparr>event_journal := [sample_event]\<rparr>)" by code_simp
  moreover have "insert_outbox (\<lambda>_. True) sample_outbox ''{}'' (empty_durable_db\<lparr>event_journal := [sample_event]\<rparr>)
     = Inr (True, sample_db)" by code_simp
  moreover have "compound_outbox_replay (\<lambda>_. Some) sample_event sample_outbox ''{}'' empty_durable_db = Inr False"
    by (simp add: compound_outbox_replay_def compound_replay_def empty_durable_db_def find_row_def)
  ultimately show ?thesis by (simp add: enqueue_message_def)
qed

theorem enqueue_message_idempotent_witness:
  "enqueue_message (\<lambda>_. True) (\<lambda>_. Some)
     (sample_event\<lparr>event_id := ''00000000-0000-4000-8000-000000000003'', recorded_at := 20\<rparr>)
     (sample_outbox\<lparr>req_available_at := 20, req_out_created_at := 20\<rparr>) ''{}'' sample_db
     = Inr (False, sample_db)"
  by (rule enqueue_message_idempotent [OF sample_enqueued])
    (simp_all add: sample_event_def sample_outbox_def same_request_def same_outbox_request_def
      same_payload_def)

end
