(* ===== verification/Job_Store.thy ===== *)
theory Job_Store
  imports Durable_Work
begin

text \<open>
  The scheduled jobs of the durable repository
  (\<^verbatim>\<open>src/src/persistence/sqlite_durable_work_repository.cpp\<close>): claiming the earliest due job
  under a lease, and what the owner of the lease does with it. Every operation holds the
  mutex of the repository and runs in one transaction, so it is one function of the database.
\<close>

section \<open>Claims\<close>

datatype work_status = Applied | Unchanged | Stale_claim | Not_found | Invalid_state

text \<open>
  \<open>ClaimedScheduledJob\<close>; its payload is of the type the JSON codec decodes to. The codec
  (\<^verbatim>\<open>decode_payload\<close> and \<^verbatim>\<open>trace_from_payload\<close>, total functions over the JSON library) is a
  parameter.
\<close>

record 'p claimed_job =
  claim_job_id :: string
  claim_job_type :: string
  claim_owner :: string
  claim_token :: string
  claim_attempts :: nat
  claim_max_attempts :: nat
  claim_due_at :: int
  claim_payload :: 'p
  claim_correlation :: string
  claim_causation :: "string option"

record 'p payload_codec =
  decode_payload :: "string \<Rightarrow> string \<Rightarrow> 'p"
  trace_from_payload :: "string \<Rightarrow> string \<Rightarrow> string \<times> string option"

definition job_eligible :: "int \<Rightarrow> job_row \<Rightarrow> bool" where
  "job_eligible now_ms j \<longleftrightarrow>
     job_state j = Job_pending \<and> due_at j \<le> now_ms
     \<or> job_state j = Job_claimed \<and> (case job_lease_until j of Some t \<Rightarrow> t \<le> now_ms | None \<Rightarrow> False)"

definition exhaust_job :: "int \<Rightarrow> job_row \<Rightarrow> job_row" where
  "exhaust_job now_ms j = j\<lparr>job_state := Job_dead, job_lease_owner := None, job_lease_token := None,
     job_lease_until := None, job_updated_at := max now_ms (job_updated_at j),
     job_terminal_at := Some (max now_ms (job_created_at j)),
     job_last_error := Some ''attempts_exhausted''\<rparr>"

definition lease_job :: "int \<Rightarrow> int \<Rightarrow> string \<Rightarrow> string \<Rightarrow> int \<Rightarrow> job_row \<Rightarrow> job_row" where
  "lease_job now_ms lease_until owner token attempts j = j\<lparr>job_state := Job_claimed,
     job_attempts := attempts, job_lease_owner := Some owner, job_lease_token := Some token,
     job_lease_until := Some lease_until, job_updated_at := max now_ms (job_updated_at j)\<rparr>"

definition claim_due_job ::
    "'p payload_codec \<Rightarrow> int \<Rightarrow> int \<Rightarrow> string \<Rightarrow> string \<Rightarrow> durable_db
     \<Rightarrow> ('p claimed_job option \<times> durable_db) res"
  where
  "claim_due_job codec now_ms lease_until owner token db =
     rbind (require_timestamp now_ms) (\<lambda>_.
     rbind (require_timestamp lease_until) (\<lambda>_.
     rbind (update_rows job_check ''scheduled_job''
       (\<lambda>j. job_eligible now_ms j \<and> job_max_attempts j \<le> job_attempts j) (exhaust_job now_ms)
       (scheduled_jobs db)) (\<lambda>(_, jobs).
     case first_by (\<lambda>j. (due_at j, job_id j))
         (filter (\<lambda>j. job_eligible now_ms j \<and> job_attempts j < job_max_attempts j) jobs) of
       None \<Rightarrow> Inr (None, db\<lparr>scheduled_jobs := jobs\<rparr>)
     | Some j \<Rightarrow>
         let attempts = job_attempts j + 1; trace = trace_from_payload codec (job_payload j) (job_id j) in
         rbind (update_rows job_check ''scheduled_job'' (\<lambda>r. job_id r = job_id j)
           (lease_job now_ms lease_until owner token attempts) jobs) (\<lambda>(_, jobs').
         Inr (Some \<lparr>claim_job_id = job_id j, claim_job_type = job_type j, claim_owner = owner,
             claim_token = token, claim_attempts = nat attempts,
             claim_max_attempts = nat (job_max_attempts j), claim_due_at = due_at j,
             claim_payload = decode_payload codec (job_type j) (job_payload j),
             claim_correlation = fst trace, claim_causation = snd trace\<rparr>,
           db\<lparr>scheduled_jobs := jobs'\<rparr>)))))"

section \<open>The owner of a claim\<close>

definition job_owned :: "'p claimed_job \<Rightarrow> job_row \<Rightarrow> bool" where
  "job_owned c j \<longleftrightarrow> job_id j = claim_job_id c \<and> job_state j = Job_claimed
     \<and> job_lease_owner j = Some (claim_owner c) \<and> job_lease_token j = Some (claim_token c)"

definition stale_job_status :: "string \<Rightarrow> durable_db \<Rightarrow> work_status" where
  "stale_job_status i db = (case find_row job_id i (scheduled_jobs db) of
      None \<Rightarrow> Not_found
    | Some j \<Rightarrow> if job_state j = Job_completed then Unchanged else Stale_claim)"

definition update_jobs ::
    "(job_row \<Rightarrow> bool) \<Rightarrow> (job_row \<Rightarrow> job_row) \<Rightarrow> (durable_db \<Rightarrow> work_status) \<Rightarrow> durable_db
     \<Rightarrow> (work_status \<times> durable_db) res"
  where
  "update_jobs condition change otherwise db =
     rbind (update_rows job_check ''scheduled_job'' condition change (scheduled_jobs db)) (\<lambda>(n, jobs).
     Inr (if n = 0 then otherwise db else Applied, db\<lparr>scheduled_jobs := jobs\<rparr>))"

definition drop_lease :: "job_row \<Rightarrow> job_row" where
  "drop_lease j = j\<lparr>job_lease_owner := None, job_lease_token := None, job_lease_until := None\<rparr>"

definition release_job :: "'p claimed_job \<Rightarrow> int \<Rightarrow> durable_db \<Rightarrow> (work_status \<times> durable_db) res" where
  "release_job c now_ms db = update_jobs (job_owned c)
     (\<lambda>j. drop_lease (j\<lparr>job_state := Job_pending, job_attempts := max (job_attempts j - 1) 0,
        job_updated_at := max now_ms (job_updated_at j), job_terminal_at := None\<rparr>))
     (stale_job_status (claim_job_id c)) db"

definition defer_job ::
    "'p claimed_job \<Rightarrow> int \<Rightarrow> int \<Rightarrow> string \<Rightarrow> durable_db \<Rightarrow> (work_status \<times> durable_db) res"
  where
  "defer_job c now_ms retry_at error_code db =
     rbind (require_timestamp now_ms) (\<lambda>_.
     rbind (require_timestamp retry_at) (\<lambda>_.
     rbind (require_type error_code 96) (\<lambda>_.
     rbind (require (\<not> retry_at \<le> now_ms)
       (Invalid_argument ''A deferred job must move into the future.'')) (\<lambda>_.
     update_jobs (job_owned c)
       (\<lambda>j. drop_lease (j\<lparr>job_state := Job_pending, due_at := retry_at,
          job_attempts := max (job_attempts j - 1) 0, job_updated_at := max now_ms (job_updated_at j),
          job_terminal_at := None, job_last_error := Some error_code\<rparr>))
       (stale_job_status (claim_job_id c)) db))))"

definition reschedule_job ::
    "'p claimed_job \<Rightarrow> int \<Rightarrow> int \<Rightarrow> durable_db \<Rightarrow> (work_status \<times> durable_db) res"
  where
  "reschedule_job c now_ms due db =
     rbind (require_timestamp now_ms) (\<lambda>_.
     rbind (require_timestamp due) (\<lambda>_.
     rbind (require (\<not> due \<le> now_ms)
       (Invalid_argument ''A rescheduled job must move into the future.'')) (\<lambda>_.
     update_jobs (job_owned c)
       (\<lambda>j. drop_lease (j\<lparr>job_state := Job_pending, due_at := due,
          job_attempts := max (job_attempts j - 1) 0, job_updated_at := max now_ms (job_updated_at j),
          job_terminal_at := None, job_last_error := None\<rparr>))
       (stale_job_status (claim_job_id c)) db)))"

definition extend_job_lease ::
    "'p claimed_job \<Rightarrow> int \<Rightarrow> int \<Rightarrow> durable_db \<Rightarrow> (work_status \<times> durable_db) res"
  where
  "extend_job_lease c now_ms lease_until db =
     rbind (require_timestamp now_ms) (\<lambda>_.
     rbind (require_timestamp lease_until) (\<lambda>_.
     rbind (require (\<not> lease_until \<le> now_ms)
       (Invalid_argument ''A renewed job lease must remain in the future.'')) (\<lambda>_.
     update_jobs (job_owned c)
       (\<lambda>j. j\<lparr>job_lease_until := map_option (\<lambda>t. max t lease_until) (job_lease_until j),
          job_updated_at := max now_ms (job_updated_at j)\<rparr>)
       (stale_job_status (claim_job_id c)) db)))"

definition fail_job ::
    "'p claimed_job \<Rightarrow> int \<Rightarrow> int \<Rightarrow> string \<Rightarrow> bool \<Rightarrow> durable_db \<Rightarrow> (work_status \<times> durable_db) res"
  where
  "fail_job c now_ms retry_at error_code retryable db =
     rbind (require_type error_code 96) (\<lambda>_.
     let retry = retryable \<and> claim_attempts c < claim_max_attempts c in
     update_jobs (job_owned c)
       (\<lambda>j. if retry
          then drop_lease (j\<lparr>job_state := Job_pending, due_at := retry_at,
            job_updated_at := max now_ms (job_updated_at j), job_terminal_at := None,
            job_last_error := Some error_code\<rparr>)
          else drop_lease (j\<lparr>job_state := Job_dead, job_updated_at := max now_ms (job_updated_at j),
            job_terminal_at := Some (max now_ms (job_created_at j)),
            job_last_error := Some error_code\<rparr>))
       (stale_job_status (claim_job_id c)) db)"

definition cancelled_job :: "int \<Rightarrow> job_row \<Rightarrow> job_row" where
  "cancelled_job now_ms j = drop_lease (j\<lparr>job_state := Job_cancelled,
     job_updated_at := max now_ms (job_updated_at j),
     job_terminal_at := Some (max now_ms (job_created_at j))\<rparr>)"

definition cancel_job :: "string \<Rightarrow> int \<Rightarrow> durable_db \<Rightarrow> (work_status \<times> durable_db) res" where
  "cancel_job i now_ms db = update_jobs (\<lambda>j. job_id j = i \<and> job_state j = Job_pending)
     (cancelled_job now_ms)
     (\<lambda>db. case find_row job_id i (scheduled_jobs db) of
        None \<Rightarrow> Not_found
      | Some j \<Rightarrow> if job_state j = Job_cancelled then Unchanged else Invalid_state) db"

definition cancel_claimed_job ::
    "'p claimed_job \<Rightarrow> int \<Rightarrow> durable_db \<Rightarrow> (work_status \<times> durable_db) res"
  where
  "cancel_claimed_job c now_ms db = update_jobs (job_owned c) (cancelled_job now_ms)
     (stale_job_status (claim_job_id c)) db"

text \<open>
  \<open>complete_notice_job\<close>: \<open>notice\<close> answers the payload of the claim when it is a notice, and
  \<open>encode\<close> is \<^verbatim>\<open>encode_notice(...).dump()\<close>.
\<close>

definition completed_job :: "int \<Rightarrow> job_row \<Rightarrow> job_row" where
  "completed_job now_ms j = drop_lease (j\<lparr>job_state := Job_completed,
     job_updated_at := max now_ms (job_updated_at j),
     job_completed_at := Some (max now_ms (job_created_at j)),
     job_terminal_at := Some (max now_ms (job_created_at j)), job_last_error := None\<rparr>)"

definition complete_notice_job ::
    "(string \<Rightarrow> bool) \<Rightarrow> ('p \<Rightarrow> 'n option) \<Rightarrow> ('n \<Rightarrow> string \<Rightarrow> string \<Rightarrow> string) \<Rightarrow> 'p claimed_job
     \<Rightarrow> event_row \<Rightarrow> outbox_request \<Rightarrow> int \<Rightarrow> durable_db \<Rightarrow> (work_status \<times> durable_db) res"
  where
  "complete_notice_job json_valid notice encode c event outbox now_ms db =
     (case notice (claim_payload c) of
        None \<Rightarrow> Inr (Invalid_state, db)
      | Some payload \<Rightarrow>
          if correlation_id event \<noteq> claim_correlation c \<or> causation_id event \<noteq> claim_causation c
          then Inr (Invalid_state, db)
          else if \<not> list_ex (job_owned c) (scheduled_jobs db)
          then Inr (stale_job_status (claim_job_id c) db, db)
          else rbind (insert_event json_valid event db) (\<lambda>(_, db).
            rbind (insert_outbox json_valid outbox
              (encode payload (claim_correlation c) (event_id event)) db) (\<lambda>(_, db).
            rbind (update_rows job_check ''scheduled_job''
              (\<lambda>j. job_id j = claim_job_id c \<and> job_state j = Job_claimed
                \<and> job_lease_token j = Some (claim_token c)) (completed_job now_ms)
              (scheduled_jobs db)) (\<lambda>(_, jobs).
            Inr (Applied, db\<lparr>scheduled_jobs := jobs\<rparr>)))))"

lemmas job_operations = release_job_def defer_job_def reschedule_job_def extend_job_lease_def
  fail_job_def cancel_job_def cancel_claimed_job_def

section \<open>The life of a job\<close>

text \<open>
  What any operation may do to a row: the contract of the table. Everything else about the
  operations (which row, when, with which answer) is in their own lemmas.
\<close>

inductive job_move :: "job_row \<Rightarrow> job_row \<Rightarrow> bool" where
  Exhaust: "job_state j = Job_pending \<or> job_state j = Job_claimed \<Longrightarrow>
    job_max_attempts j \<le> job_attempts j \<Longrightarrow> job_state j' = Job_dead \<Longrightarrow>
    job_attempts j' = job_attempts j \<Longrightarrow> job_move j j'"
| Claim: "job_state j = Job_pending \<or> job_state j = Job_claimed \<Longrightarrow>
    job_attempts j < job_max_attempts j \<Longrightarrow> job_state j' = Job_claimed \<Longrightarrow>
    job_attempts j' = job_attempts j + 1 \<Longrightarrow> job_move j j'"
| Give_back: "job_state j = Job_claimed \<Longrightarrow> job_state j' = Job_pending \<Longrightarrow>
    job_attempts j' = max (job_attempts j - 1) 0 \<Longrightarrow> job_move j j'"
| Retry: "job_state j = Job_claimed \<Longrightarrow> job_state j' = Job_pending \<Longrightarrow>
    job_attempts j' = job_attempts j \<Longrightarrow> job_move j j'"
| Extend: "job_state j = Job_claimed \<Longrightarrow> job_state j' = Job_claimed \<Longrightarrow>
    job_attempts j' = job_attempts j \<Longrightarrow> job_move j j'"
| Settle: "job_state j = Job_claimed \<Longrightarrow>
    job_state j' = Job_completed \<or> job_state j' = Job_dead \<or> job_state j' = Job_cancelled \<Longrightarrow>
    job_attempts j' = job_attempts j \<Longrightarrow> job_move j j'"
| Cancel: "job_state j = Job_pending \<Longrightarrow> job_state j' = Job_cancelled \<Longrightarrow>
    job_attempts j' = job_attempts j \<Longrightarrow> job_move j j'"

text \<open>The columns no operation writes, and the constraints of the table.\<close>

definition job_kept :: "job_row \<Rightarrow> job_row \<Rightarrow> bool" where
  "job_kept j j' \<longleftrightarrow> job_id j' = job_id j \<and> job_type j' = job_type j \<and> job_key j' = job_key j
     \<and> job_aggregate_type j' = job_aggregate_type j \<and> job_aggregate_id j' = job_aggregate_id j
     \<and> job_payload j' = job_payload j \<and> job_max_attempts j' = job_max_attempts j
     \<and> job_created_at j' = job_created_at j \<and> job_updated_at j \<le> job_updated_at j'"

definition job_step :: "job_row \<Rightarrow> job_row \<Rightarrow> bool" where
  "job_step j j' \<longleftrightarrow> job_move j j' \<and> job_kept j j' \<and> job_check j'"

definition jobs_moved :: "durable_db \<Rightarrow> durable_db \<Rightarrow> bool" where
  "jobs_moved db db' \<longleftrightarrow> list_all2 job_step\<^sup>*\<^sup>* (scheduled_jobs db) (scheduled_jobs db')"

lemma jobs_moved_refl [simp]: "jobs_moved db db" by (simp add: jobs_moved_def)

lemma update_jobs_moved:
  assumes "update_jobs condition change otherwise db = Inr (status, db')"
    and "\<And>j. condition j \<Longrightarrow> job_check (change j) \<Longrightarrow> job_move j (change j) \<and> job_kept j (change j)"
  shows "jobs_moved db db'"
proof -
  obtain n where u: "update_rows job_check ''scheduled_job'' condition change (scheduled_jobs db)
      = Inr (n, scheduled_jobs db')"
    using assms(1) by (auto simp: update_jobs_def rbind_eq_Inr)
  show ?thesis unfolding jobs_moved_def
    by (rule update_rows_move [OF u]) (simp add: job_step_def assms(2))
qed

lemma job_ownedD: "job_owned c j \<Longrightarrow> job_state j = Job_claimed"
  by (simp add: job_owned_def)

lemma release_job_moved: "release_job c now_ms db = Inr (status, db') \<Longrightarrow> jobs_moved db db'"
  unfolding release_job_def
  by (erule update_jobs_moved) (auto simp: drop_lease_def job_kept_def dest!: job_ownedD
      intro: job_move.Give_back)

lemma defer_job_moved:
  "defer_job c now_ms retry_at code db = Inr (status, db') \<Longrightarrow> jobs_moved db db'"
  unfolding defer_job_def rbind_eq_Inr require_eq_Inr
  by (elim exE conjE update_jobs_moved) (auto simp: drop_lease_def job_kept_def dest!: job_ownedD
      intro: job_move.Give_back)

lemma reschedule_job_moved:
  "reschedule_job c now_ms due db = Inr (status, db') \<Longrightarrow> jobs_moved db db'"
  unfolding reschedule_job_def rbind_eq_Inr require_eq_Inr
  by (elim exE conjE update_jobs_moved) (auto simp: drop_lease_def job_kept_def dest!: job_ownedD
      intro: job_move.Give_back)

lemma extend_job_lease_moved:
  "extend_job_lease c now_ms until db = Inr (status, db') \<Longrightarrow> jobs_moved db db'"
  unfolding extend_job_lease_def rbind_eq_Inr require_eq_Inr
  by (elim exE conjE update_jobs_moved) (auto simp: job_kept_def dest!: job_ownedD
      intro: job_move.Extend)

lemma fail_job_moved:
  "fail_job c now_ms retry_at code retryable db = Inr (status, db') \<Longrightarrow> jobs_moved db db'"
  unfolding fail_job_def rbind_eq_Inr Let_def
  by (elim exE conjE update_jobs_moved) (auto simp: drop_lease_def job_kept_def dest!: job_ownedD
      intro: job_move.Retry job_move.Settle)

lemma cancel_job_moved: "cancel_job i now_ms db = Inr (status, db') \<Longrightarrow> jobs_moved db db'"
  unfolding cancel_job_def
  by (erule update_jobs_moved) (auto simp: cancelled_job_def drop_lease_def job_kept_def
      intro: job_move.Cancel)

lemma cancel_claimed_job_moved:
  "cancel_claimed_job c now_ms db = Inr (status, db') \<Longrightarrow> jobs_moved db db'"
  unfolding cancel_claimed_job_def
  by (erule update_jobs_moved) (auto simp: cancelled_job_def drop_lease_def job_kept_def
      dest!: job_ownedD intro: job_move.Settle)

lemma complete_notice_job_moved:
  assumes "complete_notice_job json_valid notice encode c event outbox now_ms db = Inr (status, db')"
  shows "jobs_moved db db'"
proof -
  have complete: "jobs_moved db0 (db1\<lparr>scheduled_jobs := jobs\<rparr>)"
    if "scheduled_jobs db0 = scheduled_jobs db1" and u: "update_rows job_check ''scheduled_job''
         (\<lambda>j. job_id j = i \<and> job_state j = Job_claimed \<and> job_lease_token j = t)
         (completed_job now_ms) (scheduled_jobs db1) = Inr (n, jobs)" for db0 db1 n jobs i t
  proof -
    have "list_all2 job_step\<^sup>*\<^sup>* (scheduled_jobs db1) jobs"
      by (rule update_rows_move [OF u])
        (auto simp: job_step_def completed_job_def drop_lease_def job_kept_def intro: job_move.Settle)
    with that(1) show ?thesis by (simp add: jobs_moved_def)
  qed
  show ?thesis
  proof (cases "status = Applied \<and> db' \<noteq> db")
    case False
    then show ?thesis using assms complete
      by (auto simp: complete_notice_job_def rbind_eq_Inr stale_job_status_def
          split: option.splits if_splits)
  next
    case True
    then obtain p c1 db1 c2 db2 n jobs where
        e: "insert_event json_valid event db = Inr (c1, db1)" and
        o: "insert_outbox json_valid outbox p db1 = Inr (c2, db2)" and
        u: "update_rows job_check ''scheduled_job''
          (\<lambda>j. job_id j = claim_job_id c \<and> job_state j = Job_claimed
             \<and> job_lease_token j = Some (claim_token c)) (completed_job now_ms)
          (scheduled_jobs db2) = Inr (n, jobs)" and
        d: "db' = db2\<lparr>scheduled_jobs := jobs\<rparr>"
      using assms by (auto simp: complete_notice_job_def rbind_eq_Inr split: option.splits if_splits)
    have "scheduled_jobs db2 = scheduled_jobs db1" using o
      by (auto simp: insert_outbox_def rbind_eq_Inr Let_def split: if_splits)
    then have "scheduled_jobs db = scheduled_jobs db2" using insert_event_inserted(2) [OF e] by simp
    then show ?thesis unfolding d by (rule complete [OF _ u])
  qed
qed

lemma claim_due_job_moved:
  assumes "claim_due_job codec now_ms lease_until owner token db = Inr (claimed, db')"
    and ids: "distinct (map job_id (scheduled_jobs db))"
  shows "jobs_moved db db'"
proof -
  obtain n jobs where u: "update_rows job_check ''scheduled_job''
       (\<lambda>j. job_eligible now_ms j \<and> job_max_attempts j \<le> job_attempts j) (exhaust_job now_ms)
       (scheduled_jobs db) = Inr (n, jobs)"
    using assms(1) by (auto simp: claim_due_job_def rbind_eq_Inr)
  have swept: "list_all2 job_step\<^sup>*\<^sup>* (scheduled_jobs db) jobs"
    by (rule update_rows_move [OF u])
      (auto simp: job_step_def exhaust_job_def job_kept_def job_eligible_def intro: job_move.Exhaust)
  have ids': "distinct (map job_id jobs)"
    using update_rows_key [OF u, of job_id] ids by (simp add: exhaust_job_def)
  show ?thesis
  proof (cases "first_by (\<lambda>j. (due_at j, job_id j))
      (filter (\<lambda>j. job_eligible now_ms j \<and> job_attempts j < job_max_attempts j) jobs)")
    case None
    then have "scheduled_jobs db' = jobs" using assms(1) u
      by (auto simp: claim_due_job_def rbind_eq_Inr)
    with swept show ?thesis by (simp add: jobs_moved_def)
  next
    case (Some j)
    then obtain m jobs' where u': "update_rows job_check ''scheduled_job'' (\<lambda>r. job_id r = job_id j)
          (lease_job now_ms lease_until owner token (job_attempts j + 1)) jobs = Inr (m, jobs')"
        "scheduled_jobs db' = jobs'"
      using assms(1) u by (auto simp: claim_due_job_def rbind_eq_Inr Let_def)
    have j: "j \<in> set jobs" "job_eligible now_ms j" "job_attempts j < job_max_attempts j"
      using first_by_Some(1) [OF Some] by auto
    have same: "r = j" if "r \<in> set jobs" "job_id r = job_id j" for r
      by (rule distinct_key_eq [OF ids' that(1) j(1) that(2)])
    have "list_all2 job_step\<^sup>*\<^sup>* jobs jobs'"
      by (rule update_rows_move [OF u'(1)])
        (use j in \<open>auto simp: job_step_def lease_job_def job_kept_def job_eligible_def
           dest!: same intro: job_move.Claim\<close>)
    with swept show ?thesis unfolding jobs_moved_def u'(2)
      by (rule list_all2_rtranclp_trans)
  qed
qed

end
