(* ===== verification/Job_Life.thy ===== *)
theory Job_Life
  imports Job_Store
begin

text \<open>
  The histories of the job table: which calls there are, the invariant they keep, that a
  finished job stays finished, what claiming does exactly, and that a lease that was lost
  gives no power over the job.
\<close>

section \<open>Histories\<close>

text \<open>
  One call of the repository that concerns jobs, with any arguments (claims included: a
  caller may hold a claim that expired, or none that was ever issued), that did not throw.
\<close>

inductive job_call ::
    "(string \<Rightarrow> bool) \<Rightarrow> (string \<Rightarrow> string \<Rightarrow> 'j option) \<Rightarrow> 'p payload_codec \<Rightarrow> ('p \<Rightarrow> 'n option)
     \<Rightarrow> ('n \<Rightarrow> string \<Rightarrow> string \<Rightarrow> string) \<Rightarrow> durable_db \<Rightarrow> durable_db \<Rightarrow> bool"
  for json_valid norm_payload codec notice encode
  where
  Append: "append_event json_valid event db = Inr (created, db') \<Longrightarrow>
    job_call json_valid norm_payload codec notice encode db db'"
| Schedule: "schedule_notice json_valid norm_payload event job payload db = Inr (created, db') \<Longrightarrow>
    job_call json_valid norm_payload codec notice encode db db'"
| Enqueue: "enqueue_message json_valid norm_payload event outbox payload db = Inr (created, db') \<Longrightarrow>
    job_call json_valid norm_payload codec notice encode db db'"
| Claim_due: "claim_due_job codec now_ms lease_until owner token db = Inr (claimed, db') \<Longrightarrow>
    job_call json_valid norm_payload codec notice encode db db'"
| Complete: "complete_notice_job json_valid notice encode c event outbox now_ms db = Inr (status, db')
    \<Longrightarrow> job_call json_valid norm_payload codec notice encode db db'"
| Release: "release_job (c :: 'p claimed_job) now_ms db = Inr (status, db') \<Longrightarrow>
    job_call json_valid norm_payload codec notice encode db db'"
| Defer: "defer_job (c :: 'p claimed_job) now_ms retry_at code db = Inr (status, db') \<Longrightarrow>
    job_call json_valid norm_payload codec notice encode db db'"
| Reschedule: "reschedule_job (c :: 'p claimed_job) now_ms due db = Inr (status, db') \<Longrightarrow>
    job_call json_valid norm_payload codec notice encode db db'"
| Extend_lease: "extend_job_lease (c :: 'p claimed_job) now_ms lease_until db = Inr (status, db') \<Longrightarrow>
    job_call json_valid norm_payload codec notice encode db db'"
| Fail: "fail_job (c :: 'p claimed_job) now_ms retry_at code retryable db = Inr (status, db') \<Longrightarrow>
    job_call json_valid norm_payload codec notice encode db db'"
| Cancel: "cancel_job i now_ms db = Inr (status, db') \<Longrightarrow>
    job_call json_valid norm_payload codec notice encode db db'"
| Cancel_claimed: "cancel_claimed_job (c :: 'p claimed_job) now_ms db = Inr (status, db') \<Longrightarrow>
    job_call json_valid norm_payload codec notice encode db db'"

text \<open>A call moves the rows that are there and may append a new pending one.\<close>

definition job_row_ok :: "job_row \<Rightarrow> bool" where
  "job_row_ok j \<longleftrightarrow> job_check j \<and> job_attempts j \<le> job_max_attempts j
     \<and> 1 \<le> job_max_attempts j \<and> job_max_attempts j \<le> 20
     \<and> (job_state j = Job_claimed \<longrightarrow> 1 \<le> job_attempts j)"

definition jobs_grown :: "durable_db \<Rightarrow> durable_db \<Rightarrow> bool" where
  "jobs_grown db db' \<longleftrightarrow> jobs_moved db db'
     \<or> (\<exists>row. scheduled_jobs db' = scheduled_jobs db @ [row] \<and> job_row_ok row
          \<and> job_id row \<notin> job_id ` set (scheduled_jobs db))"

lemma insert_outbox_jobs:
  "insert_outbox json_valid outbox payload db = Inr (created, db') \<Longrightarrow>
   scheduled_jobs db' = scheduled_jobs db"
  by (auto simp: insert_outbox_def rbind_eq_Inr Let_def split: if_splits)

lemma enqueue_message_jobs:
  assumes "enqueue_message json_valid norm_payload event outbox payload db = Inr (created, db')"
  shows "scheduled_jobs db' = scheduled_jobs db"
  using assms insert_event_inserted(2) insert_outbox_jobs
  by (fastforce simp: enqueue_message_def rbind_eq_Inr split: if_splits)

lemma insert_job_grown:
  "insert_job json_valid job payload db = Inr (created, db') \<Longrightarrow> jobs_grown db db'"
  by (auto simp: insert_job_def rbind_eq_Inr Let_def jobs_grown_def job_row_ok_def new_job_row_def
      split: if_splits)

lemma schedule_notice_grown:
  assumes "schedule_notice json_valid norm_payload event job payload db = Inr (created, db')"
  shows "jobs_grown db db'"
proof -
  have "jobs_grown db db'" if e: "insert_event json_valid event db = Inr (c1, db1)"
    and "insert_job json_valid job payload db1 = Inr (c2, db')" for c1 c2 db1
    using insert_job_grown [OF that(2)] insert_event_inserted(2) [OF e]
    by (simp add: jobs_grown_def jobs_moved_def)
  moreover have "jobs_grown db db" by (simp add: jobs_grown_def)
  ultimately show ?thesis using assms
    by (auto simp: schedule_notice_def rbind_eq_Inr split: if_splits)
qed

lemma jobs_same_grown: "scheduled_jobs db' = scheduled_jobs db \<Longrightarrow> jobs_grown db db'"
  by (simp add: jobs_grown_def jobs_moved_def)

lemma job_call_grown:
  assumes "job_call json_valid norm_payload codec notice encode db db'"
    and "distinct (map job_id (scheduled_jobs db))"
  shows "jobs_grown db db'"
  using assms
proof cases
  case Append
  then show ?thesis
    using insert_event_inserted(2) jobs_same_grown unfolding append_event_def by metis
next
  case Schedule then show ?thesis by (rule schedule_notice_grown)
next
  case Enqueue then show ?thesis using enqueue_message_jobs jobs_same_grown by metis
next
  case Claim_due
  then show ?thesis using claim_due_job_moved assms(2) unfolding jobs_grown_def by metis
qed (auto simp: jobs_grown_def dest: complete_notice_job_moved release_job_moved defer_job_moved
      reschedule_job_moved extend_job_lease_moved fail_job_moved cancel_job_moved
      cancel_claimed_job_moved)

section \<open>The invariant of the job table\<close>

lemma job_step_ok: "job_step j j' \<Longrightarrow> job_row_ok j \<Longrightarrow> job_row_ok j'"
proof -
  assume s: "job_step j j'" and ok: "job_row_ok j"
  have "0 \<le> job_attempts j" using ok by (simp add: job_row_ok_def job_check_def)
  with s ok show "job_row_ok j'"
    by (auto simp: job_step_def job_kept_def job_row_ok_def elim!: job_move.cases)
qed

lemma job_steps_ok: "job_step\<^sup>*\<^sup>* j j' \<Longrightarrow> job_row_ok j \<Longrightarrow> job_row_ok j'"
  by (induction rule: rtranclp_induct) (auto intro: job_step_ok)

lemma job_steps_id: "job_step\<^sup>*\<^sup>* j j' \<Longrightarrow> job_id j' = job_id j"
  by (induction rule: rtranclp_induct) (auto simp: job_step_def job_kept_def)

lemma jobs_moved_ids: "jobs_moved db db' \<Longrightarrow> map job_id (scheduled_jobs db') = map job_id (scheduled_jobs db)"
  unfolding jobs_moved_def
  by (rule nth_equalityI) (auto simp: list_all2_conv_all_nth dest: job_steps_id)

definition jobs_ok :: "durable_db \<Rightarrow> bool" where
  "jobs_ok db \<longleftrightarrow> distinct (map job_id (scheduled_jobs db)) \<and> (\<forall>j \<in> set (scheduled_jobs db). job_row_ok j)"

lemma jobs_grown_ok: "jobs_grown db db' \<Longrightarrow> jobs_ok db \<Longrightarrow> jobs_ok db'"
proof -
  assume g: "jobs_grown db db'" and ok: "jobs_ok db"
  show "jobs_ok db'"
  proof (cases "jobs_moved db db'")
    case True
    have "\<forall>j \<in> set (scheduled_jobs db'). job_row_ok j"
    proof
      fix j assume "j \<in> set (scheduled_jobs db')"
      then obtain i where "i < length (scheduled_jobs db)" "job_step\<^sup>*\<^sup>* (scheduled_jobs db ! i) j"
        using True unfolding jobs_moved_def by (metis in_set_conv_nth list_all2_conv_all_nth)
      then show "job_row_ok j" using ok by (auto simp: jobs_ok_def intro: job_steps_ok)
    qed
    then show ?thesis using ok jobs_moved_ids [OF True] by (simp add: jobs_ok_def)
  next
    case False
    then show ?thesis using g ok by (auto simp: jobs_grown_def jobs_ok_def)
  qed
qed

lemma job_calls_ok:
  assumes "(job_call json_valid norm_payload codec notice encode)\<^sup>*\<^sup>* db db'" "jobs_ok db"
  shows "jobs_ok db'"
  using assms
proof (induction rule: rtranclp_induct)
  case (step y z)
  then have ok: "jobs_ok y" by simp
  then have "jobs_grown y z" using step.hyps(2) by (auto simp: jobs_ok_def intro: job_call_grown)
  then show ?case using ok by (rule jobs_grown_ok)
qed

lemma empty_jobs_ok [simp]: "scheduled_jobs db = [] \<Longrightarrow> jobs_ok db"
  by (simp add: jobs_ok_def)

text \<open>Property C17: in every history of calls, with whatever claims they are made, every job satisfies the
  constraints of its table, has at most its 20 bounded attempts, is claimed at least at its
  first attempt, and ids stay unique.\<close>
theorem job_table_invariant:
  assumes "(job_call json_valid norm_payload codec notice encode)\<^sup>*\<^sup>* db db'"
    and "scheduled_jobs db = []"
  shows "distinct (map job_id (scheduled_jobs db')) \<and> list_all (\<lambda>j. job_check j
      \<and> 0 \<le> job_attempts j \<and> job_attempts j \<le> job_max_attempts j \<and> job_max_attempts j \<le> 20
      \<and> (job_state j = Job_claimed \<longrightarrow> 1 \<le> job_attempts j)) (scheduled_jobs db')"
  using job_calls_ok [OF assms(1)] assms(2)
  by (auto simp: jobs_ok_def job_row_ok_def list_all_iff job_check_def)

section \<open>Terminal jobs\<close>

lemma terminal_job_steps: "job_step\<^sup>*\<^sup>* j j' \<Longrightarrow> terminal_job (job_state j) \<Longrightarrow> j' = j"
  by (induction rule: rtranclp_induct)
    (auto simp: job_step_def terminal_job_def elim!: job_move.cases)

lemma terminal_job_stays:
  assumes "jobs_grown db db'" "j \<in> set (scheduled_jobs db)" "terminal_job (job_state j)"
  shows "j \<in> set (scheduled_jobs db')"
proof (cases "jobs_moved db db'")
  case True
  then obtain j' where "j' \<in> set (scheduled_jobs db')" "job_step\<^sup>*\<^sup>* j j'"
    using assms(2) unfolding jobs_moved_def by (metis in_set_conv_nth list_all2_conv_all_nth)
  with terminal_job_steps assms(3) show ?thesis by metis
next
  case False
  then show ?thesis using assms by (auto simp: jobs_grown_def)
qed

text \<open>A job that is completed, cancelled or dead stays as it is, whatever is called after.\<close>
theorem terminal_job_is_final:
  assumes "(job_call json_valid norm_payload codec notice encode)\<^sup>*\<^sup>* db0 db" "scheduled_jobs db0 = []"
    and "j \<in> set (scheduled_jobs db)" "terminal_job (job_state j)"
    and "(job_call json_valid norm_payload codec notice encode)\<^sup>*\<^sup>* db db'"
  shows "j \<in> set (scheduled_jobs db')"
proof -
  have ok: "jobs_ok db" using job_calls_ok [OF assms(1)] assms(2) by simp
  have "jobs_ok db' \<and> j \<in> set (scheduled_jobs db')" using assms(5)
  proof (induction rule: rtranclp_induct)
    case base then show ?case using ok assms(3) by simp
  next
    case (step d d')
    then have "jobs_grown d d'" by (auto simp: jobs_ok_def intro: job_call_grown)
    with step show ?case using jobs_grown_ok terminal_job_stays assms(4) by blast
  qed
  then show ?thesis ..
qed

section \<open>Claiming\<close>

definition claimable :: "int \<Rightarrow> job_row \<Rightarrow> bool" where
  "claimable now_ms j \<longleftrightarrow> job_eligible now_ms j \<and> job_attempts j < job_max_attempts j"

definition swept_job :: "int \<Rightarrow> job_row \<Rightarrow> job_row" where
  "swept_job now_ms j =
     (if job_eligible now_ms j \<and> job_max_attempts j \<le> job_attempts j then exhaust_job now_ms j else j)"

lemma exhausted_code_ok: "machine_text 96 ''attempts_exhausted''" by code_simp

lemma exhaust_job_check:
  "job_check j \<Longrightarrow> job_eligible now_ms j \<Longrightarrow> job_check (exhaust_job now_ms j)"
  by (auto simp: job_check_def exhaust_job_def job_eligible_def terminal_job_def exhausted_code_ok)

lemma lease_job_check:
  assumes "job_check j" "job_eligible now_ms j" "0 \<le> until" "between 1 128 (sql_length owner)"
    "valid_uuid_v4 token" "attempts = job_attempts j + 1"
  shows "job_check (lease_job now_ms until owner token attempts j)"
  using assms by (auto simp: job_check_def lease_job_def job_eligible_def terminal_job_def)

lemma swept_claimable: "claimable now_ms (swept_job now_ms j) \<longleftrightarrow> claimable now_ms j"
  by (auto simp: claimable_def swept_job_def exhaust_job_def job_eligible_def)

lemma swept_when_claimable: "claimable now_ms j \<Longrightarrow> swept_job now_ms j = j"
  by (simp add: claimable_def swept_job_def)

lemma swept_id [simp]: "job_id (swept_job now_ms j) = job_id j"
  by (simp add: swept_job_def exhaust_job_def)

lemma filter_swept:
  "filter (\<lambda>j. job_eligible now_ms j \<and> job_attempts j < job_max_attempts j) (map (swept_job now_ms) jobs)
     = filter (claimable now_ms) jobs"
  unfolding claimable_def [symmetric]
  by (induction jobs) (auto simp: swept_claimable swept_when_claimable)

lemma sweep_served:
  assumes "jobs_ok db"
  shows "\<exists>n. update_rows job_check ''scheduled_job''
       (\<lambda>j. job_eligible now_ms j \<and> job_max_attempts j \<le> job_attempts j) (exhaust_job now_ms)
       (scheduled_jobs db) = Inr (n, map (swept_job now_ms) (scheduled_jobs db))"
  using assms
  by (auto simp: update_rows_Inr jobs_ok_def job_row_ok_def exhaust_job_check swept_job_def [abs_def])

text \<open>Property C15: claiming serves every well-formed request: it buries the due jobs without attempts
  left, answers nothing exactly when no other job is due, and otherwise leases the due job
  with the least due time and id, counting the attempt, and leaves every other row alone.\<close>
theorem claim_due_job_correct:
  assumes ok: "jobs_ok db" and "0 \<le> now_ms" "0 \<le> lease_until"
    and "between 1 128 (sql_length owner)" "valid_uuid_v4 token"
  shows "case claim_due_job codec now_ms lease_until owner token db of
      Inl e \<Rightarrow> False
    | Inr (None, db') \<Rightarrow> list_all (\<lambda>j. \<not> claimable now_ms j) (scheduled_jobs db)
        \<and> db' = db\<lparr>scheduled_jobs := map (swept_job now_ms) (scheduled_jobs db)\<rparr>
    | Inr (Some c, db') \<Rightarrow> (\<exists>j \<in> set (scheduled_jobs db). claimable now_ms j
        \<and> list_all (\<lambda>k. claimable now_ms k \<longrightarrow> (due_at j, job_id j) \<le> (due_at k, job_id k)) (scheduled_jobs db)
        \<and> claim_job_id c = job_id j \<and> claim_job_type c = job_type j \<and> claim_owner c = owner
        \<and> claim_token c = token \<and> int (claim_attempts c) = job_attempts j + 1
        \<and> int (claim_max_attempts c) = job_max_attempts j
        \<and> claim_payload c = decode_payload codec (job_type j) (job_payload j)
        \<and> db' = db\<lparr>scheduled_jobs := map (\<lambda>k. if k = j
             then lease_job now_ms lease_until owner token (job_attempts j + 1) j
             else swept_job now_ms k) (scheduled_jobs db)\<rparr>)"
proof -
  obtain n where sweep: "update_rows job_check ''scheduled_job''
       (\<lambda>j. job_eligible now_ms j \<and> job_max_attempts j \<le> job_attempts j) (exhaust_job now_ms)
       (scheduled_jobs db) = Inr (n, map (swept_job now_ms) (scheduled_jobs db))"
    using sweep_served [OF ok] by auto
  let ?key = "\<lambda>j. (due_at j, job_id j)"
  show ?thesis
  proof (cases "first_by ?key (filter (claimable now_ms) (scheduled_jobs db))")
    case None
    have "claim_due_job codec now_ms lease_until owner token db
        = Inr (None, db\<lparr>scheduled_jobs := map (swept_job now_ms) (scheduled_jobs db)\<rparr>)"
      using assms(2,3) by (simp add: claim_due_job_def sweep filter_swept None require_timestamp_def)
    moreover have "list_all (\<lambda>j. \<not> claimable now_ms j) (scheduled_jobs db)"
      using None by (auto simp: first_by_None filter_empty_conv list_all_iff)
    ultimately show ?thesis by simp
  next
    case (Some j)
    have j: "j \<in> set (scheduled_jobs db)" "claimable now_ms j"
      using first_by_Some(1) [OF Some] by auto
    have least: "list_all (\<lambda>k. claimable now_ms k \<longrightarrow> ?key j \<le> ?key k) (scheduled_jobs db)"
      using first_by_Some(2) [OF Some] by (auto simp: list_all_iff)
    have row: "job_check j" "0 \<le> job_attempts j" "0 \<le> job_max_attempts j"
      using ok j(1) by (auto simp: jobs_ok_def job_row_ok_def job_check_def)
    let ?lease = "lease_job now_ms lease_until owner token (job_attempts j + 1)"
    have only: "job_id k = job_id j \<longleftrightarrow> k = j" if "k \<in> set (scheduled_jobs db)" for k
      using ok that j(1) distinct_key_eq [of job_id "scheduled_jobs db" k j] by (auto simp: jobs_ok_def)
    have check: "job_check (?lease j)"
      by (rule lease_job_check [OF row(1) _ assms(3-5) refl]) (use j(2) in \<open>simp add: claimable_def\<close>)
    have change: "map (\<lambda>k. if job_id k = job_id j then ?lease k else k) (map (swept_job now_ms) (scheduled_jobs db))
        = map (\<lambda>k. if k = j then ?lease j else swept_job now_ms k) (scheduled_jobs db)"
      using only swept_when_claimable [OF j(2)] by auto
    have "\<exists>m. update_rows job_check ''scheduled_job'' (\<lambda>k. job_id k = job_id j) ?lease
          (map (swept_job now_ms) (scheduled_jobs db))
        = Inr (m, map (\<lambda>k. if k = j then ?lease j else swept_job now_ms k) (scheduled_jobs db))"
      using only check swept_when_claimable [OF j(2)]
      by (auto simp: update_rows_Inr change [symmetric])
    then obtain m where "update_rows job_check ''scheduled_job'' (\<lambda>k. job_id k = job_id j) ?lease
          (map (swept_job now_ms) (scheduled_jobs db))
        = Inr (m, map (\<lambda>k. if k = j then ?lease j else swept_job now_ms k) (scheduled_jobs db))" by blast
    then show ?thesis using assms(2,3) j least row
      by (auto simp: claim_due_job_def sweep filter_swept Some Let_def require_timestamp_def
          intro!: bexI [of _ j])
  qed
qed

section \<open>The lease\<close>

text \<open>Without the lease no operation of a claim does anything.\<close>

lemma update_jobs_none:
  assumes "list_all (\<lambda>j. \<not> condition j) (scheduled_jobs db)"
  shows "update_jobs condition change otherwise db = Inr (otherwise db, db)"
proof -
  have "filter condition (scheduled_jobs db) = []"
    using assms by (simp add: filter_empty_conv list_all_iff)
  moreover have "map (\<lambda>r. if condition r then change r else r) (scheduled_jobs db) = scheduled_jobs db"
    using assms by (intro map_idI) (auto simp: list_all_iff)
  ultimately show ?thesis using assms
    by (simp add: update_jobs_def update_rows_def list_all_iff)
qed

definition idle_answer :: "'p claimed_job \<Rightarrow> durable_db \<Rightarrow> (work_status \<times> durable_db) res \<Rightarrow> bool" where
  "idle_answer c db r \<longleftrightarrow> r = Inr (stale_job_status (claim_job_id c) db, db) \<or> (\<exists>m. r = Inl (Invalid_argument m))"

lemma idle_check: "idle_answer c db r \<Longrightarrow> (\<And>e. m = Inl e \<Longrightarrow> \<exists>t. e = Invalid_argument t) \<Longrightarrow>
  idle_answer c db (rbind m (\<lambda>_. r))"
  by (cases m) (auto simp: idle_answer_def)

lemma require_error: "require p (Invalid_argument m) = Inl e \<Longrightarrow> \<exists>t. e = Invalid_argument t"
  by simp

lemma idle_operations:
  assumes "list_all (\<lambda>j. \<not> job_owned c j) (scheduled_jobs db)"
  shows "idle_answer c db (release_job c now_ms db)"
    "idle_answer c db (defer_job c now_ms retry_at code db)"
    "idle_answer c db (reschedule_job c now_ms due db)"
    "idle_answer c db (extend_job_lease c now_ms until db)"
    "idle_answer c db (fail_job c now_ms retry_at code retryable db)"
    "idle_answer c db (cancel_claimed_job c now_ms db)"
proof -
  have idle: "idle_answer c db (update_jobs (job_owned c) f (stale_job_status (claim_job_id c)) db)" for f
    by (simp add: update_jobs_none [OF assms] idle_answer_def)
  show "idle_answer c db (release_job c now_ms db)" unfolding release_job_def by (rule idle)
  show "idle_answer c db (cancel_claimed_job c now_ms db)" unfolding cancel_claimed_job_def by (rule idle)
  show "idle_answer c db (defer_job c now_ms retry_at code db)"
    "idle_answer c db (reschedule_job c now_ms due db)"
    "idle_answer c db (extend_job_lease c now_ms until db)"
    "idle_answer c db (fail_job c now_ms retry_at code retryable db)"
    unfolding defer_job_def reschedule_job_def extend_job_lease_def fail_job_def require_simps Let_def
    by (intro idle_check idle; erule require_error)+
qed

lemma job_token_owner:
  assumes "jobs_ok db" "j \<in> set (scheduled_jobs db)" "job_id j = claim_job_id c"
    and "job_lease_token j \<noteq> Some (claim_token c)"
  shows "list_all (\<lambda>k. \<not> job_owned c k) (scheduled_jobs db)"
proof -
  have "k = j" if "k \<in> set (scheduled_jobs db)" "job_id k = job_id j" for k
    using assms(1,2) that distinct_key_eq [of job_id "scheduled_jobs db" k j] by (auto simp: jobs_ok_def)
  with assms(3,4) show ?thesis by (fastforce simp: list_all_iff job_owned_def)
qed

lemma lost_lease_idle:
  assumes ok: "jobs_ok db" and "0 \<le> t" "0 \<le> until" "between 1 128 (sql_length owner)" "valid_uuid_v4 token"
    and claim: "claim_due_job codec t until owner token db = Inr (Some c, db')"
    and old: "claim_job_id c' = claim_job_id c" "claim_token c' \<noteq> claim_token c"
  shows "release_job c' now_ms db' = Inr (Stale_claim, db')"
    and "idle_answer c' db' (defer_job c' now_ms retry_at code db')"
    and "idle_answer c' db' (reschedule_job c' now_ms due db')"
    and "idle_answer c' db' (extend_job_lease c' now_ms lease_until db')"
    and "idle_answer c' db' (fail_job c' now_ms retry_at code retryable db')"
    and "cancel_claimed_job c' now_ms db' = Inr (Stale_claim, db')"
    and "notice (claim_payload c') = Some p \<Longrightarrow> correlation_id event = claim_correlation c' \<Longrightarrow>
      causation_id event = claim_causation c' \<Longrightarrow>
      complete_notice_job json_valid notice encode c' event outbox now_ms db' = Inr (Stale_claim, db')"
proof -
  obtain j where j: "j \<in> set (scheduled_jobs db)" "claim_job_id c = job_id j" "claim_token c = token"
    "db' = db\<lparr>scheduled_jobs := map (\<lambda>k. if k = j
         then lease_job t until owner token (job_attempts j + 1) j
         else swept_job t k) (scheduled_jobs db)\<rparr>"
    using claim_due_job_correct [OF assms(1-5), of codec] unfolding claim by auto
  let ?j = "lease_job t until owner token (job_attempts j + 1) j"
  have row: "?j \<in> set (scheduled_jobs db')" "job_id ?j = job_id j" "job_lease_token ?j = Some token"
    "job_state ?j = Job_claimed"
    using j by (auto simp: lease_job_def)
  have ok': "jobs_ok db'"
    by (rule jobs_grown_ok [OF _ ok])
      (use claim_due_job_moved [OF claim] ok in \<open>simp add: jobs_grown_def jobs_ok_def\<close>)
  have none: "list_all (\<lambda>k. \<not> job_owned c' k) (scheduled_jobs db')"
    by (rule job_token_owner [OF ok' row(1)]) (use row j old in auto)
  have "find_row job_id (job_id ?j) (scheduled_jobs db') = Some ?j"
    by (rule find_row_unique [OF _ row(1)]) (use ok' in \<open>simp add: jobs_ok_def\<close>)
  then have "find_row job_id (claim_job_id c') (scheduled_jobs db') = Some ?j"
    using row(2) j(2) old(1) by simp
  then have stale: "stale_job_status (claim_job_id c') db' = Stale_claim"
    using row(4) by (simp add: stale_job_status_def)
  show "release_job c' now_ms db' = Inr (Stale_claim, db')"
    "cancel_claimed_job c' now_ms db' = Inr (Stale_claim, db')"
    unfolding release_job_def cancel_claimed_job_def update_jobs_none [OF none] stale by (rule refl)+
  show "idle_answer c' db' (defer_job c' now_ms retry_at code db')"
    "idle_answer c' db' (reschedule_job c' now_ms due db')"
    "idle_answer c' db' (extend_job_lease c' now_ms lease_until db')"
    "idle_answer c' db' (fail_job c' now_ms retry_at code retryable db')"
    by (rule idle_operations [OF none])+
  show "complete_notice_job json_valid notice encode c' event outbox now_ms db' = Inr (Stale_claim, db')"
    if "notice (claim_payload c') = Some p" "correlation_id event = claim_correlation c'"
      "causation_id event = claim_causation c'"
    using that none stale by (simp add: complete_notice_job_def list_ex_iff list_all_iff)
qed

text \<open>Property C20: a worker whose lease expired and whose job was claimed again with another token can no
  longer do anything to it: whatever it reports is answered as stale, or as an invalid
  argument, and changes nothing.\<close>
theorem lost_lease_is_harmless:
  assumes "jobs_ok db" "0 \<le> t" "0 \<le> until" "between 1 128 (sql_length owner)" "valid_uuid_v4 token"
    and "claim_due_job codec t until owner token db = Inr (Some c, db')"
    and "claim_job_id c' = claim_job_id c" "claim_token c' \<noteq> claim_token c"
    and "notice (claim_payload c') = Some p" "correlation_id event = claim_correlation c'"
    and "causation_id event = claim_causation c'"
  shows "release_job c' now_ms db' = Inr (Stale_claim, db')
    \<and> complete_notice_job json_valid notice encode c' event outbox now_ms db' = Inr (Stale_claim, db')
    \<and> cancel_claimed_job c' now_ms db' = Inr (Stale_claim, db')
    \<and> idle_answer c' db' (defer_job c' now_ms retry_at code db')
    \<and> idle_answer c' db' (reschedule_job c' now_ms due db')
    \<and> idle_answer c' db' (extend_job_lease c' now_ms lease_until db')
    \<and> idle_answer c' db' (fail_job c' now_ms retry_at code retryable db')"
  using lost_lease_idle [OF assms(1-8)] assms(9-11) by simp

section \<open>A concrete history\<close>

definition sample_job :: job_request where
  "sample_job = \<lparr>req_job_id = ''00000000-0000-4000-8000-000000000004'',
     req_job_type = ''owner_test.notice.v1'', req_job_aggregate_type = None,
     req_job_aggregate_id = None, req_due_at = 10, req_job_max_attempts = 3,
     req_job_key = ''job:1'', req_job_created_at = 10\<rparr>"

definition sample_codec :: "unit payload_codec" where
  "sample_codec = \<lparr>decode_payload = (\<lambda>_ _. ()), trace_from_payload = (\<lambda>_ i. (i, None))\<rparr>"

abbreviation "sample_row \<equiv> new_job_row sample_job ''{}''"
abbreviation "sample_jobs_db \<equiv> empty_durable_db\<lparr>event_journal := [sample_event],
  scheduled_jobs := [sample_row]\<rparr>"
abbreviation "sample_token \<equiv> ''00000000-0000-4000-8000-000000000005''"

lemmas char_eval = valid_uuid_v4_def lowercase_hex_def machine_text_def machine_char_def
  is_digit_def less_eq_char_def sql_length_def between_def

lemma sample_scheduled:
  "schedule_notice (\<lambda>_. True) (\<lambda>_. Some) sample_event sample_job ''{}'' empty_durable_db
     = Inr (True, sample_jobs_db)"
  by (simp add: schedule_notice_def compound_job_replay_def compound_replay_def insert_event_def
      insert_job_def require_simps event_matches_def job_matches_def find_row_def event_check_def
      event_references_def payload_check_def job_insert_check_def job_check_def terminal_job_def
      new_job_row_def sample_event_def sample_job_def empty_durable_db_def snowflake_is_set_def
      Let_def char_eval)

lemma sample_jobs_ok: "jobs_ok sample_jobs_db"
  by (simp add: jobs_ok_def job_row_ok_def job_check_def terminal_job_def new_job_row_def
      sample_job_def char_eval)

lemma sample_owner: "between 1 128 (sql_length ''worker'')" "valid_uuid_v4 sample_token"
  by (simp_all add: char_eval)

abbreviation "sample_call \<equiv> job_call (\<lambda>_. True) (\<lambda>_. Some) sample_codec Some (\<lambda>_ _ _. ''{}'')"
abbreviation "sample_cancelled_db \<equiv>
  sample_jobs_db\<lparr>scheduled_jobs := [cancelled_job 20 sample_row]\<rparr>"

lemma sample_jobs_history: "sample_call\<^sup>*\<^sup>* empty_durable_db sample_jobs_db"
  by (rule r_into_rtranclp) (rule job_call.Schedule [OF sample_scheduled])

lemma sample_cancel:
  "cancel_job (req_job_id sample_job) 20 sample_jobs_db = Inr (Applied, sample_cancelled_db)"
  by (simp add: cancel_job_def update_jobs_def update_rows_def cancelled_job_def drop_lease_def
      job_check_def terminal_job_def new_job_row_def sample_job_def)

lemma sample_cancelled_history: "sample_call\<^sup>*\<^sup>* empty_durable_db sample_cancelled_db"
  by (rule rtranclp.rtrancl_into_rtrancl [OF sample_jobs_history]) (rule job_call.Cancel [OF sample_cancel])

theorem job_table_invariant_witness:
  "list_all (\<lambda>j. job_check j \<and> job_attempts j \<le> job_max_attempts j) (scheduled_jobs sample_cancelled_db)"
  using job_table_invariant [OF sample_cancelled_history]
  by (auto simp: empty_durable_db_def list_all_iff)

theorem terminal_job_is_final_witness:
  "cancelled_job 20 sample_row \<in> set (scheduled_jobs sample_cancelled_db)"
  by (rule terminal_job_is_final [OF sample_cancelled_history _ _ _ rtranclp.rtrancl_refl])
    (simp_all add: empty_durable_db_def cancelled_job_def drop_lease_def terminal_job_def)

theorem claim_due_job_correct_witness:
  "\<exists>c db. claim_due_job sample_codec 20 80 ''worker'' sample_token sample_jobs_db = Inr (Some c, db)
     \<and> claim_job_id c = req_job_id sample_job \<and> claim_attempts c = 1"
proof -
  have "claimable 20 sample_row"
    by (simp add: claimable_def job_eligible_def new_job_row_def sample_job_def)
  then show ?thesis
    using claim_due_job_correct [OF sample_jobs_ok _ _ sample_owner, of 20 80 sample_codec]
    by (auto split: sum.splits option.splits prod.splits simp: list_all_iff new_job_row_def)
qed

lemma sample_claimed:
  obtains c db where
    "claim_due_job sample_codec 20 80 ''worker'' sample_token sample_jobs_db = Inr (Some c, db)"
    "claim_token c = sample_token"
proof -
  have "claimable 20 sample_row"
    by (simp add: claimable_def job_eligible_def new_job_row_def sample_job_def)
  then have "\<exists>c db. claim_due_job sample_codec 20 80 ''worker'' sample_token sample_jobs_db
      = Inr (Some c, db) \<and> claim_token c = sample_token"
    by (auto simp: claim_due_job_def claimable_def update_rows_def first_by_def Let_def new_job_row_def
        sample_job_def job_eligible_def require_timestamp_def job_check_def lease_job_def
        terminal_job_def char_eval)
  then show ?thesis using that by blast
qed

theorem lost_lease_is_harmless_witness:
  "\<exists>c db. claim_due_job sample_codec 20 80 ''worker'' sample_token sample_jobs_db = Inr (Some c, db)
     \<and> release_job (c\<lparr>claim_token := ''lost''\<rparr>) 100 db = Inr (Stale_claim, db)"
proof -
  obtain c db where c:
    "claim_due_job sample_codec 20 80 ''worker'' sample_token sample_jobs_db = Inr (Some c, db)"
    "claim_token c = sample_token"
    by (rule sample_claimed)
  have "release_job (c\<lparr>claim_token := ''lost''\<rparr>) 100 db = Inr (Stale_claim, db)"
    using lost_lease_is_harmless [OF sample_jobs_ok _ _ sample_owner c(1),
        of "c\<lparr>claim_token := ''lost''\<rparr>" Some "()"
          "sample_event\<lparr>correlation_id := claim_correlation c, causation_id := claim_causation c\<rparr>"] c(2)
    by simp
  with c show ?thesis by blast
qed

end
