(* ===== verification/Scheduler.thy ===== *)
theory Scheduler
  imports Job_Life Executor
begin

text \<open>
  The scheduler (\<^verbatim>\<open>src/src/scheduler.cpp\<close>): the registry of handlers, one polling cycle, which
  submits work to the bounded executor, and what a worker does with one job. It calls the
  durable repository through its abstract class: a record of the virtual operations it uses,
  with a locale of the laws it relies on, interpreted on the SQLite repository.
\<close>

section \<open>Handlers\<close>

definition retry_delay_ms :: "nat \<Rightarrow> int" where
  "retry_delay_ms attempt =
     [5000, 10000, 20000, 40000] ! (if attempt = 0 then 0 else min (attempt - 1) 3)"

lemma retry_delay_bounds: "5000 \<le> retry_delay_ms n \<and> retry_delay_ms n \<le> 40000"
proof -
  have "(if n = 0 then 0 else min (n - 1) 3) \<in> {0, 1, 2, 3 :: nat}" by auto
  then show ?thesis unfolding retry_delay_ms_def by auto
qed

text \<open>
  \<open>JobHandlerRegistry\<close> and \<open>OutboxHandlerRegistry\<close>, which differ in their messages; a
  handler that is an empty \<^verbatim>\<open>std::function\<close> is \<open>None\<close>.
\<close>

record 'h registry =
  handlers :: "string \<rightharpoonup> 'h"
  frozen :: bool

definition registry_add :: "string \<Rightarrow> string \<Rightarrow> 'h option \<Rightarrow> 'h registry \<Rightarrow> 'h registry res" where
  "registry_add what type handler r =
     (if frozen r then Inl (Logic_error (what @ '' handler registry is frozen.''))
      else case handler of
          Some h \<Rightarrow>
            if type \<noteq> [] \<and> handlers r type = None then Inr (r\<lparr>handlers := (handlers r)(type \<mapsto> h)\<rparr>)
            else Inl (Invalid_argument (what @ '' handler registration is invalid or duplicate.''))
        | None \<Rightarrow> Inl (Invalid_argument (what @ '' handler registration is invalid or duplicate.'')))"

definition registry_freeze :: "'h registry \<Rightarrow> 'h registry" where
  "registry_freeze r = r\<lparr>frozen := True\<rparr>"

definition registry_dispatch :: "string \<Rightarrow> string \<Rightarrow> 'h registry \<Rightarrow> 'h option res" where
  "registry_dispatch what type r =
     (if \<not> frozen r then Inl (Logic_error (what @ '' handler registry is not frozen.''))
      else Inr (handlers r type))"

section \<open>The repository as the scheduler sees it\<close>

record ('p, 'db) job_ops =
  ops_claim :: "int \<Rightarrow> int \<Rightarrow> string \<Rightarrow> string \<Rightarrow> 'db \<Rightarrow> ('p claimed_job option \<times> 'db) res"
  ops_release :: "'p claimed_job \<Rightarrow> int \<Rightarrow> 'db \<Rightarrow> (work_status \<times> 'db) res"
  ops_fail :: "'p claimed_job \<Rightarrow> int \<Rightarrow> int \<Rightarrow> string \<Rightarrow> bool \<Rightarrow> 'db \<Rightarrow> (work_status \<times> 'db) res"
  ops_complete :: "'p claimed_job \<Rightarrow> event_row \<Rightarrow> outbox_request \<Rightarrow> int \<Rightarrow> 'db
    \<Rightarrow> (work_status \<times> 'db) res"

definition sqlite_jobs ::
    "'p payload_codec \<Rightarrow> (string \<Rightarrow> bool) \<Rightarrow> ('p \<Rightarrow> 'n option) \<Rightarrow> ('n \<Rightarrow> string \<Rightarrow> string \<Rightarrow> string)
     \<Rightarrow> ('p, durable_db) job_ops"
  where
  "sqlite_jobs codec json_valid notice encode = \<lparr>ops_claim = claim_due_job codec,
     ops_release = release_job, ops_fail = fail_job,
     ops_complete = complete_notice_job json_valid notice encode\<rparr>"

section \<open>A worker\<close>

text \<open>
  How a handler ends. A handler is called with the claim and acts on the database; what it
  does there is part of its value.
\<close>

datatype job_outcome = Handled | Threw_exception | Threw_unknown

type_synonym ('p, 'db) job_handler = "'p claimed_job \<Rightarrow> 'db \<Rightarrow> job_outcome \<times> 'db"

text \<open>
  \<open>process_one\<close>: \<open>stop1\<close> and \<open>stop2\<close> are the two readings of the stop token, \<open>now\<close> and \<open>later\<close>
  those of the clock, \<open>token\<close> the fresh id. It answers the diagnostics it emits: component and
  correlation.
\<close>

definition settle_job ::
    "('p, 'db) job_ops \<Rightarrow> 'p claimed_job \<Rightarrow> int \<Rightarrow> string \<Rightarrow> 'db \<Rightarrow> 'db"
  where
  "settle_job ops c later code db =
     (case ops_fail ops c later (later + retry_delay_ms (claim_attempts c)) code True db of
        Inl _ \<Rightarrow> db | Inr (_, db') \<Rightarrow> db')"

definition work_on_job ::
    "('p, 'db) job_ops \<Rightarrow> ('p, 'db) job_handler registry \<Rightarrow> bool \<Rightarrow> int \<Rightarrow> 'p claimed_job \<Rightarrow> 'db
     \<Rightarrow> job_outcome \<times> (string \<times> string option) list \<times> 'db"
  where
  "work_on_job ops registry stop2 now c db =
     (if stop2
      then (case ops_release ops c now db of
          Inl _ \<Rightarrow> (Threw_exception, [], db) | Inr (_, db') \<Rightarrow> (Handled, [], db'))
      else case registry_dispatch ''Job'' (claim_job_type c) registry of
          Inl _ \<Rightarrow> (Threw_exception, [], db)
        | Inr None \<Rightarrow> (case ops_fail ops c now now ''handler_unknown_type'' False db of
              Inl _ \<Rightarrow> (Threw_exception, [], db)
            | Inr (_, db') \<Rightarrow> (Handled, [(''scheduler.unknown_type'', Some (claim_correlation c))], db'))
        | Inr (Some handler) \<Rightarrow> (case handler c db of (outcome, db') \<Rightarrow> (outcome, [], db')))"

definition process_one ::
    "('p, 'db) job_ops \<Rightarrow> ('p, 'db) job_handler registry \<Rightarrow> string \<Rightarrow> bool \<Rightarrow> bool \<Rightarrow> int \<Rightarrow> int \<Rightarrow> string
     \<Rightarrow> 'db \<Rightarrow> (string \<times> string option) list \<times> 'db"
  where
  "process_one ops registry instance_id stop1 stop2 now later token db =
     (if stop1 then ([], db)
      else case ops_claim ops now (now + 120000) instance_id token db of
          Inl _ \<Rightarrow> ([(''scheduler.handler'', None)], db)
        | Inr (None, db) \<Rightarrow> ([], db)
        | Inr (Some c, db) \<Rightarrow> (case work_on_job ops registry stop2 now c db of
              (Handled, diagnostics, db) \<Rightarrow> (diagnostics, db)
            | (Threw_exception, diagnostics, db) \<Rightarrow>
                (diagnostics @ [(''scheduler.handler'', Some (claim_correlation c))],
                 settle_job ops c later ''handler_exception'' db)
            | (Threw_unknown, diagnostics, db) \<Rightarrow>
                (diagnostics @ [(''scheduler.handler'', Some (claim_correlation c))],
                 settle_job ops c later ''handler_unknown_exception'' db)))"

text \<open>
  \<open>handle_test_notice\<close>, the handler the scheduler registers itself: \<open>notice\<close> answers the
  notice of a payload, of which it uses the target, the guild and the channel. It answers
  whether it woke the outbox.
\<close>

record notice_target =
  notice_user :: u64
  notice_guild :: u64
  notice_channel :: u64

definition test_notice_event :: "'p claimed_job \<Rightarrow> notice_target \<Rightarrow> int \<Rightarrow> string \<Rightarrow> event_row" where
  "test_notice_event c n current i = \<lparr>event_id = i, event_type = ''owner_test.notice_job_fired.v1'',
     event_aggregate_type = ''owner_test'', event_aggregate_id = claim_job_id c,
     actor_user_id = Some (notice_user n), event_guild_id = notice_guild n,
     event_channel_id = Some (notice_channel n), source_message_id = None,
     event_occurred_at = current, recorded_at = current, correlation_id = claim_correlation c,
     causation_id = claim_causation c, event_key = ''event:job-fired:'' @ claim_job_id c,
     event_payload = ''{}''\<rparr>"

definition test_notice_outbox ::
    "'p claimed_job \<Rightarrow> notice_target \<Rightarrow> int \<Rightarrow> string \<Rightarrow> string \<Rightarrow> outbox_request" where
  "test_notice_outbox c n current i nonce = \<lparr>req_outbox_id = i, req_kind = ''notice.pending.v1'',
     req_out_aggregate_type = Some ''owner_test'', req_out_aggregate_id = Some (claim_job_id c),
     req_target_guild = notice_guild n, req_target_channel = notice_channel n,
     req_target_user = Some (notice_user n), req_available_at = current,
     req_out_max_attempts = 5, req_out_key = ''outbox:job-notice:'' @ claim_job_id c,
     req_nonce = nonce, req_out_created_at = current\<rparr>"

definition handle_test_notice ::
    "('p, 'db) job_ops \<Rightarrow> ('p \<Rightarrow> notice_target option) \<Rightarrow> int \<Rightarrow> string \<Rightarrow> string
     \<Rightarrow> 'p claimed_job \<Rightarrow> 'db \<Rightarrow> (bool \<times> 'db) res"
  where
  "handle_test_notice ops notice current fresh_event fresh_outbox c db =
     (case notice (claim_payload c) of
        None \<Rightarrow> rbind (ops_fail ops c current current ''payload_invalid'' False db) (\<lambda>(_, db). Inr (False, db))
      | Some n \<Rightarrow>
          rbind (discord_nonce_from_uuid fresh_outbox) (\<lambda>nonce.
          rbind (ops_complete ops c (test_notice_event c n current fresh_event)
            (test_notice_outbox c n current fresh_outbox nonce) current db) (\<lambda>(status, db).
          Inr (status = Applied \<or> status = Unchanged, db))))"

text \<open>A function that may throw, as a handler: every exception of the model is a \<^verbatim>\<open>std::exception\<close>.\<close>

definition handler_of :: "('p claimed_job \<Rightarrow> 'db \<Rightarrow> ('x \<times> 'db) res) \<Rightarrow> ('p, 'db) job_handler" where
  "handler_of f c db = (case f c db of Inl _ \<Rightarrow> (Threw_exception, db) | Inr (_, db') \<Rightarrow> (Handled, db'))"

section \<open>A polling cycle\<close>

text \<open>
  \<open>run_one_cycle\<close>: it submits at most 16 tasks, and not more than there is room for at the
  snapshot; \<open>env\<close> is what workers and other callers do to the executor before each
  submission. The result counts the accepted submissions.
\<close>

fun submit_tasks :: "(nat \<Rightarrow> 'a executor \<Rightarrow> 'a executor) \<Rightarrow> 'a pending_task \<Rightarrow> nat \<Rightarrow> 'a executor
    \<Rightarrow> nat \<times> 'a executor"
  where
  "submit_tasks env p 0 s = (0, s)"
| "submit_tasks env p (Suc n) s = (case try_submit p (env n s) of
      (Accepted, _, s') \<Rightarrow> (case submit_tasks env p n s' of (k, s'') \<Rightarrow> (Suc k, s''))
    | (_, _, s') \<Rightarrow> (0, s'))"

definition run_one_cycle :: "(nat \<Rightarrow> 'a executor \<Rightarrow> 'a executor) \<Rightarrow> 'a pending_task \<Rightarrow> 'a executor
    \<Rightarrow> nat \<times> 'a executor"
  where
  "run_one_cycle env p s = (let snapshot = executor_snapshot s in
     if \<not> snapshot_accepting snapshot
       \<or> snapshot_capacity snapshot \<le> snapshot_queued snapshot + snapshot_active snapshot
     then (0, s)
     else submit_tasks env p
       (min (snapshot_capacity snapshot - snapshot_queued snapshot - snapshot_active snapshot) 16) s)"

section \<open>The lifecycle of the service\<close>

text \<open>
  \<open>start\<close>, \<open>add_handler\<close> and the constructor: the service owns its registry and a flag; the
  executor starts with it and is joined when it stops.
\<close>

record ('h, 'a) scheduler =
  job_registry :: "'h registry"
  job_workers :: "'a executor"
  scheduler_started :: bool

definition scheduler_new ::
    "nat \<Rightarrow> string \<Rightarrow> 'h \<Rightarrow> 'h option \<Rightarrow> ('h, 'a) scheduler res" where
  "scheduler_new queue_capacity instance_id test_notice chronicle_expiry =
     rbind (executor_new queue_capacity 1) (\<lambda>workers.
     rbind (require (instance_id \<noteq> []) (Invalid_argument ''Scheduler dependencies are incomplete.'')) (\<lambda>_.
     rbind (registry_add ''Job'' ''owner_test.notice.v1'' (Some test_notice)
       \<lparr>handlers = Map.empty, frozen = False\<rparr>) (\<lambda>r.
     rbind (if chronicle_expiry = None then Inr r
       else registry_add ''Job'' ''chronicle.memory-expire.v1'' chronicle_expiry r) (\<lambda>r.
     Inr \<lparr>job_registry = r, job_workers = workers, scheduler_started = False\<rparr>))))"

definition scheduler_add_handler ::
    "string \<Rightarrow> 'h option \<Rightarrow> ('h, 'a) scheduler \<Rightarrow> ('h, 'a) scheduler res" where
  "scheduler_add_handler type handler s =
     (if scheduler_started s
      then Inl (Logic_error ''Scheduler handlers must be registered before start.'')
      else rbind (registry_add ''Job'' type handler (job_registry s)) (\<lambda>r. Inr (s\<lparr>job_registry := r\<rparr>)))"

definition scheduler_start :: "('h, 'a) scheduler \<Rightarrow> ('h, 'a) scheduler res" where
  "scheduler_start s =
     (if scheduler_started s then Inl (Logic_error ''Scheduler may only be started once.'')
      else rbind (executor_start (job_workers s)) (\<lambda>w.
        Inr (s\<lparr>job_registry := registry_freeze (job_registry s), job_workers := w,
               scheduler_started := True\<rparr>)))"

section \<open>What the scheduler relies on\<close>

text \<open>
  The contract of the job operations: \<open>budget\<close> counts the attempts that are left over all live
  jobs. A claim uses one up, a failure never gives one back, releasing gives back at most one.
\<close>





section \<open>The SQLite repository honours the contract\<close>



definition claim_request_ok :: "int \<Rightarrow> int \<Rightarrow> string \<Rightarrow> string \<Rightarrow> bool" where
  "claim_request_ok now until owner token \<longleftrightarrow>
     0 \<le> now \<and> 0 \<le> until \<and> between 1 128 (sql_length owner) \<and> valid_uuid_v4 token"








section \<open>Properties\<close>


lemma fail_code_ok: "machine_text 96 ''handler_exception''" "machine_text 96 ''handler_unknown_type''"
  by (simp_all add: char_eval)

text \<open>Property C22: a job whose handler throws is kept for a later attempt after the delay for its attempt,
  and is buried when this was its last attempt.\<close>
theorem failing_job_is_retried_then_buried:
  assumes ok: "jobs_ok db" and request: "claim_request_ok now (now + 120000) owner token" and "0 \<le> later"
    and claim: "claim_due_job codec now (now + 120000) owner token db = Inr (Some c, db1)"
    and handler: "registry_dispatch ''Job'' (claim_job_type c) registry = Inr (Some h)"
    and throws: "h c db1 = (Threw_exception, db1)"
  shows "\<exists>j \<in> set (scheduled_jobs db). \<exists>j' \<in> set (scheduled_jobs
        (snd (process_one (sqlite_jobs codec json_valid notice encode) registry owner False False now later token db))).
      claimable now j \<and> job_id j = claim_job_id c \<and> job_id j' = job_id j
      \<and> job_attempts j' = job_attempts j + 1
      \<and> (if job_attempts j + 1 < job_max_attempts j
         then job_state j' = Job_pending \<and> due_at j' = later + retry_delay_ms (nat (job_attempts j + 1))
         else job_state j' = Job_dead) \<and> job_last_error j' = Some ''handler_exception''"
proof -
  have r: "0 \<le> now" "0 \<le> now + 120000" "between 1 128 (sql_length owner)" "valid_uuid_v4 token"
    using request by (auto simp: claim_request_ok_def)
  obtain j where j: "j \<in> set (scheduled_jobs db)" "claimable now j" "claim_job_id c = job_id j"
    "claim_token c = token" "claim_owner c = owner" "int (claim_attempts c) = job_attempts j + 1"
    "int (claim_max_attempts c) = job_max_attempts j"
    "db1 = db\<lparr>scheduled_jobs := map (\<lambda>k. if k = j
         then lease_job now (now + 120000) owner token (job_attempts j + 1) j
         else swept_job now k) (scheduled_jobs db)\<rparr>"
    using claim_due_job_correct [OF ok r, of codec] unfolding claim by auto
  let ?leased = "lease_job now (now + 120000) owner token (job_attempts j + 1) j"
  let ?change = "\<lambda>k. if claim_attempts c < claim_max_attempts c
     then drop_lease (k\<lparr>job_state := Job_pending, due_at := later + retry_delay_ms (claim_attempts c),
       job_updated_at := max later (job_updated_at k), job_terminal_at := None,
       job_last_error := Some ''handler_exception''\<rparr>)
     else drop_lease (k\<lparr>job_state := Job_dead, job_updated_at := max later (job_updated_at k),
       job_terminal_at := Some (max later (job_created_at k)),
       job_last_error := Some ''handler_exception''\<rparr>)"
  have ok1: "jobs_ok db1"
    by (rule jobs_grown_ok [OF _ ok])
      (use claim_due_job_moved [OF claim] ok in \<open>simp add: jobs_grown_def jobs_ok_def\<close>)
  have leased: "?leased \<in> set (scheduled_jobs db1)" "job_owned c ?leased"
    using j by (auto simp: job_owned_def lease_job_def)
  have d: "0 \<le> later + retry_delay_ms (claim_attempts c)"
    using assms(3) retry_delay_bounds [of "claim_attempts c"] by simp
  have checks: "job_check (?change k)" if k: "k \<in> set (scheduled_jobs db1)" "job_owned c k" for k
  proof -
    have "job_check k" "job_state k = Job_claimed"
      using ok1 k by (auto simp: jobs_ok_def job_row_ok_def job_owned_def)
    then show ?thesis using d by (auto simp: job_check_def drop_lease_def terminal_job_def fail_code_ok)
  qed
  have served: "update_rows job_check ''scheduled_job'' (job_owned c) ?change (scheduled_jobs db1)
      = Inr (length (filter (job_owned c) (scheduled_jobs db1)),
          map (\<lambda>k. if job_owned c k then ?change k else k) (scheduled_jobs db1))"
    by (rule update_rows_served) (rule checks)
  have f: "fail_job c later (later + retry_delay_ms (claim_attempts c)) ''handler_exception'' True db1
      = Inr (if length (filter (job_owned c) (scheduled_jobs db1)) = 0
          then stale_job_status (claim_job_id c) db1 else Applied, db1\<lparr>scheduled_jobs :=
        map (\<lambda>k. if job_owned c k then ?change k else k) (scheduled_jobs db1)\<rparr>)"
    unfolding fail_job_def require_type_def update_jobs_def Let_def
    by (simp only: fail_code_ok require_True rbind_simps served
        prod.case simp_thms)
  have "scheduled_jobs (snd (process_one (sqlite_jobs codec json_valid notice encode) registry owner
      False False now later token db))
    = map (\<lambda>k. if job_owned c k then ?change k else k) (scheduled_jobs db1)"
    by (simp add: process_one_def sqlite_jobs_def claim work_on_job_def handler throws settle_job_def f)
  then have "?change ?leased \<in> set (scheduled_jobs (snd (process_one
      (sqlite_jobs codec json_valid notice encode) registry owner False False now later token db)))"
    using leased by (auto simp: image_iff intro!: bexI [of _ ?leased])
  moreover have "claim_attempts c < claim_max_attempts c \<longleftrightarrow> job_attempts j + 1 < job_max_attempts j"
    "claim_attempts c = nat (job_attempts j + 1)"
    using j(6,7) by auto
  ultimately show ?thesis using j(1,2,3)
    by (intro bexI [of _ j] bexI [of _ "?change ?leased"]) (auto simp: drop_lease_def lease_job_def)
qed

definition failing_registry :: "(unit, durable_db) job_handler registry" where
  "failing_registry = \<lparr>handlers = (\<lambda>_. Some (\<lambda>c db. (Threw_exception, db))), frozen = True\<rparr>"

lemma sample_request:
  "claim_request_ok 20 (20 + 120000) ''worker'' sample_token"
  "claim_request_ok 6000 (6000 + 120000) ''worker'' sample_token"
  by (simp_all add: claim_request_ok_def char_eval)

lemma failing_dispatch:
  "registry_dispatch ''Job'' type failing_registry = Inr (Some (\<lambda>c db. (Threw_exception, db)))"
  by (simp add: registry_dispatch_def failing_registry_def)


theorem failing_job_is_retried_then_buried_witness:
  "\<exists>j \<in> set (scheduled_jobs (snd (process_one
       (sqlite_jobs sample_codec (\<lambda>_. True) Some (\<lambda>_ _ _. ''{}'')) failing_registry ''worker'' False False
       20 30 sample_token sample_jobs_db))).
     job_attempts j = 1 \<and> job_state j = Job_pending \<and> due_at j = 5030"
proof -
  have "claimable 20 sample_row"
    by (simp add: claimable_def job_eligible_def new_job_row_def sample_job_def)
  then obtain c db where claimed: "claim_due_job sample_codec 20 (20 + 120000) ''worker'' sample_token sample_jobs_db
      = Inr (Some c, db)"
    using claim_due_job_correct [OF sample_jobs_ok _ _ sample_owner, of 20 "20 + 120000" sample_codec]
    by (auto split: sum.splits option.splits prod.splits simp: list_all_iff)
  let ?after = "snd (process_one (sqlite_jobs sample_codec (\<lambda>_. True) Some (\<lambda>_ _ _. ''{}''))
      failing_registry ''worker'' False False 20 30 sample_token sample_jobs_db)"
  obtain j j' where "j \<in> set (scheduled_jobs sample_jobs_db)" "j' \<in> set (scheduled_jobs ?after)"
    "job_attempts j' = job_attempts j + 1"
    "if job_attempts j + 1 < job_max_attempts j
     then job_state j' = Job_pending \<and> due_at j' = 30 + retry_delay_ms (nat (job_attempts j + 1))
     else job_state j' = Job_dead"
    using failing_job_is_retried_then_buried [OF sample_jobs_ok sample_request(1) _ claimed
        failing_dispatch refl, of 30 "\<lambda>_. True" Some "\<lambda>_ _ _. ''{}''"] by auto
  moreover from this(1) have "job_attempts j = 0" "job_max_attempts j = 3"
    by (simp_all add: new_job_row_def sample_job_def)
  ultimately show ?thesis by (intro bexI [of _ j']) (simp_all add: retry_delay_ms_def)
qed

end
