(* ===== verification/Outbox_Store.thy ===== *)
theory Outbox_Store
  imports Scheduler
begin

text \<open>
  The outbox of the durable repository
  (\<^verbatim>\<open>src/src/persistence/sqlite_durable_work_repository.cpp\<close>): claiming the next message that
  may be sent, and what the owner of its lease does with it. The tables other repositories
  fill to order messages (dependencies, tarot cards and offers) are part of the state, with
  the columns the claim reads.
\<close>

section \<open>Tables the claim reads\<close>

record house_card =
  card_offer :: string
  card_create_outbox :: string
  card_reminder_outbox :: "string option"
  card_terminal_edit :: "string option"

record house_offer =
  offer_id :: string
  offer_state :: string

record house_control =
  control_offer :: "string option"
  control_state :: string

record delivery_failure =
  failure_offer :: string
  failure_outbox :: string
  failure_state :: outbox_state
  failure_code :: "string option"
  failure_at :: int

record card_revision =
  revision_wager :: string
  revision_number :: int
  revision_outbox :: string

text \<open>
  Of a pending notice and of the token that opens it, the columns their creation writes.
\<close>

record notice_row =
  notice_id :: string
  notice_user_id :: u64
  notice_type :: string
  notice_payload :: string
  notice_source_type :: "string option"
  notice_source_id :: "string option"
  notice_state :: string
  notice_expires_at :: int
  notice_key :: string
  notice_created_at :: int

record token_row =
  token_id :: string
  token_entity :: string
  token_user :: u64
  token_guild :: u64
  token_channel :: u64
  token_state :: string
  token_expires_at :: int
  token_key :: string
  token_created_at :: int

text \<open>
  \<open>dependencies\<close> holds the two dependency tables, as successor and predecessor; \<open>house_wagers\<close>
  pairs a wager with its offer, \<open>wager_cards\<close> a wager with the message that created its card.
\<close>

record outbox_db = durable_db +
  tarot_dependencies :: "(string \<times> string) list"
  voice_dependencies :: "(string \<times> string) list"
  house_offers :: "house_offer list"
  house_cards :: "house_card list"
  house_controls :: "house_control list"
  delivery_failures :: "delivery_failure list"
  house_wagers :: "(string \<times> string) list"
  wager_cards :: "(string \<times> string) list"
  card_revisions :: "card_revision list"
  pending_notices :: "notice_row list"
  interaction_tokens :: "token_row list"

definition public_kinds :: "string set" where
  "public_kinds = {''discord.public.v1'', ''owner_test.discord_public_retry.v1''}"

definition live_outbox :: "outbox_row \<Rightarrow> bool" where
  "live_outbox r \<longleftrightarrow> out_state r = Out_pending \<or> out_state r = Out_claimed"

definition lease_expired :: "int \<Rightarrow> outbox_row \<Rightarrow> bool" where
  "lease_expired now_ms r \<longleftrightarrow> out_state r = Out_claimed
     \<and> (case out_lease_until r of Some t \<Rightarrow> t \<le> now_ms | None \<Rightarrow> False)"

definition out_eligible :: "int \<Rightarrow> outbox_row \<Rightarrow> bool" where
  "out_eligible now_ms r \<longleftrightarrow>
     out_state r = Out_pending \<and> available_at r \<le> now_ms \<or> lease_expired now_ms r"

section \<open>Claiming\<close>

definition drop_out_lease :: "outbox_row \<Rightarrow> outbox_row" where
  "drop_out_lease r = r\<lparr>out_lease_owner := None, out_lease_token := None, out_lease_until := None,
     submission_started_at := None\<rparr>"

definition bury :: "outbox_state \<Rightarrow> string \<Rightarrow> int \<Rightarrow> outbox_row \<Rightarrow> outbox_row" where
  "bury st code now_ms r = (drop_out_lease r)\<lparr>out_state := st,
     out_updated_at := max now_ms (out_updated_at r),
     out_terminal_at := Some (max now_ms (out_created_at r)), out_last_error := Some code\<rparr>"

text \<open>A submitted public message whose lease ran out at its last attempt: its fate is unknown.\<close>

definition quarantined :: "int \<Rightarrow> outbox_row \<Rightarrow> bool" where
  "quarantined now_ms r \<longleftrightarrow> lease_expired now_ms r \<and> out_max_attempts r \<le> out_attempts r
     \<and> submission_started_at r \<noteq> None \<and> out_kind r \<in> public_kinds"

definition exhausted :: "int \<Rightarrow> bool \<Rightarrow> outbox_row \<Rightarrow> bool" where
  "exhausted now_ms ready r \<longleftrightarrow> out_eligible now_ms r \<and> out_max_attempts r \<le> out_attempts r
     \<and> (ready \<or> out_kind r \<notin> public_kinds)"

definition in_states :: "outbox_state set \<Rightarrow> string \<Rightarrow> outbox_row list \<Rightarrow> bool" where
  "in_states states i rows \<longleftrightarrow> list_ex (\<lambda>r. outbox_id r = i \<and> out_state r \<in> states) rows"

abbreviation lost_states :: "outbox_state set" where
  "lost_states \<equiv> {Out_failed, Out_dead, Out_cancelled}"

abbreviation live_states :: "outbox_state set" where
  "live_states \<equiv> {Out_pending, Out_claimed}"

text \<open>
  \<open>INSERT OR IGNORE\<close> into the failures of open offers: one row per offer and per message
  (its keys), the first one kept.
\<close>

definition record_failures :: "int \<Rightarrow> outbox_row list \<Rightarrow> 'm outbox_db_scheme \<Rightarrow> delivery_failure list" where
  "record_failures now_ms rows db = foldl (\<lambda>failures f.
       if failure_offer f \<in> failure_offer ` set failures
         \<or> failure_outbox f \<in> failure_outbox ` set failures
       then failures else failures @ [f])
     (delivery_failures db)
     [\<lparr>failure_offer = offer_id offer, failure_outbox = outbox_id r, failure_state = out_state r,
        failure_code = out_last_error r, failure_at = now_ms\<rparr>.
      offer \<leftarrow> house_offers db, offer_state offer = ''open'',
      hc \<leftarrow> house_cards db, card_offer hc = offer_id offer,
      r \<leftarrow> rows, outbox_id r = card_create_outbox hc \<and> out_state r \<in> lost_states]"

definition close_offers :: "delivery_failure list \<Rightarrow> house_offer list \<Rightarrow> house_offer list" where
  "close_offers failures = map (\<lambda>offer.
     if offer_state offer = ''open'' \<and> offer_id offer \<in> failure_offer ` set failures
     then offer\<lparr>offer_state := ''closed''\<rparr> else offer)"

definition cancel_controls :: "delivery_failure list \<Rightarrow> house_control list \<Rightarrow> house_control list" where
  "cancel_controls failures = map (\<lambda>control.
     if control_state control = ''active'' \<and> control_offer control \<in> Some ` failure_offer ` set failures
     then control\<lparr>control_state := ''cancelled''\<rparr> else control)"

definition orphaned_reminder :: "int \<Rightarrow> outbox_row list \<Rightarrow> house_card list \<Rightarrow> outbox_row \<Rightarrow> bool" where
  "orphaned_reminder now_ms rows cards r \<longleftrightarrow>
     (out_state r = Out_pending \<or> lease_expired now_ms r)
     \<and> list_ex (\<lambda>hc. card_reminder_outbox hc = Some (outbox_id r)
          \<and> in_states lost_states (card_create_outbox hc) rows) cards"

text \<open>
  A message waits for its predecessors: the explicit dependencies, the older messages of the
  same chronicle entry, house offer or house wager, the card a reminder or an edit refers to,
  and the earlier revisions of the same card.
\<close>

definition older_sibling :: "string \<Rightarrow> outbox_row list \<Rightarrow> outbox_row \<Rightarrow> bool" where
  "older_sibling aggregate rows r \<longleftrightarrow> out_aggregate_type r = Some aggregate
     \<and> list_ex (\<lambda>q. out_aggregate_type q = Some aggregate \<and> out_aggregate_id q = out_aggregate_id r
          \<and> out_created_at q < out_created_at r \<and> live_outbox q) rows"

definition depends_on_live :: "(string \<times> string) list \<Rightarrow> outbox_row list \<Rightarrow> outbox_row \<Rightarrow> bool" where
  "depends_on_live dependencies rows r \<longleftrightarrow>
     list_ex (\<lambda>(successor, predecessor). successor = outbox_id r \<and> in_states live_states predecessor rows)
       dependencies"

definition wager_card_live :: "(house_card \<Rightarrow> string option) \<Rightarrow> 'm outbox_db_scheme \<Rightarrow> outbox_row \<Rightarrow> bool" where
  "wager_card_live message db r \<longleftrightarrow> out_aggregate_type r = Some ''tarot_house_wager''
     \<and> list_ex (\<lambda>(wager, offer). Some wager = out_aggregate_id r
          \<and> list_ex (\<lambda>hc. card_offer hc = offer
              \<and> (case message hc of None \<Rightarrow> False | Some i \<Rightarrow> in_states live_states i (outbox_messages db)))
            (house_cards db)) (house_wagers db)"

definition edit_waits :: "'m outbox_db_scheme \<Rightarrow> outbox_row \<Rightarrow> bool" where
  "edit_waits db r \<longleftrightarrow> out_kind r = ''discord.message_edit.v1''
     \<and> list_ex (\<lambda>current. revision_outbox current = outbox_id r
          \<and> (list_ex (\<lambda>(wager, i). wager = revision_wager current
                \<and> in_states live_states i (outbox_messages db)) (wager_cards db)
             \<or> list_ex (\<lambda>earlier. revision_wager earlier = revision_wager current
                \<and> revision_number earlier < revision_number current
                \<and> in_states live_states (revision_outbox earlier) (outbox_messages db))
              (card_revisions db)))
       (card_revisions db)"

definition blocked :: "'m outbox_db_scheme \<Rightarrow> outbox_row \<Rightarrow> bool" where
  "blocked db r \<longleftrightarrow>
     depends_on_live (tarot_dependencies db) (outbox_messages db) r
     \<or> depends_on_live (voice_dependencies db) (outbox_messages db) r
     \<or> older_sibling ''chronicle_entry'' (outbox_messages db) r
     \<or> older_sibling ''tarot_house_offer'' (outbox_messages db) r
     \<or> list_ex (\<lambda>hc. card_reminder_outbox hc = Some (outbox_id r)
          \<and> in_states (- {Out_delivered}) (card_create_outbox hc) (outbox_messages db)) (house_cards db)
     \<or> older_sibling ''tarot_house_wager'' (outbox_messages db) r
     \<or> wager_card_live (Some \<circ> card_create_outbox) db r
     \<or> wager_card_live card_terminal_edit db r
     \<or> edit_waits db r"

definition out_claimable :: "int \<Rightarrow> bool \<Rightarrow> 'm outbox_db_scheme \<Rightarrow> outbox_row \<Rightarrow> bool" where
  "out_claimable now_ms ready db r \<longleftrightarrow> out_eligible now_ms r \<and> out_attempts r < out_max_attempts r
     \<and> (ready \<or> out_kind r \<notin> public_kinds) \<and> \<not> blocked db r"

definition lease_outbox :: "int \<Rightarrow> int \<Rightarrow> string \<Rightarrow> string \<Rightarrow> int \<Rightarrow> outbox_row \<Rightarrow> outbox_row" where
  "lease_outbox now_ms lease_until owner token attempts r = r\<lparr>out_state := Out_claimed,
     out_attempts := attempts, out_lease_owner := Some owner, out_lease_token := Some token,
     out_lease_until := Some lease_until, out_updated_at := max now_ms (out_updated_at r)\<rparr>"

record 'p claimed_outbox =
  cl_outbox_id :: string
  cl_kind :: string
  cl_owner :: string
  cl_token :: string
  cl_attempts :: nat
  cl_max_attempts :: nat
  cl_available_at :: int
  cl_first_attempt_at :: "int option"
  cl_first_attempt_elapsed :: "int option"
  cl_first_attempt_boot :: "string option"
  cl_submission_started :: "int option"
  cl_last_error :: "string option"
  cl_nonce :: string
  cl_payload :: 'p
  cl_correlation :: string
  cl_causation :: "string option"

definition claimed_message ::
    "'p payload_codec \<Rightarrow> string \<Rightarrow> string \<Rightarrow> int \<Rightarrow> outbox_row \<Rightarrow> 'p claimed_outbox" where
  "claimed_message codec owner token attempts r = (let trace = trace_from_payload codec (out_payload r) (outbox_id r) in
     \<lparr>cl_outbox_id = outbox_id r, cl_kind = out_kind r, cl_owner = owner, cl_token = token,
      cl_attempts = nat attempts, cl_max_attempts = nat (out_max_attempts r),
      cl_available_at = available_at r, cl_first_attempt_at = first_attempt_at r,
      cl_first_attempt_elapsed = first_attempt_elapsed r,
      cl_first_attempt_boot = first_attempt_boot r,
      cl_submission_started = submission_started_at r, cl_last_error = out_last_error r,
      cl_nonce = provider_nonce r, cl_payload = decode_payload codec (out_kind r) (out_payload r),
      cl_correlation = fst trace, cl_causation = snd trace\<rparr>)"

text \<open>The statements before the SELECT, in their order.\<close>

definition sweep_outbox :: "int \<Rightarrow> bool \<Rightarrow> 'm outbox_db_scheme \<Rightarrow> 'm outbox_db_scheme res" where
  "sweep_outbox now_ms ready db =
     rbind (update_rows outbox_check ''outbox_message'' (quarantined now_ms)
       (bury Out_failed ''discord_unknown_outcome_stale'' now_ms) (outbox_messages db)) (\<lambda>(_, rows).
     rbind (update_rows outbox_check ''outbox_message'' (exhausted now_ms ready)
       (bury Out_dead ''attempts_exhausted'' now_ms) rows) (\<lambda>(_, rows).
     let failures = record_failures now_ms rows db in
     rbind (update_rows outbox_check ''outbox_message''
       (orphaned_reminder now_ms rows (house_cards db))
       (bury Out_cancelled ''house_offer_source_unavailable'' now_ms) rows) (\<lambda>(_, rows).
     Inr (db\<lparr>outbox_messages := rows, delivery_failures := failures,
       house_offers := close_offers failures (house_offers db),
       house_controls := cancel_controls failures (house_controls db)\<rparr>))))"

definition claim_due_outbox ::
    "'p payload_codec \<Rightarrow> int \<Rightarrow> int \<Rightarrow> string \<Rightarrow> string \<Rightarrow> bool \<Rightarrow> 'm outbox_db_scheme
     \<Rightarrow> ('p claimed_outbox option \<times> 'm outbox_db_scheme) res"
  where
  "claim_due_outbox codec now_ms lease_until owner token ready db =
     rbind (require_timestamp now_ms) (\<lambda>_.
     rbind (require_timestamp lease_until) (\<lambda>_.
     rbind (sweep_outbox now_ms ready db) (\<lambda>db.
     case first_by (\<lambda>r. (available_at r, outbox_id r))
         (filter (out_claimable now_ms ready db) (outbox_messages db)) of
       None \<Rightarrow> Inr (None, db)
     | Some r \<Rightarrow>
         let attempts = out_attempts r + 1 in
         rbind (update_rows outbox_check ''outbox_message'' (\<lambda>q. outbox_id q = outbox_id r)
           (lease_outbox now_ms lease_until owner token attempts) (outbox_messages db)) (\<lambda>(_, rows).
         Inr (Some (claimed_message codec owner token attempts r), db\<lparr>outbox_messages := rows\<rparr>)))))"

section \<open>The owner of a claim\<close>

definition out_owned :: "'p claimed_outbox \<Rightarrow> outbox_row \<Rightarrow> bool" where
  "out_owned c r \<longleftrightarrow> outbox_id r = cl_outbox_id c \<and> out_state r = Out_claimed
     \<and> out_lease_owner r = Some (cl_owner c) \<and> out_lease_token r = Some (cl_token c)"

definition stale_outbox_status :: "string \<Rightarrow> 'm outbox_db_scheme \<Rightarrow> work_status" where
  "stale_outbox_status i db = (case find_row outbox_id i (outbox_messages db) of
      None \<Rightarrow> Not_found
    | Some r \<Rightarrow> if out_state r = Out_delivered then Unchanged else Stale_claim)"

definition update_outbox ::
    "(outbox_row \<Rightarrow> bool) \<Rightarrow> (outbox_row \<Rightarrow> outbox_row) \<Rightarrow> ('m outbox_db_scheme \<Rightarrow> work_status)
     \<Rightarrow> 'm outbox_db_scheme \<Rightarrow> (work_status \<times> 'm outbox_db_scheme) res"
  where
  "update_outbox condition change otherwise db =
     rbind (update_rows outbox_check ''outbox_message'' condition change (outbox_messages db))
       (\<lambda>(n, rows). Inr (if n = 0 then otherwise db else Applied, db\<lparr>outbox_messages := rows\<rparr>))"

definition release_outbox ::
    "'p claimed_outbox \<Rightarrow> int \<Rightarrow> 'm outbox_db_scheme \<Rightarrow> (work_status \<times> 'm outbox_db_scheme) res" where
  "release_outbox c now_ms db = update_outbox (\<lambda>r. out_owned c r \<and> submission_started_at r = None)
     (\<lambda>r. (drop_out_lease r)\<lparr>out_state := Out_pending, out_attempts := max (out_attempts r - 1) 0,
        out_updated_at := max now_ms (out_updated_at r), out_terminal_at := None\<rparr>)
     (stale_outbox_status (cl_outbox_id c)) db"

record attempt_stamp =
  wall_time :: int
  elapsed_realtime :: int
  boot_session :: string

definition mark_public_outbox_submitted ::
    "'p claimed_outbox \<Rightarrow> attempt_stamp \<Rightarrow> int \<Rightarrow> 'm outbox_db_scheme
     \<Rightarrow> (work_status \<times> 'm outbox_db_scheme) res"
  where
  "mark_public_outbox_submitted c attempt lease_until db =
     rbind (require_timestamp (wall_time attempt)) (\<lambda>_.
     rbind (require_timestamp (elapsed_realtime attempt)) (\<lambda>_.
     rbind (require_timestamp lease_until) (\<lambda>_.
     rbind (require (\<not> lease_until \<le> wall_time attempt)
       (Invalid_argument ''A submitted outbox lease must extend beyond its attempt time.'')) (\<lambda>_.
     rbind (require_boot_session_id (boot_session attempt)) (\<lambda>_.
     update_outbox
       (\<lambda>r. out_owned c r \<and> (out_kind r \<in> public_kinds \<or> out_kind r = ''discord.message_edit.v1''))
       (\<lambda>r. r\<lparr>first_attempt_at := Some (case first_attempt_at r of Some t \<Rightarrow> t
            | None \<Rightarrow> max (wall_time attempt) (out_created_at r)),
          first_attempt_elapsed := Some (case first_attempt_elapsed r of Some t \<Rightarrow> t
            | None \<Rightarrow> elapsed_realtime attempt),
          first_attempt_boot := Some (case first_attempt_boot r of Some b \<Rightarrow> b
            | None \<Rightarrow> boot_session attempt),
          submission_started_at := Some (max (wall_time attempt) (out_created_at r)),
          out_lease_until := map_option (\<lambda>t. max t lease_until) (out_lease_until r),
          out_updated_at := max (wall_time attempt) (out_updated_at r)\<rparr>)
       (stale_outbox_status (cl_outbox_id c)) db)))))"

definition delivered_outbox :: "int \<Rightarrow> outbox_row \<Rightarrow> outbox_row" where
  "delivered_outbox now_ms r = (drop_out_lease r)\<lparr>out_state := Out_delivered,
     delivered_at := Some (max now_ms (out_created_at r)),
     out_terminal_at := Some (max now_ms (out_created_at r)),
     out_updated_at := max now_ms (out_updated_at r), out_last_error := None\<rparr>"

definition complete_public_outbox ::
    "'p claimed_outbox \<Rightarrow> u64 \<Rightarrow> int \<Rightarrow> 'm outbox_db_scheme \<Rightarrow> (work_status \<times> 'm outbox_db_scheme) res"
  where
  "complete_public_outbox c message now_ms db =
     rbind (require (snowflake_is_set message)
       (Invalid_argument ''Provider message ID must be set.'')) (\<lambda>_.
     update_outbox (\<lambda>r. out_owned c r \<and> submission_started_at r \<noteq> None)
       (\<lambda>r. (delivered_outbox now_ms r)\<lparr>provider_message_id := Some message\<rparr>)
       (stale_outbox_status (cl_outbox_id c)) db)"

datatype failure_mode = Retryable_mode | Failed_mode | Dead_mode

definition fail_outbox ::
    "'p claimed_outbox \<Rightarrow> int \<Rightarrow> int \<Rightarrow> string \<Rightarrow> failure_mode \<Rightarrow> 'm outbox_db_scheme
     \<Rightarrow> (work_status \<times> 'm outbox_db_scheme) res"
  where
  "fail_outbox c now_ms retry_at error_code mode db =
     rbind (require_type error_code 96) (\<lambda>_.
     let retry = (mode = Retryable_mode \<and> cl_attempts c < cl_max_attempts c) in
     update_outbox (out_owned c)
       (\<lambda>r. (drop_out_lease r)\<lparr>out_state := (if retry then Out_pending
            else if mode = Failed_mode then Out_failed else Out_dead),
          available_at := max (if retry then retry_at else cl_available_at c) (out_created_at r),
          out_updated_at := max now_ms (out_updated_at r),
          out_terminal_at := (if retry then None else Some (max now_ms (out_created_at r))),
          out_last_error := Some error_code\<rparr>)
       (stale_outbox_status (cl_outbox_id c)) db)"

definition cancel_outbox ::
    "string \<Rightarrow> int \<Rightarrow> 'm outbox_db_scheme \<Rightarrow> (work_status \<times> 'm outbox_db_scheme) res" where
  "cancel_outbox i now_ms db = update_outbox (\<lambda>r. outbox_id r = i \<and> out_state r = Out_pending)
     (\<lambda>r. r\<lparr>out_state := Out_cancelled, out_lease_owner := None, out_lease_token := None,
        out_lease_until := None, out_updated_at := max now_ms (out_updated_at r),
        out_terminal_at := Some (max now_ms (out_created_at r))\<rparr>)
     (\<lambda>db. case find_row outbox_id i (outbox_messages db) of
        None \<Rightarrow> Not_found
      | Some r \<Rightarrow> if out_state r = Out_cancelled then Unchanged else Invalid_state) db"

definition delivered_provider_message_id :: "string \<Rightarrow> 'm outbox_db_scheme \<Rightarrow> u64 option" where
  "delivered_provider_message_id i db = (case find_row outbox_id i (outbox_messages db) of
      Some r \<Rightarrow> if out_state r = Out_delivered then provider_message_id r else None
    | None \<Rightarrow> None)"

section \<open>Notices\<close>

text \<open>
  \<open>create_notice\<close>: \<open>content\<close> is the JSON text of the content of the notice. Both inserts do
  nothing when their idempotency key is taken, and what is then stored must be what was asked.
\<close>

definition notice_check :: "(string \<Rightarrow> bool) \<Rightarrow> notice_row \<Rightarrow> bool" where
  [row_checks]: "notice_check json_valid n \<longleftrightarrow> valid_uuid_v4 (notice_id n) \<and> machine_text 64 (notice_type n)
     \<and> between 2 8192 (sql_length (notice_payload n)) \<and> json_valid (notice_payload n)
     \<and> opt_check (machine_text 64) (notice_source_type n)
     \<and> opt_check (\<lambda>i. between 1 128 (sql_length i)) (notice_source_id n)
     \<and> notice_created_at n \<le> notice_expires_at n \<and> between 1 160 (sql_length (notice_key n))
     \<and> 0 \<le> notice_created_at n \<and> (notice_source_type n = None \<longleftrightarrow> notice_source_id n = None)"

definition token_check :: "token_row \<Rightarrow> bool" where
  [row_checks]: "token_check t \<longleftrightarrow> valid_uuid_v4 (token_id t) \<and> between 1 128 (sql_length (token_entity t))
     \<and> token_guild t \<noteq> 0 \<and> token_channel t \<noteq> 0 \<and> token_created_at t \<le> token_expires_at t
     \<and> between 1 160 (sql_length (token_key t)) \<and> 0 \<le> token_created_at t"

definition insert_keyed ::
    "('r \<Rightarrow> bool) \<Rightarrow> ('r \<Rightarrow> string) \<Rightarrow> ('r \<Rightarrow> string) \<Rightarrow> string \<Rightarrow> 'r \<Rightarrow> 'r list \<Rightarrow> 'r list res" where
  "insert_keyed check ident key table row rows =
     (if \<not> check row then Inl (Constraint table)
      else if key row \<in> key ` set rows then Inr rows
      else if ident row \<in> ident ` set rows then Inl (Constraint table)
      else Inr (rows @ [row]))"

definition create_notice ::
    "(string \<Rightarrow> bool) \<Rightarrow> notice_row \<Rightarrow> token_row \<Rightarrow> 'm outbox_db_scheme \<Rightarrow> 'm outbox_db_scheme res" where
  "create_notice json_valid n t db =
     rbind (insert_keyed (\<lambda>n. notice_check json_valid n \<and> notice_user_id n \<in> set (discord_users db))
       notice_id notice_key ''pending_notice'' n (pending_notices db)) (\<lambda>notices.
     rbind (require (\<exists>q \<in> set notices. notice_key q = notice_key n
         \<and> q\<lparr>notice_state := notice_state n\<rparr> = n)
       (Constraint ''Pending notice idempotency conflict.'')) (\<lambda>_.
     rbind (insert_keyed (\<lambda>t. token_check t \<and> token_user t \<in> set (discord_users db))
       token_id token_key ''interaction_token'' t (interaction_tokens db)) (\<lambda>tokens.
     rbind (require (\<exists>q \<in> set tokens. token_key q = token_key t
         \<and> q\<lparr>token_state := token_state t\<rparr> = t)
       (Constraint ''Pending notice token idempotency conflict.'')) (\<lambda>_.
     Inr (db\<lparr>pending_notices := notices, interaction_tokens := tokens\<rparr>)))))"

text \<open>
  \<open>complete_notice_outbox\<close>: \<open>notice\<close> answers the rows a notice payload creates, \<open>encode\<close> the
  JSON text of the public message.
\<close>

definition complete_notice_outbox ::
    "(string \<Rightarrow> bool) \<Rightarrow> ('p \<Rightarrow> (notice_row \<times> token_row) option) \<Rightarrow> ('q \<Rightarrow> string \<Rightarrow> string \<Rightarrow> string)
     \<Rightarrow> 'p claimed_outbox \<Rightarrow> event_row \<Rightarrow> outbox_request option \<Rightarrow> 'q option \<Rightarrow> int
     \<Rightarrow> 'm outbox_db_scheme \<Rightarrow> (work_status \<times> 'm outbox_db_scheme) res"
  where
  "complete_notice_outbox json_valid notice encode c event public_outbox public_payload now_ms db =
     (case notice (cl_payload c) of
        None \<Rightarrow> Inr (Invalid_state, db)
      | Some (n, t) \<Rightarrow>
          if (public_outbox \<noteq> None) \<noteq> (public_payload \<noteq> None)
            \<or> correlation_id event \<noteq> cl_correlation c \<or> causation_id event \<noteq> cl_causation c
          then Inr (Invalid_state, db)
          else if \<not> list_ex (out_owned c) (outbox_messages db)
          then Inr (stale_outbox_status (cl_outbox_id c) db, db)
          else rbind (create_notice json_valid n t db) (\<lambda>db.
            rbind (insert_event json_valid event db) (\<lambda>(_, db).
            rbind (case (public_outbox, public_payload) of
                (Some outbox, Some payload) \<Rightarrow>
                  insert_outbox json_valid outbox (encode payload (cl_correlation c) (event_id event)) db
              | _ \<Rightarrow> Inr (False, db)) (\<lambda>(_, db).
            rbind (update_rows outbox_check ''outbox_message''
              (\<lambda>r. outbox_id r = cl_outbox_id c \<and> out_state r = Out_claimed
                \<and> out_lease_token r = Some (cl_token c)) (delivered_outbox now_ms)
              (outbox_messages db)) (\<lambda>(_, rows).
            Inr (Applied, db\<lparr>outbox_messages := rows\<rparr>))))))"

lemmas outbox_operations = release_outbox_def mark_public_outbox_submitted_def
  complete_public_outbox_def fail_outbox_def cancel_outbox_def

section \<open>The invariant of the outbox\<close>

definition out_row_ok :: "outbox_row \<Rightarrow> bool" where
  "out_row_ok r \<longleftrightarrow> outbox_check r \<and> 1 \<le> out_max_attempts r \<and> out_attempts r \<le> out_max_attempts r
     \<and> (out_state r = Out_claimed \<longrightarrow> 1 \<le> out_attempts r)
     \<and> (first_attempt_at r \<noteq> None \<longrightarrow> 1 \<le> out_attempts r)
     \<and> (out_state r = Out_claimed \<and> first_attempt_at r \<noteq> None \<and> submission_started_at r = None
        \<longrightarrow> 2 \<le> out_attempts r)"

definition outbox_ok :: "'m outbox_db_scheme \<Rightarrow> bool" where
  "outbox_ok db \<longleftrightarrow> distinct (map outbox_id (outbox_messages db))
     \<and> (\<forall>r \<in> set (outbox_messages db). out_row_ok r)"

text \<open>
  What every operation but the claim and the mark of a submission does to a row: it keeps
  what identifies it and its first attempt, and never gives out a lease.
\<close>

definition out_quiet :: "outbox_row \<Rightarrow> outbox_row \<Rightarrow> bool" where
  "out_quiet r r' \<longleftrightarrow> outbox_id r' = outbox_id r \<and> out_kind r' = out_kind r
     \<and> first_attempt_at r' = first_attempt_at r
     \<and> first_attempt_elapsed r' = first_attempt_elapsed r \<and> first_attempt_boot r' = first_attempt_boot r
     \<and> (out_state r' = Out_claimed \<longrightarrow> out_state r = Out_claimed \<and> out_lease_token r' = out_lease_token r)
     \<and> (out_row_ok r \<longrightarrow> out_row_ok r')"

definition fresh_row :: "outbox_row \<Rightarrow> bool" where
  "fresh_row r \<longleftrightarrow> out_row_ok r \<and> out_state r \<noteq> Out_claimed \<and> first_attempt_at r = None"

definition outbox_quiet :: "'m outbox_db_scheme \<Rightarrow> 'm outbox_db_scheme \<Rightarrow> bool" where
  "outbox_quiet db db' \<longleftrightarrow> (\<exists>kept new. outbox_messages db' = kept @ new
     \<and> list_all2 out_quiet (outbox_messages db) kept \<and> list_all fresh_row new
     \<and> (distinct (map outbox_id (outbox_messages db)) \<longrightarrow> distinct (map outbox_id (kept @ new))))"

lemma out_quiet_refl [simp]: "out_quiet r r" by (simp add: out_quiet_def)

lemma out_quiet_trans: "out_quiet r s \<Longrightarrow> out_quiet s t \<Longrightarrow> out_quiet r t"
  by (auto simp: out_quiet_def)

lemma quiet_rows_trans:
  "list_all2 out_quiet xs ys \<Longrightarrow> list_all2 out_quiet ys zs \<Longrightarrow> list_all2 out_quiet xs zs"
  by (rule list_all2_trans [where ?P1.0 = out_quiet and ?P2.0 = out_quiet]) (auto intro: out_quiet_trans)

lemma quiet_ids: "list_all2 out_quiet rows rows' \<Longrightarrow> map outbox_id rows' = map outbox_id rows"
  by (induction rule: list_all2_induct) (auto simp: out_quiet_def)

lemma quiet_kept:
  "list_all2 out_quiet (outbox_messages db) (outbox_messages db') \<Longrightarrow> outbox_quiet db db'"
  unfolding outbox_quiet_def
  by (intro exI [of _ "outbox_messages db'"] exI [of _ "[]"]) (simp add: quiet_ids)

lemma quiet_same: "outbox_messages db' = outbox_messages db \<Longrightarrow> outbox_quiet db db'"
  by (rule quiet_kept) (simp add: list_all2_refl)

lemma update_rows_quiet:
  assumes "update_rows outbox_check table condition change rows = Inr (n, rows')"
    and "\<And>r. condition r \<Longrightarrow> outbox_check (change r) \<Longrightarrow> out_quiet r (change r)"
  shows "list_all2 out_quiet rows rows'"
  using assms by (auto simp: update_rows_Inr list_all2_conv_all_nth)

lemma update_outbox_quiet:
  assumes "update_outbox condition change otherwise db = Inr (status, db')"
    and "\<And>r. condition r \<Longrightarrow> outbox_check (change r) \<Longrightarrow> out_quiet r (change r)"
  shows "outbox_quiet db db'"
proof -
  obtain n where u: "update_rows outbox_check ''outbox_message'' condition change (outbox_messages db)
      = Inr (n, outbox_messages db')"
    using assms(1) by (auto simp: update_outbox_def rbind_eq_Inr)
  show ?thesis by (rule quiet_kept, rule update_rows_quiet [OF u assms(2)])
qed

lemma outbox_quiet_trans:
  assumes "outbox_quiet db db1" "outbox_quiet db1 db2"
  shows "outbox_quiet db db2"
proof -
  obtain kept new where a: "outbox_messages db1 = kept @ new" "list_all2 out_quiet (outbox_messages db) kept"
      "list_all fresh_row new"
      "distinct (map outbox_id (outbox_messages db)) \<longrightarrow> distinct (map outbox_id (kept @ new))"
    using assms(1) by (auto simp: outbox_quiet_def)
  obtain kept' new' where b: "outbox_messages db2 = kept' @ new'"
      "list_all2 out_quiet (outbox_messages db1) kept'" "list_all fresh_row new'"
      "distinct (map outbox_id (outbox_messages db1)) \<longrightarrow> distinct (map outbox_id (kept' @ new'))"
    using assms(2) by (auto simp: outbox_quiet_def)
  obtain k n where c: "kept' = k @ n" "list_all2 out_quiet kept k" "list_all2 out_quiet new n"
    using b(2) by (auto simp: a(1) list_all2_append1)
  have "list_all fresh_row n"
    using c(3) a(3)
    by (induction rule: list_all2_induct) (auto simp: fresh_row_def out_quiet_def)
  with a b c quiet_rows_trans [OF a(2) c(2)] show ?thesis unfolding outbox_quiet_def
    by (intro exI [of _ k] exI [of _ "n @ new'"]) simp
qed

lemma quiet_rows_ok:
  "list_all2 out_quiet rows rows' \<Longrightarrow> list_all out_row_ok rows \<Longrightarrow> list_all out_row_ok rows'"
  by (induction rule: list_all2_induct) (auto simp: out_quiet_def)

lemma quiet_ok: "outbox_quiet db db' \<Longrightarrow> outbox_ok db \<Longrightarrow> outbox_ok db'"
proof -
  assume q: "outbox_quiet db db'" and ok: "outbox_ok db"
  obtain kept new where a: "outbox_messages db' = kept @ new" "list_all2 out_quiet (outbox_messages db) kept"
      "list_all fresh_row new" "distinct (map outbox_id (kept @ new))"
    using q ok by (auto simp: outbox_quiet_def outbox_ok_def)
  have "list_all out_row_ok (outbox_messages db)" using ok by (simp add: outbox_ok_def list_all_iff)
  then have "list_all out_row_ok kept" by (rule quiet_rows_ok [OF a(2)])
  then show "outbox_ok db'" using a by (auto simp: outbox_ok_def list_all_iff fresh_row_def)
qed

section \<open>The quiet operations\<close>

lemma out_ownedD: "out_owned c r \<Longrightarrow> out_state r = Out_claimed"
  by (simp add: out_owned_def)

lemma bury_quiet:
  "st \<noteq> Out_claimed \<Longrightarrow> outbox_check (bury st code now_ms r) \<Longrightarrow> out_quiet r (bury st code now_ms r)"
  by (auto simp: out_quiet_def bury_def drop_out_lease_def out_row_ok_def)

lemma sweep_quiet:
  assumes "sweep_outbox now_ms ready db = Inr db'"
  shows "list_all2 out_quiet (outbox_messages db) (outbox_messages db')"
proof -
  obtain n1 rows1 n2 rows2 n3 rows3 where
      u1: "update_rows outbox_check ''outbox_message'' (quarantined now_ms)
        (bury Out_failed ''discord_unknown_outcome_stale'' now_ms) (outbox_messages db) = Inr (n1, rows1)" and
      u2: "update_rows outbox_check ''outbox_message'' (exhausted now_ms ready)
        (bury Out_dead ''attempts_exhausted'' now_ms) rows1 = Inr (n2, rows2)" and
      u3: "update_rows outbox_check ''outbox_message'' (orphaned_reminder now_ms rows2 (house_cards db))
        (bury Out_cancelled ''house_offer_source_unavailable'' now_ms) rows2 = Inr (n3, rows3)" and
      d: "outbox_messages db' = rows3"
    using assms by (auto simp: sweep_outbox_def rbind_eq_Inr Let_def)
  show ?thesis unfolding d
    by (rule quiet_rows_trans [OF update_rows_quiet [OF u1] quiet_rows_trans [OF
        update_rows_quiet [OF u2] update_rows_quiet [OF u3]]]) (simp_all add: bury_quiet)
qed

lemma release_outbox_quiet: "release_outbox c now_ms db = Inr (status, db') \<Longrightarrow> outbox_quiet db db'"
  unfolding release_outbox_def
  by (erule update_outbox_quiet)
    (auto simp: out_quiet_def drop_out_lease_def out_row_ok_def dest!: out_ownedD)

lemma complete_public_outbox_quiet:
  "complete_public_outbox c message now_ms db = Inr (status, db') \<Longrightarrow> outbox_quiet db db'"
  unfolding complete_public_outbox_def rbind_eq_Inr
  by (elim exE conjE update_outbox_quiet)
    (auto simp: out_quiet_def delivered_outbox_def drop_out_lease_def out_row_ok_def dest!: out_ownedD)

lemma fail_outbox_quiet:
  "fail_outbox c now_ms retry_at code mode db = Inr (status, db') \<Longrightarrow> outbox_quiet db db'"
  unfolding fail_outbox_def rbind_eq_Inr Let_def
  by (elim exE conjE update_outbox_quiet)
    (auto simp: out_quiet_def drop_out_lease_def out_row_ok_def dest!: out_ownedD split: if_splits)

lemma cancel_outbox_quiet: "cancel_outbox i now_ms db = Inr (status, db') \<Longrightarrow> outbox_quiet db db'"
  unfolding cancel_outbox_def
  by (erule update_outbox_quiet) (auto simp: out_quiet_def out_row_ok_def)

lemma insert_event_quiet: "insert_event json_valid event db = Inr (created, db') \<Longrightarrow> outbox_quiet db db'"
  by (rule quiet_same) (rule insert_event_inserted(3))

lemma insert_outbox_appends:
  assumes "insert_outbox json_valid outbox payload db = Inr (created, db')"
  shows "outbox_messages db' = outbox_messages db
    \<or> (let row = new_outbox_row outbox payload in outbox_messages db' = outbox_messages db @ [row]
       \<and> outbox_check row \<and> 1 \<le> out_max_attempts row \<and> outbox_id row \<notin> outbox_id ` set (outbox_messages db))"
  using assms
  by (auto simp: insert_outbox_def rbind_eq_Inr Let_def outbox_insert_check_def split: if_splits)

lemma insert_outbox_quiet:
  assumes "insert_outbox json_valid outbox payload db = Inr (created, db')"
  shows "outbox_quiet db db'"
  using insert_outbox_appends [OF assms]
proof
  assume "outbox_messages db' = outbox_messages db"
  then show ?thesis by (rule quiet_same)
next
  let ?row = "new_outbox_row outbox payload"
  assume "let row = ?row in outbox_messages db' = outbox_messages db @ [row]
    \<and> outbox_check row \<and> 1 \<le> out_max_attempts row \<and> outbox_id row \<notin> outbox_id ` set (outbox_messages db)"
  then have row: "outbox_messages db' = outbox_messages db @ [?row]" "outbox_check ?row"
    "1 \<le> out_max_attempts ?row" "outbox_id ?row \<notin> outbox_id ` set (outbox_messages db)"
    by (simp_all add: Let_def)
  have "fresh_row ?row" using row(2,3) by (simp add: fresh_row_def out_row_ok_def new_outbox_row_def)
  then show ?thesis unfolding outbox_quiet_def using row(1,4)
    by (intro exI [of _ "outbox_messages db"] exI [of _ "[?row]"]) (simp add: list_all2_refl)
qed

lemma enqueue_message_quiet:
  assumes "enqueue_message json_valid norm_payload event outbox payload db = Inr (created, db')"
  shows "outbox_quiet db db'"
proof -
  have "outbox_quiet db db" by (rule quiet_same) simp
  moreover have "outbox_quiet db db'" if "insert_event json_valid event db = Inr (c1, db1)"
      "insert_outbox json_valid outbox payload db1 = Inr (c2, db')" for c1 c2 db1
    by (rule outbox_quiet_trans [OF insert_event_quiet [OF that(1)] insert_outbox_quiet [OF that(2)]])
  ultimately show ?thesis using assms
    by (auto simp: enqueue_message_def rbind_eq_Inr split: if_splits)
qed

lemma create_notice_quiet: "create_notice json_valid n t db = Inr db' \<Longrightarrow> outbox_quiet db db'"
  by (rule quiet_same) (auto simp: create_notice_def rbind_eq_Inr)

lemma complete_notice_outbox_quiet:
  assumes "complete_notice_outbox json_valid notice encode c event public_outbox public_payload now_ms db
    = Inr (status, db')"
  shows "outbox_quiet db db'"
proof -
  have same: "outbox_quiet db db" by (rule quiet_same) simp
  have last: "outbox_quiet d (d\<lparr>outbox_messages := rows\<rparr>)"
    if "update_rows outbox_check ''outbox_message'' (\<lambda>r. outbox_id r = i \<and> out_state r = Out_claimed
        \<and> out_lease_token r = t) (delivered_outbox now_ms) (outbox_messages d) = Inr (n, rows)" for d rows n i t
  proof (rule quiet_kept)
    show "list_all2 out_quiet (outbox_messages d) (outbox_messages (d\<lparr>outbox_messages := rows\<rparr>))"
      using update_rows_quiet [OF that]
      by (simp add: out_quiet_def delivered_outbox_def drop_out_lease_def out_row_ok_def)
  qed
  show ?thesis
  proof (cases "notice (cl_payload c)")
    case None then show ?thesis using assms same by (simp add: complete_notice_outbox_def)
  next
    case (Some nt)
    obtain n t where nt: "nt = (n, t)" by (cases nt)
    show ?thesis
    proof (cases "db' = db")
      case False
      obtain db1 c2 db2 c3 db3 k rows where
          d: "create_notice json_valid n t db = Inr db1" "insert_event json_valid event db1 = Inr (c2, db2)"
            "(case (public_outbox, public_payload) of
                (Some outbox, Some payload) \<Rightarrow>
                  insert_outbox json_valid outbox (encode payload (cl_correlation c) (event_id event)) db2
              | _ \<Rightarrow> Inr (False, db2)) = Inr (c3, db3)"
            "update_rows outbox_check ''outbox_message'' (\<lambda>r. outbox_id r = cl_outbox_id c
               \<and> out_state r = Out_claimed \<and> out_lease_token r = Some (cl_token c))
               (delivered_outbox now_ms) (outbox_messages db3) = Inr (k, rows)"
            "db' = db3\<lparr>outbox_messages := rows\<rparr>"
        using assms False
        by (auto simp: complete_notice_outbox_def rbind_eq_Inr Some nt split: if_splits)
      have "outbox_quiet db2 db3"
        using d(3) by (auto split: option.splits intro: insert_outbox_quiet quiet_same)
      then show ?thesis
        using create_notice_quiet [OF d(1)] insert_event_quiet [OF d(2)] last [OF d(4)] d(5)
          outbox_quiet_trans by metis
    qed (simp add: same)
  qed
qed

section \<open>The claim\<close>

lemma sweep_ok:
  assumes "sweep_outbox now_ms ready db = Inr mid" "outbox_ok db"
  shows "outbox_ok mid"
  by (rule quiet_ok [OF quiet_kept [OF sweep_quiet [OF assms(1)]] assms(2)])

lemma claim_due_outbox_cases:
  assumes claim: "claim_due_outbox codec now_ms lease_until owner token ready db = Inr (claimed, db')"
    and ok: "outbox_ok db"
  obtains (idle) mid where "sweep_outbox now_ms ready db = Inr mid" "claimed = None" "db' = mid"
      "list_all (\<lambda>r. \<not> out_claimable now_ms ready mid r) (outbox_messages mid)"
    | (taken) mid r where "sweep_outbox now_ms ready db = Inr mid" "r \<in> set (outbox_messages mid)"
      "out_claimable now_ms ready mid r"
      "list_all (\<lambda>q. out_claimable now_ms ready mid q \<longrightarrow>
         (available_at r, outbox_id r) \<le> (available_at q, outbox_id q)) (outbox_messages mid)"
      "claimed = Some (claimed_message codec owner token (out_attempts r + 1) r)"
      "db' = mid\<lparr>outbox_messages := map (\<lambda>q. if q = r
         then lease_outbox now_ms lease_until owner token (out_attempts r + 1) r else q)
         (outbox_messages mid)\<rparr>"
      "out_row_ok (lease_outbox now_ms lease_until owner token (out_attempts r + 1) r)"
proof -
  obtain mid where mid: "sweep_outbox now_ms ready db = Inr mid"
    using claim by (auto simp: claim_due_outbox_def rbind_eq_Inr)
  have mok: "outbox_ok mid" by (rule sweep_ok [OF mid ok])
  let ?key = "\<lambda>r. (available_at r, outbox_id r)"
  show ?thesis
  proof (cases "first_by ?key (filter (out_claimable now_ms ready mid) (outbox_messages mid))")
    case None
    then have "list_all (\<lambda>r. \<not> out_claimable now_ms ready mid r) (outbox_messages mid)"
      by (auto simp: first_by_None filter_empty_conv list_all_iff)
    moreover have "claimed = None \<and> db' = mid"
      using claim mid None by (auto simp: claim_due_outbox_def rbind_eq_Inr)
    ultimately show ?thesis using idle mid by blast
  next
    case (Some r)
    let ?lease = "lease_outbox now_ms lease_until owner token (out_attempts r + 1)"
    have r: "r \<in> set (outbox_messages mid)" "out_claimable now_ms ready mid r"
      using first_by_Some(1) [OF Some] by auto
    have least: "list_all (\<lambda>q. out_claimable now_ms ready mid q \<longrightarrow> ?key r \<le> ?key q) (outbox_messages mid)"
      using first_by_Some(2) [OF Some] by (auto simp: list_all_iff)
    obtain n rows where u: "update_rows outbox_check ''outbox_message'' (\<lambda>q. outbox_id q = outbox_id r)
        ?lease (outbox_messages mid) = Inr (n, rows)"
      and res: "claimed = Some (claimed_message codec owner token (out_attempts r + 1) r)"
        "db' = mid\<lparr>outbox_messages := rows\<rparr>"
      using claim mid Some by (auto simp: claim_due_outbox_def rbind_eq_Inr Let_def)
    have only: "outbox_id q = outbox_id r \<longleftrightarrow> q = r" if "q \<in> set (outbox_messages mid)" for q
      using mok that r(1) distinct_key_eq [of outbox_id "outbox_messages mid" q r]
      by (auto simp: outbox_ok_def)
    have rows: "rows = map (\<lambda>q. if q = r then ?lease r else q) (outbox_messages mid)"
      using u only by (auto simp: update_rows_Inr)
    have "outbox_check (?lease r)" using u r(1) by (auto simp: update_rows_Inr)
    moreover have "out_row_ok r" using mok r(1) by (simp add: outbox_ok_def)
    moreover have "0 \<le> out_attempts r" using \<open>out_row_ok r\<close> by (simp add: out_row_ok_def outbox_check_def)
    ultimately have "out_row_ok (?lease r)"
      using r(2) by (auto simp: out_row_ok_def lease_outbox_def out_claimable_def)
    with taken mid r least res rows show ?thesis by blast
  qed
qed

lemma claim_due_outbox_ok:
  assumes "claim_due_outbox codec now_ms lease_until owner token ready db = Inr (claimed, db')"
    and ok: "outbox_ok db"
  shows "outbox_ok db'"
  using assms
proof (cases rule: claim_due_outbox_cases)
  case (idle mid) then show ?thesis using sweep_ok ok by simp
next
  case (taken mid r)
  have ids: "map outbox_id (outbox_messages db') = map outbox_id (outbox_messages mid)"
    by (auto simp: taken(6) lease_outbox_def)
  have "out_row_ok q" if "q \<in> set (outbox_messages db')" for q
    using that sweep_ok [OF taken(1) ok] taken(7) by (auto simp: outbox_ok_def taken(6))
  then show ?thesis using sweep_ok [OF taken(1) ok] unfolding outbox_ok_def ids by simp
qed


text \<open>A claim that carries a first attempt is at least the second attempt, so a message that
  may already have reached Discord never passes for a fresh one.\<close>
theorem claimed_resend_is_counted:
  assumes "claim_due_outbox codec now_ms lease_until owner token ready db = Inr (Some c, db')"
    and "outbox_ok db" and "cl_first_attempt_at c \<noteq> None"
  shows "2 \<le> cl_attempts c"
  using assms(1,2)
proof (cases rule: claim_due_outbox_cases)
  case (taken mid r)
  have "first_attempt_at r \<noteq> None" using assms(3) taken(5) by (simp add: claimed_message_def Let_def)
  then have "1 \<le> out_attempts r" using taken(2) sweep_ok [OF taken(1) assms(2)]
    by (auto simp: outbox_ok_def out_row_ok_def)
  then show ?thesis using taken(5) by (simp add: claimed_message_def Let_def)
qed simp

lemma mark_submitted_cases:
  assumes "mark_public_outbox_submitted c attempt lease_until db = Inr (status, db')"
  obtains (marked) n where "update_rows outbox_check ''outbox_message''
      (\<lambda>r. out_owned c r \<and> (out_kind r \<in> public_kinds \<or> out_kind r = ''discord.message_edit.v1''))
      (\<lambda>r. r\<lparr>first_attempt_at := Some (case first_attempt_at r of Some t \<Rightarrow> t
            | None \<Rightarrow> max (wall_time attempt) (out_created_at r)),
          first_attempt_elapsed := Some (case first_attempt_elapsed r of Some t \<Rightarrow> t
            | None \<Rightarrow> elapsed_realtime attempt),
          first_attempt_boot := Some (case first_attempt_boot r of Some b \<Rightarrow> b
            | None \<Rightarrow> boot_session attempt),
          submission_started_at := Some (max (wall_time attempt) (out_created_at r)),
          out_lease_until := map_option (\<lambda>t. max t lease_until) (out_lease_until r),
          out_updated_at := max (wall_time attempt) (out_updated_at r)\<rparr>)
      (outbox_messages db) = Inr (n, outbox_messages db')"
    "status = Applied \<longrightarrow> 0 < n" "0 \<le> elapsed_realtime attempt"
  using assms
  by (auto simp: mark_public_outbox_submitted_def update_outbox_def rbind_eq_Inr require_timestamp_def
      stale_outbox_status_def split: if_splits option.splits)

lemma mark_submitted_ok:
  assumes "mark_public_outbox_submitted c attempt lease_until db = Inr (status, db')" "outbox_ok db"
  shows "outbox_ok db'"
  using assms(1)
proof (cases rule: mark_submitted_cases)
  case (marked n)
  have "map outbox_id (outbox_messages db') = map outbox_id (outbox_messages db)"
    by (rule update_rows_key [OF marked(1)]) simp
  moreover have "out_row_ok r" if "r \<in> set (outbox_messages db')" for r
    by (rule update_rows_all [OF marked(1) _ _ that])
      (use assms(2) in \<open>auto simp: outbox_ok_def out_row_ok_def dest: out_ownedD\<close>)
  ultimately show ?thesis using assms(2) by (simp add: outbox_ok_def)
qed

end
