(* ===== verification/Outbox_Service.thy ===== *)
theory Outbox_Service
  imports Outbox_Store
begin

text \<open>
  The outbox service (\<^verbatim>\<open>src/src/outbox.cpp\<close>): how a claimed message is delivered to Discord
  and what a receipt does to it. Discord is a parameter: what the delivery answers and what
  happens to the database while it runs.
\<close>

section \<open>Times\<close>

definition submission_lease_until :: "int \<Rightarrow> int \<Rightarrow> int res" where
  "submission_lease_until current receipt_wait_timeout =
     (let extension = receipt_wait_timeout + 10000 in
      if int64_max - extension < current
      then Inl (Overflow_error ''Public submission lease timestamp overflow.'')
      else Inr (current + extension))"

definition within_nonce_retry_window :: "'p claimed_outbox \<Rightarrow> attempt_stamp \<Rightarrow> bool" where
  "within_nonce_retry_window c current =
     (case (cl_first_attempt_elapsed c, cl_first_attempt_boot c) of
        (Some elapsed, Some boot) \<Rightarrow> boot = boot_session current \<and> elapsed \<le> elapsed_realtime current
          \<and> elapsed_realtime current - elapsed \<le> 90000
      | _ \<Rightarrow> False)"

section \<open>Receipts\<close>

datatype delivery_result = Success | Transient_failure | Permanent_failure | Unknown_outcome

record failure_disposition =
  disposition_code :: string
  disposition_mode :: failure_mode
  disposition_retry :: bool

definition classify_discord_delivery_failure :: "delivery_result \<Rightarrow> bool \<Rightarrow> failure_disposition" where
  "classify_discord_delivery_failure result within_window =
     (if (result = Transient_failure \<or> result = Unknown_outcome) \<and> within_window
      then \<lparr>disposition_code = (if result = Unknown_outcome then ''discord_unknown_outcome''
              else ''discord_transient''), disposition_mode = Retryable_mode, disposition_retry = True\<rparr>
      else \<lparr>disposition_code = (if result = Permanent_failure then ''discord_permanent''
              else if result = Unknown_outcome then ''discord_unknown_outcome_stale''
              else ''discord_retry_window_expired''),
            disposition_mode = Failed_mode, disposition_retry = False\<rparr>)"

text \<open>
  \<open>handle_receipt\<close> at the stamp \<open>current_attempt\<close>: the state after (an exception of the
  repository is only reported) and whether the poller was woken or the observer told.
\<close>

definition after_call :: "('x \<times> 'db) res \<Rightarrow> 'db \<Rightarrow> 'db" where
  "after_call r db = (case r of Inl _ \<Rightarrow> db | Inr (_, db') \<Rightarrow> db')"

definition handle_receipt ::
    "attempt_stamp \<Rightarrow> 'p claimed_outbox \<Rightarrow> delivery_result \<Rightarrow> u64 option \<Rightarrow> 'm outbox_db_scheme
     \<Rightarrow> 'm outbox_db_scheme"
  where
  "handle_receipt current_attempt c result message db =
     (let current = wall_time current_attempt in
      if result = Success \<and> message \<noteq> None
      then after_call (complete_public_outbox c (the message) current db) db
      else let
        outcome = (if result = Success then Unknown_outcome else result);
        window = (cl_first_attempt_at c \<noteq> None \<and> within_nonce_retry_window c current_attempt);
        disposition = classify_discord_delivery_failure outcome window
      in after_call (fail_outbox c current
        (if disposition_retry disposition then current + retry_delay_ms (cl_attempts c) else current)
        (disposition_code disposition) (disposition_mode disposition) db) db)"

section \<open>Public messages\<close>

text \<open>
  The readings a handler takes: the clock on entry, the readiness of Discord, the stamp of
  the attempt, the stop token. \<open>scope_ok\<close> and \<open>fail_first\<close> are what it reads of the payload:
  whether the request targets the configured guild and channel, and the injected failure of
  the test kind.
\<close>

record handler_env =
  env_now :: int
  env_ready :: bool
  env_stamp :: attempt_stamp
  env_stopping :: bool

record public_payload =
  request_guild :: u64
  request_channel :: u64
  fail_before_first_send :: bool

record scope =
  scope_guild :: u64
  scope_channel :: u64

text \<open>
  \<open>handle_public\<close> up to the call of Discord: either it is done, or it has marked the message
  submitted and sends it, with the claim as it is handed to \<open>handle_receipt\<close>.
\<close>

datatype ('p, 'db) plan = Done 'db | Send "'p claimed_outbox" 'db

definition submitted_claim :: "'p claimed_outbox \<Rightarrow> attempt_stamp \<Rightarrow> 'p claimed_outbox" where
  "submitted_claim c attempt = c\<lparr>
     cl_first_attempt_at := Some (case cl_first_attempt_at c of Some t \<Rightarrow> t | None \<Rightarrow> wall_time attempt),
     cl_first_attempt_elapsed := Some (case cl_first_attempt_elapsed c of Some t \<Rightarrow> t
       | None \<Rightarrow> elapsed_realtime attempt),
     cl_first_attempt_boot := Some (case cl_first_attempt_boot c of Some b \<Rightarrow> b
       | None \<Rightarrow> boot_session attempt),
     cl_submission_started := Some (wall_time attempt)\<rparr>"

definition prepare_public ::
    "('p \<Rightarrow> public_payload option) \<Rightarrow> scope \<Rightarrow> int \<Rightarrow> handler_env \<Rightarrow> 'p claimed_outbox
     \<Rightarrow> 'm outbox_db_scheme \<Rightarrow> ('p, 'm outbox_db_scheme) plan res"
  where
  "prepare_public payload_of scope receipt_wait_timeout env c db =
     (let current = env_now env;
          finish = (\<lambda>r. rbind r (\<lambda>(_, db). Inr (Done db)))
      in case payload_of (cl_payload c) of
        None \<Rightarrow> finish (fail_outbox c current current ''payload_invalid'' Dead_mode db)
      | Some p \<Rightarrow>
          if request_guild p \<noteq> scope_guild scope \<or> request_channel p \<noteq> scope_channel scope
          then finish (fail_outbox c current current ''scope_rejected'' Dead_mode db)
          else if cl_kind c = ''owner_test.discord_public_retry.v1'' \<and> fail_before_first_send p
            \<and> cl_attempts c = 1
          then finish (fail_outbox c current (current + retry_delay_ms (cl_attempts c))
            ''test_injected_transient'' Retryable_mode db)
          else if \<not> env_ready env then finish (release_outbox c current db)
          else if cl_first_attempt_at c \<noteq> None \<and> 1 < cl_attempts c
            \<and> \<not> within_nonce_retry_window c (env_stamp env)
          then finish (fail_outbox c current current
            (if cl_submission_started c \<noteq> None \<or> cl_last_error c = Some ''discord_unknown_outcome''
             then ''discord_unknown_outcome_stale'' else ''discord_retry_window_expired'') Failed_mode db)
          else if env_stopping env then finish (release_outbox c current db)
          else rbind (submission_lease_until (wall_time (env_stamp env)) receipt_wait_timeout) (\<lambda>lease_until.
            rbind (mark_public_outbox_submitted c (env_stamp env) lease_until db) (\<lambda>(marked, db).
            if marked \<noteq> Applied then Inr (Done db)
            else Inr (Send (submitted_claim c (env_stamp env)) db))))"

text \<open>
  What comes of a send: Discord throws, a receipt arrives in time, or none does (and then
  the worker may be stopping). \<open>discord\<close> is given the nonce and the database at the call, and
  answers with the database at the time of the outcome.
\<close>

datatype send_outcome = Send_threw | Receipt delivery_result "u64 option" | No_receipt bool

definition handle_public ::
    "('p \<Rightarrow> public_payload option) \<Rightarrow> scope \<Rightarrow> int \<Rightarrow> handler_env \<Rightarrow> attempt_stamp
     \<Rightarrow> (string \<Rightarrow> 'm outbox_db_scheme \<Rightarrow> send_outcome \<times> 'm outbox_db_scheme)
     \<Rightarrow> 'p claimed_outbox \<Rightarrow> 'm outbox_db_scheme \<Rightarrow> 'm outbox_db_scheme res"
  where
  "handle_public payload_of scope receipt_wait_timeout env later discord c db =
     rbind (prepare_public payload_of scope receipt_wait_timeout env c db) (\<lambda>plan. case plan of
        Done db \<Rightarrow> Inr db
      | Send submitted db \<Rightarrow> (case discord (cl_nonce c) db of
            (Send_threw, db) \<Rightarrow> Inr (handle_receipt later submitted Unknown_outcome None db)
          | (Receipt result message, db) \<Rightarrow> Inr (handle_receipt later submitted result message db)
          | (No_receipt stopping, db) \<Rightarrow>
              Inr (if stopping then db else handle_receipt later submitted Unknown_outcome None db)))"

section \<open>Edits\<close>

record edit_payload =
  edit_guild :: u64
  edit_channel :: u64
  edit_source :: string

definition handle_public_edit ::
    "('p \<Rightarrow> edit_payload option) \<Rightarrow> scope \<Rightarrow> int \<Rightarrow> handler_env \<Rightarrow> int
     \<Rightarrow> (u64 \<Rightarrow> 'm outbox_db_scheme \<Rightarrow> send_outcome \<times> 'm outbox_db_scheme)
     \<Rightarrow> 'p claimed_outbox \<Rightarrow> 'm outbox_db_scheme \<Rightarrow> 'm outbox_db_scheme res"
  where
  "handle_public_edit payload_of scope receipt_wait_timeout env completion_time discord c db =
     (let current = env_now env;
          finish = (\<lambda>r. rbind r (\<lambda>(_, db). Inr db));
          delay = retry_delay_ms (cl_attempts c)
      in case payload_of (cl_payload c) of
        None \<Rightarrow> finish (fail_outbox c current current ''payload_invalid'' Dead_mode db)
      | Some p \<Rightarrow>
          if edit_guild p \<noteq> scope_guild scope \<or> edit_channel p \<noteq> scope_channel scope
          then finish (fail_outbox c current current ''scope_rejected'' Dead_mode db)
          else if \<not> env_ready env then finish (release_outbox c current db)
          else case delivered_provider_message_id (edit_source p) db of
              None \<Rightarrow> finish (fail_outbox c current (current + delay) ''edit_target_pending'' Retryable_mode db)
            | Some message \<Rightarrow>
                if env_stopping env then finish (release_outbox c current db)
                else rbind (submission_lease_until (wall_time (env_stamp env)) receipt_wait_timeout) (\<lambda>lease_until.
                  rbind (mark_public_outbox_submitted c (env_stamp env) lease_until db) (\<lambda>(marked, db).
                  if marked \<noteq> Applied then Inr db
                  else case discord message db of
                      (Send_threw, db) \<Rightarrow>
                        finish (fail_outbox c current (current + delay) ''discord_edit_unknown'' Retryable_mode db)
                    | (No_receipt True, db) \<Rightarrow> Inr db
                    | (outcome, db) \<Rightarrow>
                        let result = (case outcome of Receipt result _ \<Rightarrow> result | _ \<Rightarrow> Unknown_outcome) in
                        if result = Success
                        then finish (complete_public_outbox c message completion_time db)
                        else if result = Permanent_failure
                        then finish (fail_outbox c completion_time completion_time
                          ''discord_edit_permanent'' Failed_mode db)
                        else finish (fail_outbox c completion_time (completion_time + delay)
                          (if result = Unknown_outcome then ''discord_edit_unknown''
                           else ''discord_edit_transient'') Retryable_mode db))))"

section \<open>Notices\<close>

text \<open>
  \<open>handle_notice\<close>: the payload gives the notice with its token, whose guild and channel are
  those of the request, and whether it is announced; \<open>neutral_card\<close> is the public card made of it.
\<close>

definition notice_queued_event :: "'p claimed_outbox \<Rightarrow> notice_row \<Rightarrow> token_row \<Rightarrow> int \<Rightarrow> string \<Rightarrow> event_row" where
  "notice_queued_event c n t current i = \<lparr>event_id = i, event_type = ''notice.queued.v1'',
     event_aggregate_type = ''pending_notice'', event_aggregate_id = notice_id n,
     actor_user_id = Some (notice_user_id n), event_guild_id = token_guild t,
     event_channel_id = Some (token_channel t), source_message_id = None,
     event_occurred_at = current, recorded_at = current, correlation_id = cl_correlation c,
     causation_id = cl_causation c, event_key = ''event:notice-queued:'' @ notice_id n,
     event_payload = ''{}''\<rparr>"

definition notice_card_outbox :: "notice_row \<Rightarrow> token_row \<Rightarrow> int \<Rightarrow> string \<Rightarrow> string \<Rightarrow> outbox_request" where
  "notice_card_outbox n t current i nonce = \<lparr>req_outbox_id = i, req_kind = ''discord.public.v1'',
     req_out_aggregate_type = Some ''pending_notice'', req_out_aggregate_id = Some (notice_id n),
     req_target_guild = token_guild t, req_target_channel = token_channel t, req_target_user = None,
     req_available_at = current, req_out_max_attempts = 5,
     req_out_key = ''outbox:notice-card:'' @ notice_id n, req_nonce = nonce,
     req_out_created_at = current\<rparr>"

definition handle_notice ::
    "(string \<Rightarrow> bool) \<Rightarrow> ('p \<Rightarrow> (notice_row \<times> token_row) option) \<Rightarrow> ('p \<Rightarrow> bool) \<Rightarrow> ('p \<Rightarrow> 'q)
     \<Rightarrow> ('q \<Rightarrow> string \<Rightarrow> string \<Rightarrow> string) \<Rightarrow> bool \<Rightarrow> int \<Rightarrow> string \<Rightarrow> string
     \<Rightarrow> 'p claimed_outbox \<Rightarrow> 'm outbox_db_scheme \<Rightarrow> 'm outbox_db_scheme res"
  where
  "handle_notice json_valid notice announce neutral_card encode stopping current fresh_event fresh_outbox c db =
     (let finish = (\<lambda>r. rbind r (\<lambda>(_, db). Inr db)) in
      if stopping then finish (release_outbox c current db)
      else case notice (cl_payload c) of
        None \<Rightarrow> finish (fail_outbox c current current ''payload_invalid'' Dead_mode db)
      | Some (n, t) \<Rightarrow>
          rbind (if announce (cl_payload c)
              then rbind (discord_nonce_from_uuid fresh_outbox) (\<lambda>nonce.
                Inr (Some (notice_card_outbox n t current fresh_outbox nonce), Some (neutral_card (cl_payload c))))
              else Inr (None, None)) (\<lambda>(public_outbox, public_message).
          finish (complete_notice_outbox json_valid notice encode c
            (notice_queued_event c n t current fresh_event) public_outbox public_message current db)))"

section \<open>A worker\<close>

text \<open>
  \<open>process_one\<close> of the outbox service; a handler is what the registry holds for the kind.
\<close>

type_synonym ('p, 'm) outbox_handler =
  "'p claimed_outbox \<Rightarrow> 'm outbox_db_scheme \<Rightarrow> job_outcome \<times> 'm outbox_db_scheme"

definition work_on_message ::
    "('p, 'm) outbox_handler registry \<Rightarrow> bool \<Rightarrow> int \<Rightarrow> 'p claimed_outbox \<Rightarrow> 'm outbox_db_scheme
     \<Rightarrow> job_outcome \<times> (string \<times> string option) list \<times> 'm outbox_db_scheme"
  where
  "work_on_message registry stop2 now c db =
     (if stop2
      then (case release_outbox c now db of
          Inl _ \<Rightarrow> (Threw_exception, [], db) | Inr (_, db') \<Rightarrow> (Handled, [], db'))
      else case registry_dispatch ''Outbox'' (cl_kind c) registry of
          Inl _ \<Rightarrow> (Threw_exception, [], db)
        | Inr None \<Rightarrow> (case fail_outbox c now now ''handler_unknown_type'' Dead_mode db of
              Inl _ \<Rightarrow> (Threw_exception, [], db)
            | Inr (_, db') \<Rightarrow>
                (Handled, [(''outbox.unknown_type'', Some (shortened_persistent_id (cl_outbox_id c)))], db'))
        | Inr (Some handler) \<Rightarrow> (case handler c db of (outcome, db') \<Rightarrow> (outcome, [], db')))"

definition settle_message ::
    "'p claimed_outbox \<Rightarrow> int \<Rightarrow> string \<Rightarrow> 'm outbox_db_scheme \<Rightarrow> 'm outbox_db_scheme" where
  "settle_message c later code db = after_call
     (fail_outbox c later (later + retry_delay_ms (cl_attempts c)) code Retryable_mode db) db"

definition process_one_message ::
    "'p payload_codec \<Rightarrow> ('p, 'm) outbox_handler registry \<Rightarrow> string \<Rightarrow> bool \<Rightarrow> bool \<Rightarrow> bool \<Rightarrow> int \<Rightarrow> int
     \<Rightarrow> string \<Rightarrow> 'm outbox_db_scheme \<Rightarrow> (string \<times> string option) list \<times> 'm outbox_db_scheme"
  where
  "process_one_message codec registry instance_id stop1 stop2 ready now later token db =
     (if stop1 then ([], db)
      else case claim_due_outbox codec now (now + 60000) instance_id token ready db of
          Inl _ \<Rightarrow> ([(''outbox.handler'', None)], db)
        | Inr (None, db) \<Rightarrow> ([], db)
        | Inr (Some c, db) \<Rightarrow>
            let report = (''outbox.handler'', Some (shortened_persistent_id (cl_outbox_id c))) in
            (case work_on_message registry stop2 now c db of
              (Handled, diagnostics, db) \<Rightarrow> (diagnostics, db)
            | (Threw_exception, diagnostics, db) \<Rightarrow>
                (diagnostics @ [report], settle_message c later ''handler_exception'' db)
            | (Threw_unknown, diagnostics, db) \<Rightarrow>
                (diagnostics @ [report], settle_message c later ''handler_unknown_exception'' db)))"

text \<open>The constructor: its checks, and the registry it fills and freezes.\<close>

definition outbox_registry ::
    "string \<Rightarrow> scope \<Rightarrow> int \<Rightarrow> 'h \<Rightarrow> 'h \<Rightarrow> 'h \<Rightarrow> 'h registry res" where
  "outbox_registry instance_id scope receipt_wait_timeout notice public edit =
     rbind (require (\<not> (instance_id = [] \<or> \<not> snowflake_is_set (scope_guild scope)
         \<or> \<not> snowflake_is_set (scope_channel scope) \<or> receipt_wait_timeout \<le> 0
         \<or> 90000 < receipt_wait_timeout))
       (Invalid_argument ''Outbox dependencies are incomplete.'')) (\<lambda>_.
     rbind (registry_add ''Outbox'' ''notice.pending.v1'' (Some notice)
       \<lparr>handlers = Map.empty, frozen = False\<rparr>) (\<lambda>r.
     rbind (registry_add ''Outbox'' ''discord.public.v1'' (Some public) r) (\<lambda>r.
     rbind (registry_add ''Outbox'' ''owner_test.discord_public_retry.v1'' (Some public) r) (\<lambda>r.
     rbind (registry_add ''Outbox'' ''discord.message_edit.v1'' (Some edit) r) (\<lambda>r.
     Inr (registry_freeze r))))))"

lemma outbox_registry_dispatch:
  assumes "outbox_registry instance_id scope timeout notice public edit = Inr r"
  shows "registry_dispatch ''Outbox'' kind r = Inr
    (if kind \<in> public_kinds then Some public
     else if kind = ''notice.pending.v1'' then Some notice
     else if kind = ''discord.message_edit.v1'' then Some edit else None)"
  using assms
  by (clarsimp simp: outbox_registry_def rbind_eq_Inr registry_add_def registry_freeze_def
      registry_dispatch_def public_kinds_def)

end
