(* ===== verification/Outbox_Delivery.thy ===== *)
theory Outbox_Delivery
  imports Outbox_Service
begin

text \<open>
  The delivery of public messages as a whole: claims, sends, receipts and every other call
  interleaved by any number of workers, and what holds in every history of it.
\<close>

section \<open>Deliveries\<close>

text \<open>
  What the calls that neither claim nor mark a message are; their arguments are arbitrary.
\<close>

inductive quiet_call ::
    "(string \<Rightarrow> bool) \<Rightarrow> (string \<Rightarrow> string \<Rightarrow> 'j option) \<Rightarrow> ('p \<Rightarrow> (notice_row \<times> token_row) option)
     \<Rightarrow> ('q \<Rightarrow> string \<Rightarrow> string \<Rightarrow> string) \<Rightarrow> 'm outbox_db_scheme \<Rightarrow> 'm outbox_db_scheme \<Rightarrow> bool"
  for json_valid norm_payload notice encode where
  Release_call: "release_outbox (c :: 'p claimed_outbox) now_ms db = Inr (status, db') \<Longrightarrow> quiet_call json_valid norm_payload notice encode db db'"
| Complete_call: "complete_public_outbox (c :: 'p claimed_outbox) message now_ms db = Inr (status, db') \<Longrightarrow>
    quiet_call json_valid norm_payload notice encode db db'"
| Fail_call: "fail_outbox (c :: 'p claimed_outbox) now_ms retry_at code mode db = Inr (status, db') \<Longrightarrow>
    quiet_call json_valid norm_payload notice encode db db'"
| Cancel_call: "cancel_outbox i now_ms db = Inr (status, db') \<Longrightarrow> quiet_call json_valid norm_payload notice encode db db'"
| Enqueue_call: "enqueue_message json_valid norm_payload event outbox payload db = Inr (created, db') \<Longrightarrow>
    quiet_call json_valid norm_payload notice encode db db'"
| Notice_call: "complete_notice_outbox json_valid notice encode c event public_outbox public_message now_ms db
    = Inr (status, db') \<Longrightarrow> quiet_call json_valid norm_payload notice encode db db'"
| Receipt_call: "handle_receipt current (c :: 'p claimed_outbox) result message db = db' \<Longrightarrow> quiet_call json_valid norm_payload notice encode db db'"

lemma handle_receipt_quiet: "outbox_quiet db (handle_receipt current c result message db)"
proof -
  have same: "outbox_quiet db db" by (rule quiet_same) simp
  show ?thesis using same
    by (auto simp: handle_receipt_def after_call_def Let_def split: sum.splits
        intro: complete_public_outbox_quiet fail_outbox_quiet)
qed

lemma quiet_call_quiet: "quiet_call json_valid norm_payload notice encode db db' \<Longrightarrow> outbox_quiet db db'"
  by (induction rule: quiet_call.induct)
    (auto intro: release_outbox_quiet complete_public_outbox_quiet fail_outbox_quiet cancel_outbox_quiet
      enqueue_message_quiet complete_notice_outbox_quiet handle_receipt_quiet)

text \<open>
  The delivery of public messages by any number of workers: a claim, drawn with a token no
  worker holds, is in flight until its worker has handled it or is gone; \<open>sends\<close> records
  every message handed to Discord with the stamp of the attempt.
\<close>

record 'p delivery =
  dl_db :: outbox_db
  in_flight :: "'p claimed_outbox list"
  sends :: "(string \<times> attempt_stamp) list"

inductive delivery_step ::
    "'p payload_codec \<Rightarrow> ('p \<Rightarrow> public_payload option) \<Rightarrow> scope \<Rightarrow> int \<Rightarrow> (string \<Rightarrow> bool)
     \<Rightarrow> (string \<Rightarrow> string \<Rightarrow> 'j option) \<Rightarrow> ('p \<Rightarrow> (notice_row \<times> token_row) option)
     \<Rightarrow> ('q \<Rightarrow> string \<Rightarrow> string \<Rightarrow> string) \<Rightarrow> 'p delivery \<Rightarrow> 'p delivery \<Rightarrow> bool"
  for codec payload_of scope timeout json_valid norm_payload notice encode where
  Take: "claim_due_outbox codec now_ms lease_until owner token ready (dl_db s) = Inr (Some c, db') \<Longrightarrow>
    token \<notin> cl_token ` set (in_flight s) \<Longrightarrow>
    delivery_step codec payload_of scope timeout json_valid norm_payload notice encode s (s\<lparr>dl_db := db', in_flight := c # in_flight s\<rparr>)"
| Nothing: "claim_due_outbox codec now_ms lease_until owner token ready (dl_db s) = Inr (None, db') \<Longrightarrow>
    delivery_step codec payload_of scope timeout json_valid norm_payload notice encode s (s\<lparr>dl_db := db'\<rparr>)"
| Finish: "c \<in> set (in_flight s) \<Longrightarrow> cl_kind c \<in> public_kinds \<Longrightarrow>
    prepare_public payload_of scope timeout env c (dl_db s) = Inr (Done db') \<Longrightarrow>
    delivery_step codec payload_of scope timeout json_valid norm_payload notice encode s
      (s\<lparr>dl_db := db', in_flight := remove1 c (in_flight s)\<rparr>)"
| Send_message: "c \<in> set (in_flight s) \<Longrightarrow> cl_kind c \<in> public_kinds \<Longrightarrow>
    prepare_public payload_of scope timeout env c (dl_db s) = Inr (Send c' db') \<Longrightarrow>
    delivery_step codec payload_of scope timeout json_valid norm_payload notice encode s
      (s\<lparr>dl_db := db', in_flight := remove1 c (in_flight s),
         sends := sends s @ [(cl_outbox_id c, env_stamp env)]\<rparr>)"
| Edit: "c \<in> set (in_flight s) \<Longrightarrow> cl_kind c = ''discord.message_edit.v1'' \<Longrightarrow>
    mark_public_outbox_submitted c stamp until (dl_db s) = Inr (status, db') \<Longrightarrow>
    delivery_step codec payload_of scope timeout json_valid norm_payload notice encode s
      (s\<lparr>dl_db := db', in_flight := remove1 c (in_flight s)\<rparr>)"
| Lose: "delivery_step codec payload_of scope timeout json_valid norm_payload notice encode s
      (s\<lparr>in_flight := remove1 c (in_flight s)\<rparr>)"
| Call: "quiet_call json_valid norm_payload notice encode (dl_db s) db' \<Longrightarrow>
    delivery_step codec payload_of scope timeout json_valid norm_payload notice encode s (s\<lparr>dl_db := db'\<rparr>)"

text \<open>The invariant: what a claim in flight knows, and what the rows remember of the sends.\<close>

definition holds_lease :: "'p claimed_outbox \<Rightarrow> outbox_row \<Rightarrow> bool" where
  "holds_lease c r \<longleftrightarrow> outbox_id r = cl_outbox_id c \<and> out_state r = Out_claimed
     \<and> out_lease_token r = Some (cl_token c)"

definition claim_knows :: "'p claimed_outbox \<Rightarrow> outbox_row \<Rightarrow> bool" where
  "claim_knows c r \<longleftrightarrow> out_kind r = cl_kind c \<and> first_attempt_at r = cl_first_attempt_at c
     \<and> first_attempt_elapsed r = cl_first_attempt_elapsed c
     \<and> first_attempt_boot r = cl_first_attempt_boot c
     \<and> (cl_first_attempt_at c \<noteq> None \<longrightarrow> 2 \<le> cl_attempts c)"

definition flights_known :: "'p claimed_outbox list \<Rightarrow> 'm outbox_db_scheme \<Rightarrow> bool" where
  "flights_known cs db \<longleftrightarrow> (\<forall>c \<in> set cs. \<forall>r \<in> set (outbox_messages db). holds_lease c r \<longrightarrow> claim_knows c r)"

definition remembers :: "outbox_row \<Rightarrow> attempt_stamp \<Rightarrow> bool" where
  "remembers r st \<longleftrightarrow> first_attempt_boot r = Some (boot_session st)
     \<and> (\<exists>e. first_attempt_elapsed r = Some e \<and> e \<le> elapsed_realtime st
          \<and> elapsed_realtime st - e \<le> 90000)"

definition sends_known :: "(string \<times> attempt_stamp) list \<Rightarrow> 'm outbox_db_scheme \<Rightarrow> bool" where
  "sends_known ss db \<longleftrightarrow> (\<forall>(i, st) \<in> set ss. \<exists>r \<in> set (outbox_messages db). outbox_id r = i \<and> remembers r st)"

definition delivery_ok :: "'p delivery \<Rightarrow> bool" where
  "delivery_ok s \<longleftrightarrow> outbox_ok (dl_db s) \<and> distinct (map cl_token (in_flight s))
     \<and> flights_known (in_flight s) (dl_db s) \<and> sends_known (sends s) (dl_db s)"

text \<open>Steps that keep the first attempts of the rows keep what is known of the sends.\<close>

definition firsts_kept :: "outbox_row \<Rightarrow> outbox_row \<Rightarrow> bool" where
  "firsts_kept r r' \<longleftrightarrow> outbox_id r' = outbox_id r
     \<and> (\<forall>e. first_attempt_elapsed r = Some e \<longrightarrow> first_attempt_elapsed r' = Some e)
     \<and> (\<forall>b. first_attempt_boot r = Some b \<longrightarrow> first_attempt_boot r' = Some b)"

lemma firsts_kept_remembers: "firsts_kept r r' \<Longrightarrow> remembers r st \<Longrightarrow> remembers r' st"
  by (auto simp: firsts_kept_def remembers_def)

lemma sends_known_kept:
  assumes "sends_known ss db"
    and "\<And>r. r \<in> set (outbox_messages db) \<Longrightarrow> \<exists>r' \<in> set (outbox_messages db'). firsts_kept r r'"
  shows "sends_known ss db'"
  unfolding sends_known_def
proof (clarify)
  fix i st assume "(i, st) \<in> set ss"
  then obtain r where r: "r \<in> set (outbox_messages db)" "outbox_id r = i" "remembers r st"
    using assms(1) unfolding sends_known_def by blast
  obtain r' where r': "r' \<in> set (outbox_messages db')" "firsts_kept r r'" using assms(2) [OF r(1)] ..
  then show "\<exists>r \<in> set (outbox_messages db'). outbox_id r = i \<and> remembers r st"
    using firsts_kept_remembers [OF r'(2) r(3)] r(2) by (auto simp: firsts_kept_def)
qed

lemma quiet_firsts: "out_quiet r r' \<Longrightarrow> firsts_kept r r'"
  by (simp add: out_quiet_def firsts_kept_def)

lemma list_all2_partner: "list_all2 P xs ys \<Longrightarrow> x \<in> set xs \<Longrightarrow> \<exists>y \<in> set ys. P x y"
  by (metis in_set_conv_nth list_all2_conv_all_nth)

lemma list_all2_partner': "list_all2 P xs ys \<Longrightarrow> y \<in> set ys \<Longrightarrow> \<exists>x \<in> set xs. P x y"
  by (metis in_set_conv_nth list_all2_conv_all_nth)

lemma quiet_sends:
  assumes "outbox_quiet db db'" "sends_known ss db"
  shows "sends_known ss db'"
proof (rule sends_known_kept [OF assms(2)])
  fix r assume "r \<in> set (outbox_messages db)"
  then show "\<exists>r' \<in> set (outbox_messages db'). firsts_kept r r'"
    using assms(1) list_all2_partner quiet_firsts unfolding outbox_quiet_def by (metis UnCI set_append)
qed

lemma quiet_knows: "out_quiet r r' \<Longrightarrow> holds_lease c r' \<Longrightarrow> holds_lease c r \<and> (claim_knows c r \<longrightarrow> claim_knows c r')"
  by (auto simp: out_quiet_def holds_lease_def claim_knows_def)

lemma quiet_flights:
  assumes "outbox_quiet db db'" "flights_known cs db"
  shows "flights_known cs db'"
  unfolding flights_known_def
proof (intro ballI impI)
  fix c r' assume c: "c \<in> set cs" and r': "r' \<in> set (outbox_messages db')" and h: "holds_lease c r'"
  obtain kept new where k: "outbox_messages db' = kept @ new"
      "list_all2 out_quiet (outbox_messages db) kept" "list_all fresh_row new"
    using assms(1) by (auto simp: outbox_quiet_def)
  have "r' \<notin> set new" using k(3) h by (auto simp: list_all_iff fresh_row_def holds_lease_def)
  then obtain r where r: "r \<in> set (outbox_messages db)" "out_quiet r r'"
    using r' k(1) list_all2_partner' [OF k(2)] by auto
  show "claim_knows c r'"
    using quiet_knows [OF r(2) h] assms(2) c r(1) unfolding flights_known_def by blast
qed

lemma quiet_delivery:
  assumes "outbox_quiet (dl_db s) db'" "delivery_ok s"
  shows "delivery_ok (s\<lparr>dl_db := db'\<rparr>)"
  using assms quiet_ok quiet_flights quiet_sends by (auto simp: delivery_ok_def)

lemma rbind_InrE: "rbind m f = Inr y \<Longrightarrow> (\<And>x. m = Inr x \<Longrightarrow> f x = Inr y \<Longrightarrow> P) \<Longrightarrow> P"
  unfolding rbind_eq_Inr by blast

lemma first_attempts_agree:
  "out_row_ok r \<Longrightarrow> first_attempt_at r = None \<longleftrightarrow> first_attempt_elapsed r = None"
  "out_row_ok r \<Longrightarrow> first_attempt_at r = None \<longleftrightarrow> first_attempt_boot r = None"
  unfolding out_row_ok_def outbox_check_def by blast+

lemma flights_known_subset: "flights_known cs db \<Longrightarrow> set cs' \<subseteq> set cs \<Longrightarrow> flights_known cs' db"
  by (auto simp: flights_known_def)

lemma claim_delivery:
  assumes claim: "claim_due_outbox codec now_ms lease_until owner token ready (dl_db s) = Inr (claimed, db')"
    and fresh: "token \<notin> cl_token ` set (in_flight s)" and ok: "delivery_ok s"
  shows "delivery_ok (s\<lparr>dl_db := db',
    in_flight := (case claimed of None \<Rightarrow> in_flight s | Some c \<Rightarrow> c # in_flight s)\<rparr>)"
proof -
  have ok': "outbox_ok (dl_db s)" using ok by (simp add: delivery_ok_def)
  show ?thesis
    using claim ok'
  proof (cases rule: claim_due_outbox_cases)
    case (idle mid)
    then show ?thesis
      using quiet_delivery [OF quiet_kept [OF sweep_quiet [OF idle(1)]] ok] by simp
  next
    case (taken mid r)
    let ?lease = "lease_outbox now_ms lease_until owner token (out_attempts r + 1) r"
    have mid: "delivery_ok (s\<lparr>dl_db := mid\<rparr>)"
      by (rule quiet_delivery [OF quiet_kept [OF sweep_quiet [OF taken(1)]] ok])
    have r: "out_row_ok r" using mid taken(2) by (auto simp: delivery_ok_def outbox_ok_def)
    obtain c where c: "claimed = Some c" "c = claimed_message codec owner token (out_attempts r + 1) r"
      using taken(5) by simp
    have knows: "claim_knows c ?lease"
      using r by (auto simp: claim_knows_def c(2) claimed_message_def Let_def lease_outbox_def out_row_ok_def)
    have tok: "cl_token c = token" by (simp add: c(2) claimed_message_def Let_def)
    have dist: "distinct (map outbox_id (outbox_messages mid))"
      using mid by (simp add: delivery_ok_def outbox_ok_def)
    have "flights_known (c # in_flight s) db'"
      unfolding flights_known_def
    proof (intro ballI impI)
      fix d q assume d: "d \<in> set (c # in_flight s)" and q: "q \<in> set (outbox_messages db')" "holds_lease d q"
      show "claim_knows d q"
      proof (cases "q = ?lease")
        case True
        have "cl_token d = token" using q(2) True by (simp add: holds_lease_def lease_outbox_def)
        then have "d = c" using d fresh by auto
        then show ?thesis using True knows by simp
      next
        case False
        then have q': "q \<in> set (outbox_messages mid)" "q \<noteq> r" using q(1) by (auto simp: taken(6) split: if_splits)
        have "outbox_id q \<noteq> outbox_id r" using distinct_key_eq [OF dist q'(1) taken(2)] q'(2) by blast
        then have "d \<noteq> c" using q(2) by (auto simp: holds_lease_def c(2) claimed_message_def Let_def)
        then show ?thesis using mid d q' q(2) by (auto simp: delivery_ok_def flights_known_def)
      qed
    qed
    moreover have "sends_known (sends s) db'"
    proof (rule sends_known_kept)
      show "sends_known (sends s) mid" using mid by (simp add: delivery_ok_def)
      fix q assume q: "q \<in> set (outbox_messages mid)"
      have "firsts_kept q (if q = r then ?lease else q)" by (simp add: firsts_kept_def lease_outbox_def)
      moreover have "(if q = r then ?lease else q) \<in> set (outbox_messages db')"
        using q by (auto simp: taken(6))
      ultimately show "\<exists>q' \<in> set (outbox_messages db'). firsts_kept q q'" by blast
    qed
    moreover have "distinct (map cl_token (c # in_flight s))"
      using ok fresh tok by (simp add: delivery_ok_def)
    moreover have "outbox_ok db'" by (rule claim_due_outbox_ok [OF claim ok'])
    ultimately show ?thesis by (simp add: delivery_ok_def c(1))
  qed
qed

text \<open>Marking a submission touches the one row the claim holds, and keeps its first attempt.\<close>

lemma mark_delivery:
  assumes mark: "mark_public_outbox_submitted c attempt lease_until (dl_db s) = Inr (status, db')"
    and c: "c \<in> set (in_flight s)" and ok: "delivery_ok s"
  shows "delivery_ok (s\<lparr>dl_db := db', in_flight := remove1 c (in_flight s)\<rparr>)"
    and "status = Applied \<Longrightarrow> (cl_first_attempt_at c \<noteq> None \<Longrightarrow> 1 < cl_attempts c \<Longrightarrow>
        within_nonce_retry_window c attempt) \<Longrightarrow>
      \<exists>r \<in> set (outbox_messages db'). outbox_id r = cl_outbox_id c \<and> remembers r attempt"
proof -
  let ?cond = "\<lambda>r. out_owned c r \<and> (out_kind r \<in> public_kinds \<or> out_kind r = ''discord.message_edit.v1'')"
  let ?change = "\<lambda>r. r\<lparr>first_attempt_at := Some (case first_attempt_at r of Some t \<Rightarrow> t
            | None \<Rightarrow> max (wall_time attempt) (out_created_at r)),
          first_attempt_elapsed := Some (case first_attempt_elapsed r of Some t \<Rightarrow> t
            | None \<Rightarrow> elapsed_realtime attempt),
          first_attempt_boot := Some (case first_attempt_boot r of Some b \<Rightarrow> b
            | None \<Rightarrow> boot_session attempt),
          submission_started_at := Some (max (wall_time attempt) (out_created_at r)),
          out_lease_until := map_option (\<lambda>t. max t lease_until) (out_lease_until r),
          out_updated_at := max (wall_time attempt) (out_updated_at r)\<rparr>"
  obtain n where u: "update_rows outbox_check ''outbox_message'' ?cond ?change (outbox_messages (dl_db s))
      = Inr (n, outbox_messages db')" and n: "status = Applied \<longrightarrow> 0 < n"
    by (rule mark_submitted_cases [OF mark])
  have rows: "outbox_messages db' = map (\<lambda>r. if ?cond r then ?change r else r) (outbox_messages (dl_db s))"
    using u by (simp add: update_rows_Inr)
  have dok: "outbox_ok (dl_db s)" "distinct (map cl_token (in_flight s))"
    "flights_known (in_flight s) (dl_db s)" "sends_known (sends s) (dl_db s)"
    using ok by (simp_all add: delivery_ok_def)
  have owned: "holds_lease c r" if "out_owned c r" for r
    using that by (simp add: out_owned_def holds_lease_def)
  have "flights_known (remove1 c (in_flight s)) db'"
    unfolding flights_known_def
  proof (intro ballI impI)
    fix d q assume d: "d \<in> set (remove1 c (in_flight s))" and q: "q \<in> set (outbox_messages db')" "holds_lease d q"
    have dist: "distinct (in_flight s)" using dok(2) by (simp add: distinct_map)
    then have d': "d \<in> set (in_flight s)" "d \<noteq> c" using d by auto
    have tok: "cl_token d \<noteq> cl_token c"
      using dok(2) d' c by (auto simp: distinct_map dest: inj_onD)
    obtain r where r: "r \<in> set (outbox_messages (dl_db s))" "q = (if ?cond r then ?change r else r)"
      using q(1) unfolding rows by auto
    have "\<not> ?cond r"
      using q(2) r(2) tok by (auto simp: holds_lease_def out_owned_def)
    then have "q = r" using r(2) by (simp only: if_False)
    then show "claim_knows d q" using dok(3) d'(1) r(1) q(2) by (auto simp: flights_known_def)
  qed
  moreover have "sends_known (sends s) db'"
  proof (rule sends_known_kept [OF dok(4)])
    fix r assume r: "r \<in> set (outbox_messages (dl_db s))"
    have "firsts_kept r (if ?cond r then ?change r else r)" by (simp add: firsts_kept_def)
    moreover have "(if ?cond r then ?change r else r) \<in> set (outbox_messages db')" using r unfolding rows by simp
    ultimately show "\<exists>r' \<in> set (outbox_messages db'). firsts_kept r r'" by blast
  qed
  moreover have "distinct (map cl_token (remove1 c (in_flight s)))"
    using dok(2) by (simp add: distinct_map inj_on_def distinct_remove1 notin_set_remove1)
  ultimately show "delivery_ok (s\<lparr>dl_db := db', in_flight := remove1 c (in_flight s)\<rparr>)"
    using mark_submitted_ok [OF mark dok(1)] by (simp add: delivery_ok_def)
  show "\<exists>r \<in> set (outbox_messages db'). outbox_id r = cl_outbox_id c \<and> remembers r attempt"
    if applied: "status = Applied" and window: "cl_first_attempt_at c \<noteq> None \<Longrightarrow> 1 < cl_attempts c \<Longrightarrow>
      within_nonce_retry_window c attempt"
  proof -
    have "0 < n" using n applied by simp
    then obtain r where r: "r \<in> set (outbox_messages (dl_db s))" "?cond r"
      using u by (fastforce simp: update_rows_Inr filter_empty_conv)
    have h: "holds_lease c r" using r(2) owned by simp
    have k: "claim_knows c r" using dok(3) c r(1) h by (auto simp: flights_known_def)
    have rok: "out_row_ok r" using dok(1) r(1) by (simp add: outbox_ok_def)
    have "remembers (?change r) attempt"
    proof (cases "first_attempt_at r")
      case None
      then have "first_attempt_elapsed r = None" "first_attempt_boot r = None"
        using first_attempts_agree [OF rok] by auto
      then show ?thesis by (simp add: remembers_def)
    next
      case (Some t)
      have first: "cl_first_attempt_at c \<noteq> None" using Some k unfolding claim_knows_def by (metis option.distinct(1))
      then have "1 < cl_attempts c" using k unfolding claim_knows_def by simp
      with first have "within_nonce_retry_window c attempt" by (rule window)
      then show ?thesis using k
        by (auto simp: remembers_def within_nonce_retry_window_def claim_knows_def split: option.splits)
    qed
    moreover have "outbox_id (?change r) = cl_outbox_id c" using h by (simp add: holds_lease_def)
    moreover have "?change r \<in> set (outbox_messages db')"
      unfolding rows using r by (auto intro!: image_eqI [of _ _ r])
    ultimately show ?thesis by blast
  qed
qed

lemma prepare_public_cases:
  assumes "prepare_public payload_of scope timeout env c db = Inr plan"
  obtains (settled) db' where "plan = Done db'" "outbox_quiet db db'"
    | (not_marked) until status db' where "plan = Done db'"
      "mark_public_outbox_submitted c (env_stamp env) until db = Inr (status, db')"
    | (sent) until db' where "plan = Send (submitted_claim c (env_stamp env)) db'"
      "mark_public_outbox_submitted c (env_stamp env) until db = Inr (Applied, db')"
      "cl_first_attempt_at c \<noteq> None \<Longrightarrow> 1 < cl_attempts c \<Longrightarrow> within_nonce_retry_window c (env_stamp env)"
proof -
  have finish: thesis if "rbind r (\<lambda>(_, db). Inr (Done db)) = Inr plan"
      "\<And>status db'. r = Inr (status, db') \<Longrightarrow> outbox_quiet db db'" for r :: "(work_status \<times> _) res"
    using that settled by (auto simp: rbind_eq_Inr split: prod.splits)
  have released: thesis if "rbind (release_outbox c t db) (\<lambda>(_, db). Inr (Done db)) = Inr plan" for t
    by (rule finish [OF that]) (rule release_outbox_quiet)
  have failed: thesis
    if "rbind (fail_outbox c t u code mode db) (\<lambda>(_, db). Inr (Done db)) = Inr plan" for t u code mode
    by (rule finish [OF that]) (rule fail_outbox_quiet)
  have send: thesis if s1: "rbind (submission_lease_until (wall_time (env_stamp env)) timeout) (\<lambda>lease_until.
            rbind (mark_public_outbox_submitted c (env_stamp env) lease_until db) (\<lambda>(marked, db).
            if marked \<noteq> Applied then Inr (Done db)
            else Inr (Send (submitted_claim c (env_stamp env)) db))) = Inr plan"
      and s2: "cl_first_attempt_at c \<noteq> None \<Longrightarrow> 1 < cl_attempts c \<Longrightarrow> within_nonce_retry_window c (env_stamp env)"
  proof -
    obtain until where s3: "rbind (mark_public_outbox_submitted c (env_stamp env) until db)
        (\<lambda>(marked, db). if marked \<noteq> Applied then Inr (Done db)
          else Inr (Send (submitted_claim c (env_stamp env)) db)) = Inr plan"
      by (rule rbind_InrE [OF s1])
    obtain x where x: "mark_public_outbox_submitted c (env_stamp env) until db = Inr x"
      "(case x of (marked, db') \<Rightarrow> if marked \<noteq> Applied then Inr (Done db')
          else Inr (Send (submitted_claim c (env_stamp env)) db')) = (Inr plan :: _ res)"
      by (rule rbind_InrE [OF s3])
    obtain marked db' where "x = (marked, db')" by (cases x)
    with x have m: "mark_public_outbox_submitted c (env_stamp env) until db = Inr (marked, db')"
      "(if marked \<noteq> Applied then Inr (Done db')
          else Inr (Send (submitted_claim c (env_stamp env)) db')) = (Inr plan :: _ res)"
      by simp_all
    show thesis
    proof (cases "marked = Applied")
      case True then show thesis using m by (intro sent [OF _ _ s2]) simp_all
    next
      case False then show thesis using m by (intro not_marked [of db' until marked]) simp_all
    qed
  qed
  show thesis
  proof (cases "payload_of (cl_payload c)")
    case None then show thesis using assms failed by (simp add: prepare_public_def Let_def)
  next
    case (Some p)
    note steps = assms [unfolded prepare_public_def Let_def, unfolded Some option.case]
    consider (scope) "request_guild p \<noteq> scope_guild scope \<or> request_channel p \<noteq> scope_channel scope"
      | (test) "\<not> (request_guild p \<noteq> scope_guild scope \<or> request_channel p \<noteq> scope_channel scope)"
        "cl_kind c = ''owner_test.discord_public_retry.v1'' \<and> fail_before_first_send p \<and> cl_attempts c = 1"
      | (rest) "\<not> (request_guild p \<noteq> scope_guild scope \<or> request_channel p \<noteq> scope_channel scope)"
        "\<not> (cl_kind c = ''owner_test.discord_public_retry.v1'' \<and> fail_before_first_send p \<and> cl_attempts c = 1)"
      by blast
    then show thesis
    proof cases
      case scope show thesis using steps unfolding if_P [OF scope] by (rule failed)
    next
      case test show thesis using steps unfolding if_not_P [OF test(1)] if_P [OF test(2)] by (rule failed)
    next
      case rest
      note steps = steps [unfolded if_not_P [OF rest(1)] if_not_P [OF rest(2)]]
      show thesis
      proof (cases "env_ready env")
        case False then show thesis using steps released by simp
      next
        case True
        show thesis
        proof (cases "cl_first_attempt_at c \<noteq> None \<and> 1 < cl_attempts c
            \<and> \<not> within_nonce_retry_window c (env_stamp env)")
          case stale: True show thesis using steps True unfolding if_P [OF stale] by (simp only: simp_thms if_False) (rule failed)
        next
          case fresh: False
          show thesis
          proof (cases "env_stopping env")
            case stopping: True
            then show thesis using steps True unfolding if_not_P [OF fresh] by (simp only: simp_thms if_False if_True) (rule released)
          next
            case running: False
            then show thesis using steps True fresh unfolding if_not_P [OF fresh] by (simp only: simp_thms if_False) (rule send, auto)
          qed
        qed
      qed
    qed
  qed
qed

lemma delivery_step_ok:
  assumes "delivery_step codec payload_of scope timeout json_valid norm_payload notice encode s s'"
    and ok: "delivery_ok s"
  shows "delivery_ok s'"
  using assms(1)
proof cases
  case (Take now_ms lease_until owner token ready c db')
  then show ?thesis using claim_delivery [OF Take(2,3) ok] by simp
next
  case (Nothing now_ms lease_until owner token ready db')
  have "outbox_ok (dl_db s)" using ok by (simp add: delivery_ok_def)
  with Nothing(2) obtain mid where "sweep_outbox now_ms ready (dl_db s) = Inr mid" "db' = mid"
    by (cases rule: claim_due_outbox_cases) simp_all
  then show ?thesis unfolding Nothing(1)
    using quiet_delivery [OF quiet_kept [OF sweep_quiet] ok] by simp
next
  case (Lose c)
  then show ?thesis using ok flights_known_subset [of "in_flight s" "dl_db s" "remove1 c (in_flight s)"]
    by (auto simp: delivery_ok_def distinct_map inj_on_def set_remove1_subset dest: notin_set_remove1
        intro: distinct_remove1)
next
  case (Call db')
  then show ?thesis using quiet_delivery [OF quiet_call_quiet ok] by simp
next
  case (Edit c stamp until status db')
  then show ?thesis using mark_delivery(1) [OF Edit(4,2) ok] by simp
next
  case (Finish c env db')
  from Finish(4) show ?thesis
  proof (cases rule: prepare_public_cases)
    case (settled d)
    have "delivery_ok (s\<lparr>dl_db := db'\<rparr>)" using quiet_delivery [OF settled(2) ok] settled(1) by simp
    then show ?thesis unfolding Finish(1)
      using flights_known_subset [of "in_flight s" db' "remove1 c (in_flight s)"]
      by (auto simp: delivery_ok_def distinct_map inj_on_def set_remove1_subset dest: notin_set_remove1
        intro: distinct_remove1)
  next
    case (not_marked until status d)
    then show ?thesis using mark_delivery(1) [OF not_marked(2) Finish(2) ok] Finish(1) by simp
  qed simp
next
  case (Send_message c env c' db')
  from Send_message(4) show ?thesis
  proof (cases rule: prepare_public_cases)
    case (sent until d)
    have m: "mark_public_outbox_submitted c (env_stamp env) until (dl_db s) = Inr (Applied, db')"
      using sent(1,2) by simp
    have d: "delivery_ok (s\<lparr>dl_db := db', in_flight := remove1 c (in_flight s)\<rparr>)"
      by (rule mark_delivery(1) [OF m Send_message(2) ok])
    have "\<exists>r \<in> set (outbox_messages db'). outbox_id r = cl_outbox_id c \<and> remembers r (env_stamp env)"
      by (rule mark_delivery(2) [OF m Send_message(2) ok refl sent(3)])
    with d show ?thesis unfolding Send_message(1) by (auto simp: delivery_ok_def sends_known_def)
  qed simp_all
qed

text \<open>Property C14: however many workers deliver, crash and retry, and whatever receipts, cancellations and
  new requests interleave with them: every two times the same message is handed to Discord
  lie in the same boot session and within the 90 seconds in which Discord takes its nonce for
  a duplicate.\<close>
theorem resends_stay_in_nonce_window:
  assumes "(delivery_step codec payload_of scope timeout json_valid norm_payload notice encode)\<^sup>*\<^sup>* s s'"
    and "outbox_ok (dl_db s)" "in_flight s = []" "sends s = []"
    and "(i, st1) \<in> set (sends s')" "(i, st2) \<in> set (sends s')"
  shows "boot_session st1 = boot_session st2
    \<and> \<bar>elapsed_realtime st1 - elapsed_realtime st2\<bar> \<le> 90000"
proof -
  have "delivery_ok s" using assms(2-4) by (simp add: delivery_ok_def flights_known_def sends_known_def)
  with assms(1) have ok: "delivery_ok s'"
    by (induction rule: rtranclp_induct) (auto intro: delivery_step_ok)
  then have known: "sends_known (sends s') (dl_db s')" by (simp add: delivery_ok_def)
  obtain r1 where r1: "r1 \<in> set (outbox_messages (dl_db s'))" "outbox_id r1 = i" "remembers r1 st1"
    using known assms(5) unfolding sends_known_def by blast
  obtain r2 where r2: "r2 \<in> set (outbox_messages (dl_db s'))" "outbox_id r2 = i" "remembers r2 st2"
    using known assms(6) unfolding sends_known_def by blast
  have "distinct (map outbox_id (outbox_messages (dl_db s')))"
    using ok by (simp add: delivery_ok_def outbox_ok_def)
  then have "r1 = r2" using r1(1,2) r2(1,2) by (auto intro: distinct_key_eq)
  then show ?thesis using r1(3) r2(3) by (auto simp: remembers_def)
qed

section \<open>A concrete delivery\<close>

definition sample_message :: outbox_row where
  "sample_message = new_outbox_row (sample_outbox\<lparr>req_kind := ''discord.public.v1''\<rparr>) ''{}''"

definition sample_outbox_db :: outbox_db where
  "sample_outbox_db = \<lparr>guild_configs = [7], discord_users = [], event_journal = [],
     scheduled_jobs = [], outbox_messages = [sample_message], tarot_dependencies = [],
     voice_dependencies = [], house_offers = [], house_cards = [], house_controls = [],
     delivery_failures = [], house_wagers = [], wager_cards = [], card_revisions = [],
     pending_notices = [], interaction_tokens = []\<rparr>"

definition public_codec :: "unit payload_codec" where
  "public_codec = \<lparr>decode_payload = (\<lambda>_ _. ()), trace_from_payload = (\<lambda>_ i. (i, None))\<rparr>"

definition sample_payload :: "unit \<Rightarrow> public_payload option" where
  "sample_payload _ = Some \<lparr>request_guild = 7, request_channel = 9, fail_before_first_send = False\<rparr>"

definition sample_env :: handler_env where
  "sample_env = \<lparr>env_now = 20, env_ready = True,
     env_stamp = \<lparr>wall_time = 20, elapsed_realtime = 5, boot_session = ''boot''\<rparr>, env_stopping = False\<rparr>"

abbreviation "sample_leased \<equiv> lease_outbox 20 60020 ''worker'' sample_token 1 sample_message"
abbreviation "sample_claim \<equiv> claimed_message public_codec ''worker'' sample_token 1 sample_message"

lemma sample_message_ok: "out_row_ok sample_message"
  by (simp add: out_row_ok_def outbox_check_def terminal_outbox_def sample_message_def new_outbox_row_def
      sample_outbox_def)

lemma sample_leased_check: "outbox_check sample_leased"
  by (simp add: outbox_check_def terminal_outbox_def sample_message_def new_outbox_row_def
      sample_outbox_def lease_outbox_def char_eval)

lemma sample_sweep: "sweep_outbox 20 True sample_outbox_db = Inr sample_outbox_db"
  by (simp add: sweep_outbox_def update_rows_def sample_outbox_db_def quarantined_def exhausted_def
      lease_expired_def out_eligible_def orphaned_reminder_def record_failures_def close_offers_def
      cancel_controls_def sample_message_def new_outbox_row_def sample_outbox_def)

lemma sample_claimable: "out_claimable 20 True sample_outbox_db sample_message"
  by (simp add: out_claimable_def out_eligible_def blocked_def depends_on_live_def older_sibling_def
      wager_card_live_def edit_waits_def sample_outbox_db_def sample_message_def new_outbox_row_def
      sample_outbox_def)


lemma sample_take:
  "claim_due_outbox public_codec 20 60020 ''worker'' sample_token True sample_outbox_db
     = Inr (Some sample_claim, sample_outbox_db\<lparr>outbox_messages := [sample_leased]\<rparr>)"
proof -
  have rows: "outbox_messages sample_outbox_db = [sample_message]" by (simp add: sample_outbox_db_def)
  have "out_attempts sample_message = 0"
    by (simp add: sample_message_def new_outbox_row_def)
  then show ?thesis using sample_claimable sample_leased_check
    by (simp add: claim_due_outbox_def require_timestamp_def sample_sweep rows first_by_def
        update_rows_def Let_def)
qed

lemma sample_send:
  "\<exists>db. prepare_public sample_payload \<lparr>scope_guild = 7, scope_channel = 9\<rparr> 20000 sample_env sample_claim
     (sample_outbox_db\<lparr>outbox_messages := [sample_leased]\<rparr>)
   = Inr (Send (submitted_claim sample_claim (env_stamp sample_env)) db)"
  by (simp add: prepare_public_def Let_def sample_payload_def sample_env_def claimed_message_def
      submission_lease_until_def mark_public_outbox_submitted_def require_simps boot_char_def
      update_outbox_def update_rows_def out_owned_def outbox_check_def terminal_outbox_def
      sample_message_def new_outbox_row_def sample_outbox_def lease_outbox_def public_kinds_def
      char_eval)

theorem resends_stay_in_nonce_window_witness:
  "\<exists>s. (delivery_step public_codec sample_payload \<lparr>scope_guild = 7, scope_channel = 9\<rparr> 20000
       (\<lambda>_. True) (\<lambda>_. Some) (\<lambda>_. None) (\<lambda>(_ :: unit) _ _. ''{}''))\<^sup>*\<^sup>*
     \<lparr>dl_db = sample_outbox_db, in_flight = [], sends = []\<rparr> s
   \<and> sends s = [(outbox_id sample_message, env_stamp sample_env)]
   \<and> (\<forall>i st1 st2. (i, st1) \<in> set (sends s) \<longrightarrow> (i, st2) \<in> set (sends s) \<longrightarrow>
      \<bar>elapsed_realtime st1 - elapsed_realtime st2\<bar> \<le> 90000)"
proof -
  let ?step = "delivery_step public_codec sample_payload \<lparr>scope_guild = 7, scope_channel = 9\<rparr> 20000
    (\<lambda>_. True) (\<lambda>_. Some) (\<lambda>_. None) (\<lambda>(_ :: unit) _ _. ''{}'')"
  let ?s0 = "\<lparr>dl_db = sample_outbox_db, in_flight = [], sends = []\<rparr>"
  let ?s1 = "?s0\<lparr>dl_db := sample_outbox_db\<lparr>outbox_messages := [sample_leased]\<rparr>, in_flight := sample_claim # in_flight ?s0\<rparr>"
  obtain db where send: "prepare_public sample_payload \<lparr>scope_guild = 7, scope_channel = 9\<rparr> 20000
      sample_env sample_claim (dl_db ?s1) = Inr (Send (submitted_claim sample_claim (env_stamp sample_env)) db)"
    using sample_send by auto
  let ?s2 = "?s1\<lparr>dl_db := db, in_flight := remove1 sample_claim (in_flight ?s1),
      sends := sends ?s1 @ [(cl_outbox_id sample_claim, env_stamp sample_env)]\<rparr>"
  have "?step ?s0 ?s1" by (rule delivery_step.Take) (use sample_take in simp_all)
  moreover have "?step ?s1 ?s2"
    by (rule delivery_step.Send_message [OF _ _ send])
      (simp_all add: public_kinds_def claimed_message_def Let_def sample_message_def new_outbox_row_def)
  ultimately have steps: "?step\<^sup>*\<^sup>* ?s0 ?s2" by (meson converse_rtranclp_into_rtranclp r_into_rtranclp)
  have sent: "sends ?s2 = [(outbox_id sample_message, env_stamp sample_env)]"
    by (simp add: claimed_message_def Let_def)
  have "outbox_ok sample_outbox_db"
    using sample_message_ok by (simp add: outbox_ok_def sample_outbox_db_def)
  then have close: "\<bar>elapsed_realtime st1 - elapsed_realtime st2\<bar> \<le> 90000" if "(i, st1) \<in> set (sends ?s2)" "(i, st2) \<in> set (sends ?s2)"
    for i st1 st2
    using resends_stay_in_nonce_window [OF steps _ _ _ that] by simp
  show ?thesis
    by (intro exI [of _ ?s2] conjI allI impI) (rule steps, rule sent, erule (1) close)
qed



section \<open>A repeated request after a retry\<close>

lemma fail_outbox_retries:
  assumes "fail_outbox c now_ms retry_at code Retryable_mode db = Inr (status, db')"
    and "cl_attempts c < cl_max_attempts c"
    and "find_row out_key k (outbox_messages db) = Some r" "out_owned c r"
    and "distinct (map out_key (outbox_messages db))"
  shows "\<exists>r'. find_row out_key k (outbox_messages db') = Some r'
    \<and> available_at r' = max retry_at (out_created_at r) \<and> out_created_at r' = out_created_at r
    \<and> event_journal db' = event_journal db"
proof -
  let ?change = "\<lambda>r. (drop_out_lease r)\<lparr>out_state := Out_pending,
          available_at := max retry_at (out_created_at r),
          out_updated_at := max now_ms (out_updated_at r),
          out_terminal_at := None, out_last_error := Some code\<rparr>"
  have rows: "outbox_messages db' = map (\<lambda>r. if out_owned c r then ?change r else r) (outbox_messages db)"
    "event_journal db' = event_journal db"
    using assms(1,2) by (auto simp: fail_outbox_def update_outbox_def rbind_eq_Inr update_rows_Inr)
  have "find_row out_key k (outbox_messages db') = Some (?change r)"
    unfolding rows using find_row_update [OF assms(5), of ?change k "out_owned c"] assms(3,4)
    by (simp add: drop_out_lease_def)
  with rows(2) show ?thesis by (simp add: drop_out_lease_def)
qed

text \<open>Property C21: a request to enqueue a message is no longer idempotent once the message was delivered
  unsuccessfully and put back for a later attempt: the retry moved the time the message is
  available at, which the comparison with the repeated request includes, so repeating the
  request throws a conflict.\<close>
theorem enqueue_after_retry_conflicts:
  assumes "find_row event_key (event_key event) (event_journal db) = Some e" "same_request e event"
    and "find_row out_key (req_out_key outbox) (outbox_messages db) = Some r"
    and "distinct (map out_key (outbox_messages db))" "out_owned c r"
    and "fail_outbox c now_ms retry_at code Retryable_mode db = Inr (status, db')"
    and "cl_attempts c < cl_max_attempts c"
    and "out_created_at r + (req_available_at outbox - req_out_created_at outbox) < retry_at"
    and "req_out_created_at outbox \<le> req_available_at outbox"
  shows "enqueue_message json_valid norm_payload event outbox payload db' = Inl compound_conflict"
proof -
  obtain r' where r': "find_row out_key (req_out_key outbox) (outbox_messages db') = Some r'"
    "available_at r' = max retry_at (out_created_at r)" "out_created_at r' = out_created_at r"
    "event_journal db' = event_journal db"
    using fail_outbox_retries [OF assms(6,7,3,5,4)] by blast
  have "available_at r' - out_created_at r' \<noteq> req_available_at outbox - req_out_created_at outbox"
    using r'(2,3) assms(8,9) by simp
  then have "compound_outbox_replay norm_payload event outbox payload db' = Inl compound_conflict"
    using assms(1,2) r' by (simp add: compound_outbox_replay_def compound_replay_def)
  then show ?thesis by (simp add: enqueue_message_def)
qed

abbreviation "sample_request_outbox \<equiv> sample_outbox\<lparr>req_kind := ''discord.public.v1''\<rparr>"
abbreviation "sample_leased_db \<equiv>
  sample_outbox_db\<lparr>event_journal := [sample_event], outbox_messages := [sample_leased]\<rparr>"

lemma sample_retry:
  "\<exists>db. fail_outbox sample_claim 30 5030 ''discord_transient'' Retryable_mode sample_leased_db
     = Inr (Applied, db)"
  by (simp add: fail_outbox_def require_simps update_outbox_def update_rows_def out_owned_def
      claimed_message_def Let_def sample_message_def new_outbox_row_def sample_outbox_def
      lease_outbox_def drop_out_lease_def outbox_check_def terminal_outbox_def char_eval)

theorem enqueue_after_retry_conflicts_witness:
  "\<exists>db. fail_outbox sample_claim 30 5030 ''discord_transient'' Retryable_mode sample_leased_db
       = Inr (Applied, db)
     \<and> enqueue_message (\<lambda>_. True) (\<lambda>_. Some) sample_event sample_request_outbox ''{}'' db
       = Inl compound_conflict"
proof -
  obtain db where fail: "fail_outbox sample_claim 30 5030 ''discord_transient'' Retryable_mode
      sample_leased_db = Inr (Applied, db)"
    using sample_retry by blast
  have "enqueue_message (\<lambda>_. True) (\<lambda>_. Some) sample_event sample_request_outbox ''{}'' db
      = Inl compound_conflict"
    by (rule enqueue_after_retry_conflicts [OF _ same_request_refl _ _ _ fail, where r = sample_leased])
      (simp_all add: find_row_def sample_message_def new_outbox_row_def sample_outbox_def
        lease_outbox_def out_owned_def claimed_message_def Let_def)
  with fail show ?thesis by blast
qed

theorem claimed_resend_is_counted_witness:
  "\<exists>c db. claim_due_outbox public_codec 20 60020 ''worker'' sample_token True
       (sample_outbox_db\<lparr>outbox_messages := [sample_message\<lparr>out_attempts := 1, first_attempt_at := Some 12,
         first_attempt_elapsed := Some 3, first_attempt_boot := Some ''boot''\<rparr>]\<rparr>) = Inr (Some c, db)
     \<and> 2 \<le> cl_attempts c"
proof -
  let ?row = "sample_message\<lparr>out_attempts := 1, first_attempt_at := Some 12,
         first_attempt_elapsed := Some 3, first_attempt_boot := Some ''boot''\<rparr>"
  let ?db = "sample_outbox_db\<lparr>outbox_messages := [?row]\<rparr>"
  have sweep: "sweep_outbox 20 True ?db = Inr ?db"
    by (simp add: sweep_outbox_def update_rows_def sample_outbox_db_def quarantined_def exhausted_def
      lease_expired_def out_eligible_def orphaned_reminder_def record_failures_def close_offers_def
      cancel_controls_def sample_message_def new_outbox_row_def sample_outbox_def)
  have claimable: "out_claimable 20 True ?db ?row"
    by (simp add: out_claimable_def out_eligible_def blocked_def depends_on_live_def older_sibling_def
      wager_card_live_def edit_waits_def sample_outbox_db_def sample_message_def new_outbox_row_def
      sample_outbox_def)
  have check: "outbox_check (lease_outbox 20 60020 ''worker'' sample_token 2 ?row)"
    by (simp add: outbox_check_def terminal_outbox_def sample_message_def new_outbox_row_def
      sample_outbox_def lease_outbox_def boot_char_def char_eval)
  have "\<exists>db. claim_due_outbox public_codec 20 60020 ''worker'' sample_token True ?db
      = Inr (Some (claimed_message public_codec ''worker'' sample_token 2 ?row), db)"
    using claimable check
    by (simp add: claim_due_outbox_def require_timestamp_def sweep first_by_def update_rows_def Let_def)
  then obtain db where claim: "claim_due_outbox public_codec 20 60020 ''worker'' sample_token True ?db
      = Inr (Some (claimed_message public_codec ''worker'' sample_token 2 ?row), db)" ..
  have "outbox_ok ?db"
    by (simp add: outbox_ok_def out_row_ok_def outbox_check_def terminal_outbox_def sample_message_def
      new_outbox_row_def sample_outbox_def boot_char_def char_eval)
  then have "2 \<le> cl_attempts (claimed_message public_codec ''worker'' sample_token 2 ?row)"
    by (rule claimed_resend_is_counted [OF claim]) (simp add: claimed_message_def Let_def)
  with claim show ?thesis by blast
qed

end
