(* ===== verification/Tarot_Tables.thy ===== *)
theory Tarot_Tables
  imports Durable_Work
begin

text \<open>
  The tables of the Tarot ledger (\<^verbatim>\<open>src/migrations/0009_tarot_ledger.sql\<close>, with the tables and
  triggers \<^verbatim>\<open>0010_peer_wagers.sql\<close> and \<^verbatim>\<open>0011_tarot_house_integration.sql\<close> put in their place):
  accounts, transactions and their postings, the claims and draws of the recoveries, the receipts
  of the interactions, the buttons and the history cursors. Every INSERT and UPDATE of the
  repository is a function that fails where a constraint or a trigger aborts the statement.
\<close>

section \<open>JSON objects\<close>

text \<open>
  The flat objects the repository writes, sorted by key as \<^verbatim>\<open>nlohmann::json\<close> keeps them. The
  library itself is a parameter: \<open>json_dump\<close> (\<open>None\<close> where it throws), \<open>json_parse\<close> (\<open>None\<close> where it
  throws or the text is no object), and SQLite's own check of a text.
\<close>

datatype json = J_string string | J_int int | J_bool bool

type_synonym json_object = "(string \<times> json) list"

record json_lib =
  json_dump :: "json_object \<Rightarrow> string option"
  json_parse :: "string \<Rightarrow> json_object option"
  json_text_ok :: "string \<Rightarrow> bool"

text \<open>What the replays rely on: a dumped object parses back to itself.\<close>

definition json_roundtrips :: "json_lib \<Rightarrow> bool" where
  "json_roundtrips J \<longleftrightarrow> (\<forall>obj s. json_dump J obj = Some s \<longrightarrow> json_parse J s = Some obj)"

definition dumped :: "json_lib \<Rightarrow> json_object \<Rightarrow> string res" where
  "dumped J obj = (case json_dump J obj of
      None \<Rightarrow> Inl (Runtime_error ''nlohmann::json::type_error'') | Some s \<Rightarrow> Inr s)"

lemma dumped_Inr: "dumped J obj = Inr s \<longleftrightarrow> json_dump J obj = Some s"
  by (simp add: dumped_def split: option.split)

section \<open>Rows\<close>

datatype account_kind = Human | Mint | House | Escrow | Burn

record account_row =
  account_id :: string
  account_kind :: account_kind
  account_user :: "u64 option"
  account_created_at :: int

datatype transaction_type =
    Starting_grant | Grace_reward | Trial_reward | Test_adjustment | Test_reversal
  | Wager_escrow_fund | Wager_payout | Wager_refund

record transaction_row =
  ledger_sequence :: nat
  transaction_id :: string
  transaction_type :: transaction_type
  committed :: bool
  expected_postings :: nat
  tx_event :: string
  tx_key :: string
  tx_actor :: "u64 option"
  tx_reason :: "string option"
  tx_is_test :: bool
  reversal_of :: "string option"
  tx_created_at :: int
  tx_committed_at :: "int option"

record posting_row =
  posting_id :: string
  posting_transaction :: string
  posting_account :: string
  amount :: int
  posting_created_at :: int

datatype recovery_kind = Grace | Trial

datatype visibility = Public_result | Private_result

datatype claim_state = Claim_pending | Claim_completed | Claim_expired | Claim_abandoned

record draw_row =
  draw_id :: string
  draw_claim :: string
  draw_variant :: int
  draw_reward :: int
  draw_created_at :: int

record claim_row =
  claim_id :: string
  claim_account :: string
  claim_kind :: recovery_kind
  claim_state :: claim_state
  claim_visibility :: visibility
  claim_is_test :: bool
  claim_threshold :: int
  claim_target :: "int option"
  claim_balance :: int
  claim_reward :: "int option"
  claim_draw :: "string option"
  claim_transaction :: "string option"
  claim_started_event :: string
  claim_event :: "string option"
  claim_outbox :: "string option"
  claim_start_key :: string
  claim_completion_key :: "string option"
  claim_created_at :: int
  claim_expires_at :: int
  claim_completed_at :: "int option"
  claim_cooldown_until :: "int option"

record receipt_row =
  receipt_key :: string
  receipt_operation :: string
  receipt_account :: string
  receipt_request :: string
  receipt_result :: string
  receipt_claim :: "string option"
  receipt_transaction :: "string option"
  receipt_created_at :: int

datatype button_state = Button_active | Button_used | Button_cancelled

record button_row =
  button_id :: string
  button_action :: string
  button_entity_type :: string
  button_entity :: string
  button_user :: u64
  button_guild :: u64
  button_channel :: u64
  button_state :: button_state
  button_expires_at :: int
  button_key :: string
  button_created_at :: int

record cursor_row =
  cursor_id :: string
  cursor_account :: string
  item_count :: nat
  cursor_created_at :: int
  cursor_expires_at :: int

record item_row =
  item_cursor :: string
  item_position :: nat
  item_transaction :: string

record preference_row =
  preference_user :: u64
  public_results :: bool
  preference_updated_at :: int

text \<open>
  \<open>user_names\<close> holds the two cached names of a user; the cleanups are the rows by which the wager
  and House repositories justify a reversal: the reversal, the original and, for the House, the
  user whose wager it was. The Tarot repository only reads them.
\<close>

record ledger_db = durable_db +
  tarot_accounts :: "account_row list"
  tarot_transactions :: "transaction_row list"
  tarot_postings :: "posting_row list"
  tarot_draws :: "draw_row list"
  tarot_claims :: "claim_row list"
  tarot_receipts :: "receipt_row list"
  interaction_buttons :: "button_row list"
  history_cursors :: "cursor_row list"
  history_items :: "item_row list"
  user_names :: "(u64 \<times> string option \<times> string option) list"
  user_preferences :: "preference_row list"
  wager_cleanups :: "(string \<times> string) list"
  house_cleanups :: "(string \<times> string \<times> u64) list"

section \<open>Accounts\<close>

text \<open>
  The CHECKs of an account, its unique columns (the id, the user, the kind of a system account)
  and its reference to the user.
\<close>

definition account_check :: "account_row \<Rightarrow> ledger_db \<Rightarrow> bool" where
  [row_checks]: "account_check a db \<longleftrightarrow> valid_uuid_v4 (account_id a)
     \<and> (account_kind a = Human \<longleftrightarrow> account_user a \<noteq> None)
     \<and> opt_check (\<lambda>u. u \<in> set (discord_users db)) (account_user a) \<and> 0 \<le> account_created_at a"

definition account_taken :: "account_row \<Rightarrow> ledger_db \<Rightarrow> bool" where
  "account_taken a db \<longleftrightarrow> list_ex (\<lambda>b. account_id b = account_id a
     \<or> account_user a \<noteq> None \<and> account_user b = account_user a
     \<or> account_kind a \<noteq> Human \<and> account_kind b = account_kind a) (tarot_accounts db)"

definition insert_account :: "account_row \<Rightarrow> ledger_db \<Rightarrow> ledger_db res" where
  "insert_account a db =
     rbind (require (account_check a db \<and> \<not> account_taken a db) (Constraint ''tarot_account'')) (\<lambda>_.
     Inr (db\<lparr>tarot_accounts := tarot_accounts db @ [a]\<rparr>))"

text \<open>The same with \<^verbatim>\<open>ON CONFLICT DO NOTHING\<close>.\<close>

definition insert_account_or_ignore :: "account_row \<Rightarrow> ledger_db \<Rightarrow> ledger_db res" where
  "insert_account_or_ignore a db =
     rbind (require (account_check a db) (Constraint ''tarot_account'')) (\<lambda>_.
     Inr (if account_taken a db then db else db\<lparr>tarot_accounts := tarot_accounts db @ [a]\<rparr>))"

definition kind_of :: "string \<Rightarrow> ledger_db \<Rightarrow> account_kind option" where
  "kind_of i db = map_option account_kind (find_row account_id i (tarot_accounts db))"

definition user_of :: "string \<Rightarrow> ledger_db \<Rightarrow> u64 option" where
  "user_of i db = Option.bind (find_row account_id i (tarot_accounts db)) account_user"

section \<open>Transactions and postings\<close>

definition wager_type :: "transaction_type \<Rightarrow> bool" where
  "wager_type t \<longleftrightarrow> t \<in> {Wager_escrow_fund, Wager_payout, Wager_refund}"

definition transaction_check :: "transaction_row \<Rightarrow> ledger_db \<Rightarrow> bool" where
  [row_checks]: "transaction_check t db \<longleftrightarrow> valid_uuid_v4 (transaction_id t)
     \<and> 2 \<le> expected_postings t \<and> expected_postings t \<le> 16
     \<and> between 1 160 (sql_length (tx_key t))
     \<and> opt_check (\<lambda>r. between 1 200 (length r)) (tx_reason t) \<and> 0 \<le> tx_created_at t
     \<and> opt_check (\<lambda>c. tx_created_at t \<le> c) (tx_committed_at t)
     \<and> (committed t \<longleftrightarrow> tx_committed_at t \<noteq> None)
     \<and> (transaction_type t = Test_reversal \<longleftrightarrow> reversal_of t \<noteq> None)
     \<and> (transaction_type t = Starting_grant \<longrightarrow> \<not> tx_is_test t)
     \<and> (transaction_type t \<in> {Test_adjustment, Test_reversal} \<longrightarrow> tx_is_test t)
     \<and> tx_event t \<in> event_id ` set (event_journal db)
     \<and> opt_check (\<lambda>u. u \<in> set (discord_users db)) (tx_actor t)
     \<and> opt_check (\<lambda>i. i \<in> transaction_id ` set (tarot_transactions db)) (reversal_of t)"

definition transaction_taken :: "transaction_row \<Rightarrow> ledger_db \<Rightarrow> bool" where
  "transaction_taken t db \<longleftrightarrow> list_ex (\<lambda>u. transaction_id u = transaction_id t
     \<or> tx_event u = tx_event t \<or> tx_key u = tx_key t
     \<or> reversal_of t \<noteq> None \<and> reversal_of u = reversal_of t) (tarot_transactions db)"

text \<open>\<^verbatim>\<open>AUTOINCREMENT\<close>: above every sequence ever used; transactions are never deleted.\<close>

definition next_sequence :: "ledger_db \<Rightarrow> nat" where
  "next_sequence db = Suc (foldr max (map ledger_sequence (tarot_transactions db)) 0)"

definition insert_transaction_row :: "transaction_row \<Rightarrow> ledger_db \<Rightarrow> ledger_db res" where
  "insert_transaction_row t db =
     rbind (require (\<not> committed t \<and> transaction_check t db \<and> \<not> transaction_taken t db)
       (Constraint ''tarot_transaction'')) (\<lambda>_.
     Inr (db\<lparr>tarot_transactions := tarot_transactions db @ [t\<lparr>ledger_sequence := next_sequence db\<rparr>]\<rparr>))"

definition postings_of :: "string \<Rightarrow> ledger_db \<Rightarrow> posting_row list" where
  "postings_of i db = filter (\<lambda>p. posting_transaction p = i) (tarot_postings db)"

definition find_transaction :: "string \<Rightarrow> ledger_db \<Rightarrow> transaction_row option" where
  "find_transaction i db = find_row transaction_id i (tarot_transactions db)"

definition posting_check :: "posting_row \<Rightarrow> ledger_db \<Rightarrow> bool" where
  [row_checks]: "posting_check p db \<longleftrightarrow> valid_uuid_v4 (posting_id p)
     \<and> amount p \<noteq> 0 \<and> -1000000000 \<le> amount p \<and> amount p \<le> 1000000000
     \<and> 0 \<le> posting_created_at p
     \<and> posting_account p \<in> account_id ` set (tarot_accounts db)
     \<and> posting_id p \<notin> posting_id ` set (tarot_postings db)
     \<and> posting_account p \<notin> posting_account ` set (postings_of (posting_transaction p) db)
     \<and> (case find_transaction (posting_transaction p) db of None \<Rightarrow> False
        | Some t \<Rightarrow> \<not> committed t
            \<and> length (postings_of (posting_transaction p) db) < expected_postings t)"

definition insert_posting_row :: "posting_row \<Rightarrow> ledger_db \<Rightarrow> ledger_db res" where
  "insert_posting_row p db =
     rbind (require (posting_check p db) (Constraint ''tarot_posting'')) (\<lambda>_.
     Inr (db\<lparr>tarot_postings := tarot_postings db @ [p]\<rparr>))"

section \<open>Sealing a transaction\<close>

text \<open>
  The clauses of \<^verbatim>\<open>tarot_transaction_seal\<close> in its last version (\<^verbatim>\<open>0011\<close>). Those on the
  \<^verbatim>\<open>WAGER_\<close> types tie a transaction to the wager it belongs to; they belong to the wager
  repositories and are not modelled, no operation here prepares such a transaction. SQLite's
  \<^verbatim>\<open>sum\<close> is exact, its \<^verbatim>\<open>total\<close> is exact on at most 16 amounts of at most \<open>10\<^sup>9\<close>.
\<close>

definition trim_set :: "char set" where
  "trim_set = {CHR 0x09, CHR 0x0A, CHR 0x0B, CHR 0x0C, CHR 0x0D, CHR 0x20}"

definition sql_trim :: "string \<Rightarrow> string" where
  "sql_trim s = rev (dropWhile (\<lambda>c. c \<in> trim_set) (rev (dropWhile (\<lambda>c. c \<in> trim_set) s)))"

definition audit_event :: "transaction_row \<Rightarrow> ledger_db \<Rightarrow> bool" where
  "audit_event t db \<longleftrightarrow> list_ex (\<lambda>e. event_id e = tx_event t
     \<and> event_type e = (if transaction_type t = Test_adjustment then ''tarot.admin_adjusted.v1''
        else ''tarot.transaction_reversed.v1'')
     \<and> event_aggregate_type e = ''tarot_transaction'' \<and> event_aggregate_id e = transaction_id t
     \<and> actor_user_id e = tx_actor t) (event_journal db)"

definition human_posting :: "transaction_row \<Rightarrow> ledger_db \<Rightarrow> bool" where
  "human_posting t db \<longleftrightarrow> list_ex (\<lambda>p. kind_of (posting_account p) db = Some Human
     \<and> user_of (posting_account p) db = tx_actor t) (postings_of (transaction_id t) db)"

definition audit_ok :: "transaction_row \<Rightarrow> ledger_db \<Rightarrow> bool" where
  "audit_ok t db \<longleftrightarrow> tx_actor t \<noteq> None
     \<and> (case tx_reason t of None \<Rightarrow> False | Some r \<Rightarrow> sql_length (sql_trim r) \<noteq> 0)
     \<and> (audit_event t db \<and> human_posting t db
        \<or> transaction_type t = Test_reversal
          \<and> list_ex (\<lambda>(reversal, original, user). reversal = transaction_id t \<and> Some user = tx_actor t)
              (house_cleanups db))"

definition grant_shape :: "transaction_row \<Rightarrow> ledger_db \<Rightarrow> bool" where
  "grant_shape t db \<longleftrightarrow> expected_postings t = 2
     \<and> list_ex (\<lambda>h. list_ex (\<lambda>m. posting_account m \<noteq> posting_account h
         \<and> kind_of (posting_account h) db = Some Human \<and> kind_of (posting_account m) db = Some Mint
         \<and> 0 < amount h \<and> amount m = - amount h)
       (postings_of (transaction_id t) db)) (postings_of (transaction_id t) db)"

text \<open>Whether a starting grant was committed to one of the human accounts before.\<close>

definition prior_grant :: "transaction_row \<Rightarrow> ledger_db \<Rightarrow> bool" where
  "prior_grant t db \<longleftrightarrow> list_ex (\<lambda>c. kind_of (posting_account c) db = Some Human
     \<and> list_ex (\<lambda>p. posting_account p = posting_account c \<and> posting_transaction p \<noteq> transaction_id t
         \<and> (case find_transaction (posting_transaction p) db of None \<Rightarrow> False
            | Some u \<Rightarrow> transaction_type u = Starting_grant \<and> committed u)) (tarot_postings db))
     (postings_of (transaction_id t) db)"

definition adjustment_shape :: "transaction_row \<Rightarrow> ledger_db \<Rightarrow> bool" where
  "adjustment_shape t db \<longleftrightarrow>
     list_ex (\<lambda>h. list_ex (\<lambda>m. posting_account m \<noteq> posting_account h
         \<and> kind_of (posting_account h) db = Some Human
         \<and> (0 < amount h \<and> kind_of (posting_account m) db = Some Mint
            \<or> amount h < 0 \<and> kind_of (posting_account m) db = Some Burn)
         \<and> amount m = - amount h)
       (postings_of (transaction_id t) db)) (postings_of (transaction_id t) db)"

definition inverse_postings :: "string \<Rightarrow> string \<Rightarrow> ledger_db \<Rightarrow> (posting_row \<times> posting_row) list" where
  "inverse_postings original reversal db = [(p, q) \<leftarrow> List.product (postings_of original db) (postings_of reversal db).
     posting_account q = posting_account p \<and> amount q = - amount p]"

definition cleanup_allows :: "transaction_row \<Rightarrow> string \<Rightarrow> ledger_db \<Rightarrow> bool" where
  "cleanup_allows t original db \<longleftrightarrow> (transaction_id t, original) \<in> set (wager_cleanups db)
     \<or> list_ex (\<lambda>(r, i, _). r = transaction_id t \<and> i = original) (house_cleanups db)"

definition reversal_shape :: "transaction_row \<Rightarrow> ledger_db \<Rightarrow> bool" where
  "reversal_shape t db \<longleftrightarrow> (case Option.bind (reversal_of t) (\<lambda>i. find_transaction i db) of
      None \<Rightarrow> False
    | Some u \<Rightarrow> committed u \<and> tx_is_test u \<and> transaction_type u \<notin> {Starting_grant, Test_reversal}
        \<and> (transaction_type u = Test_adjustment \<or> cleanup_allows t (transaction_id u) db)
        \<and> expected_postings t = expected_postings u
        \<and> length (inverse_postings (transaction_id u) (transaction_id t) db) = expected_postings t)"

definition is_committed :: "string \<Rightarrow> ledger_db \<Rightarrow> bool" where
  "is_committed i db \<longleftrightarrow> (case find_transaction i db of None \<Rightarrow> False | Some t \<Rightarrow> committed t)"

definition committed_sum :: "string \<Rightarrow> ledger_db \<Rightarrow> int" where
  "committed_sum account db = sum_list (map amount (filter (\<lambda>p. posting_account p = account
     \<and> is_committed (posting_transaction p) db) (tarot_postings db)))"

definition no_overflow :: "transaction_row \<Rightarrow> ledger_db \<Rightarrow> bool" where
  "no_overflow t db \<longleftrightarrow> list_all (\<lambda>p.
     \<not> (0 < amount p \<and> int64_max - amount p < committed_sum (posting_account p) db)
     \<and> \<not> (amount p < 0 \<and> committed_sum (posting_account p) db < int64_min - amount p))
     (postings_of (transaction_id t) db)"

definition no_overdraft :: "transaction_row \<Rightarrow> ledger_db \<Rightarrow> bool" where
  "no_overdraft t db \<longleftrightarrow> list_all (\<lambda>p. kind_of (posting_account p) db = Some Human \<longrightarrow>
     0 \<le> committed_sum (posting_account p) db + amount p) (postings_of (transaction_id t) db)"

definition seal_check :: "transaction_row \<Rightarrow> ledger_db \<Rightarrow> bool" where
  "seal_check t db \<longleftrightarrow> length (postings_of (transaction_id t) db) = expected_postings t
     \<and> sum_list (map amount (postings_of (transaction_id t) db)) = 0
     \<and> (\<not> wager_type (transaction_type t) \<and> transaction_type t \<noteq> Test_reversal \<longrightarrow> expected_postings t = 2)
     \<and> (transaction_type t = Wager_escrow_fund \<longrightarrow> expected_postings t \<in> {2, 3})
     \<and> (transaction_type t \<in> {Test_adjustment, Test_reversal} \<longrightarrow> audit_ok t db)
     \<and> (transaction_type t \<in> {Starting_grant, Grace_reward, Trial_reward} \<longrightarrow> grant_shape t db)
     \<and> (transaction_type t = Starting_grant \<longrightarrow> \<not> prior_grant t db)
     \<and> (transaction_type t = Test_adjustment \<longrightarrow> adjustment_shape t db)
     \<and> (transaction_type t = Test_reversal \<longrightarrow> reversal_shape t db)
     \<and> no_overflow t db \<and> no_overdraft t db"

text \<open>
  \<^verbatim>\<open>tarot_recovery_transaction_seal_link\<close>: a reward is sealed only against the pending claim its
  event names.
\<close>

definition reward_type :: "recovery_kind \<Rightarrow> transaction_type" where
  "reward_type k = (case k of Grace \<Rightarrow> Grace_reward | Trial \<Rightarrow> Trial_reward)"

definition completed_event :: "recovery_kind \<Rightarrow> string" where
  "completed_event k = (case k of Grace \<Rightarrow> ''tarot.grace_completed.v1''
     | Trial \<Rightarrow> ''tarot.trial_completed.v1'')"

definition seal_link :: "transaction_row \<Rightarrow> ledger_db \<Rightarrow> bool" where
  "seal_link t db \<longleftrightarrow> transaction_type t \<notin> {Grace_reward, Trial_reward}
     \<or> list_ex (\<lambda>e. event_id e = tx_event t \<and> event_aggregate_type e = ''tarot_recovery_claim''
         \<and> list_ex (\<lambda>c. claim_id c = event_aggregate_id e \<and> claim_state c = Claim_pending
             \<and> reward_type (claim_kind c) = transaction_type t
             \<and> event_type e = completed_event (claim_kind c) \<and> claim_is_test c = tx_is_test t
             \<and> list_ex (\<lambda>p. posting_account p = claim_account c
                 \<and> kind_of (posting_account p) db = Some Human \<and> 0 < amount p
                 \<and> (claim_kind c = Grace \<or> claim_reward c = Some (amount p)))
               (postings_of (transaction_id t) db)) (tarot_claims db)) (event_journal db)"

text \<open>\<open>seal_transaction\<close>; the CHECK that may fail is the one on the time of the commit.\<close>

definition seal_transaction :: "string \<Rightarrow> int \<Rightarrow> ledger_db \<Rightarrow> ledger_db res" where
  "seal_transaction i now_ms db =
     rbind (update_rows (\<lambda>t. seal_check t db \<and> seal_link t db \<and> tx_created_at t \<le> now_ms)
         ''tarot_transaction'' (\<lambda>t. transaction_id t = i \<and> \<not> committed t)
         (\<lambda>t. t\<lparr>committed := True, tx_committed_at := Some now_ms\<rparr>) (tarot_transactions db))
       (\<lambda>(changes, rows).
     rbind (require (changes = 1) (Constraint ''Tarot transaction could not be sealed.'')) (\<lambda>_.
     Inr (db\<lparr>tarot_transactions := rows\<rparr>)))"

section \<open>Receipts\<close>

definition receipt_check :: "json_lib \<Rightarrow> receipt_row \<Rightarrow> ledger_db \<Rightarrow> bool" where
  [row_checks]: "receipt_check J r db \<longleftrightarrow> between 1 160 (sql_length (receipt_key r))
     \<and> receipt_operation r \<in> {''standings_visibility'', ''recovery_start'', ''adjust'', ''reverse''}
     \<and> receipt_account r \<in> account_id ` set (tarot_accounts db)
     \<and> json_text_ok J (receipt_request r) \<and> between 2 2048 (length (receipt_request r))
     \<and> json_text_ok J (receipt_result r) \<and> between 2 2048 (length (receipt_result r))
     \<and> opt_check (\<lambda>i. i \<in> claim_id ` set (tarot_claims db)) (receipt_claim r)
     \<and> opt_check (\<lambda>i. i \<in> transaction_id ` set (tarot_transactions db)) (receipt_transaction r)
     \<and> 0 \<le> receipt_created_at r
     \<and> (receipt_claim r = None \<or> receipt_operation r = ''recovery_start'')
     \<and> (receipt_transaction r = None \<or> receipt_operation r \<in> {''adjust'', ''reverse''})"

definition insert_receipt ::
    "json_lib \<Rightarrow> string \<Rightarrow> string \<Rightarrow> string \<Rightarrow> json_object \<Rightarrow> json_object \<Rightarrow> string option
     \<Rightarrow> string option \<Rightarrow> int \<Rightarrow> ledger_db \<Rightarrow> ledger_db res"
  where
  "insert_receipt J key operation account request result claim tx now_ms db =
     rbind (dumped J request) (\<lambda>request_text.
     rbind (dumped J result) (\<lambda>result_text.
     let r = \<lparr>receipt_key = key, receipt_operation = operation, receipt_account = account,
       receipt_request = request_text, receipt_result = result_text, receipt_claim = claim,
       receipt_transaction = tx, receipt_created_at = now_ms\<rparr> in
     rbind (require (receipt_check J r db \<and> key \<notin> receipt_key ` set (tarot_receipts db))
       (Constraint ''tarot_interaction_receipt'')) (\<lambda>_.
     Inr (db\<lparr>tarot_receipts := tarot_receipts db @ [r]\<rparr>))))"

record interaction_receipt =
  rc_operation :: string
  rc_account :: string
  rc_request :: json_object
  rc_result :: json_object
  rc_claim :: "string option"
  rc_transaction :: "string option"

definition load_receipt :: "json_lib \<Rightarrow> string \<Rightarrow> ledger_db \<Rightarrow> interaction_receipt option res" where
  "load_receipt J key db = (case find_row receipt_key key (tarot_receipts db) of
      None \<Rightarrow> Inr None
    | Some r \<Rightarrow> (case (json_parse J (receipt_request r), json_parse J (receipt_result r)) of
          (Some request, Some result) \<Rightarrow> Inr (Some \<lparr>rc_operation = receipt_operation r,
             rc_account = receipt_account r, rc_request = request, rc_result = result,
             rc_claim = receipt_claim r, rc_transaction = receipt_transaction r\<rparr>)
        | _ \<Rightarrow> Inl (Schema ''Tarot interaction receipt is incompatible.'')))"

definition receipt_conflict :: exn where
  "receipt_conflict = Constraint ''Tarot interaction idempotency conflict.''"

section \<open>Invocations and events\<close>

record invocation =
  inv_user :: u64
  inv_guild :: u64
  inv_channel :: u64
  inv_name :: string
  inv_key :: string
  inv_correlation :: string
  inv_now :: int

definition event_for ::
    "invocation \<Rightarrow> string \<Rightarrow> string \<Rightarrow> string \<Rightarrow> string \<Rightarrow> string \<Rightarrow> string \<Rightarrow> event_row" where
  "event_for call i type aggregate_type aggregate key payload =
     \<lparr>event_id = i, event_type = type, event_aggregate_type = aggregate_type,
      event_aggregate_id = aggregate, actor_user_id = Some (inv_user call),
      event_guild_id = inv_guild call, event_channel_id = Some (inv_channel call),
      source_message_id = None, event_occurred_at = inv_now call, recorded_at = inv_now call,
      correlation_id = inv_correlation call, causation_id = None, event_key = key,
      event_payload = payload\<rparr>"

text \<open>\<open>insert_event_uncommitted\<close> of an \<open>event_for\<close>: whether it was new, and the database.\<close>

definition record_event ::
    "json_lib \<Rightarrow> invocation \<Rightarrow> string \<Rightarrow> string \<Rightarrow> string \<Rightarrow> string \<Rightarrow> string \<Rightarrow> json_object
     \<Rightarrow> ledger_db \<Rightarrow> (bool \<times> ledger_db) res"
  where
  "record_event J call i type aggregate_type aggregate key payload db =
     rbind (dumped J payload) (\<lambda>payload_text.
     insert_event (json_text_ok J) (event_for call i type aggregate_type aggregate key payload_text) db)"

end
