(* ===== verification/Tarot_Ledger.thy ===== *)
theory Tarot_Ledger
  imports Tarot_Tables
begin

text \<open>
  The ledger of \<^verbatim>\<open>src/src/persistence/sqlite_tarot_repository.cpp\<close>: balances as running sums of
  the committed postings, the accounts, the starting grant, and the adjustments and reversals of
  the owner's tests, each a whole database transaction: an error leaves the database as it was.
\<close>

section \<open>Balances\<close>

definition checked_add :: "int \<Rightarrow> int \<Rightarrow> int res" where
  "checked_add left right =
     rbind (require (\<not> (0 < right \<and> int64_max - right < left \<or> right < 0 \<and> left < int64_min - right))
       (Overflow_error ''Tarot balance arithmetic overflowed.'')) (\<lambda>_. Inr (left + right))"

fun checked_sum :: "int \<Rightarrow> int list \<Rightarrow> int res" where
  "checked_sum result [] = Inr result"
| "checked_sum result (a # as) = rbind (checked_add result a) (\<lambda>result. checked_sum result as)"

text \<open>
  The committed postings with the sequence of their transaction, in the order of the ledger: by
  sequence, then by the id of the posting.
\<close>

definition ledger_postings :: "ledger_db \<Rightarrow> (transaction_row \<times> posting_row) list" where
  "ledger_postings db = sort_key (\<lambda>(t, p). (ledger_sequence t, posting_id p))
     [(t, p) \<leftarrow> List.product (tarot_transactions db) (tarot_postings db).
        transaction_id t = posting_transaction p \<and> committed t]"

definition account_postings :: "string \<Rightarrow> ledger_db \<Rightarrow> (transaction_row \<times> posting_row) list" where
  "account_postings account db = filter (\<lambda>(t, p). posting_account p = account) (ledger_postings db)"

definition balance_for_account :: "string \<Rightarrow> ledger_db \<Rightarrow> int res" where
  "balance_for_account account db =
     checked_sum 0 (map (\<lambda>(t, p). amount p) (account_postings account db))"

definition balance_through :: "string \<Rightarrow> string \<Rightarrow> ledger_db \<Rightarrow> int res" where
  "balance_through account i db = (case filter (\<lambda>t. transaction_id t = i \<and> committed t) (tarot_transactions db) of
      [] \<Rightarrow> Inl (Schema ''Tarot recovery transaction is missing.'')
    | [u] \<Rightarrow> checked_sum 0 (map (\<lambda>(t, p). amount p)
        (filter (\<lambda>(t, p). ledger_sequence t \<le> ledger_sequence u) (account_postings account db)))
    | _ \<Rightarrow> Inl (Schema ''Duplicate Tarot recovery transaction.''))"

section \<open>Accounts\<close>

text \<open>A query that must not answer a second row.\<close>

definition unique_row :: "exn \<Rightarrow> 'r list \<Rightarrow> 'r option res" where
  "unique_row duplicate rows = (case rows of [] \<Rightarrow> Inr None | [r] \<Rightarrow> Inr (Some r) | _ \<Rightarrow> Inl duplicate)"

definition account_for_user :: "u64 \<Rightarrow> ledger_db \<Rightarrow> string option res" where
  "account_for_user user db =
     rbind (unique_row (Schema ''Duplicate Tarot human account.'')
       (filter (\<lambda>a. account_kind a = Human \<and> account_user a = Some user) (tarot_accounts db)))
     (\<lambda>a. Inr (map_option account_id a))"

definition system_account :: "account_kind \<Rightarrow> ledger_db \<Rightarrow> string res" where
  "system_account kind db =
     rbind (unique_row (Schema ''Duplicate Tarot system account.'')
       (filter (\<lambda>a. account_kind a = kind) (tarot_accounts db)))
     (\<lambda>a. case a of None \<Rightarrow> Inl (Schema ''Tarot system account is missing.'')
        | Some a \<Rightarrow> Inr (account_id a))"

definition system_kinds :: "account_kind list" where
  "system_kinds = [Mint, House, Escrow, Burn]"

text \<open>The two loops of \<open>initialize_system_accounts\<close>: one row per kind, then one lookup per kind.\<close>

fun insert_system_accounts :: "(string \<times> account_kind) list \<Rightarrow> int \<Rightarrow> ledger_db \<Rightarrow> ledger_db res" where
  "insert_system_accounts [] now_ms db = Inr db"
| "insert_system_accounts ((i, kind) # rest) now_ms db =
     rbind (insert_account_or_ignore \<lparr>account_id = i, account_kind = kind, account_user = None,
       account_created_at = now_ms\<rparr> db) (insert_system_accounts rest now_ms)"

fun require_system_accounts :: "account_kind list \<Rightarrow> ledger_db \<Rightarrow> unit res" where
  "require_system_accounts [] db = Inr ()"
| "require_system_accounts (kind # rest) db =
     rbind (system_account kind db) (\<lambda>_. require_system_accounts rest db)"

definition initialize_system_accounts :: "string list \<Rightarrow> int \<Rightarrow> ledger_db \<Rightarrow> ledger_db res" where
  "initialize_system_accounts account_ids now_ms db =
     rbind (require (\<not> (length account_ids \<noteq> length system_kinds \<or> now_ms < 0
         \<or> list_ex (\<lambda>i. \<not> valid_uuid_v4 i) account_ids))
       (Invalid_argument ''Tarot system account request is invalid.'')) (\<lambda>_.
     rbind (insert_system_accounts (zip account_ids system_kinds) now_ms db) (\<lambda>db.
     rbind (require_system_accounts system_kinds db) (\<lambda>_. Inr db)))"

section \<open>Posting\<close>

text \<open>
  \<open>insert_transaction\<close> and \<open>insert_posting\<close>: every transaction of this repository has two postings.
\<close>

definition insert_transaction ::
    "string \<Rightarrow> transaction_type \<Rightarrow> string \<Rightarrow> string \<Rightarrow> u64 \<Rightarrow> string option \<Rightarrow> bool
     \<Rightarrow> string option \<Rightarrow> int \<Rightarrow> ledger_db \<Rightarrow> ledger_db res"
  where
  "insert_transaction i type event key actor reason is_test reverses now_ms db =
     insert_transaction_row \<lparr>ledger_sequence = 0, transaction_id = i, transaction_type = type,
       committed = False, expected_postings = 2, tx_event = event, tx_key = key,
       tx_actor = Some actor, tx_reason = reason, tx_is_test = is_test, reversal_of = reverses,
       tx_created_at = now_ms, tx_committed_at = None\<rparr> db"

definition insert_posting :: "string \<Rightarrow> string \<Rightarrow> string \<Rightarrow> int \<Rightarrow> int \<Rightarrow> ledger_db \<Rightarrow> ledger_db res" where
  "insert_posting i tx account amount_posted now_ms db =
     insert_posting_row \<lparr>posting_id = i, posting_transaction = tx, posting_account = account,
       amount = amount_posted, posting_created_at = now_ms\<rparr> db"

section \<open>The starting grant\<close>

record provision_request =
  prov_invocation :: invocation
  starting_fate :: int
  prov_account :: string
  prov_transaction :: string
  prov_event :: string
  prov_mint_posting :: string
  prov_human_posting :: string

record provision_result =
  provisioned_account :: string
  provisioned_balance :: int
  provision_created :: bool

definition provision_valid :: "provision_request \<Rightarrow> bool" where
  "provision_valid req \<longleftrightarrow> \<not> (\<not> snowflake_is_set (inv_user (prov_invocation req))
     \<or> starting_fate req < 1 \<or> 1000000000 < starting_fate req
     \<or> \<not> valid_uuid_v4 (prov_account req) \<or> \<not> valid_uuid_v4 (prov_transaction req)
     \<or> \<not> valid_uuid_v4 (prov_event req) \<or> \<not> valid_uuid_v4 (prov_mint_posting req)
     \<or> \<not> valid_uuid_v4 (prov_human_posting req))"

definition grant_account :: "json_lib \<Rightarrow> provision_request \<Rightarrow> ledger_db \<Rightarrow> ledger_db res" where
  "grant_account J req db =
     (let call = prov_invocation req; now = inv_now call;
          key = ''tarot.starting_grant:'' @ snowflake_str (inv_user call) in
     rbind (insert_account \<lparr>account_id = prov_account req, account_kind = Human,
       account_user = Some (inv_user call), account_created_at = now\<rparr> db) (\<lambda>db.
     rbind (record_event J call (prov_event req) ''tarot.starting_grant.v1'' ''tarot_account''
       (prov_account req) key
       [(''amount'', J_int (starting_fate req)), (''currency'', J_string ''Fate'')] db) (\<lambda>(_, db).
     rbind (insert_transaction (prov_transaction req) Starting_grant (prov_event req) key
       (inv_user call) None False None now db) (\<lambda>db.
     rbind (system_account Mint db) (\<lambda>mint.
     rbind (insert_posting (prov_mint_posting req) (prov_transaction req) mint
       (- starting_fate req) now db) (\<lambda>db.
     rbind (insert_posting (prov_human_posting req) (prov_transaction req) (prov_account req)
       (starting_fate req) now db) (\<lambda>db.
     seal_transaction (prov_transaction req) now db)))))))"

definition ensure_account ::
    "json_lib \<Rightarrow> provision_request \<Rightarrow> ledger_db \<Rightarrow> (provision_result \<times> ledger_db) res" where
  "ensure_account J req db =
     rbind (require (provision_valid req)
       (Invalid_argument ''Tarot account provision request is invalid.'')) (\<lambda>_.
     rbind (account_for_user (inv_user (prov_invocation req)) db) (\<lambda>existing.
     case existing of
       Some account \<Rightarrow> rbind (balance_for_account account db) (\<lambda>current.
         Inr (\<lparr>provisioned_account = account, provisioned_balance = current,
           provision_created = False\<rparr>, db))
     | None \<Rightarrow> rbind (grant_account J req db) (\<lambda>db.
         Inr (\<lparr>provisioned_account = prov_account req, provisioned_balance = starting_fate req,
           provision_created = True\<rparr>, db))))"

definition balance :: "u64 \<Rightarrow> ledger_db \<Rightarrow> int res" where
  "balance user db =
     rbind (account_for_user user db) (\<lambda>account. case account of
       None \<Rightarrow> Inl (Invalid_argument ''Tarot account does not exist.'')
     | Some account \<Rightarrow> balance_for_account account db)"

section \<open>Adjustments\<close>

datatype mutation_status = Applied | Unchanged | Not_found | Forbidden | Would_overdraw

record mutation_result =
  mutation_status :: mutation_status
  mutation_transaction :: string
  mutation_balance :: int

definition mutation_result_of :: "mutation_status \<Rightarrow> int \<Rightarrow> mutation_result" where
  "mutation_result_of status b =
     \<lparr>mutation_status = status, mutation_transaction = [], mutation_balance = b\<rparr>"

definition is_space :: "char \<Rightarrow> bool" where
  "is_space c \<longleftrightarrow> c \<in> {CHR 0x09, CHR 0x0A, CHR 0x0B, CHR 0x0C, CHR 0x0D, CHR 0x20}"

definition blank_reason :: "string \<Rightarrow> bool" where
  "blank_reason reason \<longleftrightarrow> reason = [] \<or> list_all is_space reason"

text \<open>
  The answer a stored receipt gives to the same request: \<open>refusals\<close> are the statuses, other than
  \<open>applied\<close>, that the operation stores.
\<close>

definition replay_mutation ::
    "string \<Rightarrow> (string \<times> mutation_status) list \<Rightarrow> string \<Rightarrow> json_object \<Rightarrow> interaction_receipt
     \<Rightarrow> mutation_result res"
  where
  "replay_mutation operation refusals account request r =
     (if rc_operation r \<noteq> operation \<or> rc_account r \<noteq> account \<or> rc_request r \<noteq> request
        \<or> rc_claim r \<noteq> None
      then Inl receipt_conflict
      else case (map_of (rc_result r) ''status'', map_of (rc_result r) ''balance'') of
        (Some (J_string status), Some (J_int stored)) \<Rightarrow>
          (case rc_transaction r of
             Some i \<Rightarrow> if status = ''applied''
               then Inr \<lparr>mutation_status = Unchanged, mutation_transaction = i, mutation_balance = stored\<rparr>
               else Inl receipt_conflict
           | None \<Rightarrow> (case map_of refusals status of
               Some refusal \<Rightarrow> Inr (mutation_result_of refusal stored)
             | None \<Rightarrow> Inl receipt_conflict))
      | _ \<Rightarrow> Inl receipt_conflict)"

definition outcome_json :: "string \<Rightarrow> int \<Rightarrow> json_object" where
  "outcome_json status b = [(''balance'', J_int b), (''status'', J_string status)]"

record adjustment_request =
  adj_invocation :: invocation
  adj_amount :: int
  adj_reason :: string
  adj_transaction :: string
  adj_event :: string
  adj_system_posting :: string
  adj_human_posting :: string

definition adjustment_valid :: "adjustment_request \<Rightarrow> bool" where
  "adjustment_valid req \<longleftrightarrow> \<not> (adj_amount req = 0 \<or> adj_amount req < -1000000000
     \<or> 1000000000 < adj_amount req \<or> blank_reason (adj_reason req) \<or> 200 < length (adj_reason req)
     \<or> \<not> valid_uuid_v4 (adj_transaction req) \<or> \<not> valid_uuid_v4 (adj_event req)
     \<or> \<not> valid_uuid_v4 (adj_system_posting req) \<or> \<not> valid_uuid_v4 (adj_human_posting req))"

definition adjustment_json :: "adjustment_request \<Rightarrow> json_object" where
  "adjustment_json req = (let call = adj_invocation req in
     [(''amount'', J_int (adj_amount req)),
      (''channel_id'', J_string (snowflake_str (inv_channel call))),
      (''guild_id'', J_string (snowflake_str (inv_guild call))),
      (''reason'', J_string (adj_reason req)),
      (''user_id'', J_string (snowflake_str (inv_user call)))])"

definition adjust_key :: "adjustment_request \<Rightarrow> string" where
  "adjust_key req = inv_key (adj_invocation req) @ '':adjust''"

definition post_adjustment :: "json_lib \<Rightarrow> adjustment_request \<Rightarrow> string \<Rightarrow> ledger_db \<Rightarrow> ledger_db res" where
  "post_adjustment J req account db =
     (let call = adj_invocation req; now = inv_now call; key = adjust_key req in
     rbind (record_event J call (adj_event req) ''tarot.admin_adjusted.v1'' ''tarot_transaction''
       (adj_transaction req) key
       [(''is_test'', J_bool True), (''reason'', J_string (adj_reason req))] db) (\<lambda>(_, db).
     rbind (insert_transaction (adj_transaction req) Test_adjustment (adj_event req) key
       (inv_user call) (Some (adj_reason req)) True None now db) (\<lambda>db.
     rbind (system_account (if 0 < adj_amount req then Mint else Burn) db) (\<lambda>system.
     rbind (insert_posting (adj_system_posting req) (adj_transaction req) system
       (- adj_amount req) now db) (\<lambda>db.
     rbind (insert_posting (adj_human_posting req) (adj_transaction req) account
       (adj_amount req) now db) (\<lambda>db.
     seal_transaction (adj_transaction req) now db))))))"

text \<open>A request without a receipt: refused when it would overdraw the account, else posted.\<close>

definition adjust_receipt ::
    "json_lib \<Rightarrow> adjustment_request \<Rightarrow> string \<Rightarrow> string \<Rightarrow> int \<Rightarrow> string option \<Rightarrow> ledger_db \<Rightarrow> ledger_db res" where
  "adjust_receipt J req account status b tx db =
     insert_receipt J (adjust_key req) ''adjust'' account (adjustment_json req)
       (outcome_json status b) None tx (inv_now (adj_invocation req)) db"

definition apply_adjustment ::
    "json_lib \<Rightarrow> adjustment_request \<Rightarrow> string \<Rightarrow> ledger_db \<Rightarrow> (mutation_result \<times> ledger_db) res" where
  "apply_adjustment J req account db =
     rbind (balance_for_account account db) (\<lambda>current.
     if adj_amount req < 0 \<and> current < - adj_amount req
     then rbind (adjust_receipt J req account ''would_overdraw'' current None db) (\<lambda>db.
       Inr (mutation_result_of Would_overdraw current, db))
     else
     rbind (post_adjustment J req account db) (\<lambda>db.
     rbind (balance_for_account account db) (\<lambda>updated.
     rbind (adjust_receipt J req account ''applied'' updated (Some (adj_transaction req)) db) (\<lambda>db.
     Inr (\<lparr>mutation_status = Applied, mutation_transaction = adj_transaction req,
       mutation_balance = updated\<rparr>, db)))))"

definition adjust ::
    "json_lib \<Rightarrow> adjustment_request \<Rightarrow> ledger_db \<Rightarrow> (mutation_result \<times> ledger_db) res" where
  "adjust J req db =
     rbind (require (adjustment_valid req)
       (Invalid_argument ''Tarot adjustment request is invalid.'')) (\<lambda>_.
     rbind (account_for_user (inv_user (adj_invocation req)) db) (\<lambda>found. case found of
       None \<Rightarrow> Inl (Invalid_argument ''Tarot account does not exist.'')
     | Some account \<Rightarrow>
     rbind (load_receipt J (adjust_key req) db) (\<lambda>replay. case replay of
       Some r \<Rightarrow> rbind (replay_mutation ''adjust'' [(''would_overdraw'', Would_overdraw)] account
         (adjustment_json req) r) (\<lambda>result. Inr (result, db))
     | None \<Rightarrow> apply_adjustment J req account db)))"

section \<open>Reversals\<close>

record reversal_request =
  rev_invocation :: invocation
  rev_original :: string
  rev_reason :: string
  rev_transaction :: string
  rev_event :: string
  rev_first_posting :: string
  rev_second_posting :: string

definition reversal_valid :: "reversal_request \<Rightarrow> bool" where
  "reversal_valid req \<longleftrightarrow> \<not> (\<not> valid_uuid_v4 (rev_original req)
     \<or> \<not> valid_uuid_v4 (rev_transaction req) \<or> \<not> valid_uuid_v4 (rev_event req)
     \<or> \<not> valid_uuid_v4 (rev_first_posting req) \<or> \<not> valid_uuid_v4 (rev_second_posting req)
     \<or> blank_reason (rev_reason req) \<or> 200 < length (rev_reason req))"

definition reversal_json :: "reversal_request \<Rightarrow> json_object" where
  "reversal_json req = (let call = rev_invocation req in
     [(''channel_id'', J_string (snowflake_str (inv_channel call))),
      (''guild_id'', J_string (snowflake_str (inv_guild call))),
      (''original_transaction_id'', J_string (rev_original req)),
      (''reason'', J_string (rev_reason req)),
      (''user_id'', J_string (snowflake_str (inv_user call)))])"

definition reverse_key :: "reversal_request \<Rightarrow> string" where
  "reverse_key req = inv_key (rev_invocation req) @ '':reverse''"

definition reversal_refusals :: "(string \<times> mutation_status) list" where
  "reversal_refusals = [(''not_found'', Not_found), (''forbidden'', Forbidden),
     (''would_overdraw'', Would_overdraw)]"

text \<open>Whether the original may be reversed by this user, and its postings by id.\<close>

definition reversible :: "u64 \<Rightarrow> transaction_row \<Rightarrow> bool" where
  "reversible user t \<longleftrightarrow> committed t \<and> tx_is_test t \<and> tx_actor t = Some user
     \<and> transaction_type t = Test_adjustment"

definition reversed_before :: "string \<Rightarrow> ledger_db \<Rightarrow> bool" where
  "reversed_before i db \<longleftrightarrow>
     list_ex (\<lambda>t. reversal_of t = Some i \<and> committed t) (tarot_transactions db)"

definition original_postings :: "string \<Rightarrow> ledger_db \<Rightarrow> posting_row list" where
  "original_postings i db = sort_key posting_id
     (filter (\<lambda>p. kind_of (posting_account p) db \<noteq> None) (postings_of i db))"

definition post_reversal :: "json_lib \<Rightarrow> reversal_request \<Rightarrow> posting_row list \<Rightarrow> ledger_db \<Rightarrow> ledger_db res" where
  "post_reversal J req postings db =
     (let call = rev_invocation req; now = inv_now call; key = reverse_key req in
     rbind (record_event J call (rev_event req) ''tarot.transaction_reversed.v1'' ''tarot_transaction''
       (rev_transaction req) key
       [(''is_test'', J_bool True), (''reason'', J_string (rev_reason req)),
        (''reversal_of'', J_string (rev_original req))] db) (\<lambda>(_, db).
     rbind (insert_transaction (rev_transaction req) Test_reversal (rev_event req) key
       (inv_user call) (Some (rev_reason req)) True (Some (rev_original req)) now db) (\<lambda>db.
     rbind (insert_posting (rev_first_posting req) (rev_transaction req)
       (posting_account (postings ! 0)) (- amount (postings ! 0)) now db) (\<lambda>db.
     rbind (insert_posting (rev_second_posting req) (rev_transaction req)
       (posting_account (postings ! 1)) (- amount (postings ! 1)) now db) (\<lambda>db.
     seal_transaction (rev_transaction req) now db)))))"

definition reverse_receipt ::
    "json_lib \<Rightarrow> reversal_request \<Rightarrow> string \<Rightarrow> string \<Rightarrow> int \<Rightarrow> string option \<Rightarrow> ledger_db \<Rightarrow> ledger_db res" where
  "reverse_receipt J req account status b tx db =
     insert_receipt J (reverse_key req) ''reverse'' account (reversal_json req)
       (outcome_json status b) None tx (inv_now (rev_invocation req)) db"

definition refuse_reversal ::
    "json_lib \<Rightarrow> reversal_request \<Rightarrow> string \<Rightarrow> string \<Rightarrow> mutation_status \<Rightarrow> ledger_db
     \<Rightarrow> (mutation_result \<times> ledger_db) res" where
  "refuse_reversal J req account status refusal db =
     rbind (balance_for_account account db) (\<lambda>current.
     rbind (reverse_receipt J req account status current None db) (\<lambda>db.
     Inr (mutation_result_of refusal current, db)))"

text \<open>Whether the postings are two, one of them the participant's own.\<close>

definition own_postings :: "string \<Rightarrow> posting_row list \<Rightarrow> ledger_db \<Rightarrow> bool" where
  "own_postings account postings db \<longleftrightarrow> length postings = 2
     \<and> list_ex (\<lambda>p. kind_of (posting_account p) db = Some Human \<and> posting_account p = account) postings"

definition inverse_human_amount :: "posting_row list \<Rightarrow> ledger_db \<Rightarrow> int" where
  "inverse_human_amount postings db =
     (case List.find (\<lambda>p. kind_of (posting_account p) db = Some Human) postings of
        None \<Rightarrow> 0 | Some p \<Rightarrow> - amount p)"

definition commit_reversal ::
    "json_lib \<Rightarrow> reversal_request \<Rightarrow> string \<Rightarrow> posting_row list \<Rightarrow> ledger_db
     \<Rightarrow> (mutation_result \<times> ledger_db) res" where
  "commit_reversal J req account postings db =
     rbind (post_reversal J req postings db) (\<lambda>db.
     rbind (balance_for_account account db) (\<lambda>updated.
     rbind (reverse_receipt J req account ''applied'' updated (Some (rev_transaction req)) db) (\<lambda>db.
     Inr (\<lparr>mutation_status = Applied, mutation_transaction = rev_transaction req,
       mutation_balance = updated\<rparr>, db))))"

definition apply_reversal ::
    "json_lib \<Rightarrow> reversal_request \<Rightarrow> string \<Rightarrow> ledger_db \<Rightarrow> (mutation_result \<times> ledger_db) res" where
  "apply_reversal J req account db =
     (case find_transaction (rev_original req) db of
       None \<Rightarrow> refuse_reversal J req account ''not_found'' Not_found db
     | Some original \<Rightarrow>
     if \<not> reversible (inv_user (rev_invocation req)) original \<or> reversed_before (rev_original req) db
     then refuse_reversal J req account ''forbidden'' Forbidden db
     else
     let postings = original_postings (rev_original req) db in
     if \<not> own_postings account postings db
     then refuse_reversal J req account ''forbidden'' Forbidden db
     else
     rbind (balance_for_account account db) (\<lambda>current.
     let inverse = inverse_human_amount postings db in
     if inverse < 0 \<and> current < - inverse
     then refuse_reversal J req account ''would_overdraw'' Would_overdraw db
     else commit_reversal J req account postings db))"

definition reverse ::
    "json_lib \<Rightarrow> reversal_request \<Rightarrow> ledger_db \<Rightarrow> (mutation_result \<times> ledger_db) res" where
  "reverse J req db =
     rbind (require (reversal_valid req)
       (Invalid_argument ''Tarot reversal request is invalid.'')) (\<lambda>_.
     rbind (account_for_user (inv_user (rev_invocation req)) db) (\<lambda>found. case found of
       None \<Rightarrow> Inl (Invalid_argument ''Tarot account does not exist.'')
     | Some account \<Rightarrow>
     rbind (load_receipt J (reverse_key req) db) (\<lambda>replay. case replay of
       Some r \<Rightarrow> rbind (replay_mutation ''reverse'' reversal_refusals account (reversal_json req) r)
         (\<lambda>result. Inr (result, db))
     | None \<Rightarrow> apply_reversal J req account db)))"

end
