(* ===== verification/Tarot_Recovery.thy ===== *)
theory Tarot_Recovery
  imports Tarot_Ledger
begin

text \<open>
  The recoveries of the Tarot repository (\<open>start_recovery\<close> and \<open>complete_recovery\<close> of
  \<^verbatim>\<open>src/src/persistence/sqlite_tarot_repository.cpp\<close>) and the visibility of the standings: a
  claim is opened with its buttons, stays pending until it is completed, abandoned, lost or
  expired, and pays at most once.
\<close>

section \<open>Names\<close>

definition visibility_name :: "visibility \<Rightarrow> string" where
  "visibility_name v = (case v of Private_result \<Rightarrow> ''private'' | Public_result \<Rightarrow> ''public'')"

definition recovery_kind_name :: "recovery_kind \<Rightarrow> string" where
  "recovery_kind_name k = (case k of Grace \<Rightarrow> ''GRACE'' | Trial \<Rightarrow> ''TRIAL'')"

definition tarot_component_prefix :: string where "tarot_component_prefix = ''sgt:1:''"

definition tarot_interaction_lifetime_ms :: int where
  "tarot_interaction_lifetime_ms = 15 * 60 * 1000"

definition custom_id :: "string \<Rightarrow> string" where
  "custom_id token = tarot_component_prefix @ token"

section \<open>Claims\<close>

definition claim_check :: "claim_row \<Rightarrow> ledger_db \<Rightarrow> bool" where
  [row_checks]: "claim_check c db \<longleftrightarrow>
     claim_account c \<in> account_id ` set (tarot_accounts db)
     \<and> 1 \<le> claim_threshold c \<and> claim_threshold c \<le> 1000000000
     \<and> opt_check (\<lambda>g. 1 \<le> g \<and> g \<le> 1000000000) (claim_target c) \<and> 0 \<le> claim_balance c
     \<and> opt_check (\<lambda>r. 1 \<le> r \<and> r \<le> 1000000000) (claim_reward c)
     \<and> opt_check (\<lambda>d. d \<in> draw_id ` set (tarot_draws db)) (claim_draw c)
     \<and> opt_check (\<lambda>i. i \<in> transaction_id ` set (tarot_transactions db)) (claim_transaction c)
     \<and> claim_started_event c \<in> event_id ` set (event_journal db)
     \<and> opt_check (\<lambda>i. i \<in> event_id ` set (event_journal db)) (claim_event c)
     \<and> opt_check (\<lambda>i. i \<in> outbox_id ` set (outbox_messages db)) (claim_outbox c)
     \<and> between 1 160 (sql_length (claim_start_key c))
     \<and> opt_check (\<lambda>k. between 1 160 (sql_length k)) (claim_completion_key c)
     \<and> 0 \<le> claim_created_at c \<and> claim_created_at c < claim_expires_at c
     \<and> opt_check (\<lambda>t. claim_created_at c \<le> t) (claim_completed_at c)
     \<and> opt_check (\<lambda>u. opt_check (\<lambda>t. t \<le> u) (claim_completed_at c)) (claim_cooldown_until c)
     \<and> (claim_kind c = Grace \<longleftrightarrow> claim_target c \<noteq> None)
     \<and> (claim_kind c = Grace \<longrightarrow> opt_check (\<lambda>g. claim_threshold c < g) (claim_target c))
     \<and> (claim_kind c = Trial \<longleftrightarrow> claim_draw c \<noteq> None)
     \<and> (case claim_state c of
          Claim_pending \<Rightarrow> claim_completed_at c = None \<and> claim_transaction c = None
            \<and> claim_event c = None \<and> claim_cooldown_until c = None
        | Claim_completed \<Rightarrow> claim_completed_at c \<noteq> None \<and> claim_transaction c \<noteq> None
            \<and> claim_event c \<noteq> None \<and> claim_cooldown_until c \<noteq> None
        | _ \<Rightarrow> claim_completed_at c \<noteq> None \<and> claim_transaction c = None
            \<and> claim_event c \<noteq> None \<and> claim_cooldown_until c = None)"

text \<open>
  What the unique columns and the index on the pending claims forbid: \<open>c\<close> beside another row.
\<close>

definition claim_clash :: "claim_row \<Rightarrow> claim_row \<Rightarrow> bool" where
  "claim_clash c d \<longleftrightarrow> claim_id d = claim_id c
     \<or> claim_draw c \<noteq> None \<and> claim_draw d = claim_draw c
     \<or> claim_transaction c \<noteq> None \<and> claim_transaction d = claim_transaction c
     \<or> claim_started_event d = claim_started_event c \<or> claim_start_key d = claim_start_key c
     \<or> claim_completion_key c \<noteq> None \<and> claim_completion_key d = claim_completion_key c
     \<or> claim_state c = Claim_pending \<and> claim_state d = Claim_pending
       \<and> claim_account d = claim_account c \<and> claim_kind d = claim_kind c
       \<and> claim_is_test d = claim_is_test c"

definition insert_claim :: "claim_row \<Rightarrow> ledger_db \<Rightarrow> ledger_db res" where
  "insert_claim c db =
     rbind (require (claim_state c = Claim_pending \<and> claim_check c db
         \<and> \<not> list_ex (claim_clash c) (tarot_claims db)) (Constraint ''tarot_recovery_claim'')) (\<lambda>_.
     Inr (db\<lparr>tarot_claims := tarot_claims db @ [c]\<rparr>))"

text \<open>\<^verbatim>\<open>tarot_recovery_transition_guard\<close>: the one move a claim makes.\<close>

definition same_claim :: "claim_row \<Rightarrow> claim_row \<Rightarrow> bool" where
  "same_claim old new \<longleftrightarrow> claim_id new = claim_id old \<and> claim_account new = claim_account old
     \<and> claim_kind new = claim_kind old \<and> claim_visibility new = claim_visibility old
     \<and> claim_is_test new = claim_is_test old \<and> claim_threshold new = claim_threshold old
     \<and> claim_target new = claim_target old \<and> claim_balance new = claim_balance old
     \<and> (claim_reward new = claim_reward old
        \<or> claim_kind old = Grace \<and> claim_reward old = None \<and> claim_reward new \<noteq> None)
     \<and> claim_draw new = claim_draw old \<and> claim_started_event new = claim_started_event old
     \<and> claim_start_key new = claim_start_key old \<and> claim_created_at new = claim_created_at old
     \<and> claim_expires_at new = claim_expires_at old"

definition terminal_event :: "claim_row \<Rightarrow> ledger_db \<Rightarrow> bool" where
  "terminal_event c db \<longleftrightarrow> list_ex (\<lambda>e. Some (event_id e) = claim_event c
     \<and> event_aggregate_type e = ''tarot_recovery_claim'' \<and> event_aggregate_id e = claim_id c
     \<and> (claim_state c = Claim_completed \<and> event_type e = completed_event (claim_kind c)
        \<or> claim_state c = Claim_expired \<and> event_type e = ''tarot.recovery_expired.v1''
        \<or> claim_state c = Claim_abandoned \<and> event_type e = ''tarot.recovery_eligibility_lost.v1''
        \<or> claim_state c = Claim_abandoned \<and> claim_kind c = Trial
          \<and> event_type e = ''tarot.trial_abandoned.v1'')) (event_journal db)"

definition claim_paid :: "claim_row \<Rightarrow> ledger_db \<Rightarrow> bool" where
  "claim_paid c db \<longleftrightarrow> list_ex (\<lambda>t. Some (transaction_id t) = claim_transaction c \<and> committed t
     \<and> transaction_type t = reward_type (claim_kind c) \<and> Some (tx_event t) = claim_event c
     \<and> tx_is_test t = claim_is_test c
     \<and> list_ex (\<lambda>p. posting_account p = claim_account c
         \<and> kind_of (posting_account p) db = Some Human \<and> Some (amount p) = claim_reward c)
       (postings_of (transaction_id t) db)) (tarot_transactions db)"

definition claim_announced :: "claim_row \<Rightarrow> ledger_db \<Rightarrow> bool" where
  "claim_announced c db \<longleftrightarrow> list_ex (\<lambda>m. Some (outbox_id m) = claim_outbox c
     \<and> out_kind m = ''discord.public.v1'' \<and> out_aggregate_type m = Some ''tarot_recovery_claim''
     \<and> out_aggregate_id m = Some (claim_id c) \<and> target_user_id m = None
     \<and> list_ex (\<lambda>e. event_id e = claim_started_event c \<and> event_guild_id e = target_guild_id m
         \<and> event_channel_id e = Some (target_channel_id m)) (event_journal db))
     (outbox_messages db)"

definition transition_guard :: "claim_row \<Rightarrow> claim_row \<Rightarrow> ledger_db \<Rightarrow> bool" where
  "transition_guard old new db \<longleftrightarrow> claim_state old = Claim_pending \<and> claim_state new \<noteq> Claim_pending
     \<and> same_claim old new \<and> terminal_event new db
     \<and> (claim_state new = Claim_completed \<longrightarrow> claim_paid new db)
     \<and> (claim_state new = Claim_completed \<and> claim_visibility new = Public_result
        \<longrightarrow> claim_announced new db)
     \<and> (claim_state new = Claim_completed \<and> claim_visibility new = Private_result
        \<or> claim_state new \<in> {Claim_expired, Claim_abandoned} \<longrightarrow> claim_outbox new = None)"

text \<open>
  An UPDATE of the pending claim \<open>i\<close> to a terminal state, with the trigger that follows it:
  \<^verbatim>\<open>tarot_recovery_cancel_terminal_tokens\<close> cancels the buttons of the claim. The unique columns
  are those of \<open>claim_clash\<close>.
\<close>

definition cancel_buttons :: "string \<Rightarrow> button_row \<Rightarrow> button_row" where
  "cancel_buttons i b = (if button_entity_type b = ''tarot_recovery_claim'' \<and> button_entity b = i
     \<and> button_state b = Button_active then b\<lparr>button_state := Button_cancelled\<rparr> else b)"

definition finish_claim :: "string \<Rightarrow> (claim_row \<Rightarrow> claim_row) \<Rightarrow> ledger_db \<Rightarrow> ledger_db res" where
  "finish_claim i change db =
     (let open_claim = (\<lambda>c. claim_id c = i \<and> claim_state c = Claim_pending) in
     rbind (update_rows (\<lambda>c. claim_check c db
           \<and> list_all (\<lambda>d. claim_id d = claim_id c \<or> \<not> claim_clash c d) (tarot_claims db)
           \<and> list_ex (\<lambda>old. open_claim old \<and> transition_guard old c db) (tarot_claims db))
         ''tarot_recovery_claim'' open_claim change (tarot_claims db)) (\<lambda>(changes, rows).
     Inr (db\<lparr>tarot_claims := rows, interaction_buttons :=
       (if 0 < changes then map (cancel_buttons i) (interaction_buttons db)
        else interaction_buttons db)\<rparr>)))"

text \<open>
  The UPDATE that tightens the privacy of a pending claim; \<^verbatim>\<open>tarot_recovery_privacy_tighten\<close> lets
  nothing else change.
\<close>

definition tighten_claim :: "string \<Rightarrow> ledger_db \<Rightarrow> ledger_db res" where
  "tighten_claim i db =
     rbind (update_rows (\<lambda>c. claim_check c db) ''tarot_recovery_claim''
         (\<lambda>c. claim_id c = i \<and> claim_state c = Claim_pending \<and> claim_visibility c = Public_result)
         (\<lambda>c. c\<lparr>claim_visibility := Private_result\<rparr>) (tarot_claims db)) (\<lambda>(changes, rows).
     rbind (require (changes = 1) (Constraint ''Tarot recovery privacy could not be tightened.'')) (\<lambda>_.
     Inr (db\<lparr>tarot_claims := rows\<rparr>)))"

definition load_claim :: "string \<Rightarrow> ledger_db \<Rightarrow> claim_row option" where
  "load_claim i db = find_row claim_id i (tarot_claims db)"

text \<open>The columns \<open>load_claim\<close> joins from the draw and from the terminal event.\<close>

definition prompt_variant :: "claim_row \<Rightarrow> ledger_db \<Rightarrow> int option" where
  "prompt_variant c db = Option.bind (claim_draw c) (\<lambda>d.
     map_option draw_variant (find_row draw_id d (tarot_draws db)))"

definition terminal_event_type :: "claim_row \<Rightarrow> ledger_db \<Rightarrow> string option" where
  "terminal_event_type c db = Option.bind (claim_event c) (\<lambda>e.
     map_option event_type (find_row event_id e (event_journal db)))"

section \<open>Buttons\<close>

definition button_check :: "button_row \<Rightarrow> ledger_db \<Rightarrow> bool" where
  [row_checks]: "button_check b db \<longleftrightarrow> valid_uuid_v4 (button_id b)
     \<and> between 1 64 (sql_length (button_action b)) \<and> machine_text 64 (button_action b)
     \<and> machine_text 64 (button_entity_type b) \<and> between 1 128 (sql_length (button_entity b))
     \<and> button_user b \<in> set (discord_users db) \<and> button_guild b \<noteq> 0 \<and> button_channel b \<noteq> 0
     \<and> button_created_at b \<le> button_expires_at b \<and> between 1 160 (sql_length (button_key b))
     \<and> 0 \<le> button_created_at b
     \<and> button_id b \<notin> button_id ` set (interaction_buttons db)
     \<and> button_key b \<notin> button_key ` set (interaction_buttons db)"

definition insert_button :: "button_row \<Rightarrow> ledger_db \<Rightarrow> ledger_db res" where
  "insert_button b db =
     rbind (require (button_check b db) (Constraint ''interaction_token'')) (\<lambda>_.
     Inr (db\<lparr>interaction_buttons := interaction_buttons db @ [b]\<rparr>))"

definition insert_draw :: "draw_row \<Rightarrow> ledger_db \<Rightarrow> ledger_db res" where
  "insert_draw d db =
     rbind (require (0 \<le> draw_variant d \<and> draw_variant d \<le> 2 \<and> 1 \<le> draw_reward d
         \<and> draw_reward d \<le> 1000000000 \<and> 0 \<le> draw_created_at d
         \<and> draw_id d \<notin> draw_id ` set (tarot_draws db) \<and> draw_claim d \<notin> draw_claim ` set (tarot_draws db))
       (Constraint ''tarot_draw'')) (\<lambda>_.
     Inr (db\<lparr>tarot_draws := tarot_draws db @ [d]\<rparr>))"

section \<open>Results\<close>

datatype recovery_status =
    Status_pending | Status_completed | Status_ineligible | Status_cooldown | Status_expired
  | Status_abandoned | Status_lost_eligibility | Status_invalid_token | Status_wrong_user
  | Status_wrong_scope

record recovery_result =
  result_status :: recovery_status
  result_kind :: recovery_kind
  result_visibility :: visibility
  result_claim :: string
  result_balance :: int
  result_reward :: "int option"
  result_cooldown :: "int option"
  result_variant :: "int option"
  result_custom_ids :: "string list"
  mutation_created :: bool
  public_delivery_created :: bool
  committed_event_types :: "string list"

definition stored_recovery_status :: "claim_row \<Rightarrow> ledger_db \<Rightarrow> recovery_status" where
  "stored_recovery_status c db = (case claim_state c of
      Claim_pending \<Rightarrow> Status_pending | Claim_completed \<Rightarrow> Status_completed
    | Claim_expired \<Rightarrow> Status_expired
    | Claim_abandoned \<Rightarrow>
        if terminal_event_type c db = Some ''tarot.recovery_eligibility_lost.v1''
        then Status_lost_eligibility else Status_abandoned)"

definition recovery_status :: "recovery_status \<Rightarrow> recovery_kind \<Rightarrow> visibility \<Rightarrow> int \<Rightarrow> int option \<Rightarrow> recovery_result" where
  "recovery_status status kind vis b cooldown =
     \<lparr>result_status = status, result_kind = kind, result_visibility = vis, result_claim = [],
      result_balance = b, result_reward = None, result_cooldown = cooldown, result_variant = None,
      result_custom_ids = [], mutation_created = False, public_delivery_created = False,
      committed_event_types = []\<rparr>"

definition refused :: "recovery_status \<Rightarrow> recovery_result" where
  "refused status = recovery_status status Grace Public_result 0 None"

definition claim_buttons :: "string \<Rightarrow> ledger_db \<Rightarrow> button_row list" where
  "claim_buttons i db = sort_key button_action (filter (\<lambda>b.
     button_entity_type b = ''tarot_recovery_claim'' \<and> button_entity b = i) (interaction_buttons db))"

definition recovery_result ::
    "claim_row \<Rightarrow> recovery_status \<Rightarrow> bool \<Rightarrow> bool \<Rightarrow> string list \<Rightarrow> ledger_db \<Rightarrow> recovery_result res" where
  "recovery_result c status created public_created event_types db =
     rbind (case claim_transaction c of
         Some i \<Rightarrow> if claim_state c = Claim_completed then balance_through (claim_account c) i db
           else balance_for_account (claim_account c) db
       | None \<Rightarrow> balance_for_account (claim_account c) db) (\<lambda>b.
     Inr \<lparr>result_status = status, result_kind = claim_kind c, result_visibility = claim_visibility c,
       result_claim = claim_id c, result_balance = b, result_reward = claim_reward c,
       result_cooldown = claim_cooldown_until c, result_variant = prompt_variant c db,
       result_custom_ids = (if status = Status_pending
         then map (custom_id \<circ> button_id) (claim_buttons (claim_id c) db) else []),
       mutation_created = created, public_delivery_created = public_created,
       committed_event_types = event_types\<rparr>)"

definition finish_claim_without_reward ::
    "json_lib \<Rightarrow> claim_row \<Rightarrow> invocation \<Rightarrow> string \<Rightarrow> claim_state \<Rightarrow> string \<Rightarrow> string \<Rightarrow> ledger_db \<Rightarrow> ledger_db res"
  where
  "finish_claim_without_reward J c call event state type key db =
     (let now = max (inv_now call) (claim_created_at c) in
     rbind (record_event J (call\<lparr>inv_now := now\<rparr>) event type ''tarot_recovery_claim'' (claim_id c) key
       [(''claim_type'', J_string (recovery_kind_name (claim_kind c))),
        (''is_test'', J_bool (claim_is_test c))] db) (\<lambda>(_, db).
     finish_claim (claim_id c) (\<lambda>c. c\<lparr>claim_state := state, claim_event := Some event,
       claim_completion_key := Some key, claim_completed_at := Some now\<rparr>) db))"

section \<open>Starting\<close>

text \<open>
  \<open>start_trial\<close> is the draw a request would make: the answer of its closure, which the repository
  calls once, when nothing else can refuse the request any more.
\<close>

record trial_draw =
  drawn_reward :: int
  drawn_variant :: int

record start_request =
  start_invocation :: invocation
  start_kind :: recovery_kind
  start_visibility :: visibility
  start_is_test :: bool
  start_threshold :: int
  start_target :: "int option"
  start_cooldown_ms :: int
  start_trial :: "trial_draw res option"
  start_claim :: string
  start_draw :: "string option"
  start_event :: string
  start_expired_event :: string
  start_tokens :: "string list"

definition start_valid :: "start_request \<Rightarrow> bool" where
  "start_valid req \<longleftrightarrow> (let trial = (start_kind req = Trial) in
     \<not> (\<not> valid_uuid_v4 (start_claim req) \<or> \<not> valid_uuid_v4 (start_event req)
       \<or> \<not> valid_uuid_v4 (start_expired_event req) \<or> start_threshold req < 1
       \<or> trial = (start_target req \<noteq> None)
       \<or> \<not> opt_check (\<lambda>g. start_threshold req < g \<and> g \<le> 1000000000) (start_target req)
       \<or> start_cooldown_ms req \<le> 0 \<or> trial \<noteq> (start_draw req \<noteq> None)
       \<or> trial \<noteq> (start_trial req \<noteq> None)
       \<or> length (start_tokens req) \<noteq> (if trial then 4 else 1)
       \<or> \<not> opt_check valid_uuid_v4 (start_draw req)
       \<or> list_ex (\<lambda>i. \<not> valid_uuid_v4 i) (start_tokens req)))"

definition start_json :: "start_request \<Rightarrow> json_object" where
  "start_json req = (let call = start_invocation req in
     [(''channel_id'', J_string (snowflake_str (inv_channel call))),
      (''claim_type'', J_string (recovery_kind_name (start_kind req))),
      (''cooldown_ms'', J_int (start_cooldown_ms req)),
      (''guild_id'', J_string (snowflake_str (inv_guild call))),
      (''is_test'', J_bool (start_is_test req)),
      (''threshold'', J_int (start_threshold req)),
      (''user_id'', J_string (snowflake_str (inv_user call))),
      (''visibility'', J_string (visibility_name (start_visibility req)))])"

definition start_key :: "start_request \<Rightarrow> string" where
  "start_key req = inv_key (start_invocation req) @ '':recovery_start''"

definition start_status :: "start_request \<Rightarrow> recovery_status \<Rightarrow> int \<Rightarrow> int option \<Rightarrow> recovery_result" where
  "start_status req status b cooldown =
     recovery_status status (start_kind req) (start_visibility req) b cooldown"

definition replay_start ::
    "start_request \<Rightarrow> string \<Rightarrow> interaction_receipt \<Rightarrow> ledger_db \<Rightarrow> recovery_result res" where
  "replay_start req account r db =
     (if rc_operation r \<noteq> ''recovery_start'' \<or> rc_account r \<noteq> account
        \<or> rc_request r \<noteq> start_json req \<or> rc_transaction r \<noteq> None
      then Inl receipt_conflict
      else case map_of (rc_result r) ''status'' of
        Some (J_string status) \<Rightarrow>
          (case rc_claim r of
             Some i \<Rightarrow>
               if status \<noteq> ''pending'' then Inl receipt_conflict
               else (case load_claim i db of
                   None \<Rightarrow> Inl (Schema ''Tarot claim replay is orphaned.'')
                 | Some c \<Rightarrow>
                     if claim_account c \<noteq> account then Inl (Schema ''Tarot claim replay is orphaned.'')
                     else recovery_result c (stored_recovery_status c db) False False [] db)
           | None \<Rightarrow> (case map_of (rc_result r) ''balance'' of
               Some (J_int stored) \<Rightarrow>
                 if status = ''ineligible'' then Inr (start_status req Status_ineligible stored None)
                 else if status = ''cooldown''
                 then (case map_of (rc_result r) ''cooldown_until_ms'' of
                     Some (J_int until) \<Rightarrow> Inr (start_status req Status_cooldown stored (Some until))
                   | _ \<Rightarrow> Inl receipt_conflict)
                 else Inl receipt_conflict
             | _ \<Rightarrow> Inl receipt_conflict))
      | _ \<Rightarrow> Inl receipt_conflict)"

definition pending_claim :: "string \<Rightarrow> recovery_kind \<Rightarrow> bool \<Rightarrow> ledger_db \<Rightarrow> claim_row option" where
  "pending_claim account kind is_test db = List.find (\<lambda>c. claim_account c = account
     \<and> claim_kind c = kind \<and> claim_is_test c = is_test \<and> claim_state c = Claim_pending)
     (tarot_claims db)"

text \<open>The latest cooldown of the completed claims: the first row by descending cooldown.\<close>

definition latest_cooldown :: "string \<Rightarrow> recovery_kind \<Rightarrow> bool \<Rightarrow> ledger_db \<Rightarrow> int option" where
  "latest_cooldown account kind is_test db =
     (case List.map_filter claim_cooldown_until (filter (\<lambda>c. claim_account c = account
         \<and> claim_kind c = kind \<and> claim_is_test c = is_test \<and> claim_state c = Claim_completed)
         (tarot_claims db)) of
      [] \<Rightarrow> None | u # us \<Rightarrow> Some (foldr max us u))"

definition cooling_down :: "int \<Rightarrow> string \<Rightarrow> recovery_kind \<Rightarrow> bool \<Rightarrow> ledger_db \<Rightarrow> int option" where
  "cooling_down now_ms account kind is_test db = (case latest_cooldown account kind is_test db of
      None \<Rightarrow> None | Some u \<Rightarrow> if now_ms < u then Some u else None)"

text \<open>
  A claim that is still open: a private request makes a public claim private; the claim is
  answered again with its buttons.
\<close>

definition start_receipt ::
    "json_lib \<Rightarrow> start_request \<Rightarrow> string \<Rightarrow> json_object \<Rightarrow> string option \<Rightarrow> ledger_db \<Rightarrow> ledger_db res" where
  "start_receipt J req account result claim db =
     insert_receipt J (start_key req) ''recovery_start'' account (start_json req) result claim None
       (inv_now (start_invocation req)) db"

definition tighten_visibility ::
    "json_lib \<Rightarrow> start_request \<Rightarrow> claim_row \<Rightarrow> ledger_db \<Rightarrow> (string list \<times> ledger_db) res" where
  "tighten_visibility J req existing db =
     (if start_visibility req = Private_result \<and> claim_visibility existing = Public_result
      then
        rbind (record_event J (start_invocation req) (start_event req)
          ''tarot.recovery_visibility_tightened.v1'' ''tarot_recovery_claim'' (claim_id existing)
          (start_key req @ '':privacy'')
          [(''claim_type'', J_string (recovery_kind_name (claim_kind existing))),
           (''is_test'', J_bool (claim_is_test existing)), (''visibility'', J_string ''private'')] db)
          (\<lambda>(_, db).
        rbind (tighten_claim (claim_id existing) db) (\<lambda>db.
        Inr ([''tarot.recovery_visibility_tightened.v1''], db)))
      else Inr ([], db))"

definition resume_claim ::
    "json_lib \<Rightarrow> start_request \<Rightarrow> string \<Rightarrow> claim_row \<Rightarrow> ledger_db \<Rightarrow> (recovery_result \<times> ledger_db) res" where
  "resume_claim J req account existing db =
     rbind (tighten_visibility J req existing db) (\<lambda>(event_types, db).
     case load_claim (claim_id existing) db of
       None \<Rightarrow> Inl (Schema ''Private Tarot claim is missing.'')
     | Some existing \<Rightarrow>
     rbind (start_receipt J req account [(''status'', J_string ''pending'')]
       (Some (claim_id existing)) db) (\<lambda>db.
     rbind (recovery_result existing Status_pending (event_types \<noteq> []) False event_types db) (\<lambda>result.
     Inr (result, db))))"

text \<open>A new claim: its event, its draw, its row and its buttons.\<close>

definition started_event :: "recovery_kind \<Rightarrow> string" where
  "started_event k = (case k of Trial \<Rightarrow> ''tarot.trial_started.v1'' | Grace \<Rightarrow> ''tarot.grace_started.v1'')"

definition trial_actions :: "string list" where
  "trial_actions = [''tarot.recovery.0.vow'', ''tarot.recovery.1.vow'', ''tarot.recovery.2.vow'',
     ''tarot.recovery.3.abandon'']"

definition claim_button :: "start_request \<Rightarrow> int \<Rightarrow> nat \<Rightarrow> string \<Rightarrow> button_row" where
  "claim_button req expires index i = (let call = start_invocation req in
     \<lparr>button_id = i,
       button_action = (if start_kind req = Trial then trial_actions ! index else ''tarot.recovery.0.claim''),
       button_entity_type = ''tarot_recovery_claim'', button_entity = start_claim req,
       button_user = inv_user call, button_guild = inv_guild call, button_channel = inv_channel call,
       button_state = Button_active, button_expires_at = expires,
       button_key = ''tarot.recovery_token:'' @ start_claim req @ '':'' @ decimal index,
       button_created_at = inv_now call\<rparr>)"

fun insert_claim_buttons :: "start_request \<Rightarrow> int \<Rightarrow> nat \<Rightarrow> string list \<Rightarrow> ledger_db \<Rightarrow> ledger_db res" where
  "insert_claim_buttons req expires index [] db = Inr db"
| "insert_claim_buttons req expires index (i # rest) db =
     rbind (insert_button (claim_button req expires index i) db)
     (insert_claim_buttons req expires (Suc index) rest)"

definition new_claim_row :: "start_request \<Rightarrow> string \<Rightarrow> int \<Rightarrow> int option \<Rightarrow> int \<Rightarrow> claim_row" where
  "new_claim_row req account current reward expires = \<lparr>claim_id = start_claim req,
     claim_account = account, claim_kind = start_kind req, claim_state = Claim_pending,
     claim_visibility = start_visibility req, claim_is_test = start_is_test req,
     claim_threshold = start_threshold req, claim_target = start_target req,
     claim_balance = current, claim_reward = reward, claim_draw = start_draw req,
     claim_transaction = None, claim_started_event = start_event req, claim_event = None,
     claim_outbox = None, claim_start_key = start_key req, claim_completion_key = None,
     claim_created_at = inv_now (start_invocation req), claim_expires_at = expires,
     claim_completed_at = None, claim_cooldown_until = None\<rparr>"

definition trial_draw_of :: "start_request \<Rightarrow> trial_draw option res" where
  "trial_draw_of req = (case (start_kind req, start_trial req) of
      (Trial, Some drawn) \<Rightarrow> rbind drawn (\<lambda>draw.
        rbind (require (\<not> (drawn_reward draw < 1 \<or> 1000000000 < drawn_reward draw
            \<or> drawn_variant draw < 0 \<or> 2 < drawn_variant draw))
          (Invalid_argument ''Tarot Trial draw is invalid.'')) (\<lambda>_. Inr (Some draw)))
    | _ \<Rightarrow> Inr None)"

definition record_draw :: "start_request \<Rightarrow> trial_draw option \<Rightarrow> ledger_db \<Rightarrow> ledger_db res" where
  "record_draw req draw db = (case (draw, start_draw req) of
      (Some draw, Some i) \<Rightarrow> insert_draw \<lparr>draw_id = i, draw_claim = start_claim req,
        draw_variant = drawn_variant draw, draw_reward = drawn_reward draw,
        draw_created_at = inv_now (start_invocation req)\<rparr> db
    | _ \<Rightarrow> Inr db)"

definition commit_claim ::
    "json_lib \<Rightarrow> start_request \<Rightarrow> string \<Rightarrow> int \<Rightarrow> trial_draw option \<Rightarrow> string list \<Rightarrow> ledger_db
     \<Rightarrow> (recovery_result \<times> ledger_db) res" where
  "commit_claim J req account current draw event_types db =
     rbind (checked_add (inv_now (start_invocation req)) tarot_interaction_lifetime_ms) (\<lambda>expires.
     rbind (insert_claim (new_claim_row req account current (map_option drawn_reward draw) expires) db) (\<lambda>db.
     rbind (insert_claim_buttons req expires 0 (start_tokens req) db) (\<lambda>db.
     case load_claim (start_claim req) db of
       None \<Rightarrow> Inl (Schema ''Created Tarot claim is missing.'')
     | Some created \<Rightarrow>
     rbind (start_receipt J req account [(''status'', J_string ''pending'')] (Some (start_claim req)) db) (\<lambda>db.
     rbind (recovery_result created Status_pending True False event_types db) (\<lambda>result.
     Inr (result, db))))))"

definition open_claim ::
    "json_lib \<Rightarrow> start_request \<Rightarrow> string \<Rightarrow> int \<Rightarrow> string list \<Rightarrow> ledger_db
     \<Rightarrow> (recovery_result \<times> ledger_db) res" where
  "open_claim J req account current event_types db =
     (let type = started_event (start_kind req) in
     rbind (trial_draw_of req) (\<lambda>draw.
     rbind (record_event J (start_invocation req) (start_event req) type ''tarot_recovery_claim''
       (start_claim req) (start_key req)
       [(''claim_type'', J_string (recovery_kind_name (start_kind req))),
         (''is_test'', J_bool (start_is_test req)),
         (''visibility'', J_string (visibility_name (start_visibility req)))] db) (\<lambda>(_, db).
     rbind (record_draw req draw db) (\<lambda>db.
     commit_claim J req account current draw (event_types @ [type]) db))))"

text \<open>
  After the pending claim, if any, is out of the way: too rich, cooling down, or a new claim.
\<close>

definition begin_claim ::
    "json_lib \<Rightarrow> start_request \<Rightarrow> string \<Rightarrow> string list \<Rightarrow> ledger_db \<Rightarrow> (recovery_result \<times> ledger_db) res" where
  "begin_claim J req account event_types db =
     (let answer = (\<lambda>status b cooldown. (start_status req status b cooldown)
        \<lparr>mutation_created := event_types \<noteq> [], committed_event_types := event_types\<rparr>) in
     rbind (balance_for_account account db) (\<lambda>current.
     if start_threshold req \<le> current
     then rbind (start_receipt J req account
         [(''balance'', J_int current), (''status'', J_string ''ineligible'')] None db) (\<lambda>db.
       Inr (answer Status_ineligible current None, db))
     else case cooling_down (inv_now (start_invocation req)) account (start_kind req) (start_is_test req) db of
       Some until \<Rightarrow> rbind (start_receipt J req account
           [(''balance'', J_int current), (''cooldown_until_ms'', J_int until),
            (''status'', J_string ''cooldown'')] None db) (\<lambda>db.
         Inr (answer Status_cooldown current (Some until), db))
     | None \<Rightarrow> open_claim J req account current event_types db))"

definition start_recovery ::
    "json_lib \<Rightarrow> start_request \<Rightarrow> ledger_db \<Rightarrow> (recovery_result \<times> ledger_db) res" where
  "start_recovery J req db =
     rbind (require (start_valid req)
       (Invalid_argument ''Tarot recovery start request is invalid.'')) (\<lambda>_.
     rbind (account_for_user (inv_user (start_invocation req)) db) (\<lambda>found. case found of
       None \<Rightarrow> Inl (Invalid_argument ''Tarot account does not exist.'')
     | Some account \<Rightarrow>
     rbind (load_receipt J (start_key req) db) (\<lambda>replay. case replay of
       Some r \<Rightarrow> rbind (replay_start req account r db) (\<lambda>result. Inr (result, db))
     | None \<Rightarrow>
     (case pending_claim account (start_kind req) (start_is_test req) db of
       None \<Rightarrow> begin_claim J req account [] db
     | Some existing \<Rightarrow>
     if inv_now (start_invocation req) < claim_expires_at existing
     then resume_claim J req account existing db
     else
     rbind (finish_claim_without_reward J existing (start_invocation req) (start_expired_event req)
       Claim_expired ''tarot.recovery_expired.v1''
       (''tarot.recovery_expired:'' @ claim_id existing) db) (\<lambda>db.
     begin_claim J req account [''tarot.recovery_expired.v1''] db)))))"

section \<open>Completing\<close>

text \<open>
  \<open>encode_public\<close> stands for \<^verbatim>\<open>encode_public_payload\<close> of a text message without mentions: the
  text, the guild, the channel, the correlation and the event it is caused by.
\<close>

record complete_request =
  done_invocation :: invocation
  done_token :: string
  done_grace_cooldown :: int
  done_trial_cooldown :: int
  done_transaction :: string
  done_event :: string
  done_mint_posting :: string
  done_human_posting :: string
  done_outbox :: string
  done_nonce :: string

type_synonym encode_public = "string \<Rightarrow> u64 \<Rightarrow> u64 \<Rightarrow> string \<Rightarrow> string \<Rightarrow> string res"

definition complete_valid :: "complete_request \<Rightarrow> bool" where
  "complete_valid req \<longleftrightarrow> \<not> (\<not> valid_uuid_v4 (done_token req) \<or> \<not> valid_uuid_v4 (done_transaction req)
     \<or> \<not> valid_uuid_v4 (done_event req) \<or> \<not> valid_uuid_v4 (done_mint_posting req)
     \<or> \<not> valid_uuid_v4 (done_human_posting req) \<or> \<not> valid_uuid_v4 (done_outbox req)
     \<or> length (done_nonce req) \<noteq> 25 \<or> done_grace_cooldown req \<le> 0 \<or> done_trial_cooldown req \<le> 0)"

text \<open>The end of a claim that pays nothing, answered with the claim as it then is.\<close>

definition close_claim ::
    "json_lib \<Rightarrow> complete_request \<Rightarrow> claim_row \<Rightarrow> claim_state \<Rightarrow> string \<Rightarrow> string \<Rightarrow> ledger_db
     \<Rightarrow> (recovery_result \<times> ledger_db) res" where
  "close_claim J req c state type key_prefix db =
     rbind (finish_claim_without_reward J c (done_invocation req) (done_event req) state type
       (key_prefix @ claim_id c) db) (\<lambda>db.
     case load_claim (claim_id c) db of
       None \<Rightarrow> Inl (Schema ''Tarot claim is missing.'')
     | Some updated \<Rightarrow> rbind (recovery_result updated (stored_recovery_status updated db) True False [type] db)
         (\<lambda>result. Inr (result, db)))"

definition valid_action :: "recovery_kind \<Rightarrow> string \<Rightarrow> bool" where
  "valid_action kind action \<longleftrightarrow> (case kind of
      Grace \<Rightarrow> action = ''tarot.recovery.0.claim''
    | Trial \<Rightarrow> action \<in> set trial_actions)"

definition reward_due :: "claim_row \<Rightarrow> int \<Rightarrow> int res" where
  "reward_due c current = (case claim_kind c of
      Grace \<Rightarrow> (case claim_target c of
          None \<Rightarrow> Inl (Schema ''Tarot Grace claim is missing its policy target.'')
        | Some target \<Rightarrow> Inr (target - current))
    | Trial \<Rightarrow> (case claim_reward c of None \<Rightarrow> Inl (Logic_error ''bad optional access'')
        | Some reward \<Rightarrow> Inr reward))"

definition pay_claim ::
    "json_lib \<Rightarrow> complete_request \<Rightarrow> claim_row \<Rightarrow> int \<Rightarrow> int \<Rightarrow> ledger_db \<Rightarrow> ledger_db res" where
  "pay_claim J req c reward now db =
     (let call = (done_invocation req)\<lparr>inv_now := now\<rparr>;
          key = ''tarot.recovery_complete:'' @ claim_id c in
     rbind (record_event J call (done_event req) (completed_event (claim_kind c))
       ''tarot_recovery_claim'' (claim_id c) key
       [(''claim_type'', J_string (recovery_kind_name (claim_kind c))),
        (''is_test'', J_bool (claim_is_test c)),
        (''visibility'', J_string (visibility_name (claim_visibility c)))] db) (\<lambda>(_, db).
     rbind (insert_transaction (done_transaction req) (reward_type (claim_kind c)) (done_event req) key
       (inv_user call) None (claim_is_test c) None now db) (\<lambda>db.
     rbind (system_account Mint db) (\<lambda>mint.
     rbind (insert_posting (done_mint_posting req) (done_transaction req) mint (- reward) now db) (\<lambda>db.
     rbind (insert_posting (done_human_posting req) (done_transaction req) (claim_account c) reward now db) (\<lambda>db.
     seal_transaction (done_transaction req) now db))))))"

definition completion_text :: "string \<Rightarrow> claim_row \<Rightarrow> string" where
  "completion_text name c = (if claim_is_test c then ''[TEST] '' else []) @ name @ '' completed ''
     @ (case claim_kind c of Grace \<Rightarrow> ''Grace of the Throne.'' | Trial \<Rightarrow> ''a Trial of Renewal.'')"

definition announce_claim ::
    "json_lib \<Rightarrow> encode_public \<Rightarrow> complete_request \<Rightarrow> claim_row \<Rightarrow> int \<Rightarrow> ledger_db
     \<Rightarrow> (bool \<times> ledger_db) res" where
  "announce_claim J encode req c now db =
     (if claim_visibility c \<noteq> Public_result then Inr (False, db)
      else
      let call = done_invocation req;
          outbox = \<lparr>req_outbox_id = done_outbox req, req_kind = ''discord.public.v1'',
            req_out_aggregate_type = Some ''tarot_recovery_claim'', req_out_aggregate_id = Some (claim_id c),
            req_target_guild = inv_guild call, req_target_channel = inv_channel call,
            req_target_user = None, req_available_at = now, req_out_max_attempts = 5,
            req_out_key = ''tarot.recovery_public:'' @ claim_id c, req_nonce = done_nonce req,
            req_out_created_at = now\<rparr> in
      rbind (encode (completion_text (inv_name call) c) (inv_guild call) (inv_channel call)
        (inv_correlation call) (done_event req)) (\<lambda>payload.
      insert_outbox (json_text_ok J) outbox payload db))"

text \<open>The columns the UPDATE of a rewarded claim sets.\<close>

definition completed_claim :: "complete_request \<Rightarrow> int \<Rightarrow> int \<Rightarrow> int \<Rightarrow> claim_row \<Rightarrow> claim_row" where
  "completed_claim req reward now cooldown_ms c = c\<lparr>claim_state := Claim_completed,
     claim_reward := Some reward, claim_transaction := Some (done_transaction req),
     claim_event := Some (done_event req),
     claim_outbox := (if claim_visibility c = Public_result then Some (done_outbox req) else None),
     claim_completion_key := Some (''tarot.recovery_complete:'' @ claim_id c),
     claim_completed_at := Some now, claim_cooldown_until := Some (now + cooldown_ms)\<rparr>"

definition reward_claim ::
    "json_lib \<Rightarrow> encode_public \<Rightarrow> complete_request \<Rightarrow> claim_row \<Rightarrow> int \<Rightarrow> ledger_db
     \<Rightarrow> (recovery_result \<times> ledger_db) res" where
  "reward_claim J encode req c current db =
     (let now = max (inv_now (done_invocation req)) (claim_created_at c);
          cooldown_ms = (case claim_kind c of Grace \<Rightarrow> done_grace_cooldown req
            | Trial \<Rightarrow> done_trial_cooldown req) in
     rbind (reward_due c current) (\<lambda>reward.
     rbind (require (\<not> (reward \<le> 0 \<or> 1000000000 < reward))
       (Constraint ''Tarot recovery reward is invalid.'')) (\<lambda>_.
     rbind (pay_claim J req c reward now db) (\<lambda>db.
     rbind (announce_claim J encode req c now db) (\<lambda>(public_created, db).
     rbind (require (\<not> int64_max - cooldown_ms < now)
       (Overflow_error ''Tarot cooldown timestamp overflowed.'')) (\<lambda>_.
     rbind (finish_claim (claim_id c) (completed_claim req reward now cooldown_ms) db) (\<lambda>db.
     case load_claim (claim_id c) db of
       None \<Rightarrow> Inl (Schema ''Tarot claim is missing.'')
     | Some updated \<Rightarrow> rbind (recovery_result updated Status_completed True public_created
         [completed_event (claim_kind c)] db) (\<lambda>result. Inr (result, db)))))))))"

definition settle_claim ::
    "json_lib \<Rightarrow> encode_public \<Rightarrow> complete_request \<Rightarrow> button_row \<Rightarrow> claim_row \<Rightarrow> ledger_db
     \<Rightarrow> (recovery_result \<times> ledger_db) res" where
  "settle_claim J encode req token c db =
     (let now = inv_now (done_invocation req) in
     if button_expires_at token \<le> now \<or> claim_expires_at c \<le> now
     then close_claim J req c Claim_expired ''tarot.recovery_expired.v1'' ''tarot.recovery_expired:'' db
     else if \<not> valid_action (claim_kind c) (button_action token)
     then Inr (refused Status_invalid_token, db)
     else if button_action token = ''tarot.recovery.3.abandon''
     then close_claim J req c Claim_abandoned ''tarot.trial_abandoned.v1'' ''tarot.recovery_abandoned:'' db
     else
     rbind (balance_for_account (claim_account c) db) (\<lambda>current.
     if claim_threshold c \<le> current
        \<or> cooling_down now (claim_account c) (claim_kind c) (claim_is_test c) db \<noteq> None
     then close_claim J req c Claim_abandoned ''tarot.recovery_eligibility_lost.v1''
       ''tarot.recovery_lost:'' db
     else reward_claim J encode req c current db))"

definition complete_recovery ::
    "json_lib \<Rightarrow> encode_public \<Rightarrow> complete_request \<Rightarrow> ledger_db \<Rightarrow> (recovery_result \<times> ledger_db) res" where
  "complete_recovery J encode req db =
     rbind (require (complete_valid req)
       (Invalid_argument ''Tarot recovery completion request is invalid.'')) (\<lambda>_.
     case List.find (\<lambda>b. button_id b = done_token req
         \<and> button_entity_type b = ''tarot_recovery_claim'') (interaction_buttons db) of
       None \<Rightarrow> Inr (refused Status_invalid_token, db)
     | Some token \<Rightarrow>
     if button_user token \<noteq> inv_user (done_invocation req) then Inr (refused Status_wrong_user, db)
     else if button_guild token \<noteq> inv_guild (done_invocation req)
       \<or> button_channel token \<noteq> inv_channel (done_invocation req)
     then Inr (refused Status_wrong_scope, db)
     else (case load_claim (button_entity token) db of
       None \<Rightarrow> Inr (refused Status_invalid_token, db)
     | Some c \<Rightarrow>
         if claim_state c \<noteq> Claim_pending
         then rbind (recovery_result c (stored_recovery_status c db) False False [] db)
           (\<lambda>result. Inr (result, db))
         else settle_claim J encode req token c db))"

section \<open>Visibility of the standings\<close>

record visibility_request =
  vis_invocation :: invocation
  vis_public :: bool
  vis_event :: string

definition visibility_json :: "visibility_request \<Rightarrow> json_object" where
  "visibility_json req = (let call = vis_invocation req in
     [(''channel_id'', J_string (snowflake_str (inv_channel call))),
      (''guild_id'', J_string (snowflake_str (inv_guild call))),
      (''public'', J_bool (vis_public req)),
      (''user_id'', J_string (snowflake_str (inv_user call)))])"

definition visibility_key :: "visibility_request \<Rightarrow> string" where
  "visibility_key req = inv_key (vis_invocation req) @ '':standings_visibility''"

definition replay_visibility :: "visibility_request \<Rightarrow> string \<Rightarrow> interaction_receipt \<Rightarrow> bool res" where
  "replay_visibility req account r =
     (if rc_operation r \<noteq> ''standings_visibility'' \<or> rc_account r \<noteq> account
        \<or> rc_request r \<noteq> visibility_json req \<or> rc_claim r \<noteq> None \<or> rc_transaction r \<noteq> None
      then Inl receipt_conflict
      else case (map_of (rc_result r) ''public'', map_of (rc_result r) ''changed'') of
        (Some (J_bool stored), Some (J_bool _)) \<Rightarrow> Inr stored
      | _ \<Rightarrow> Inl receipt_conflict)"

text \<open>The answer: what the standings then show, and whether that was a change.\<close>

definition set_standings_visibility ::
    "json_lib \<Rightarrow> visibility_request \<Rightarrow> ledger_db \<Rightarrow> ((bool \<times> bool) \<times> ledger_db) res" where
  "set_standings_visibility J req db =
     (let call = vis_invocation req; public = vis_public req;
          missing = Invalid_argument ''Tarot preference account does not exist.'';
          receipt = (\<lambda>account changed db. insert_receipt J (visibility_key req) ''standings_visibility''
            account (visibility_json req) [(''changed'', J_bool changed), (''public'', J_bool public)]
            None None (inv_now call) db) in
     rbind (account_for_user (inv_user call) db) (\<lambda>found. case found of
       None \<Rightarrow> Inl missing
     | Some account \<Rightarrow>
     rbind (load_receipt J (visibility_key req) db) (\<lambda>replay. case replay of
       Some r \<Rightarrow> rbind (replay_visibility req account r) (\<lambda>stored. Inr ((stored, False), db))
     | None \<Rightarrow>
     (case find_row preference_user (inv_user call) (user_preferences db) of
       None \<Rightarrow> Inl missing
     | Some preference \<Rightarrow>
     if public_results preference = public
     then rbind (receipt account False db) (\<lambda>db. Inr ((public, False), db))
     else
     rbind (record_event J call (vis_event req) ''tarot.standings_visibility_changed.v1''
       ''tarot_account'' account (visibility_key req) [(''public'', J_bool public)] db) (\<lambda>(created, db).
     rbind (require created
       (Constraint ''Tarot standings visibility event idempotency conflict.'')) (\<lambda>_.
     rbind (receipt account True (db\<lparr>user_preferences :=
         map (\<lambda>p. if preference_user p = inv_user call
           then p\<lparr>public_results := public, preference_updated_at := inv_now call\<rparr> else p)
         (user_preferences db)\<rparr>)) (\<lambda>db.
     Inr ((public, True), db))))))))"

definition standings_visibility :: "u64 \<Rightarrow> ledger_db \<Rightarrow> bool" where
  "standings_visibility user db = (case find_row preference_user user (user_preferences db) of
      None \<Rightarrow> True | Some p \<Rightarrow> public_results p)"

end
