(* ===== verification/Tarot_Pages.thy ===== *)
theory Tarot_Pages
  imports Tarot_Recovery
begin

text \<open>
  What the Tarot repository shows: the history of an account, taken as a snapshot of its latest
  postings and paged by buttons, and the public standings (\<open>create_history_snapshot\<close>,
  \<open>history_page\<close> and \<open>standings\<close> of \<^verbatim>\<open>src/src/persistence/sqlite_tarot_repository.cpp\<close>).
\<close>

definition tarot_history_page_size :: nat where "tarot_history_page_size = 5"

definition tarot_history_maximum_items :: nat where "tarot_history_maximum_items = 50"

section \<open>Entries\<close>

record history_entry =
  entry_transaction :: string
  entry_sequence :: nat
  entry_type :: transaction_type
  entry_amount :: int
  balance_after :: int
  occurred_at :: int
  entry_is_test :: bool
  entry_reason :: "string option"

definition entry_of :: "transaction_row \<Rightarrow> posting_row \<Rightarrow> int \<Rightarrow> history_entry" where
  "entry_of t p running = \<lparr>entry_transaction = transaction_id t, entry_sequence = ledger_sequence t,
     entry_type = transaction_type t, entry_amount = amount p, balance_after = running,
     occurred_at = (case tx_committed_at t of None \<Rightarrow> 0 | Some c \<Rightarrow> c), entry_is_test = tx_is_test t,
     entry_reason = tx_reason t\<rparr>"

fun history_entries :: "int \<Rightarrow> (transaction_row \<times> posting_row) list \<Rightarrow> history_entry list res" where
  "history_entries running [] = Inr []"
| "history_entries running ((t, p) # rest) =
     rbind (checked_add running (amount p)) (\<lambda>running.
     rbind (history_entries running rest) (\<lambda>entries. Inr (entry_of t p running # entries)))"

datatype page_status = Available | Invalid_token | Wrong_user | Wrong_scope | Page_expired

record history_page =
  page_status :: page_status
  page_entries :: "history_entry list"
  page_offset :: nat
  page_total :: nat
  previous_custom_id :: "string option"
  next_custom_id :: "string option"

definition empty_page :: "page_status \<Rightarrow> history_page" where
  "empty_page status = \<lparr>page_status = status, page_entries = [], page_offset = 0, page_total = 0,
     previous_custom_id = None, next_custom_id = None\<rparr>"

section \<open>Snapshots\<close>

record snapshot_request =
  snap_invocation :: invocation
  snap_cursor :: string
  snap_tokens :: "string list"

text \<open>Cursors that ran out: their buttons are cancelled, and the items go with them.\<close>

definition purge_history :: "int \<Rightarrow> ledger_db \<Rightarrow> ledger_db" where
  "purge_history now_ms db = (let gone = cursor_id ` set (filter (\<lambda>c. cursor_expires_at c \<le> now_ms)
       (history_cursors db)) in
     db\<lparr>interaction_buttons := map (\<lambda>b. if button_entity_type b = ''tarot_history_cursor''
           \<and> button_state b = Button_active \<and> button_expires_at b \<le> now_ms
         then b\<lparr>button_state := Button_cancelled\<rparr> else b) (interaction_buttons db),
       history_cursors := filter (\<lambda>c. now_ms < cursor_expires_at c) (history_cursors db),
       history_items := filter (\<lambda>i. item_cursor i \<notin> gone) (history_items db)\<rparr>)"

definition insert_cursor :: "cursor_row \<Rightarrow> ledger_db \<Rightarrow> ledger_db res" where
  "insert_cursor c db =
     rbind (require (item_count c \<le> 50 \<and> 0 \<le> cursor_created_at c
         \<and> cursor_created_at c < cursor_expires_at c
         \<and> cursor_account c \<in> account_id ` set (tarot_accounts db)
         \<and> cursor_id c \<notin> cursor_id ` set (history_cursors db)) (Constraint ''tarot_history_cursor'')) (\<lambda>_.
     Inr (db\<lparr>history_cursors := history_cursors db @ [c]\<rparr>))"

fun insert_items :: "string \<Rightarrow> nat \<Rightarrow> history_entry list \<Rightarrow> ledger_db \<Rightarrow> ledger_db res" where
  "insert_items cursor index [] db = Inr db"
| "insert_items cursor index (e # rest) db =
     rbind (require (index \<le> 49 \<and> cursor \<in> cursor_id ` set (history_cursors db)
         \<and> entry_transaction e \<in> transaction_id ` set (tarot_transactions db)
         \<and> \<not> list_ex (\<lambda>i. item_cursor i = cursor \<and> item_position i = index) (history_items db))
       (Constraint ''tarot_history_item'')) (\<lambda>_.
     insert_items cursor (Suc index) rest (db\<lparr>history_items := history_items db
       @ [\<lparr>item_cursor = cursor, item_position = index, item_transaction = entry_transaction e\<rparr>]\<rparr>))"

definition history_action :: "nat \<Rightarrow> string" where
  "history_action offset = ''tarot.history.'' @ decimal offset"

definition new_page_button :: "snapshot_request \<Rightarrow> int \<Rightarrow> nat \<Rightarrow> button_row" where
  "new_page_button req expires page =
     (let call = snap_invocation req; offset = page * tarot_history_page_size in
     \<lparr>button_id = snap_tokens req ! page, button_action = history_action offset,
       button_entity_type = ''tarot_history_cursor'', button_entity = snap_cursor req,
       button_user = inv_user call, button_guild = inv_guild call, button_channel = inv_channel call,
       button_state = Button_active, button_expires_at = expires,
       button_key = ''tarot.history_token:'' @ snap_cursor req @ '':'' @ decimal offset,
       button_created_at = inv_now call\<rparr>)"

fun insert_page_buttons :: "snapshot_request \<Rightarrow> int \<Rightarrow> nat list \<Rightarrow> ledger_db \<Rightarrow> ledger_db res" where
  "insert_page_buttons req expires [] db = Inr db"
| "insert_page_buttons req expires (page # rest) db =
     rbind (insert_button (new_page_button req expires page) db) (insert_page_buttons req expires rest)"

definition page_count :: "nat \<Rightarrow> nat" where
  "page_count n = max 1 ((n + tarot_history_page_size - 1) div tarot_history_page_size)"

definition create_history_snapshot :: "snapshot_request \<Rightarrow> ledger_db \<Rightarrow> (history_page \<times> ledger_db) res" where
  "create_history_snapshot req db =
     (let call = snap_invocation req; now = inv_now call in
     rbind (require (\<not> (\<not> valid_uuid_v4 (snap_cursor req) \<or> length (snap_tokens req) \<noteq> 10
         \<or> list_ex (\<lambda>i. \<not> valid_uuid_v4 i) (snap_tokens req)))
       (Invalid_argument ''Tarot history snapshot request is invalid.'')) (\<lambda>_.
     let db = purge_history now db in
     rbind (account_for_user (inv_user call) db) (\<lambda>found. case found of
       None \<Rightarrow> Inl (Invalid_argument ''Tarot account does not exist.'')
     | Some account \<Rightarrow>
     rbind (history_entries 0 (account_postings account db)) (\<lambda>all.
     let entries = take tarot_history_maximum_items (rev all) in
     rbind (checked_add now tarot_interaction_lifetime_ms) (\<lambda>expires.
     rbind (insert_cursor \<lparr>cursor_id = snap_cursor req, cursor_account = account,
       item_count = length entries, cursor_created_at = now, cursor_expires_at = expires\<rparr> db) (\<lambda>db.
     rbind (insert_items (snap_cursor req) 0 entries db) (\<lambda>db.
     rbind (insert_page_buttons req expires [0..<page_count (length entries)] db) (\<lambda>db.
     Inr (\<lparr>page_status = Available, page_entries = take tarot_history_page_size entries,
         page_offset = 0, page_total = length entries, previous_custom_id = None,
         next_custom_id = (if tarot_history_page_size < length entries
           then Some (custom_id (snap_tokens req ! 1)) else None)\<rparr>, db)))))))))"

section \<open>Pages\<close>

text \<open>
  \<^verbatim>\<open>std::stoul\<close> in base 10: white space, a sign, digits, and whatever follows them; \<open>None\<close> where
  it throws. A negative number wraps around.
\<close>

definition stoul :: "string \<Rightarrow> nat option" where
  "stoul s = (let s = dropWhile is_space s;
       negative = (s \<noteq> [] \<and> hd s = CHR ''-'');
       numerals = takeWhile is_digit (if s \<noteq> [] \<and> hd s \<in> {CHR ''-'', CHR ''+''} then tl s else s);
       v = digits_value 0 numerals in
     if numerals = [] \<or> 2 ^ 64 \<le> v then None
     else Some (if negative \<and> v \<noteq> 0 then 2 ^ 64 - v else v))"

definition page_offset_of :: "string \<Rightarrow> nat option" where
  "page_offset_of action = (let prefix = ''tarot.history.'' in
     if take (length prefix) action \<noteq> prefix then None
     else case stoul (drop (length prefix) action) of
       None \<Rightarrow> None
     | Some parsed \<Rightarrow> if tarot_history_maximum_items < parsed \<or> parsed mod tarot_history_page_size \<noteq> 0
         then None else Some parsed)"

record history_page_request =
  view_invocation :: invocation
  view_token :: string

definition page_items :: "cursor_row \<Rightarrow> nat \<Rightarrow> ledger_db \<Rightarrow> (transaction_row \<times> posting_row) list" where
  "page_items c offset db = concat (map (\<lambda>i.
       [(t, p) \<leftarrow> List.product (tarot_transactions db) (tarot_postings db).
          transaction_id t = item_transaction i \<and> posting_transaction p = transaction_id t
          \<and> posting_account p = cursor_account c])
     (sort_key item_position (filter (\<lambda>i. item_cursor i = cursor_id c \<and> offset \<le> item_position i
        \<and> item_position i < offset + tarot_history_page_size) (history_items db))))"

text \<open>Each item with the balance of the account up to its sequence.\<close>

fun page_rows :: "string \<Rightarrow> ledger_db \<Rightarrow> (transaction_row \<times> posting_row) list \<Rightarrow> history_entry list res" where
  "page_rows account db [] = Inr []"
| "page_rows account db ((t, p) # rest) =
     rbind (checked_sum 0 (map (\<lambda>(u, q). amount q)
       (filter (\<lambda>(u, q). ledger_sequence u \<le> ledger_sequence t) (account_postings account db)))) (\<lambda>running.
     rbind (page_rows account db rest) (\<lambda>entries. Inr (entry_of t p running # entries)))"

definition page_button :: "string \<Rightarrow> nat \<Rightarrow> ledger_db \<Rightarrow> string option" where
  "page_button cursor offset db = map_option (custom_id \<circ> button_id) (List.find (\<lambda>b.
     button_entity_type b = ''tarot_history_cursor'' \<and> button_entity b = cursor
     \<and> button_action b = history_action offset) (interaction_buttons db))"

definition history_page_of :: "history_page_request \<Rightarrow> ledger_db \<Rightarrow> history_page res" where
  "history_page_of req db =
     (let call = view_invocation req in
     case List.find (\<lambda>b. button_id b = view_token req
         \<and> button_entity_type b = ''tarot_history_cursor'') (interaction_buttons db) of
       None \<Rightarrow> Inr (empty_page Invalid_token)
     | Some token \<Rightarrow>
     if button_user token \<noteq> inv_user call then Inr (empty_page Wrong_user)
     else if button_guild token \<noteq> inv_guild call \<or> button_channel token \<noteq> inv_channel call
     then Inr (empty_page Wrong_scope)
     else if button_state token \<noteq> Button_active \<or> button_expires_at token \<le> inv_now call
     then Inr (empty_page Page_expired)
     else (case page_offset_of (button_action token) of
       None \<Rightarrow> Inr (empty_page Invalid_token)
     | Some offset \<Rightarrow>
     (case find_row cursor_id (button_entity token) (history_cursors db) of
       None \<Rightarrow> Inr (empty_page Page_expired)
     | Some c \<Rightarrow>
     if cursor_expires_at c \<le> inv_now call then Inr (empty_page Page_expired)
     else if item_count c \<le> offset then Inr (empty_page Invalid_token)
     else
     rbind (page_rows (cursor_account c) db (page_items c offset db)) (\<lambda>entries.
     Inr \<lparr>page_status = Available, page_entries = entries, page_offset = offset,
       page_total = item_count c,
       previous_custom_id = (if 0 < offset
         then page_button (cursor_id c) (offset - tarot_history_page_size) db else None),
       next_custom_id = (if offset + tarot_history_page_size < item_count c
         then page_button (cursor_id c) (offset + tarot_history_page_size) db else None)\<rparr>))))"

section \<open>Standings\<close>

record standing =
  standing_user :: u64
  standing_name :: string
  standing_balance :: int

text \<open>The human accounts whose users list their results, with the name shown for them.\<close>

definition listed_accounts :: "ledger_db \<Rightarrow> (string \<times> u64 \<times> string) list" where
  "listed_accounts db = concat (map (\<lambda>a. case account_user a of
       None \<Rightarrow> []
     | Some u \<Rightarrow> [(account_id a, u, case display of Some n \<Rightarrow> n
           | None \<Rightarrow> (case username of Some n \<Rightarrow> n | None \<Rightarrow> snowflake_str u)).
         (v, display, username) \<leftarrow> user_names db, v = u,
         p \<leftarrow> user_preferences db, preference_user p = u \<and> public_results p])
     (filter (\<lambda>a. account_kind a = Human) (tarot_accounts db)))"

fun standings_of :: "(string \<times> u64 \<times> string) list \<Rightarrow> ledger_db \<Rightarrow> standing list res" where
  "standings_of [] db = Inr []"
| "standings_of ((account, user, name) # rest) db =
     rbind (balance_for_account account db) (\<lambda>b.
     rbind (standings_of rest db) (\<lambda>rows.
     Inr (\<lparr>standing_user = user, standing_name = name, standing_balance = b\<rparr> # rows)))"

definition standing_key :: "standing \<Rightarrow> int \<times> nat \<times> string" where
  "standing_key s = (- standing_balance s, length (snowflake_str (standing_user s)),
     snowflake_str (standing_user s))"

definition standings :: "ledger_db \<Rightarrow> standing list res" where
  "standings db = rbind (standings_of (listed_accounts db) db) (\<lambda>rows.
     Inr (sort_key standing_key rows))"

end
