(* ===== verification/Tarot_Audit.thy ===== *)
theory Tarot_Audit
  imports Tarot_Pages
begin

text \<open>
  \<open>check_invariants\<close> of \<^verbatim>\<open>src/src/persistence/sqlite_tarot_repository.cpp\<close>: the queries that
  count the rows of the ledger that do not fit together, and the loop that replays every
  committed posting. Each count is the number of rows its predicate selects.
\<close>

section \<open>The queries\<close>

definition how_many :: "('r \<Rightarrow> bool) \<Rightarrow> 'r list \<Rightarrow> nat" where
  "how_many P rows = length (filter P rows)"

lemma how_many_0: "how_many P rows = 0 \<longleftrightarrow> (\<forall>r \<in> set rows. \<not> P r)"
  by (auto simp: how_many_def filter_empty_conv)

definition unbalanced :: "ledger_db \<Rightarrow> transaction_row \<Rightarrow> bool" where
  "unbalanced db t \<longleftrightarrow> committed t
     \<and> (length (postings_of (transaction_id t) db) \<noteq> expected_postings t
        \<or> sum_list (map amount (postings_of (transaction_id t) db)) \<noteq> 0)"

definition illegal_reversal :: "ledger_db \<Rightarrow> transaction_row \<Rightarrow> bool" where
  "illegal_reversal db t \<longleftrightarrow> transaction_type t = Test_reversal
     \<and> (case Option.bind (reversal_of t) (\<lambda>i. find_transaction i db) of
          None \<Rightarrow> True
        | Some u \<Rightarrow> \<not> tx_is_test u \<or> \<not> committed u
            \<or> transaction_type u \<in> {Starting_grant, Test_reversal}
            \<or> transaction_type u \<noteq> Test_adjustment \<and> \<not> cleanup_allows t (transaction_id u) db
            \<or> expected_postings t \<noteq> expected_postings u
            \<or> length (inverse_postings (transaction_id u) (transaction_id t) db) \<noteq> expected_postings t)"

definition test_grant :: "transaction_row \<Rightarrow> bool" where
  "test_grant t \<longleftrightarrow> transaction_type t = Starting_grant \<and> tx_is_test t"

definition started_ok :: "claim_row \<Rightarrow> ledger_db \<Rightarrow> bool" where
  "started_ok c db \<longleftrightarrow> list_ex (\<lambda>e. event_id e = claim_started_event c
     \<and> event_aggregate_type e = ''tarot_recovery_claim'' \<and> event_aggregate_id e = claim_id c
     \<and> event_type e = started_event (claim_kind c)) (event_journal db)"

definition draw_ok :: "claim_row \<Rightarrow> ledger_db \<Rightarrow> bool" where
  "draw_ok c db \<longleftrightarrow> list_ex (\<lambda>d. Some (draw_id d) = claim_draw c \<and> draw_claim d = claim_id c
     \<and> Some (draw_reward d) = claim_reward c) (tarot_draws db)"

definition live_button :: "string \<Rightarrow> button_row \<Rightarrow> bool" where
  "live_button i b \<longleftrightarrow> button_entity_type b = ''tarot_recovery_claim'' \<and> button_entity b = i
     \<and> button_state b = Button_active"

definition claim_mismatch :: "ledger_db \<Rightarrow> claim_row \<Rightarrow> bool" where
  "claim_mismatch db c \<longleftrightarrow>
     claim_state c = Claim_completed \<and> \<not> claim_paid c db
     \<or> claim_state c = Claim_completed \<and> claim_visibility c = Public_result \<and> \<not> claim_announced c db
     \<or> claim_state c = Claim_completed \<and> claim_visibility c = Private_result \<and> claim_outbox c \<noteq> None
     \<or> claim_state c \<noteq> Claim_pending \<and> list_ex (live_button (claim_id c)) (interaction_buttons db)
     \<or> \<not> started_ok c db
     \<or> claim_state c \<noteq> Claim_pending \<and> \<not> terminal_event c db
     \<or> claim_kind c = Trial \<and> \<not> draw_ok c db"

definition reward_claimed :: "ledger_db \<Rightarrow> transaction_row \<Rightarrow> bool" where
  "reward_claimed db t \<longleftrightarrow> list_ex (\<lambda>c. claim_transaction c = Some (transaction_id t)
     \<and> claim_state c = Claim_completed \<and> reward_type (claim_kind c) = transaction_type t
     \<and> claim_event c = Some (tx_event t) \<and> claim_is_test c = tx_is_test t
     \<and> list_ex (\<lambda>e. event_id e = tx_event t \<and> event_aggregate_type e = ''tarot_recovery_claim''
         \<and> event_aggregate_id e = claim_id c \<and> event_type e = completed_event (claim_kind c))
       (event_journal db)) (tarot_claims db)"

definition reward_mismatch :: "ledger_db \<Rightarrow> transaction_row \<Rightarrow> bool" where
  "reward_mismatch db t \<longleftrightarrow> committed t \<and> transaction_type t \<in> {Grace_reward, Trial_reward}
     \<and> \<not> reward_claimed db t"

definition orphaned_transaction :: "ledger_db \<Rightarrow> transaction_row \<Rightarrow> bool" where
  "orphaned_transaction db t \<longleftrightarrow> (case find_row event_id (tx_event t) (event_journal db) of
      None \<Rightarrow> True
    | Some e \<Rightarrow> transaction_type t \<in> {Test_adjustment, Test_reversal}
        \<and> (tx_actor t = None
           \<or> (case tx_reason t of None \<Rightarrow> True | Some r \<Rightarrow> sql_length (sql_trim r) = 0)
           \<or> event_type e \<noteq> (if transaction_type t = Test_adjustment then ''tarot.admin_adjusted.v1''
                else ''tarot.transaction_reversed.v1'')
           \<or> event_aggregate_type e \<noteq> ''tarot_transaction''
           \<or> event_aggregate_id e \<noteq> transaction_id t \<or> actor_user_id e \<noteq> tx_actor t
           \<or> \<not> human_posting t db
             \<and> \<not> (transaction_type t = Test_reversal
                 \<and> list_ex (\<lambda>(r, original, user). r = transaction_id t \<and> Some user = tx_actor t)
                     (house_cleanups db))))"

definition orphaned_claim :: "ledger_db \<Rightarrow> claim_row \<Rightarrow> bool" where
  "orphaned_claim db c \<longleftrightarrow> claim_started_event c \<notin> event_id ` set (event_journal db)"

definition orphaned_draw :: "ledger_db \<Rightarrow> draw_row \<Rightarrow> bool" where
  "orphaned_draw db d \<longleftrightarrow> \<not> list_ex (\<lambda>c. claim_draw c = Some (draw_id d) \<and> claim_id c = draw_claim d)
     (tarot_claims db)"

definition orphaned_receipt :: "ledger_db \<Rightarrow> receipt_row \<Rightarrow> bool" where
  "orphaned_receipt db r \<longleftrightarrow> receipt_account r \<notin> account_id ` set (tarot_accounts db)
     \<or> \<not> opt_check (\<lambda>i. i \<in> claim_id ` set (tarot_claims db)) (receipt_claim r)
     \<or> \<not> opt_check (\<lambda>i. i \<in> transaction_id ` set (tarot_transactions db)) (receipt_transaction r)"

text \<open>The starting grants of an account: every human account has exactly one.\<close>

definition starting_grants :: "string \<Rightarrow> ledger_db \<Rightarrow> posting_row list" where
  "starting_grants account db = filter (\<lambda>p. posting_account p = account \<and> 0 < amount p
     \<and> (case find_transaction (posting_transaction p) db of None \<Rightarrow> False
        | Some t \<Rightarrow> committed t \<and> transaction_type t = Starting_grant \<and> \<not> tx_is_test t
            \<and> (case find_row event_id (tx_event t) (event_journal db) of None \<Rightarrow> False
               | Some e \<Rightarrow> event_type e = ''tarot.starting_grant.v1''
                   \<and> event_aggregate_type e = ''tarot_account'' \<and> event_aggregate_id e = account)))
     (tarot_postings db)"

definition ungranted :: "ledger_db \<Rightarrow> account_row \<Rightarrow> bool" where
  "ungranted db a \<longleftrightarrow> account_kind a = Human \<and> length (starting_grants (account_id a) db) \<noteq> 1"

definition orphaned_links :: "ledger_db \<Rightarrow> nat" where
  "orphaned_links db = how_many (orphaned_transaction db) (tarot_transactions db)
     + how_many (orphaned_claim db) (tarot_claims db)
     + how_many (orphaned_draw db) (tarot_draws db)
     + how_many (orphaned_receipt db) (tarot_receipts db)
     + how_many (ungranted db) (tarot_accounts db)"

section \<open>The replay\<close>

record invariant_report =
  report_valid :: bool
  account_count :: nat
  committed_transaction_count :: nat
  prepared_transaction_count :: nat
  posting_count :: nat
  unbalanced_transaction_count :: nat
  negative_history_count :: nat
  overflow_count :: nat
  illegal_reversal_count :: nat
  claim_mismatch_count :: nat
  orphaned_link_count :: nat

text \<open>
  The loop over the postings in the order of the ledger: the balance of each account with whether
  it is human; a posting to no account, a negative human balance and an overflow are counted.
\<close>

fun replay_postings ::
    "(transaction_row \<times> posting_row) list \<Rightarrow> (string \<Rightarrow> (int \<times> bool) option) \<Rightarrow> invariant_report
     \<Rightarrow> invariant_report" where
  "replay_postings [] balances report = report"
| "replay_postings ((t, p) # rest) balances report = (case balances (posting_account p) of
      None \<Rightarrow> replay_postings rest balances
        (report\<lparr>orphaned_link_count := orphaned_link_count report + 1\<rparr>)
    | Some (b, human) \<Rightarrow> (case checked_add b (amount p) of
        Inl _ \<Rightarrow> replay_postings rest balances (report\<lparr>overflow_count := overflow_count report + 1\<rparr>)
      | Inr b \<Rightarrow> replay_postings rest (balances(posting_account p \<mapsto> (b, human)))
          (if human \<and> b < 0
           then report\<lparr>negative_history_count := negative_history_count report + 1\<rparr> else report)))"

definition opening_balances :: "account_row list \<Rightarrow> string \<Rightarrow> (int \<times> bool) option" where
  "opening_balances accounts i =
     map_option (\<lambda>a. (0, account_kind a = Human)) (find_row account_id i accounts)"

definition counted :: "ledger_db \<Rightarrow> invariant_report" where
  "counted db = \<lparr>report_valid = True, account_count = length (tarot_accounts db),
     committed_transaction_count = how_many committed (tarot_transactions db),
     prepared_transaction_count = how_many (\<lambda>t. \<not> committed t) (tarot_transactions db),
     posting_count = length (tarot_postings db),
     unbalanced_transaction_count = how_many (unbalanced db) (tarot_transactions db),
     negative_history_count = 0, overflow_count = 0,
     illegal_reversal_count = how_many (illegal_reversal db) (tarot_transactions db)
       + how_many test_grant (tarot_transactions db),
     claim_mismatch_count = how_many (claim_mismatch db) (tarot_claims db)
       + how_many (reward_mismatch db) (tarot_transactions db),
     orphaned_link_count = orphaned_links db\<rparr>"

definition check_invariants :: "ledger_db \<Rightarrow> invariant_report" where
  "check_invariants db =
     (let report = replay_postings (ledger_postings db) (opening_balances (tarot_accounts db)) (counted db) in
     report\<lparr>report_valid := prepared_transaction_count report = 0
       \<and> unbalanced_transaction_count report = 0 \<and> negative_history_count report = 0
       \<and> overflow_count report = 0 \<and> illegal_reversal_count report = 0
       \<and> claim_mismatch_count report = 0 \<and> orphaned_link_count report = 0\<rparr>)"

end
