(* ===== verification/Tarot_Books.thy ===== *)
theory Tarot_Books
  imports Tarot_Audit
begin

text \<open>
  The books of the ledger as an invariant: every transaction committed and balanced, the postings
  in the order of their transactions, and every running balance of an account within its bounds.
  On such books the balance queries answer sums of postings, and a transaction that the sealing
  trigger lets through keeps them.
\<close>

section \<open>Running sums\<close>

fun runs :: "(int \<Rightarrow> bool) \<Rightarrow> int \<Rightarrow> int list \<Rightarrow> bool" where
  "runs P b [] \<longleftrightarrow> True"
| "runs P b (a # as) \<longleftrightarrow> P (b + a) \<and> runs P (b + a) as"

definition in64 :: "int \<Rightarrow> bool" where
  "in64 b \<longleftrightarrow> int64_min \<le> b \<and> b \<le> int64_max"

lemma runs_append: "runs P b (as @ cs) \<longleftrightarrow> runs P b as \<and> runs P (b + sum_list as) cs"
  by (induction as arbitrary: b) (auto simp: add.assoc)

lemma runs_last: "runs P b as \<Longrightarrow> P b \<Longrightarrow> P (b + sum_list as)"
  by (induction as arbitrary: b) (auto simp flip: add.assoc)

lemma runs_take: "runs P b as \<Longrightarrow> runs P b (take n as)"
  by (metis append_take_drop_id runs_append)

lemma checked_add_in64: "in64 (b + a) \<Longrightarrow> checked_add b a = Inr (b + a)"
  by (auto simp: checked_add_def in64_def)

lemma checked_sum_runs: "runs in64 b as \<Longrightarrow> checked_sum b as = Inr (b + sum_list as)"
  by (induction as arbitrary: b) (auto simp: checked_add_in64 add.assoc)

section \<open>The order of the ledger\<close>

lemma concat_filter_product:
  "[(t, p) \<leftarrow> List.product ts ps. Q t p] = concat (map (\<lambda>t. map (Pair t) (filter (Q t) ps)) ts)"
proof (induction ts)
  case (Cons t ts)
  have "filter (\<lambda>(t, p). Q t p) (map (Pair t) ps) = map (Pair t) (filter (Q t) ps)"
    by (simp add: filter_map comp_def)
  then show ?case using Cons by simp
qed simp

lemma sorted_concat_single:
  fixes key :: "'t \<Rightarrow> 'k::linorder"
  assumes "sorted_wrt (<) (map key ts)" "\<And>t. t \<in> set ts \<Longrightarrow> length (g t) \<le> 1"
  shows "sorted (map (\<lambda>(t, p). (key t, h p :: 'h::linorder)) (concat (map (\<lambda>t. map (Pair t) (g t)) ts)))"
  using assms
proof (induction ts)
  case (Cons t ts)
  have "g t = [] \<or> (\<exists>p. g t = [p])" using Cons.prems(2) [of t] by (cases "g t") auto
  then show ?case using Cons by (auto simp: sorted_append less_prod_def)
qed simp

definition account_amounts :: "string \<Rightarrow> ledger_db \<Rightarrow> int list" where
  "account_amounts account db =
     map amount (filter (\<lambda>p. posting_account p = account) (tarot_postings db))"

definition account_sum :: "string \<Rightarrow> ledger_db \<Rightarrow> int" where
  "account_sum account db = sum_list (account_amounts account db)"

definition tx_ids :: "ledger_db \<Rightarrow> string set" where
  "tx_ids db = transaction_id ` set (tarot_transactions db)"

definition account_ids :: "ledger_db \<Rightarrow> string set" where
  "account_ids db = account_id ` set (tarot_accounts db)"

definition tx_balanced :: "ledger_db \<Rightarrow> transaction_row \<Rightarrow> bool" where
  "tx_balanced db t \<longleftrightarrow> committed t
     \<and> distinct (map posting_account (postings_of (transaction_id t) db))
     \<and> length (postings_of (transaction_id t) db) = expected_postings t
     \<and> sum_list (map amount (postings_of (transaction_id t) db)) = 0"

definition within_bounds :: "ledger_db \<Rightarrow> bool" where
  "within_bounds db \<longleftrightarrow> (\<forall>a \<in> set (tarot_accounts db). runs in64 0 (account_amounts (account_id a) db)
     \<and> (account_kind a = Human \<longrightarrow> runs (\<lambda>b. 0 \<le> b) 0 (account_amounts (account_id a) db)))"

definition books_ok :: "ledger_db \<Rightarrow> bool" where
  "books_ok db \<longleftrightarrow> distinct (map transaction_id (tarot_transactions db))
     \<and> sorted_wrt (<) (map ledger_sequence (tarot_transactions db))
     \<and> distinct (map account_id (tarot_accounts db))
     \<and> tarot_postings db = concat (map (\<lambda>t. postings_of (transaction_id t) db) (tarot_transactions db))
     \<and> (\<forall>t \<in> set (tarot_transactions db). tx_balanced db t)
     \<and> posting_account ` set (tarot_postings db) \<subseteq> account_ids db
     \<and> within_bounds db"

lemma books_okD:
  assumes "books_ok db"
  shows "distinct (map transaction_id (tarot_transactions db))"
    "sorted_wrt (<) (map ledger_sequence (tarot_transactions db))"
    "distinct (map account_id (tarot_accounts db))"
    "tarot_postings db = concat (map (\<lambda>t. postings_of (transaction_id t) db) (tarot_transactions db))"
    "t \<in> set (tarot_transactions db) \<Longrightarrow> tx_balanced db t"
    "p \<in> set (tarot_postings db) \<Longrightarrow> posting_account p \<in> account_ids db"
    "within_bounds db"
  using assms unfolding books_ok_def by blast+

lemma all_committed: "books_ok db \<Longrightarrow> t \<in> set (tarot_transactions db) \<Longrightarrow> committed t"
  using books_okD(5) by (auto simp: tx_balanced_def)

lemma posting_tx:
  assumes "books_ok db" "p \<in> set (tarot_postings db)"
  shows "posting_transaction p \<in> tx_ids db"
proof -
  have "p \<in> set (concat (map (\<lambda>t. postings_of (transaction_id t) db) (tarot_transactions db)))"
    using assms(2) books_okD(4) [OF assms(1)] by metis
  then show ?thesis by (auto simp: tx_ids_def postings_of_def)
qed

lemma single_posting: "distinct (map f ps) \<Longrightarrow> length (filter (\<lambda>p. f p = a) ps) \<le> 1"
proof (induction ps)
  case (Cons p ps)
  have "f p = a \<Longrightarrow> filter (\<lambda>p. f p = a) ps = []" using Cons.prems by (auto simp: filter_empty_conv) (metis image_eqI)
  then show ?case using Cons by auto
qed simp

lemma account_postings_ordered:
  assumes "books_ok db"
  shows "account_postings account db = concat (map (\<lambda>t. map (Pair t)
      (filter (\<lambda>p. posting_account p = account) (postings_of (transaction_id t) db))) (tarot_transactions db))"
proof -
  have s: "filter (\<lambda>p. posting_account p = account \<and> transaction_id t = posting_transaction p \<and> committed t) (tarot_postings db)
      = filter (\<lambda>p. posting_account p = account) (postings_of (transaction_id t) db)"
    if "t \<in> set (tarot_transactions db)" for t
    using all_committed [OF assms that] by (auto simp: postings_of_def conj_commute eq_commute)
  have "account_postings account db = sort_key (\<lambda>(t, p). (ledger_sequence t, posting_id p))
      [(t, p) \<leftarrow> List.product (tarot_transactions db) (tarot_postings db).
         posting_account p = account \<and> transaction_id t = posting_transaction p \<and> committed t]"
    unfolding account_postings_def ledger_postings_def filter_sort filter_filter
    by (intro arg_cong [where f = "sort_key _"] filter_cong) auto
  also have "\<dots> = sort_key (\<lambda>(t, p). (ledger_sequence t, posting_id p)) (concat (map (\<lambda>t. map (Pair t)
      (filter (\<lambda>p. posting_account p = account) (postings_of (transaction_id t) db))) (tarot_transactions db)))"
    unfolding concat_filter_product using s by (simp cong: map_cong)
  also have "\<dots> = concat (map (\<lambda>t. map (Pair t)
      (filter (\<lambda>p. posting_account p = account) (postings_of (transaction_id t) db))) (tarot_transactions db))"
  proof (rule sort_key_id_if_sorted, rule sorted_concat_single)
    show "sorted_wrt (<) (map ledger_sequence (tarot_transactions db))" using assms by (rule books_okD)
    fix t assume "t \<in> set (tarot_transactions db)"
    then have "distinct (map posting_account (postings_of (transaction_id t) db))"
      using books_okD(5) [OF assms] by (simp add: tx_balanced_def)
    then show "length (filter (\<lambda>p. posting_account p = account) (postings_of (transaction_id t) db)) \<le> 1"
      by (rule single_posting)
  qed
  finally show ?thesis .
qed

lemma account_postings_amounts:
  assumes "books_ok db"
  shows "map (\<lambda>(t, p). amount p) (account_postings account db) = account_amounts account db"
proof -
  have "account_amounts account db = map amount (filter (\<lambda>p. posting_account p = account)
      (concat (map (\<lambda>t. postings_of (transaction_id t) db) (tarot_transactions db))))"
    unfolding account_amounts_def using books_okD(4) [OF assms] by simp
  also have "\<dots> = map (\<lambda>(t, p). amount p) (account_postings account db)"
    unfolding account_postings_ordered [OF assms]
    by (simp add: filter_concat map_concat comp_def)
  finally show ?thesis by simp
qed

lemma account_amounts_runs:
  assumes "books_ok db" "account \<in> account_ids db"
  shows "runs in64 0 (account_amounts account db)"
  using assms books_okD(7) by (auto simp: account_ids_def within_bounds_def)

lemma balance_is_sum:
  assumes "books_ok db" "account \<in> account_ids db"
  shows "balance_for_account account db = Inr (account_sum account db)"
  using checked_sum_runs [OF account_amounts_runs [OF assms]] account_postings_amounts [OF assms(1)]
  by (simp add: balance_for_account_def account_sum_def)

lemma kind_of_Some:
  "distinct (map account_id (tarot_accounts db)) \<Longrightarrow> kind_of i db = Some k \<longleftrightarrow>
     (\<exists>a \<in> set (tarot_accounts db). account_id a = i \<and> account_kind a = k)"
  by (auto simp: kind_of_def dest: find_row_Some intro: find_row_unique)

lemma human_balance:
  assumes "books_ok db" "kind_of account db = Some Human"
  shows "0 \<le> account_sum account db" "account \<in> account_ids db"
proof -
  obtain a where a: "a \<in> set (tarot_accounts db)" "account_id a = account" "account_kind a = Human"
    using assms books_okD(3) by (auto simp: kind_of_Some)
  have "runs (\<lambda>b. 0 \<le> b) 0 (account_amounts account db)"
    using books_okD(7) [OF assms(1)] a unfolding within_bounds_def by blast
  then show "0 \<le> account_sum account db" using runs_last [of "\<lambda>b. 0 \<le> b" 0] by (simp add: account_sum_def)
  show "account \<in> account_ids db" using a by (auto simp: account_ids_def)
qed

section \<open>Conservation\<close>

lemma sum_list_zero_key: "k \<notin> set ks \<Longrightarrow> (\<Sum>x\<leftarrow>ks. if k = x then c else 0) = (0 :: int)"
  by (induction ks) auto

lemma sum_list_concat_map: "sum_list (map f (concat xss)) = (\<Sum>xs\<leftarrow>xss. sum_list (map f xs))"
  for f :: "'p \<Rightarrow> int"
  by (induction xss) auto

lemma sum_by_key:
  fixes f :: "'p \<Rightarrow> int"
  assumes "distinct ks" "g ` set ps \<subseteq> set ks"
  shows "sum_list (map (\<lambda>k. sum_list (map f (filter (\<lambda>p. g p = k) ps))) ks) = sum_list (map f ps)"
  using assms
proof (induction ps)
  case (Cons p ps)
  have "g p \<in> set ks" "distinct ks" using Cons.prems by auto
  then have "(\<Sum>k\<leftarrow>ks. if g p = k then f p else 0) = f p"
    by (induction ks) (auto simp: sum_list_zero_key)
  moreover have "(\<Sum>k\<leftarrow>ks. sum_list (map f (filter (\<lambda>p. g p = k) (p # ps))))
      = (\<Sum>k\<leftarrow>ks. (if g p = k then f p else 0) + sum_list (map f (filter (\<lambda>p. g p = k) ps)))"
    by (intro arg_cong [where f = sum_list] map_cong) auto
  ultimately show ?case using Cons by (simp add: sum_list_addf)
qed simp

lemma books_sum_zero: "books_ok db \<Longrightarrow> sum_list (map amount (tarot_postings db)) = 0"
proof -
  assume b: "books_ok db"
  have "sum_list (map amount (tarot_postings db))
      = (\<Sum>t\<leftarrow>tarot_transactions db. sum_list (map amount (postings_of (transaction_id t) db)))"
    by (subst books_okD(4) [OF b]) (simp add: sum_list_concat_map comp_def)
  also have "\<dots> = (\<Sum>t\<leftarrow>tarot_transactions db. 0)"
    using books_okD(5) [OF b] by (intro arg_cong [where f = sum_list] map_cong) (auto simp: tx_balanced_def)
  finally show ?thesis by simp
qed

lemma balances_sum_zero:
  assumes "books_ok db"
  shows "(\<Sum>a\<leftarrow>tarot_accounts db. account_sum (account_id a) db) = 0"
proof -
  have "(\<Sum>a\<leftarrow>map account_id (tarot_accounts db). sum_list (map amount (filter (\<lambda>p. posting_account p = a) (tarot_postings db))))
      = sum_list (map amount (tarot_postings db))"
    using books_okD(3,6) [OF assms] by (intro sum_by_key) (auto simp: account_ids_def)
  then show ?thesis using books_sum_zero [OF assms]
    by (simp add: account_sum_def account_amounts_def comp_def)
qed

section \<open>Posting a transaction\<close>

definition posts :: "transaction_row \<Rightarrow> posting_row list \<Rightarrow> ledger_db \<Rightarrow> ledger_db" where
  "posts t ps db = db\<lparr>tarot_transactions := tarot_transactions db @ [t],
     tarot_postings := tarot_postings db @ ps\<rparr>"

lemma postings_of_posts:
  assumes "books_ok db" "transaction_id t \<notin> tx_ids db" "\<forall>p \<in> set ps. posting_transaction p = transaction_id t"
  shows "postings_of (transaction_id t) (posts t ps db) = ps"
    "i \<in> tx_ids db \<Longrightarrow> postings_of i (posts t ps db) = postings_of i db"
proof -
  have old: "filter (\<lambda>p. posting_transaction p = transaction_id t) (tarot_postings db) = []"
    using assms(2) by (auto simp: filter_empty_conv dest!: posting_tx [OF assms(1)])
  then show "postings_of (transaction_id t) (posts t ps db) = ps"
    using assms(3) by (auto simp: postings_of_def posts_def filter_id_conv)
  show "postings_of i (posts t ps db) = postings_of i db" if "i \<in> tx_ids db"
    using assms that by (auto simp: postings_of_def posts_def filter_empty_conv)
qed

lemma account_amounts_posts:
  "account_amounts a (posts t ps db) = account_amounts a db
     @ map amount (filter (\<lambda>p. posting_account p = a) ps)"
  by (simp add: account_amounts_def posts_def)

lemma account_sum_posts:
  "account_sum a (posts t ps db) = account_sum a db
     + sum_list (map amount (filter (\<lambda>p. posting_account p = a) ps))"
  by (simp add: account_sum_def account_amounts_posts)

lemma filter_single:
  assumes "distinct (map f ps)"
  shows "filter (\<lambda>p. f p = a) ps = [] \<or> (\<exists>p \<in> set ps. f p = a \<and> filter (\<lambda>p. f p = a) ps = [p])"
proof (cases "filter (\<lambda>p. f p = a) ps")
  case (Cons p rest)
  then have "rest = []" using single_posting [OF assms, of a] by (cases rest) auto
  moreover from Cons have "p \<in> set (filter (\<lambda>p. f p = a) ps)" by simp
  then have "p \<in> set ps" "f p = a" by auto
  ultimately show ?thesis using Cons by auto
qed simp

lemma books_post:
  assumes b: "books_ok db" and fresh: "transaction_id t \<notin> tx_ids db"
    and seq: "\<forall>u \<in> set (tarot_transactions db). ledger_sequence u < ledger_sequence t"
    and ps: "\<forall>p \<in> set ps. posting_transaction p = transaction_id t" "distinct (map posting_account ps)"
      "length ps = expected_postings t" "sum_list (map amount ps) = 0" "committed t"
    and accounts: "posting_account ` set ps \<subseteq> account_ids db"
    and bounds: "\<forall>p \<in> set ps. in64 (account_sum (posting_account p) db + amount p)
      \<and> (kind_of (posting_account p) db = Some Human \<longrightarrow> 0 \<le> account_sum (posting_account p) db + amount p)"
  shows "books_ok (posts t ps db)"
proof -
  let ?db = "posts t ps db"
  note pof = postings_of_posts [OF b fresh ps(1)]
  have ids: "transaction_id u \<in> tx_ids db" if "u \<in> set (tarot_transactions db)" for u
    using that by (simp add: tx_ids_def)
  have "tarot_postings ?db = concat (map (\<lambda>t. postings_of (transaction_id t) db) (tarot_transactions db)) @ ps"
    using books_okD(4) [OF b] by (simp add: posts_def)
  also have "\<dots> = concat (map (\<lambda>t. postings_of (transaction_id t) ?db) (tarot_transactions db)) @ ps"
    using pof(2) ids by (intro arg_cong2 [where f = append] arg_cong [where f = concat] map_cong refl) simp
  finally have order: "tarot_postings ?db
      = concat (map (\<lambda>t. postings_of (transaction_id t) ?db) (tarot_transactions ?db))"
    using pof(1) by (simp add: posts_def)
  have balanced: "tx_balanced ?db u" if "u \<in> set (tarot_transactions ?db)" for u
  proof (cases "u = t")
    case True then show ?thesis using ps pof(1) by (simp add: tx_balanced_def)
  next
    case False
    then have u: "u \<in> set (tarot_transactions db)" using that by (simp add: posts_def)
    then show ?thesis using books_okD(5) [OF b u] pof(2) [OF ids [OF u]] by (simp add: tx_balanced_def)
  qed
  have bound: "runs P 0 (account_amounts (account_id a) ?db)"
    if a: "runs P 0 (account_amounts (account_id a) db)"
      and P: "\<And>p. p \<in> set ps \<Longrightarrow> posting_account p = account_id a \<Longrightarrow> P (account_sum (account_id a) db + amount p)"
    for P a
    using filter_single [OF ps(2), of "account_id a"] a P
    by (auto simp: account_amounts_posts runs_append account_sum_def)
  have within: "within_bounds ?db" unfolding within_bounds_def
  proof (intro ballI conjI impI)
    fix a assume "a \<in> set (tarot_accounts ?db)"
    then have a: "a \<in> set (tarot_accounts db)" by (simp add: posts_def)
    then have old: "runs in64 0 (account_amounts (account_id a) db)"
      "account_kind a = Human \<Longrightarrow> runs (\<lambda>b. 0 \<le> b) 0 (account_amounts (account_id a) db)"
      using books_okD(7) [OF b] unfolding within_bounds_def by blast+
    show "runs in64 0 (account_amounts (account_id a) ?db)"
      using bounds by (intro bound old) auto
    show "runs (\<lambda>b. 0 \<le> b) 0 (account_amounts (account_id a) ?db)" if "account_kind a = Human"
    proof (intro bound old that)
      fix p assume "p \<in> set ps" "posting_account p = account_id a"
      moreover have "kind_of (account_id a) db = Some Human"
        using a that books_okD(3) [OF b] by (auto simp: kind_of_Some)
      ultimately show "0 \<le> account_sum (account_id a) db + amount p" using bounds by metis
    qed
  qed
  have "distinct (map transaction_id (tarot_transactions ?db))"
    using books_okD(1) [OF b] fresh by (auto simp: posts_def tx_ids_def)
  moreover have "sorted_wrt (<) (map ledger_sequence (tarot_transactions ?db))"
    using books_okD(2) [OF b] seq by (auto simp: posts_def sorted_wrt_append)
  moreover have "distinct (map account_id (tarot_accounts ?db))"
    using books_okD(3) [OF b] by (simp add: posts_def)
  moreover have "posting_account ` set (tarot_postings ?db) \<subseteq> account_ids ?db"
    using books_okD(6) [OF b] accounts by (auto simp: posts_def account_ids_def)
  ultimately show ?thesis using order balanced within unfolding books_ok_def by blast
qed

text \<open>What the sealing trigger says of the transaction it let through, in the database after it.\<close>

definition sealed_ok :: "transaction_row \<Rightarrow> ledger_db \<Rightarrow> bool" where
  "sealed_ok t db \<longleftrightarrow> (transaction_type t \<in> {Test_adjustment, Test_reversal} \<longrightarrow> audit_ok t db)
     \<and> (transaction_type t \<in> {Starting_grant, Grace_reward, Trial_reward} \<longrightarrow> grant_shape t db)
     \<and> (transaction_type t = Starting_grant \<longrightarrow> \<not> prior_grant t db)
     \<and> (transaction_type t = Test_adjustment \<longrightarrow> adjustment_shape t db)
     \<and> (transaction_type t = Test_reversal \<longrightarrow> reversal_shape t db)"

lemma find_row_append_other: "key r \<noteq> k \<Longrightarrow> find_row key k (rows @ [r]) = find_row key k rows"
  by (induction rows) (auto simp: find_row_def)

lemma find_row_prefix: "find_row key k rows = Some r \<Longrightarrow> find_row key k (rows @ rest) = Some r"
  by (induction rows) (auto simp: find_row_def split: if_splits)

text \<open>
  The shapes look at the postings, the accounts and the other transactions only: whether the
  transaction itself is committed makes no difference to them.
\<close>

abbreviation with_tx :: "transaction_row list \<Rightarrow> ledger_db \<Rightarrow> ledger_db" where
  "with_tx ts db \<equiv> db\<lparr>tarot_transactions := ts\<rparr>"

lemma shapes_tx:
  "postings_of i (with_tx ts db) = postings_of i db"
  "kind_of a (with_tx ts db) = kind_of a db" "user_of a (with_tx ts db) = user_of a db"
  "audit_ok u (with_tx ts db) = audit_ok u db" "grant_shape u (with_tx ts db) = grant_shape u db"
  "adjustment_shape u (with_tx ts db) = adjustment_shape u db"
  "seal_link u (with_tx ts db) = seal_link u db"
  by (simp_all add: postings_of_def kind_of_def user_of_def audit_ok_def audit_event_def
      human_posting_def grant_shape_def adjustment_shape_def seal_link_def)

lemma find_transaction_last:
  "transaction_id d \<noteq> i \<Longrightarrow> find_transaction i (with_tx (ts @ [d]) db) = find_transaction i (with_tx ts db)"
  by (simp add: find_transaction_def find_row_append_other)

lemma prior_grant_last:
  assumes "transaction_id d = transaction_id t"
  shows "prior_grant t (with_tx (ts @ [d]) db) = prior_grant t (with_tx ts db)"
proof -
  have e: "find_transaction (posting_transaction p) (with_tx (ts @ [d]) db)
      = find_transaction (posting_transaction p) (with_tx ts db)"
    if "posting_transaction p \<noteq> transaction_id t" for p
    using that assms by (auto intro: find_transaction_last)
  show ?thesis
    unfolding prior_grant_def list_ex_iff shapes_tx
    by (intro bex_cong refl conj_cong) (auto simp: e)
qed

lemma reversal_shape_last:
  "transaction_id d = transaction_id t \<Longrightarrow> reversal_of t \<noteq> Some (transaction_id t) \<Longrightarrow>
   reversal_shape t (with_tx (ts @ [d]) db) = reversal_shape t (with_tx ts db)"
  by (cases "reversal_of t") (simp_all add: reversal_shape_def find_transaction_last shapes_tx
      inverse_postings_def cleanup_allows_def split: option.split)

lemma sealed_ok_last:
  assumes "transaction_id d = transaction_id t" "reversal_of t \<noteq> Some (transaction_id t)"
    "seal_check t (with_tx (ts @ [d]) db)"
  shows "sealed_ok t (with_tx (ts @ [t]) db)"
  using assms prior_grant_last [of d t] prior_grant_last [of t t] reversal_shape_last [of d t]
    reversal_shape_last [of t t]
  unfolding sealed_ok_def seal_check_def by (simp add: shapes_tx)

lemma found_committed: "books_ok db \<Longrightarrow> i \<in> tx_ids db \<Longrightarrow> is_committed i db"
  using find_row_unique [OF books_okD(1)] all_committed
  by (fastforce simp: is_committed_def tx_ids_def find_transaction_def)

lemma committed_sum_draft:
  assumes "books_ok db" "transaction_id d \<notin> tx_ids db" "\<not> committed d"
    "\<forall>p \<in> set ps. posting_transaction p = transaction_id d"
  shows "committed_sum a (posts d ps db) = account_sum a db"
proof -
  have old: "is_committed (posting_transaction p) (posts d ps db)" if "p \<in> set (tarot_postings db)" for p
  proof -
    have i: "posting_transaction p \<in> tx_ids db" using posting_tx [OF assms(1) that] .
    then have "transaction_id d \<noteq> posting_transaction p" using assms(2) by auto
    then show ?thesis using found_committed [OF assms(1) i]
      by (simp add: is_committed_def posts_def find_transaction_def find_row_append_other)
  qed
  have new: "\<not> is_committed (transaction_id d) (posts d ps db)"
  proof -
    have "find_transaction (transaction_id d) (posts d ps db) = Some d"
      using assms(2) by (simp add: find_transaction_def posts_def find_row_append_new tx_ids_def)
    then show ?thesis using assms(3) by (simp add: is_committed_def)
  qed
  have "filter (\<lambda>p. posting_account p = a \<and> is_committed (posting_transaction p) (posts d ps db)) ps = []"
    using new assms(4) by (auto simp: filter_empty_conv)
  moreover have "filter (\<lambda>p. posting_account p = a \<and> is_committed (posting_transaction p) (posts d ps db))
      (tarot_postings db) = filter (\<lambda>p. posting_account p = a) (tarot_postings db)"
    using old by (intro filter_cong) auto
  ultimately show ?thesis
    unfolding committed_sum_def account_sum_def account_amounts_def by (simp add: posts_def)
qed

text \<open>The row of a sealed transaction of two postings, and a posting.\<close>

definition sealed_row ::
    "string \<Rightarrow> transaction_type \<Rightarrow> string \<Rightarrow> string \<Rightarrow> u64 \<Rightarrow> string option \<Rightarrow> bool \<Rightarrow> string option
     \<Rightarrow> int \<Rightarrow> nat \<Rightarrow> transaction_row" where
  "sealed_row i type event key actor reason is_test reverses now seq =
     \<lparr>ledger_sequence = seq, transaction_id = i, transaction_type = type, committed = True,
      expected_postings = 2, tx_event = event, tx_key = key, tx_actor = Some actor,
      tx_reason = reason, tx_is_test = is_test, reversal_of = reverses, tx_created_at = now,
      tx_committed_at = Some now\<rparr>"

definition posting_of :: "string \<Rightarrow> string \<Rightarrow> string \<Rightarrow> int \<Rightarrow> int \<Rightarrow> posting_row" where
  "posting_of i tx account x now = \<lparr>posting_id = i, posting_transaction = tx,
     posting_account = account, amount = x, posting_created_at = now\<rparr>"

lemma posting_of_simps [simp]:
  "posting_id (posting_of i tx account x now) = i"
  "posting_transaction (posting_of i tx account x now) = tx"
  "posting_account (posting_of i tx account x now) = account"
  "amount (posting_of i tx account x now) = x"
  by (simp_all add: posting_of_def)

lemma sealed_row_simps [simp]:
  "ledger_sequence (sealed_row i type event key actor reason is_test reverses now seq) = seq"
  "transaction_id (sealed_row i type event key actor reason is_test reverses now seq) = i"
  "transaction_type (sealed_row i type event key actor reason is_test reverses now seq) = type"
  "committed (sealed_row i type event key actor reason is_test reverses now seq)"
  "expected_postings (sealed_row i type event key actor reason is_test reverses now seq) = 2"
  "tx_event (sealed_row i type event key actor reason is_test reverses now seq) = event"
  "tx_key (sealed_row i type event key actor reason is_test reverses now seq) = key"
  "tx_actor (sealed_row i type event key actor reason is_test reverses now seq) = Some actor"
  "tx_reason (sealed_row i type event key actor reason is_test reverses now seq) = reason"
  "tx_is_test (sealed_row i type event key actor reason is_test reverses now seq) = is_test"
  "reversal_of (sealed_row i type event key actor reason is_test reverses now seq) = reverses"
  by (simp_all add: sealed_row_def)

lemma next_sequence_above: "u \<in> set (tarot_transactions db) \<Longrightarrow> ledger_sequence u < next_sequence db"
proof -
  have "x \<in> set xs \<Longrightarrow> x \<le> foldr max xs (0 :: nat)" for x xs by (induction xs) auto
  then show "u \<in> set (tarot_transactions db) \<Longrightarrow> ledger_sequence u < next_sequence db"
    by (auto simp: next_sequence_def less_Suc_eq_le)
qed

lemma seal_last:
  assumes "seal_transaction i now db = Inr db'" "tarot_transactions db = ts @ [d]"
    "transaction_id d = i" "i \<notin> transaction_id ` set ts"
  shows "db' = with_tx (ts @ [d\<lparr>committed := True, tx_committed_at := Some now\<rparr>]) db"
    "seal_check (d\<lparr>committed := True, tx_committed_at := Some now\<rparr>) db"
    "seal_link (d\<lparr>committed := True, tx_committed_at := Some now\<rparr>) db" "\<not> committed d"
proof -
  have none: "filter (\<lambda>t. transaction_id t = i \<and> \<not> committed t) ts = []"
    using assms(4) by (auto simp: filter_empty_conv)
  have same: "map (\<lambda>t. if transaction_id t = i \<and> \<not> committed t
      then t\<lparr>committed := True, tx_committed_at := Some now\<rparr> else t) ts = ts"
    using assms(4) by (intro map_idI) auto
  show d: "\<not> committed d"
    using assms(1) none by (auto simp: seal_transaction_def rbind_eq_Inr update_rows_Inr assms(2) assms(3))
  show "db' = with_tx (ts @ [d\<lparr>committed := True, tx_committed_at := Some now\<rparr>]) db"
    using assms(1) same d assms(3)
    by (auto simp: seal_transaction_def rbind_eq_Inr update_rows_Inr assms(2))
  show "seal_check (d\<lparr>committed := True, tx_committed_at := Some now\<rparr>) db"
    "seal_link (d\<lparr>committed := True, tx_committed_at := Some now\<rparr>) db"
    using assms(1) d assms(3) by (auto simp: seal_transaction_def rbind_eq_Inr update_rows_Inr assms(2))
qed

lemma insert_transaction_Inr:
  assumes "insert_transaction i type event key actor reason is_test reverses now db = Inr db'"
  shows "db' = with_tx (tarot_transactions db @ [(sealed_row i type event key actor reason is_test
      reverses now (next_sequence db))\<lparr>committed := False, tx_committed_at := None\<rparr>]) db"
    "i \<notin> tx_ids db" "event \<in> event_id ` set (event_journal db)"
    "event \<notin> tx_event ` set (tarot_transactions db)"
    "opt_check (\<lambda>j. j \<in> tx_ids db) reverses"
    "reverses \<noteq> None \<Longrightarrow> reverses \<notin> reversal_of ` set (tarot_transactions db)"
    "type = Test_reversal \<longleftrightarrow> reverses \<noteq> None" "type = Starting_grant \<Longrightarrow> \<not> is_test"
    "type \<in> {Test_adjustment, Test_reversal} \<Longrightarrow> is_test"
  using assms
  by (auto simp: insert_transaction_def insert_transaction_row_def rbind_eq_Inr sealed_row_def
      transaction_check_def transaction_taken_def list_ex_iff tx_ids_def image_iff)

lemma insert_posting_Inr:
  assumes "insert_posting i tx account x now db = Inr db'"
  shows "db' = db\<lparr>tarot_postings := tarot_postings db @ [posting_of i tx account x now]\<rparr>"
    "account \<in> account_ids db" "account \<notin> posting_account ` set (postings_of tx db)"
    "i \<notin> posting_id ` set (tarot_postings db)" "x \<noteq> 0" "-1000000000 \<le> x" "x \<le> 1000000000"
  using assms
  by (simp_all add: insert_posting_def insert_posting_row_def rbind_eq_Inr posting_of_def
      posting_check_def account_ids_def)

text \<open>
  The heart of every entry: a prepared transaction with its postings that is sealed.
\<close>

lemma sealed_entry:
  assumes b: "books_ok db" and fresh: "transaction_id d \<notin> tx_ids db" and seq: "ledger_sequence d = next_sequence db"
    and reverses: "reversal_of d \<noteq> Some (transaction_id d)"
    and ps: "\<forall>p \<in> set ps. posting_transaction p = transaction_id d" "distinct (map posting_account ps)"
      "posting_account ` set ps \<subseteq> account_ids db"
    and s: "seal_transaction (transaction_id d) now (posts d ps db) = Inr db'"
  defines "row \<equiv> d\<lparr>committed := True, tx_committed_at := Some now\<rparr>"
  shows "db' = posts row ps db" "books_ok db'" "sealed_ok row db'" "seal_link row db'"
    "seal_check row (posts d ps db)" "postings_of (transaction_id d) (posts d ps db) = ps"
    "\<forall>p \<in> set ps. kind_of (posting_account p) db = Some Human \<longrightarrow> 0 \<le> account_sum (posting_account p) db + amount p"
proof -
  let ?db = "posts d ps db"
  have txs: "tarot_transactions ?db = tarot_transactions db @ [d]" by (simp add: posts_def)
  have row: "transaction_id row = transaction_id d" "reversal_of row = reversal_of d"
    "ledger_sequence row = ledger_sequence d" "expected_postings row = expected_postings d" "committed row"
    by (simp_all add: row_def)
  have "transaction_id d \<notin> transaction_id ` set (tarot_transactions db)" using fresh by (simp add: tx_ids_def)
  note sl = seal_last [OF s txs refl this, folded row_def]
  show db': "db' = posts row ps db" using sl(1) by (simp add: posts_def)
  show check: "seal_check row ?db" by (fact sl)
  show pof: "postings_of (transaction_id d) ?db = ps" by (rule postings_of_posts(1) [OF b fresh ps(1)])
  have csum: "committed_sum a ?db = account_sum a db" for a
    by (rule committed_sum_draft [OF b fresh sl(4) ps(1)])
  have kinds: "kind_of a ?db = kind_of a db" for a by (simp add: posts_def kind_of_def)
  have bounds: "in64 (account_sum (posting_account p) db + amount p)
      \<and> (kind_of (posting_account p) db = Some Human \<longrightarrow> 0 \<le> account_sum (posting_account p) db + amount p)"
    if p: "p \<in> set ps" for p
  proof -
    have "in64 (account_sum (posting_account p) db)"
      using runs_last [OF account_amounts_runs [OF b]] ps(3) p by (auto simp: account_sum_def in64_def)
    moreover have "no_overflow row ?db" "no_overdraft row ?db" using check by (simp_all add: seal_check_def)
    ultimately show ?thesis using p pof csum kinds
      by (auto simp: no_overflow_def no_overdraft_def list_all_iff in64_def row)
  qed
  then show "\<forall>p \<in> set ps. kind_of (posting_account p) db = Some Human \<longrightarrow>
      0 \<le> account_sum (posting_account p) db + amount p" by blast
  have sizes: "length ps = expected_postings row" "sum_list (map amount ps) = 0"
    using check pof row by (simp_all add: seal_check_def)
  have above: "\<forall>u\<in>set (tarot_transactions db). ledger_sequence u < ledger_sequence row"
    using next_sequence_above seq row by simp
  show "books_ok db'" unfolding db'
    by (rule books_post [OF b _ above _ ps(2) sizes row(5) ps(3)])
      (use fresh ps(1) bounds row in \<open>simp_all\<close>)
  have w: "with_tx (tarot_transactions db @ [d]) ?db = ?db" "with_tx (tarot_transactions db @ [row]) ?db = db'"
    using txs sl(1) by simp_all
  have "transaction_id d = transaction_id row" "reversal_of row \<noteq> Some (transaction_id row)"
    using row reverses by simp_all
  from sealed_ok_last [OF this, of "tarot_transactions db" ?db] show "sealed_ok row db'"
    using check unfolding w .
  show "seal_link row db'" unfolding sl(1) using sl(3) by (simp add: shapes_tx)
qed

text \<open>The entry of every ledger operation: two postings.\<close>

lemma two_postings:
  assumes b: "books_ok db"
    and t: "insert_transaction i type event key actor reason is_test reverses now db = Inr db1"
    and p: "insert_posting i1 i a1 x1 now db1 = Inr db2" "insert_posting i2 i a2 x2 now db2 = Inr db3"
    and s: "seal_transaction i now db3 = Inr db'"
  defines "row \<equiv> sealed_row i type event key actor reason is_test reverses now (next_sequence db)"
    and "ps \<equiv> [posting_of i1 i a1 x1 now, posting_of i2 i a2 x2 now]"
  shows "db' = posts row ps db" "books_ok db'" "sealed_ok row db'" "seal_link row db'"
    "i \<notin> tx_ids db" "event \<in> event_id ` set (event_journal db)"
    "event \<notin> tx_event ` set (tarot_transactions db)"
    "x1 + x2 = 0" "a1 \<noteq> a2" "a1 \<in> account_ids db" "a2 \<in> account_ids db"
    "kind_of a1 db = Some Human \<Longrightarrow> 0 \<le> account_sum a1 db + x1"
    "kind_of a2 db = Some Human \<Longrightarrow> 0 \<le> account_sum a2 db + x2"
    "type = Test_reversal \<longleftrightarrow> reverses \<noteq> None" "type = Starting_grant \<Longrightarrow> \<not> is_test"
proof -
  note ti = insert_transaction_Inr [OF t]
  let ?d = "row\<lparr>committed := False, tx_committed_at := None\<rparr>"
  have db3: "db3 = posts ?d ps db"
    unfolding insert_posting_Inr(1) [OF p(2)] insert_posting_Inr(1) [OF p(1)] ti(1)
    by (simp add: posts_def row_def ps_def)
  have e: "?d\<lparr>committed := True, tx_committed_at := Some now\<rparr> = row" by (simp add: row_def sealed_row_def)
  have same: "tarot_accounts db1 = tarot_accounts db" "tarot_accounts db2 = tarot_accounts db1"
    by (simp_all add: ti(1) insert_posting_Inr(1) [OF p(1)])
  show acc: "a1 \<in> account_ids db" "a2 \<in> account_ids db"
    using insert_posting_Inr(2) [OF p(1)] insert_posting_Inr(2) [OF p(2)] same
    unfolding account_ids_def by simp_all
  have "posting_of i1 i a1 x1 now \<in> set (postings_of i db2)"
    by (simp add: insert_posting_Inr(1) [OF p(1)] postings_of_def)
  then show ne: "a1 \<noteq> a2" using insert_posting_Inr(3) [OF p(2)] by (metis image_eqI posting_of_simps(3))
  have id: "transaction_id ?d = i" "ledger_sequence ?d = next_sequence db" "reversal_of ?d = reverses"
    by (simp_all add: row_def)
  have d: "transaction_id ?d \<notin> tx_ids db" "reversal_of ?d \<noteq> Some (transaction_id ?d)"
    "\<forall>p \<in> set ps. posting_transaction p = transaction_id ?d" "distinct (map posting_account ps)"
    "posting_account ` set ps \<subseteq> account_ids db"
    using ti(2,5) acc ne by (auto simp: id ps_def)
  have s': "seal_transaction (transaction_id ?d) now (posts ?d ps db) = Inr db'"
    using s unfolding id db3 .
  note se = sealed_entry [OF b d(1) id(2) d(2-5) s', unfolded e]
  show "db' = posts row ps db" "books_ok db'" "sealed_ok row db'" "seal_link row db'" by (fact se)+
  show "i \<notin> tx_ids db" "event \<in> event_id ` set (event_journal db)"
    "event \<notin> tx_event ` set (tarot_transactions db)" "type = Test_reversal \<longleftrightarrow> reverses \<noteq> None"
    "type = Starting_grant \<Longrightarrow> \<not> is_test" by (fact ti)+
  show "x1 + x2 = 0" using se(5,6) by (simp add: seal_check_def ps_def id row_def)
  show "kind_of a1 db = Some Human \<Longrightarrow> 0 \<le> account_sum a1 db + x1"
    "kind_of a2 db = Some Human \<Longrightarrow> 0 \<le> account_sum a2 db + x2"
    using se(7) by (simp_all add: ps_def)
qed

end
