(* ===== verification/Tarot_Growth.thy ===== *)
theory Tarot_Growth
  imports Tarot_Books "HOL-Library.Sublist"
begin

text \<open>
  How the Tarot tables grow: rows of the ledger, the journal, the draws and the receipts are only
  appended, a claim leaves its pending state once, a message keeps its identity. What the audit
  asks of a row, once true, stays true while the tables grow.
\<close>

section \<open>Growth\<close>

definition claim_later :: "claim_row \<Rightarrow> claim_row \<Rightarrow> bool" where
  "claim_later c d \<longleftrightarrow> d = c \<or> claim_state c = Claim_pending \<and> claim_id d = claim_id c
     \<and> claim_account d = claim_account c \<and> claim_kind d = claim_kind c
     \<and> claim_is_test d = claim_is_test c \<and> claim_draw d = claim_draw c
     \<and> claim_started_event d = claim_started_event c
     \<and> (claim_reward d = claim_reward c \<or> claim_kind c = Grace)"

definition same_message :: "outbox_row \<Rightarrow> outbox_row \<Rightarrow> bool" where
  "same_message m n \<longleftrightarrow> outbox_id n = outbox_id m \<and> out_kind n = out_kind m
     \<and> out_aggregate_type n = out_aggregate_type m \<and> out_aggregate_id n = out_aggregate_id m
     \<and> target_guild_id n = target_guild_id m \<and> target_channel_id n = target_channel_id m
     \<and> target_user_id n = target_user_id m"

definition claim_ids :: "ledger_db \<Rightarrow> string set" where
  "claim_ids db = claim_id ` set (tarot_claims db)"

definition no_new_buttons :: "ledger_db \<Rightarrow> ledger_db \<Rightarrow> bool" where
  "no_new_buttons db db' \<longleftrightarrow> (\<forall>i \<in> claim_ids db. list_ex (live_button i) (interaction_buttons db')
     \<longrightarrow> list_ex (live_button i) (interaction_buttons db))"

definition users_ok :: "ledger_db \<Rightarrow> bool" where
  "users_ok db \<longleftrightarrow> distinct (map account_user (filter (\<lambda>a. account_kind a = Human) (tarot_accounts db)))"

definition grown :: "ledger_db \<Rightarrow> ledger_db \<Rightarrow> bool" where
  "grown db db' \<longleftrightarrow> prefix (tarot_accounts db) (tarot_accounts db')
     \<and> prefix (tarot_transactions db) (tarot_transactions db')
     \<and> prefix (event_journal db) (event_journal db')
     \<and> prefix (tarot_draws db) (tarot_draws db')
     \<and> prefix (tarot_receipts db) (tarot_receipts db')
     \<and> (\<exists>ps. tarot_postings db' = tarot_postings db @ ps
          \<and> (\<forall>p \<in> set ps. posting_transaction p \<notin> tx_ids db))
     \<and> (\<exists>cs new. tarot_claims db' = cs @ new \<and> list_all2 claim_later (tarot_claims db) cs)
     \<and> (\<forall>m \<in> set (outbox_messages db). \<exists>n \<in> set (outbox_messages db'). same_message m n)
     \<and> no_new_buttons db db'
     \<and> set (wager_cleanups db) \<subseteq> set (wager_cleanups db')
     \<and> set (house_cleanups db) \<subseteq> set (house_cleanups db')
     \<and> (users_ok db \<longrightarrow> users_ok db')"

lemma claim_later_refl [simp]: "claim_later c c" by (simp add: claim_later_def)

lemma claim_later_trans: "claim_later c d \<Longrightarrow> claim_later d e \<Longrightarrow> claim_later c e"
  unfolding claim_later_def by metis

lemma same_message_refl [simp]: "same_message m m" by (simp add: same_message_def)

lemma same_message_trans: "same_message m n \<Longrightarrow> same_message n k \<Longrightarrow> same_message m k"
  by (simp add: same_message_def)

lemma claims_later_refl [simp]: "list_all2 claim_later cs cs" by (simp add: list_all2_refl)

lemma grownD:
  assumes "grown db db'"
  shows "prefix (tarot_accounts db) (tarot_accounts db')"
    "prefix (tarot_transactions db) (tarot_transactions db')"
    "prefix (event_journal db) (event_journal db')" "prefix (tarot_draws db) (tarot_draws db')"
    "prefix (tarot_receipts db) (tarot_receipts db')"
    "\<exists>ps. tarot_postings db' = tarot_postings db @ ps \<and> (\<forall>p \<in> set ps. posting_transaction p \<notin> tx_ids db)"
    "\<exists>cs new. tarot_claims db' = cs @ new \<and> list_all2 claim_later (tarot_claims db) cs"
    "\<forall>m \<in> set (outbox_messages db). \<exists>n \<in> set (outbox_messages db'). same_message m n"
    "no_new_buttons db db'" "set (wager_cleanups db) \<subseteq> set (wager_cleanups db')"
    "set (house_cleanups db) \<subseteq> set (house_cleanups db')" "users_ok db \<Longrightarrow> users_ok db'"
  using assms unfolding grown_def by blast+

lemma grown_refl [simp]: "grown db db"
proof -
  have "\<forall>m \<in> set (outbox_messages db). \<exists>n \<in> set (outbox_messages db). same_message m n"
    using same_message_refl by blast
  moreover have "\<exists>cs new. tarot_claims db = cs @ new \<and> list_all2 claim_later (tarot_claims db) cs"
    by (intro exI [of _ "tarot_claims db"] exI [of _ "[]"]) simp
  ultimately show ?thesis by (simp add: grown_def no_new_buttons_def)
qed

lemma grown_tx_ids: "grown db db' \<Longrightarrow> tx_ids db \<subseteq> tx_ids db'"
  by (auto simp: tx_ids_def dest: grownD(2) set_mono_prefix)

lemma claims_later_ids: "list_all2 claim_later cs ds \<Longrightarrow> map claim_id ds = map claim_id cs"
  by (induction rule: list_all2_induct) (auto simp: claim_later_def)

lemma grown_claim_ids: "grown db db' \<Longrightarrow> claim_ids db \<subseteq> claim_ids db'"
proof -
  assume "grown db db'"
  then obtain cs new where "tarot_claims db' = cs @ new" "map claim_id cs = map claim_id (tarot_claims db)"
    using grownD(7) claims_later_ids by blast
  then have "set (map claim_id (tarot_claims db)) \<subseteq> set (map claim_id (tarot_claims db'))" by auto
  then show ?thesis by (simp add: claim_ids_def)
qed

lemma grown_trans:
  assumes "grown db db1" "grown db1 db2"
  shows "grown db db2"
proof -
  obtain ps qs where ps: "tarot_postings db1 = tarot_postings db @ ps" "\<forall>p \<in> set ps. posting_transaction p \<notin> tx_ids db"
    "tarot_postings db2 = tarot_postings db1 @ qs" "\<forall>p \<in> set qs. posting_transaction p \<notin> tx_ids db1"
    using grownD(6) [OF assms(1)] grownD(6) [OF assms(2)] by blast
  then have p: "\<exists>rs. tarot_postings db2 = tarot_postings db @ rs \<and> (\<forall>p \<in> set rs. posting_transaction p \<notin> tx_ids db)"
    using grown_tx_ids [OF assms(1)] by (intro exI [of _ "ps @ qs"]) auto
  obtain cs new ds late where cs: "tarot_claims db1 = cs @ new" "list_all2 claim_later (tarot_claims db) cs"
    "tarot_claims db2 = ds @ late" "list_all2 claim_later (tarot_claims db1) ds"
    using grownD(7) [OF assms(1)] grownD(7) [OF assms(2)] by blast
  then obtain ds1 ds2 where "ds = ds1 @ ds2" "list_all2 claim_later cs ds1"
    by (auto simp: list_all2_append1)
  moreover have "list_all2 claim_later (tarot_claims db) ds1"
    using list_all2_trans [OF _ cs(2) calculation(2)] claim_later_trans by blast
  ultimately have c: "\<exists>cs new. tarot_claims db2 = cs @ new \<and> list_all2 claim_later (tarot_claims db) cs"
    using cs(3) by (intro exI [of _ ds1] exI [of _ "ds2 @ late"]) simp
  have m: "\<forall>m \<in> set (outbox_messages db). \<exists>n \<in> set (outbox_messages db2). same_message m n"
    using grownD(8) [OF assms(1)] grownD(8) [OF assms(2)] same_message_trans by meson
  have b: "no_new_buttons db db2"
    using grownD(9) [OF assms(1)] grownD(9) [OF assms(2)] grown_claim_ids [OF assms(1)]
    unfolding no_new_buttons_def by blast
  show ?thesis
    unfolding grown_def
    using grownD(1-5,10-12) [OF assms(1)] grownD(1-5,10-12) [OF assms(2)] p c m b
    by (meson prefix_order.order_trans subset_trans)
qed

section \<open>What growth keeps\<close>

lemma grown_find_transaction:
  "grown db db' \<Longrightarrow> find_transaction i db = Some t \<Longrightarrow> find_transaction i db' = Some t"
  by (auto simp: find_transaction_def prefix_def find_row_prefix dest!: grownD(2))

lemma grown_event:
  "grown db db' \<Longrightarrow> find_row event_id i (event_journal db) = Some e \<Longrightarrow>
   find_row event_id i (event_journal db') = Some e"
  by (auto simp: prefix_def find_row_prefix dest!: grownD(3))

lemma grown_events: "grown db db' \<Longrightarrow> set (event_journal db) \<subseteq> set (event_journal db')"
  by (auto dest: grownD(3) set_mono_prefix)

lemma grown_kind_of: "grown db db' \<Longrightarrow> kind_of i db = Some k \<Longrightarrow> kind_of i db' = Some k"
  by (auto simp: kind_of_def prefix_def find_row_prefix dest!: grownD(1))

lemma grown_user_of: "grown db db' \<Longrightarrow> user_of i db = Some u \<Longrightarrow> user_of i db' = Some u"
  by (auto simp: user_of_def prefix_def bind_eq_Some_conv find_row_prefix dest!: grownD(1))

lemma grown_postings_of: "grown db db' \<Longrightarrow> i \<in> tx_ids db \<Longrightarrow> postings_of i db' = postings_of i db"
  by (auto simp: postings_of_def filter_empty_conv dest!: grownD(6))

lemma list_ex_mono: "list_ex P xs \<Longrightarrow> set xs \<subseteq> set ys \<Longrightarrow> (\<And>x. x \<in> set xs \<Longrightarrow> P x \<Longrightarrow> Q x) \<Longrightarrow> list_ex Q ys"
  by (auto simp: list_ex_iff)

lemma grown_human_posting:
  assumes "grown db db'" "transaction_id t \<in> tx_ids db" "tx_actor t \<noteq> None" "human_posting t db"
  shows "human_posting t db'"
  using assms(3,4) grown_kind_of [OF assms(1)] grown_user_of [OF assms(1)]
  unfolding human_posting_def grown_postings_of [OF assms(1,2)]
  by (auto simp: list_ex_iff) metis

section \<open>Transactions\<close>

definition tx_clean :: "ledger_db \<Rightarrow> transaction_row \<Rightarrow> bool" where
  "tx_clean db t \<longleftrightarrow> \<not> illegal_reversal db t \<and> \<not> test_grant t \<and> \<not> orphaned_transaction db t"

lemma tx_clean_event: "tx_clean db t \<Longrightarrow> \<exists>e. find_row event_id (tx_event t) (event_journal db) = Some e"
  by (auto simp: tx_clean_def orphaned_transaction_def split: option.splits)

lemma find_transaction_id: "find_transaction i db = Some t \<Longrightarrow> i \<in> tx_ids db \<and> transaction_id t = i"
  by (auto simp: find_transaction_def tx_ids_def dest: find_row_Some)

lemma legal_reversal_grown:
  assumes "grown db db'" "transaction_id t \<in> tx_ids db" "\<not> illegal_reversal db t"
  shows "\<not> illegal_reversal db' t"
proof (cases "transaction_type t = Test_reversal")
  case True
  then obtain i u where u: "reversal_of t = Some i" "find_transaction i db = Some u"
    using assms(3) by (cases "reversal_of t") (auto simp: illegal_reversal_def split: option.splits)
  note u' = grown_find_transaction [OF assms(1) u(2)]
  have i: "transaction_id u = i" "i \<in> tx_ids db" using find_transaction_id [OF u(2)] by auto
  have inv: "inverse_postings i (transaction_id t) db' = inverse_postings i (transaction_id t) db"
    by (simp add: inverse_postings_def grown_postings_of [OF assms(1)] i(2) assms(2))
  have "cleanup_allows t i db \<Longrightarrow> cleanup_allows t i db'"
    using grownD(10,11) [OF assms(1)] unfolding cleanup_allows_def list_ex_iff by blast
  then show ?thesis using assms(3) u u' inv i(1) by (auto simp: illegal_reversal_def)
qed (simp add: illegal_reversal_def)

lemma owned_transaction_grown:
  assumes "grown db db'" "transaction_id t \<in> tx_ids db" "\<not> orphaned_transaction db t"
  shows "\<not> orphaned_transaction db' t"
proof -
  obtain e where e: "find_row event_id (tx_event t) (event_journal db) = Some e"
    using assms(3) by (auto simp: orphaned_transaction_def split: option.splits)
  have h: "human_posting t db \<Longrightarrow> tx_actor t \<noteq> None \<Longrightarrow> human_posting t db'"
    using grown_human_posting [OF assms(1,2)] by blast
  have c: "list_ex (\<lambda>(r, original, user). r = transaction_id t \<and> Some user = tx_actor t) (house_cleanups db)
      \<Longrightarrow> list_ex (\<lambda>(r, original, user). r = transaction_id t \<and> Some user = tx_actor t) (house_cleanups db')"
    using grownD(11) [OF assms(1)] unfolding list_ex_iff by blast
  show ?thesis using assms(3) h c
    unfolding orphaned_transaction_def grown_event [OF assms(1) e] e by auto
qed

lemma tx_clean_grown:
  assumes "grown db db'" "t \<in> set (tarot_transactions db)" "tx_clean db t"
  shows "tx_clean db' t"
proof -
  have "transaction_id t \<in> tx_ids db" using assms(2) by (simp add: tx_ids_def)
  then show ?thesis
    using assms(3) legal_reversal_grown [OF assms(1)] owned_transaction_grown [OF assms(1)]
    by (simp add: tx_clean_def)
qed

text \<open>What the sealing trigger guarantees is what the audit asks.\<close>

lemma sealed_clean:
  assumes "sealed_ok t db" "distinct (map event_id (event_journal db))"
    and "tx_event t \<in> event_id ` set (event_journal db)"
    and "transaction_type t = Test_reversal \<longleftrightarrow> reversal_of t \<noteq> None"
    and "transaction_type t = Starting_grant \<Longrightarrow> \<not> tx_is_test t"
    and "transaction_type t \<in> {Test_adjustment, Test_reversal} \<Longrightarrow> audit_event t db"
  shows "tx_clean db t"
proof -
  obtain e where e: "e \<in> set (event_journal db)" "event_id e = tx_event t" using assms(3) by auto
  then have f: "find_row event_id (tx_event t) (event_journal db) = Some e"
    using find_row_unique [OF assms(2)] by metis
  have "\<not> illegal_reversal db t"
    using assms(1) by (auto simp: sealed_ok_def illegal_reversal_def reversal_shape_def split: option.splits)
  moreover have "\<not> orphaned_transaction db t"
  proof (cases "transaction_type t \<in> {Test_adjustment, Test_reversal}")
    case True
    then have a: "audit_ok t db" "audit_event t db" using assms(1,6) by (simp_all add: sealed_ok_def)
    have "e' = e" if "e' \<in> set (event_journal db)" "event_id e' = tx_event t" for e'
      using distinct_key_eq [OF assms(2)] that e by metis
    then show ?thesis using a f
      by (auto simp: orphaned_transaction_def audit_ok_def audit_event_def list_ex_iff split: option.splits)
  qed (simp add: orphaned_transaction_def f)
  ultimately show ?thesis using assms(5) by (auto simp: tx_clean_def test_grant_def)
qed

section \<open>Claims\<close>

lemma claim_paid_grown:
  assumes "grown db db'" "claim_paid c db"
  shows "claim_paid c db'"
proof -
  obtain t p where t: "t \<in> set (tarot_transactions db)" "Some (transaction_id t) = claim_transaction c"
      "committed t" "transaction_type t = reward_type (claim_kind c)" "Some (tx_event t) = claim_event c"
      "tx_is_test t = claim_is_test c"
    and p: "p \<in> set (postings_of (transaction_id t) db)" "posting_account p = claim_account c"
      "kind_of (posting_account p) db = Some Human" "Some (amount p) = claim_reward c"
    using assms(2) unfolding claim_paid_def list_ex_iff by blast
  have i: "transaction_id t \<in> tx_ids db" using t(1) by (simp add: tx_ids_def)
  have "t \<in> set (tarot_transactions db')" using t(1) set_mono_prefix [OF grownD(2) [OF assms(1)]] by blast
  moreover have "p \<in> set (postings_of (transaction_id t) db')"
    using p(1) by (simp add: grown_postings_of [OF assms(1) i])
  moreover note grown_kind_of [OF assms(1) p(3)]
  ultimately show ?thesis using t p unfolding claim_paid_def list_ex_iff by blast
qed

lemma claim_announced_grown:
  assumes "grown db db'" "claim_announced c db"
  shows "claim_announced c db'"
proof -
  obtain m e where m: "m \<in> set (outbox_messages db)" "Some (outbox_id m) = claim_outbox c"
      "out_kind m = ''discord.public.v1''" "out_aggregate_type m = Some ''tarot_recovery_claim''"
      "out_aggregate_id m = Some (claim_id c)" "target_user_id m = None"
    and e: "e \<in> set (event_journal db)" "event_id e = claim_started_event c"
      "event_guild_id e = target_guild_id m" "event_channel_id e = Some (target_channel_id m)"
    using assms(2) unfolding claim_announced_def list_ex_iff by blast
  obtain n where n: "n \<in> set (outbox_messages db')" "same_message m n"
    using grownD(8) [OF assms(1)] m(1) by blast
  have "e \<in> set (event_journal db')" using e(1) grown_events [OF assms(1)] by blast
  then show ?thesis
    using n m(2-) e(2-) unfolding claim_announced_def list_ex_iff same_message_def
    by (intro bexI [of _ n] conjI bexI [of _ e]) simp_all
qed

lemma started_ok_grown: "grown db db' \<Longrightarrow> started_ok c db \<Longrightarrow> started_ok c db'"
  unfolding started_ok_def list_ex_iff using grown_events by blast

lemma terminal_event_grown: "grown db db' \<Longrightarrow> terminal_event c db \<Longrightarrow> terminal_event c db'"
  unfolding terminal_event_def list_ex_iff using grown_events by blast

lemma draw_ok_grown: "grown db db' \<Longrightarrow> draw_ok c db \<Longrightarrow> draw_ok c db'"
  unfolding draw_ok_def list_ex_iff using set_mono_prefix [OF grownD(4)] by blast

text \<open>What the audit asks of a claim, by its state.\<close>

definition claim_clean :: "ledger_db \<Rightarrow> claim_row \<Rightarrow> bool" where
  "claim_clean db c \<longleftrightarrow> \<not> claim_mismatch db c"

lemma claim_clean_pending:
  "claim_state c = Claim_pending \<Longrightarrow> claim_clean db c \<longleftrightarrow> started_ok c db \<and> (claim_kind c = Trial \<longrightarrow> draw_ok c db)"
  by (auto simp: claim_clean_def claim_mismatch_def)

lemma claim_cleanD:
  assumes "claim_clean db c"
  shows "started_ok c db" "claim_kind c = Trial \<Longrightarrow> draw_ok c db"
    "claim_state c \<noteq> Claim_pending \<Longrightarrow> terminal_event c db"
    "claim_state c = Claim_completed \<Longrightarrow> claim_paid c db"
    "claim_state c \<noteq> Claim_pending \<Longrightarrow> \<not> list_ex (live_button (claim_id c)) (interaction_buttons db)"
  using assms unfolding claim_clean_def claim_mismatch_def by blast+

lemma claim_clean_grown:
  assumes "grown db db'" "c \<in> set (tarot_claims db)" "claim_clean db c"
  shows "claim_clean db' c"
proof -
  have "claim_id c \<in> claim_ids db" using assms(2) by (simp add: claim_ids_def)
  then have "\<not> list_ex (live_button (claim_id c)) (interaction_buttons db) \<Longrightarrow>
      \<not> list_ex (live_button (claim_id c)) (interaction_buttons db')"
    using grownD(9) [OF assms(1)] by (auto simp: no_new_buttons_def)
  then show ?thesis
    using assms(3) claim_paid_grown [OF assms(1)] claim_announced_grown [OF assms(1)]
      started_ok_grown [OF assms(1)] terminal_event_grown [OF assms(1)] draw_ok_grown [OF assms(1)]
    unfolding claim_clean_def claim_mismatch_def by blast
qed

lemma claim_not_orphaned:
  assumes "claim_clean db c"
  shows "\<not> orphaned_claim db c"
proof -
  obtain e where "e \<in> set (event_journal db)" "event_id e = claim_started_event c"
    using claim_cleanD(1) [OF assms] unfolding started_ok_def list_ex_iff by blast
  then show ?thesis unfolding orphaned_claim_def by (metis imageI)
qed

lemma later_claims:
  assumes "grown db db'" "c \<in> set (tarot_claims db)"
  obtains d where "d \<in> set (tarot_claims db')" "claim_later c d"
proof -
  obtain cs new where cs: "tarot_claims db' = cs @ new" "list_all2 claim_later (tarot_claims db) cs"
    using grownD(7) [OF assms(1)] by blast
  obtain i where i: "i < length (tarot_claims db)" "c = tarot_claims db ! i"
    using assms(2) by (auto simp: in_set_conv_nth)
  then have "claim_later c (cs ! i)" "i < length cs"
    using cs(2) by (auto simp: list_all2_conv_all_nth)
  then show ?thesis using that [of "cs ! i"] cs(1) by auto
qed

lemma reward_claimed_grown:
  assumes "grown db db'" "reward_claimed db t"
  shows "reward_claimed db' t"
proof -
  obtain c where c: "c \<in> set (tarot_claims db)" "claim_state c = Claim_completed"
    using assms(2) unfolding reward_claimed_def list_ex_iff by blast
  have "c \<in> set (tarot_claims db')" if "c \<in> set (tarot_claims db)" "claim_state c = Claim_completed" for c
    using later_claims [OF assms(1) that(1)] that(2) by (auto simp: claim_later_def)
  then show ?thesis using assms(2) grown_events [OF assms(1)]
    unfolding reward_claimed_def list_ex_iff by blast
qed

lemma draw_kept_grown:
  assumes "grown db db'" "\<not> orphaned_draw db d"
  shows "\<not> orphaned_draw db' d"
proof -
  obtain c where c: "c \<in> set (tarot_claims db)" "claim_draw c = Some (draw_id d)" "claim_id c = draw_claim d"
    using assms(2) by (auto simp: orphaned_draw_def list_ex_iff)
  then obtain e where "e \<in> set (tarot_claims db')" "claim_later c e" using later_claims [OF assms(1)] by metis
  then show ?thesis using c by (auto simp: orphaned_draw_def list_ex_iff claim_later_def)
qed

lemma grown_account_ids: "grown db db' \<Longrightarrow> account_ids db \<subseteq> account_ids db'"
  by (auto simp: account_ids_def dest: grownD(1) set_mono_prefix)

lemma receipt_kept_grown:
  assumes "grown db db'" "\<not> orphaned_receipt db r"
  shows "\<not> orphaned_receipt db' r"
  using assms(2) grown_account_ids [OF assms(1)] grown_claim_ids [OF assms(1)] grown_tx_ids [OF assms(1)]
  unfolding orphaned_receipt_def account_ids_def claim_ids_def tx_ids_def opt_check_def
  by (auto split: option.splits)

section \<open>Starting grants\<close>

definition grant_posting :: "string \<Rightarrow> ledger_db \<Rightarrow> posting_row \<Rightarrow> bool" where
  "grant_posting account db p \<longleftrightarrow> posting_account p = account \<and> 0 < amount p
     \<and> (case find_transaction (posting_transaction p) db of None \<Rightarrow> False
        | Some t \<Rightarrow> committed t \<and> transaction_type t = Starting_grant \<and> \<not> tx_is_test t
            \<and> (case find_row event_id (tx_event t) (event_journal db) of None \<Rightarrow> False
               | Some e \<Rightarrow> event_type e = ''tarot.starting_grant.v1''
                   \<and> event_aggregate_type e = ''tarot_account'' \<and> event_aggregate_id e = account))"

lemma starting_grants_eq: "starting_grants account db = filter (grant_posting account db) (tarot_postings db)"
  by (auto simp: starting_grants_def grant_posting_def intro!: filter_cong)

lemma starting_grants_grown:
  assumes b: "books_ok db" and g: "grown db db'"
    and clean: "\<And>t. t \<in> set (tarot_transactions db) \<Longrightarrow> tx_clean db t"
    and ps: "tarot_postings db' = tarot_postings db @ ps"
  shows "starting_grants account db' = starting_grants account db @ filter (grant_posting account db') ps"
proof -
  have "grant_posting account db' p = grant_posting account db p" if p: "p \<in> set (tarot_postings db)" for p
  proof -
    obtain t where t: "find_transaction (posting_transaction p) db = Some t" "t \<in> set (tarot_transactions db)"
      using posting_tx [OF b p] find_row_unique [OF books_okD(1) [OF b]]
      by (force simp: find_transaction_def tx_ids_def)
    obtain e where "find_row event_id (tx_event t) (event_journal db) = Some e"
      using tx_clean_event [OF clean [OF t(2)]] by blast
    then show ?thesis
      by (simp add: grant_posting_def t(1) grown_find_transaction [OF g t(1)] grown_event [OF g])
  qed
  then have "filter (grant_posting account db') (tarot_postings db)
      = filter (grant_posting account db) (tarot_postings db)" by (intro filter_cong) auto
  then show ?thesis by (simp add: starting_grants_eq ps)
qed

section \<open>The audit as an invariant\<close>

definition audit_ok_db :: "ledger_db \<Rightarrow> bool" where
  "audit_ok_db db \<longleftrightarrow>
     (\<forall>t \<in> set (tarot_transactions db). tx_clean db t \<and> \<not> reward_mismatch db t)
     \<and> (\<forall>c \<in> set (tarot_claims db). claim_clean db c)
     \<and> (\<forall>d \<in> set (tarot_draws db). \<not> orphaned_draw db d)
     \<and> (\<forall>r \<in> set (tarot_receipts db). \<not> orphaned_receipt db r)
     \<and> (\<forall>a \<in> set (tarot_accounts db). \<not> ungranted db a)"

definition keys_ok :: "ledger_db \<Rightarrow> bool" where
  "keys_ok db \<longleftrightarrow> distinct (map event_id (event_journal db)) \<and> distinct (map claim_id (tarot_claims db))"

text \<open>The replay finds nothing to count on good books.\<close>

lemma replay_postings_quiet:
  assumes "\<And>t p. (t, p) \<in> set rows \<Longrightarrow> balances (posting_account p) \<noteq> None"
    and "\<And>a b human. balances a = Some (b, human) \<Longrightarrow>
      runs in64 b (map (\<lambda>(t, p). amount p) (filter (\<lambda>(t, p). posting_account p = a) rows))
      \<and> (human \<longrightarrow> runs (\<lambda>b. 0 \<le> b) b (map (\<lambda>(t, p). amount p) (filter (\<lambda>(t, p). posting_account p = a) rows)))"
  shows "replay_postings rows balances report = report"
  using assms
proof (induction rows arbitrary: balances)
  case (Cons row rows)
  obtain t p where row: "row = (t, p)" by (cases row) auto
  obtain b human where b: "balances (posting_account p) = Some (b, human)"
    using Cons.prems(1) [of t p] row by auto
  have ok: "in64 (b + amount p)" "human \<Longrightarrow> 0 \<le> b + amount p"
    using Cons.prems(2) [OF b] row by auto
  have "replay_postings rows (balances(posting_account p \<mapsto> (b + amount p, human))) report = report"
  proof (rule Cons.IH)
    fix t' p' assume "(t', p') \<in> set rows"
    then show "(balances(posting_account p \<mapsto> (b + amount p, human))) (posting_account p') \<noteq> None"
      using Cons.prems(1) [of t' p'] by auto
  next
    fix a b' human' assume "(balances(posting_account p \<mapsto> (b + amount p, human))) a = Some (b', human')"
    then show "runs in64 b' (map (\<lambda>(t, p). amount p) (filter (\<lambda>(t, p). posting_account p = a) rows))
      \<and> (human' \<longrightarrow> runs (\<lambda>b. 0 \<le> b) b' (map (\<lambda>(t, p). amount p) (filter (\<lambda>(t, p). posting_account p = a) rows)))"
      using Cons.prems(2) [OF b] Cons.prems(2) [of a b' human'] row by (auto split: if_splits)
  qed
  then show ?case using ok by (auto simp: row b checked_add_in64)
qed simp

lemma check_invariants_quiet:
  assumes b: "books_ok db" and a: "audit_ok_db db"
  shows "report_valid (check_invariants db)"
proof -
  have amounts: "map (\<lambda>(t, p). amount p) (filter (\<lambda>(t, p). posting_account p = i) (ledger_postings db))
      = account_amounts i db" for i
    using account_postings_amounts [OF b] unfolding account_postings_def .
  have "replay_postings (ledger_postings db) (opening_balances (tarot_accounts db)) (counted db) = counted db"
  proof (rule replay_postings_quiet)
    fix t p assume "(t, p) \<in> set (ledger_postings db)"
    then have "posting_account p \<in> account_ids db" using books_okD(6) [OF b] by (auto simp: ledger_postings_def)
    then show "opening_balances (tarot_accounts db) (posting_account p) \<noteq> None"
      by (auto simp: opening_balances_def account_ids_def find_row_None)
  next
    fix i c human assume "opening_balances (tarot_accounts db) i = Some (c, human)"
    then obtain r where "r \<in> set (tarot_accounts db)" "account_id r = i" "c = 0" "human = (account_kind r = Human)"
      by (auto simp: opening_balances_def dest: find_row_Some)
    then show "runs in64 c (map (\<lambda>(t, p). amount p) (filter (\<lambda>(t, p). posting_account p = i) (ledger_postings db)))
        \<and> (human \<longrightarrow> runs (\<lambda>b. 0 \<le> b) c (map (\<lambda>(t, p). amount p) (filter (\<lambda>(t, p). posting_account p = i) (ledger_postings db))))"
      unfolding amounts using books_okD(7) [OF b] by (auto simp: within_bounds_def)
  qed
  moreover have "how_many (\<lambda>t. \<not> committed t) (tarot_transactions db) = 0"
    "how_many (unbalanced db) (tarot_transactions db) = 0"
    using books_okD(5) [OF b] by (auto simp: how_many_0 unbalanced_def tx_balanced_def)
  moreover have "how_many (illegal_reversal db) (tarot_transactions db) = 0"
    "how_many test_grant (tarot_transactions db) = 0" "how_many (reward_mismatch db) (tarot_transactions db) = 0"
    "how_many (orphaned_transaction db) (tarot_transactions db) = 0"
    "how_many (claim_mismatch db) (tarot_claims db) = 0" "how_many (orphaned_claim db) (tarot_claims db) = 0"
    "how_many (orphaned_draw db) (tarot_draws db) = 0" "how_many (orphaned_receipt db) (tarot_receipts db) = 0"
    "how_many (ungranted db) (tarot_accounts db) = 0"
    using a claim_not_orphaned [of db] by (auto simp: how_many_0 audit_ok_db_def tx_clean_def claim_clean_def)
  ultimately show ?thesis
    by (simp add: check_invariants_def Let_def counted_def orphaned_links_def)
qed

end
