(* ===== verification/Tarot_Life.thy ===== *)
theory Tarot_Life
  imports Tarot_Growth
begin

text \<open>
  Every operation of the Tarot repository grows the tables and keeps the books and the audit: the
  ledger operations, through one lemma on an entry of two postings, and the operations on
  claims, buttons, receipts and pages.
\<close>

section \<open>Events\<close>

lemma insert_event_Inr:
  assumes "insert_event ok e db = Inr (b, db')"
  shows "db' = db \<and> e \<in> set (event_journal db)
     \<or> db' = db\<lparr>event_journal := event_journal db @ [e]\<rparr> \<and> event_id e \<notin> event_id ` set (event_journal db)"
  using assms
  by (auto simp: insert_event_def rbind_eq_Inr event_matches_def dest: find_row_Some
      split: if_splits option.splits)

lemma record_event_Inr:
  assumes "record_event J call i type aggregate_type aggregate key payload db = Inr (b, db')"
  obtains e es where "db' = db\<lparr>event_journal := event_journal db @ es\<rparr>" "e \<in> set (event_journal db')"
    "event_id e = i" "event_type e = type" "event_aggregate_type e = aggregate_type"
    "event_aggregate_id e = aggregate" "actor_user_id e = Some (inv_user call)"
    "event_guild_id e = inv_guild call" "event_channel_id e = Some (inv_channel call)"
    "keys_ok db \<Longrightarrow> keys_ok db'"
proof -
  obtain text' where i: "insert_event (json_text_ok J) (event_for call i type aggregate_type aggregate key text') db = Inr (b, db')"
    using assms by (auto simp: record_event_def rbind_eq_Inr)
  let ?e = "event_for call i type aggregate_type aggregate key text'"
  from insert_event_Inr [OF i] show ?thesis
  proof
    assume "db' = db \<and> ?e \<in> set (event_journal db)"
    then show ?thesis by (intro that [of "[]" ?e]) (simp_all add: event_for_def)
  next
    assume "db' = db\<lparr>event_journal := event_journal db @ [?e]\<rparr> \<and> event_id ?e \<notin> event_id ` set (event_journal db)"
    then show ?thesis by (intro that [of "[?e]" ?e]) (auto simp: event_for_def keys_ok_def)
  qed
qed

section \<open>Frames\<close>

text \<open>The books and the keys look at their own tables only.\<close>

lemma books_same:
  assumes "tarot_accounts db' = tarot_accounts db" "tarot_transactions db' = tarot_transactions db"
    "tarot_postings db' = tarot_postings db"
  shows "books_ok db' = books_ok db"
  using assms by (simp add: books_ok_def tx_balanced_def postings_of_def within_bounds_def
      account_amounts_def account_ids_def)

lemma grown_same_ledger:
  assumes "tarot_accounts db' = tarot_accounts db" "tarot_transactions db' = tarot_transactions db"
    "tarot_postings db' = tarot_postings db" "tarot_claims db' = tarot_claims db @ new"
    "event_journal db' = event_journal db @ es" "tarot_draws db' = tarot_draws db @ ds"
    "tarot_receipts db' = tarot_receipts db @ rs" "outbox_messages db' = outbox_messages db"
    "no_new_buttons db db'" "wager_cleanups db' = wager_cleanups db" "house_cleanups db' = house_cleanups db"
  shows "grown db db'"
proof -
  have "\<exists>cs new. tarot_claims db' = cs @ new \<and> list_all2 claim_later (tarot_claims db) cs"
    using assms(4) by (intro exI [of _ "tarot_claims db"] exI [of _ new]) simp
  moreover have "\<forall>m \<in> set (outbox_messages db). \<exists>n \<in> set (outbox_messages db'). same_message m n"
    using assms(8) same_message_refl by metis
  ultimately show ?thesis using assms by (simp add: grown_def users_ok_def)
qed

lemma no_new_same [simp]: "interaction_buttons db' = interaction_buttons db \<Longrightarrow> no_new_buttons db db'"
  by (simp add: no_new_buttons_def)

text \<open>What has to be shown of the rows an operation adds or changes.\<close>

lemma audit_grown:
  assumes a: "audit_ok_db db" and g: "grown db db'"
    and t: "\<And>t. t \<in> set (tarot_transactions db') \<Longrightarrow> t \<notin> set (tarot_transactions db) \<Longrightarrow>
      tx_clean db' t \<and> \<not> reward_mismatch db' t"
    and c: "\<And>c. c \<in> set (tarot_claims db') \<Longrightarrow> c \<notin> set (tarot_claims db) \<Longrightarrow> claim_clean db' c"
    and d: "\<And>d. d \<in> set (tarot_draws db') \<Longrightarrow> d \<notin> set (tarot_draws db) \<Longrightarrow> \<not> orphaned_draw db' d"
    and r: "\<And>r. r \<in> set (tarot_receipts db') \<Longrightarrow> r \<notin> set (tarot_receipts db) \<Longrightarrow> \<not> orphaned_receipt db' r"
    and u: "\<And>a. a \<in> set (tarot_accounts db') \<Longrightarrow> \<not> ungranted db' a"
  shows "audit_ok_db db'"
proof -
  have "tx_clean db' x \<and> \<not> reward_mismatch db' x" if "x \<in> set (tarot_transactions db')" for x
  proof (cases "x \<in> set (tarot_transactions db)")
    case True
    then have "tx_clean db x" "\<not> reward_mismatch db x" using a by (auto simp: audit_ok_db_def)
    then show ?thesis using tx_clean_grown [OF g True] reward_claimed_grown [OF g]
      by (auto simp: reward_mismatch_def)
  qed (use t that in blast)
  moreover have "claim_clean db' x" if "x \<in> set (tarot_claims db')" for x
    using a c [OF that] claim_clean_grown [OF g] that unfolding audit_ok_db_def by blast
  moreover have "\<not> orphaned_draw db' x" if "x \<in> set (tarot_draws db')" for x
    using a d [OF that] draw_kept_grown [OF g] that unfolding audit_ok_db_def by blast
  moreover have "\<not> orphaned_receipt db' x" if "x \<in> set (tarot_receipts db')" for x
    using a r [OF that] receipt_kept_grown [OF g] that unfolding audit_ok_db_def by blast
  ultimately show ?thesis using u unfolding audit_ok_db_def by blast
qed

lemma tx_cleans: "audit_ok_db db \<Longrightarrow> t \<in> set (tarot_transactions db) \<Longrightarrow> tx_clean db t"
  by (simp add: audit_ok_db_def)

lemma still_granted:
  assumes "books_ok db" "audit_ok_db db" "grown db db'" "tarot_postings db' = tarot_postings db @ ps"
    and "a \<in> set (tarot_accounts db)" "filter (grant_posting (account_id a) db') ps = []"
  shows "\<not> ungranted db' a"
  using starting_grants_grown [OF assms(1,3) tx_cleans [OF assms(2)] assms(4), of "account_id a"] assms(2,5,6)
  by (auto simp: ungranted_def audit_ok_db_def)

text \<open>An operation that leaves the ledger alone.\<close>

lemma audit_same_ledger:
  assumes "books_ok db" "audit_ok_db db" "grown db db'" "tarot_accounts db' = tarot_accounts db"
    "tarot_transactions db' = tarot_transactions db" "tarot_postings db' = tarot_postings db"
    and "\<And>c. c \<in> set (tarot_claims db') \<Longrightarrow> c \<notin> set (tarot_claims db) \<Longrightarrow> claim_clean db' c"
    and "\<And>d. d \<in> set (tarot_draws db') \<Longrightarrow> d \<notin> set (tarot_draws db) \<Longrightarrow> \<not> orphaned_draw db' d"
    and "\<And>r. r \<in> set (tarot_receipts db') \<Longrightarrow> r \<notin> set (tarot_receipts db) \<Longrightarrow> \<not> orphaned_receipt db' r"
  shows "audit_ok_db db'"
proof (rule audit_grown [OF assms(2,3)])
  fix a assume "a \<in> set (tarot_accounts db')"
  then show "\<not> ungranted db' a"
    using assms(4) by (intro still_granted [OF assms(1-3), of "[]"]) (simp_all add: assms(6))
qed (use assms in auto)

section \<open>Accounts\<close>

lemma books_account:
  assumes "books_ok db" "account_id a \<notin> account_ids db"
  shows "books_ok (db\<lparr>tarot_accounts := tarot_accounts db @ [a]\<rparr>)"
proof -
  have none: "account_amounts (account_id a) (db\<lparr>tarot_accounts := tarot_accounts db @ [a]\<rparr>) = []"
    using assms(2) by (auto simp: account_amounts_def filter_empty_conv dest!: books_okD(6) [OF assms(1)])
  have same: "account_amounts i (db\<lparr>tarot_accounts := tarot_accounts db @ [a]\<rparr>) = account_amounts i db"
    "postings_of i (db\<lparr>tarot_accounts := tarot_accounts db @ [a]\<rparr>) = postings_of i db" for i
    by (simp_all add: account_amounts_def postings_of_def)
  have "within_bounds (db\<lparr>tarot_accounts := tarot_accounts db @ [a]\<rparr>)"
    using books_okD(7) [OF assms(1)] none unfolding within_bounds_def same by (auto simp: same)
  then show ?thesis
    using books_okD(1-4,6) [OF assms(1)] books_okD(5) [OF assms(1)] assms(2)
    by (auto simp: books_ok_def tx_balanced_def same account_ids_def)
qed

lemma grown_account:
  assumes "account_kind a \<noteq> Human \<or> (\<forall>b \<in> set (tarot_accounts db). account_user b \<noteq> account_user a)"
  shows "grown db (db\<lparr>tarot_accounts := tarot_accounts db @ [a]\<rparr>)"
proof -
  have "users_ok db \<Longrightarrow> users_ok (db\<lparr>tarot_accounts := tarot_accounts db @ [a]\<rparr>)"
    using assms by (auto simp: users_ok_def)
  moreover have "\<exists>cs new. tarot_claims db = cs @ new \<and> list_all2 claim_later (tarot_claims db) cs"
    by (intro exI [of _ "tarot_claims db"] exI [of _ "[]"]) simp
  moreover have "\<forall>m \<in> set (outbox_messages db). \<exists>n \<in> set (outbox_messages db). same_message m n"
    using same_message_refl by blast
  ultimately show ?thesis by (simp add: grown_def no_new_buttons_def)
qed

section \<open>Entries\<close>

text \<open>
  An event followed by a transaction of two postings that is sealed: what all the operations on the
  ledger have in common.
\<close>

definition entered :: "event_row list \<Rightarrow> transaction_row \<Rightarrow> posting_row list \<Rightarrow> ledger_db \<Rightarrow> ledger_db" where
  "entered es t ps db = (posts t ps db)\<lparr>event_journal := event_journal db @ es\<rparr>"

lemma grown_entered:
  assumes "transaction_id t \<notin> tx_ids db" "\<forall>p \<in> set ps. posting_transaction p = transaction_id t"
  shows "grown db (entered es t ps db)"
proof -
  have "\<exists>cs new. tarot_claims db = cs @ new \<and> list_all2 claim_later (tarot_claims db) cs"
    by (intro exI [of _ "tarot_claims db"] exI [of _ "[]"]) simp
  moreover have "\<forall>m \<in> set (outbox_messages db). \<exists>n \<in> set (outbox_messages db). same_message m n"
    using same_message_refl by blast
  ultimately show ?thesis using assms by (simp add: grown_def users_ok_def entered_def posts_def)
qed

lemma ledger_entry:
  assumes ok: "books_ok db" "keys_ok db"
    and e: "record_event J call event ety aty aggregate ekey payload db = Inr (b, db0)"
    and t: "insert_transaction i type event key (inv_user call) reason is_test reverses now db0 = Inr db1"
    and p: "insert_posting i1 i a1 x1 now db1 = Inr db2" "insert_posting i2 i a2 x2 now db2 = Inr db3"
    and s: "seal_transaction i now db3 = Inr db'"
    and audit: "type \<in> {Test_adjustment, Test_reversal} \<Longrightarrow> aty = ''tarot_transaction'' \<and> aggregate = i
      \<and> ety = (if type = Test_adjustment then ''tarot.admin_adjusted.v1'' else ''tarot.transaction_reversed.v1'')"
  obtains es e seq where
    "db' = entered es (sealed_row i type event key (inv_user call) reason is_test reverses now seq)
       [posting_of i1 i a1 x1 now, posting_of i2 i a2 x2 now] db"
    "grown db db'" "books_ok db'" "keys_ok db'"
    "tx_clean db' (sealed_row i type event key (inv_user call) reason is_test reverses now seq)"
    "sealed_ok (sealed_row i type event key (inv_user call) reason is_test reverses now seq) db'"
    "seal_link (sealed_row i type event key (inv_user call) reason is_test reverses now seq) db'"
    "find_row event_id event (event_journal db') = Some e" "event_type e = ety"
    "event_aggregate_type e = aty" "event_aggregate_id e = aggregate"
    "i \<notin> tx_ids db" "x1 + x2 = 0" "a1 \<noteq> a2" "a1 \<in> account_ids db" "a2 \<in> account_ids db"
proof -
  obtain e es where e: "db0 = db\<lparr>event_journal := event_journal db @ es\<rparr>" "e \<in> set (event_journal db0)"
    "event_id e = event" "event_type e = ety" "event_aggregate_type e = aty"
    "event_aggregate_id e = aggregate" "actor_user_id e = Some (inv_user call)" "keys_ok db0"
    using record_event_Inr [OF e] ok(2) by metis
  have b0: "books_ok db0" using ok(1) books_same [of db0 db] by (simp add: e(1))
  note two = two_postings [OF b0 t p s]
  let ?seq = "next_sequence db0"
  let ?row = "sealed_row i type event key (inv_user call) reason is_test reverses now ?seq"
  let ?ps = "[posting_of i1 i a1 x1 now, posting_of i2 i a2 x2 now]"
  have db': "db' = entered es ?row ?ps db" using two(1) by (simp add: e(1) entered_def posts_def)
  have i: "i \<notin> tx_ids db" using two(5) by (simp add: e(1) tx_ids_def)
  have g: "grown db db'" unfolding db' using i by (intro grown_entered) simp_all
  have j: "event_journal db' = event_journal db0" "tarot_claims db' = tarot_claims db0"
    by (simp_all add: db' e(1) entered_def posts_def)
  have keys: "keys_ok db'" using e(8) j by (simp add: keys_ok_def)
  have "distinct (map event_id (event_journal db'))" using keys by (simp add: keys_ok_def)
  then have f: "find_row event_id event (event_journal db') = Some e"
    using find_row_unique [of event_id "event_journal db'" e] e(2,3) j by simp
  have "audit_event ?row db'" if "type \<in> {Test_adjustment, Test_reversal}"
    using audit [OF that] e j unfolding audit_event_def list_ex_iff
    by (intro bexI [of _ e]) simp_all
  then have clean: "tx_clean db' ?row"
    using two(3,6,14,15) keys j by (intro sealed_clean) (auto simp: keys_ok_def)
  have ids: "a1 \<in> account_ids db" "a2 \<in> account_ids db" using two(10,11) by (simp_all add: e(1) account_ids_def)
  show ?thesis
    by (rule that [OF db' g two(2) keys clean two(3) two(4) f e(4-6) i two(8,9) ids])
qed

text \<open>An entry that is neither a grant nor a reward keeps the audit.\<close>

lemma audit_entered:
  assumes "books_ok db" "audit_ok_db db" "grown db (entered es t ps db)" "tx_clean (entered es t ps db) t"
    and "transaction_type t \<notin> {Starting_grant, Grace_reward, Trial_reward}"
    and "transaction_id t \<notin> tx_ids db" "\<forall>p \<in> set ps. posting_transaction p = transaction_id t"
  shows "audit_ok_db (entered es t ps db)"
proof (rule audit_grown [OF assms(2,3)])
  let ?db = "entered es t ps db"
  have found: "find_transaction (transaction_id t) ?db = Some t"
    using assms(6) by (simp add: find_transaction_def entered_def posts_def find_row_append_new tx_ids_def)
  fix a assume "a \<in> set (tarot_accounts ?db)"
  then have a: "a \<in> set (tarot_accounts db)" by (simp add: entered_def posts_def)
  have "filter (grant_posting (account_id a) ?db) ps = []"
    using assms(5,7) found by (auto simp: filter_empty_conv grant_posting_def)
  with a show "\<not> ungranted ?db a"
    by (intro still_granted [OF assms(1-3), of ps]) (simp_all add: entered_def posts_def)
qed (use assms(4,5) in \<open>auto simp: entered_def posts_def reward_mismatch_def\<close>)

lemma account_sum_entered:
  "account_sum a (entered es t ps db) = account_sum a db
     + sum_list (map amount (filter (\<lambda>p. posting_account p = a) ps))"
  by (simp add: account_sum_def account_amounts_def entered_def posts_def)

lemma entered_same [simp]:
  "tarot_accounts (entered es t ps db) = tarot_accounts db"
  "tarot_claims (entered es t ps db) = tarot_claims db"
  "tarot_receipts (entered es t ps db) = tarot_receipts db"
  "tarot_draws (entered es t ps db) = tarot_draws db"
  "interaction_buttons (entered es t ps db) = interaction_buttons db"
  "outbox_messages (entered es t ps db) = outbox_messages db"
  "tarot_transactions (entered es t ps db) = tarot_transactions db @ [t]"
  "tarot_postings (entered es t ps db) = tarot_postings db @ ps"
  "event_journal (entered es t ps db) = event_journal db @ es"
  by (simp_all add: entered_def posts_def)

section \<open>The invariant\<close>

text \<open>
  Two rewards of one account, kind and namespace are at least a cooldown apart.
\<close>

definition same_recovery :: "claim_row \<Rightarrow> claim_row \<Rightarrow> bool" where
  "same_recovery c d \<longleftrightarrow> claim_account c = claim_account d \<and> claim_kind c = claim_kind d
     \<and> claim_is_test c = claim_is_test d"

definition follows :: "claim_row \<Rightarrow> claim_row \<Rightarrow> bool" where
  "follows c d \<longleftrightarrow> (case (claim_cooldown_until c, claim_completed_at d) of
      (Some until, Some done) \<Rightarrow> until \<le> done | _ \<Rightarrow> False)"

definition spaced :: "claim_row list \<Rightarrow> bool" where
  "spaced cs \<longleftrightarrow> (\<forall>c \<in> set cs. claim_state c = Claim_completed \<longrightarrow> claim_cooldown_until c \<noteq> None)
     \<and> (\<forall>c \<in> set cs. \<forall>d \<in> set cs. claim_state c = Claim_completed
     \<and> claim_state d = Claim_completed \<and> claim_id c \<noteq> claim_id d \<and> same_recovery c d
     \<longrightarrow> follows c d \<or> follows d c)"

definition tarot_ok :: "ledger_db \<Rightarrow> bool" where
  "tarot_ok db \<longleftrightarrow> books_ok db \<and> audit_ok_db db \<and> keys_ok db \<and> spaced (tarot_claims db)"

lemma tarot_okD:
  assumes "tarot_ok db"
  shows "books_ok db" "audit_ok_db db" "keys_ok db" "spaced (tarot_claims db)"
  using assms by (auto simp: tarot_ok_def)

lemma tarot_same_ledger:
  assumes ok: "tarot_ok db" and g: "grown db db'"
    and "tarot_accounts db' = tarot_accounts db"
    "tarot_transactions db' = tarot_transactions db" "tarot_postings db' = tarot_postings db"
    and "\<And>c. c \<in> set (tarot_claims db') \<Longrightarrow> c \<notin> set (tarot_claims db) \<Longrightarrow> claim_clean db' c"
    and "\<And>d. d \<in> set (tarot_draws db') \<Longrightarrow> d \<notin> set (tarot_draws db) \<Longrightarrow> \<not> orphaned_draw db' d"
    and "\<And>r. r \<in> set (tarot_receipts db') \<Longrightarrow> r \<notin> set (tarot_receipts db) \<Longrightarrow> \<not> orphaned_receipt db' r"
    and "keys_ok db'" "spaced (tarot_claims db')"
  shows "tarot_ok db'"
  using books_same [OF assms(3-5)] audit_same_ledger [OF tarot_okD(1,2) [OF ok] g assms(3-8)]
    tarot_okD(1) [OF ok] assms(9,10)
  by (simp add: tarot_ok_def)

section \<open>Receipts\<close>

lemma insert_receipt_Inr:
  assumes "insert_receipt J key operation account request result claim tx now db = Inr db'"
  obtains r where "db' = db\<lparr>tarot_receipts := tarot_receipts db @ [r]\<rparr>" "receipt_key r = key"
    "receipt_operation r = operation" "receipt_account r = account" "receipt_claim r = claim"
    "receipt_transaction r = tx" "json_dump J request = Some (receipt_request r)"
    "json_dump J result = Some (receipt_result r)" "key \<notin> receipt_key ` set (tarot_receipts db)"
    "receipt_check J r db"
proof -
  obtain q w where "json_dump J request = Some q" "json_dump J result = Some w"
    using assms by (auto simp: insert_receipt_def rbind_eq_Inr dumped_Inr)
  then show ?thesis
    using assms by (intro that [of "\<lparr>receipt_key = key, receipt_operation = operation,
       receipt_account = account, receipt_request = q, receipt_result = w, receipt_claim = claim,
       receipt_transaction = tx, receipt_created_at = now\<rparr>"])
      (simp_all add: insert_receipt_def dumped_def Let_def rbind_eq_Inr)
qed

lemma insert_receipt_ok:
  assumes "insert_receipt J key operation account request result claim tx now db = Inr db'"
    and ok: "tarot_ok db"
  shows "tarot_ok db'" "grown db db'" "tarot_postings db' = tarot_postings db"
    "tarot_transactions db' = tarot_transactions db" "tarot_accounts db' = tarot_accounts db"
    "tarot_claims db' = tarot_claims db"
proof -
  obtain r where r: "db' = db\<lparr>tarot_receipts := tarot_receipts db @ [r]\<rparr>" "receipt_check J r db"
    by (rule insert_receipt_Inr [OF assms(1)])
  have g: "grown db db'"
    by (rule grown_same_ledger [where new = "[]" and es = "[]" and ds = "[]" and rs = "[r]"]) (simp_all add: r(1))
  have "\<not> orphaned_receipt db' r" using r by (simp add: orphaned_receipt_def receipt_check_def)
  then show "tarot_ok db'"
    using tarot_okD(3,4) [OF ok] by (intro tarot_same_ledger [OF ok g]) (auto simp: r(1) keys_ok_def)
  show "grown db db'" by (rule g)
  show "tarot_postings db' = tarot_postings db" "tarot_transactions db' = tarot_transactions db"
    "tarot_accounts db' = tarot_accounts db" "tarot_claims db' = tarot_claims db"
    by (simp_all add: r(1))
qed

section \<open>Adjustments and reversals\<close>

lemma unique_row_Some: "unique_row e rows = Inr (Some r) \<longleftrightarrow> rows = [r]"
  by (auto simp: unique_row_def split: list.split)

lemma account_for_user_Some:
  assumes "account_for_user user db = Inr (Some account)"
  obtains a where "a \<in> set (tarot_accounts db)" "account_id a = account" "account_kind a = Human"
    "account_user a = Some user"
proof -
  obtain a where a: "filter (\<lambda>a. account_kind a = Human \<and> account_user a = Some user) (tarot_accounts db) = [a]"
      "account_id a = account"
    using assms by (auto simp: account_for_user_def rbind_eq_Inr unique_row_Some)
  then have "a \<in> set (filter (\<lambda>a. account_kind a = Human \<and> account_user a = Some user) (tarot_accounts db))"
    by simp
  then show ?thesis by (intro that [OF _ a(2)]) simp_all
qed

lemma account_for_user_human:
  assumes "books_ok db" "account_for_user user db = Inr (Some account)"
  shows "kind_of account db = Some Human" "account \<in> account_ids db"
proof -
  obtain a where "a \<in> set (tarot_accounts db)" "account_id a = account" "account_kind a = Human"
    by (rule account_for_user_Some [OF assms(2)])
  then show "kind_of account db = Some Human" "account \<in> account_ids db"
    using books_okD(3) [OF assms(1)] by (auto simp: kind_of_Some account_ids_def)
qed

lemma system_account_kind:
  assumes "books_ok db" "system_account kind db = Inr account"
  shows "kind_of account db = Some kind"
proof -
  obtain a where a: "filter (\<lambda>a. account_kind a = kind) (tarot_accounts db) = [a]" "account_id a = account"
    using assms(2) by (auto simp: system_account_def rbind_eq_Inr unique_row_Some split: option.splits)
  then have "a \<in> set (filter (\<lambda>a. account_kind a = kind) (tarot_accounts db))" by simp
  then show ?thesis using books_okD(3) [OF assms(1)] a(2) by (auto simp: kind_of_Some)
qed

text \<open>What the operations on an account leave to the other participants.\<close>

definition others_kept :: "string \<Rightarrow> ledger_db \<Rightarrow> ledger_db \<Rightarrow> bool" where
  "others_kept account db db' \<longleftrightarrow> (\<forall>a. a \<noteq> account \<longrightarrow> kind_of a db = Some Human \<longrightarrow>
     account_sum a db' = account_sum a db)"

lemma plain_entry:
  assumes ok: "tarot_ok db"
    and e: "record_event J call event ety aty aggregate ekey payload db = Inr (b, db0)"
    and t: "insert_transaction i type event key (inv_user call) reason is_test reverses now db0 = Inr db1"
    and p: "insert_posting i1 i a1 x1 now db1 = Inr db2" "insert_posting i2 i a2 x2 now db2 = Inr db3"
    and s: "seal_transaction i now db3 = Inr db'"
    and type: "type \<in> {Test_adjustment, Test_reversal}"
    and audit: "aty = ''tarot_transaction'' \<and> aggregate = i
      \<and> ety = (if type = Test_adjustment then ''tarot.admin_adjusted.v1'' else ''tarot.transaction_reversed.v1'')"
  obtains es seq where
    "db' = entered es (sealed_row i type event key (inv_user call) reason is_test reverses now seq)
       [posting_of i1 i a1 x1 now, posting_of i2 i a2 x2 now] db"
    "tarot_ok db'" "grown db db'" "i \<notin> tx_ids db" "x1 + x2 = 0" "a1 \<noteq> a2" "a1 \<in> account_ids db" "a2 \<in> account_ids db"
proof -
  let ?row = "\<lambda>seq. sealed_row i type event key (inv_user call) reason is_test reverses now seq"
  obtain es seq where l: "db' = entered es (?row seq) [posting_of i1 i a1 x1 now, posting_of i2 i a2 x2 now] db"
    "grown db db'" "books_ok db'" "keys_ok db'" "tx_clean db' (?row seq)" "i \<notin> tx_ids db" "x1 + x2 = 0"
    "a1 \<noteq> a2" "a1 \<in> account_ids db" "a2 \<in> account_ids db"
    by (rule ledger_entry [OF tarot_okD(1,3) [OF ok] e t p s audit]) metis
  have "audit_ok_db db'"
    unfolding l(1) using l(2,5,6) type
    by (intro audit_entered [OF tarot_okD(1,2) [OF ok]]) (auto simp: l(1))
  then have "tarot_ok db'" using l(1,3,4) tarot_okD(4) [OF ok] by (simp add: tarot_ok_def)
  then show ?thesis using that l by metis
qed

lemma entry_accounts:
  assumes "record_event J call event ety aty aggregate ekey payload db = Inr (b, db0)"
    "insert_transaction i type event key actor reason is_test reverses now db0 = Inr db1"
  shows "tarot_accounts db1 = tarot_accounts db"
proof -
  obtain es where "db0 = db\<lparr>event_journal := event_journal db @ es\<rparr>" by (rule record_event_Inr [OF assms(1)])
  then show ?thesis by (simp add: insert_transaction_Inr(1) [OF assms(2)])
qed

lemma system_account_same:
  "tarot_accounts db' = tarot_accounts db \<Longrightarrow> system_account kind db' = system_account kind db"
  by (simp add: system_account_def)

lemma post_adjustment_ok:
  assumes "post_adjustment J req account db = Inr db'" "tarot_ok db"
  shows "tarot_ok db'" "grown db db'" "tarot_claims db' = tarot_claims db"
    "tarot_accounts db' = tarot_accounts db" "tarot_receipts db' = tarot_receipts db"
    "account_sum account db' = account_sum account db + adj_amount req" "others_kept account db db'"
    "adj_transaction req \<in> tx_ids db'"
    "\<exists>t. find_transaction (adj_transaction req) db' = Some t \<and> tx_actor t = Some (inv_user (adj_invocation req))"
    "kind_of a db \<in> {None, Some Human} \<Longrightarrow> sum_list (map amount (filter (\<lambda>p. posting_account p = a)
       (postings_of (adj_transaction req) db'))) = (if a = account then adj_amount req else 0)"
proof -
  let ?call = "adj_invocation req"
  obtain b db0 db1 system db2 db3 where c:
    "record_event J ?call (adj_event req) ''tarot.admin_adjusted.v1'' ''tarot_transaction''
       (adj_transaction req) (adjust_key req)
       [(''is_test'', J_bool True), (''reason'', J_string (adj_reason req))] db = Inr (b, db0)"
    "insert_transaction (adj_transaction req) Test_adjustment (adj_event req) (adjust_key req)
       (inv_user ?call) (Some (adj_reason req)) True None (inv_now ?call) db0 = Inr db1"
    "system_account (if 0 < adj_amount req then Mint else Burn) db1 = Inr system"
    "insert_posting (adj_system_posting req) (adj_transaction req) system (- adj_amount req) (inv_now ?call) db1 = Inr db2"
    "insert_posting (adj_human_posting req) (adj_transaction req) account (adj_amount req) (inv_now ?call) db2 = Inr db3"
    "seal_transaction (adj_transaction req) (inv_now ?call) db3 = Inr db'"
    using assms(1) by (auto simp: post_adjustment_def Let_def rbind_eq_Inr split: prod.splits)
  obtain es seq where l: "db' = entered es (sealed_row (adj_transaction req) Test_adjustment (adj_event req)
      (adjust_key req) (inv_user ?call) (Some (adj_reason req)) True None (inv_now ?call) seq)
      [posting_of (adj_system_posting req) (adj_transaction req) system (- adj_amount req) (inv_now ?call),
       posting_of (adj_human_posting req) (adj_transaction req) account (adj_amount req) (inv_now ?call)] db"
    "tarot_ok db'" "grown db db'" "adj_transaction req \<notin> tx_ids db" "system \<noteq> account"
    by (rule plain_entry [OF assms(2) c(1,2,4,5,6)]) auto
  have "system_account (if 0 < adj_amount req then Mint else Burn) db = Inr system"
    using c(3) unfolding system_account_same [OF entry_accounts [OF c(1,2)]] .
  from system_account_kind [OF tarot_okD(1) [OF assms(2)] this]
  have k: "kind_of system db \<notin> {None, Some Human}" by (simp split: if_splits)
  show "tarot_ok db'" "grown db db'" by (fact l)+
  show "tarot_claims db' = tarot_claims db" "tarot_accounts db' = tarot_accounts db"
    "tarot_receipts db' = tarot_receipts db"
    "account_sum account db' = account_sum account db + adj_amount req"
    using l(5) by (simp_all add: l(1) account_sum_entered)
  show "others_kept account db db'" using k by (auto simp: others_kept_def l(1) account_sum_entered)
  show "adj_transaction req \<in> tx_ids db'" by (simp add: l(1) tx_ids_def)
  show "\<exists>t. find_transaction (adj_transaction req) db' = Some t \<and> tx_actor t = Some (inv_user (adj_invocation req))"
    using l(4) by (simp add: l(1) find_transaction_def find_row_append_new tx_ids_def)
  have "postings_of (adj_transaction req) db = []"
    using l(4) by (auto simp: postings_of_def filter_empty_conv dest!: posting_tx [OF tarot_okD(1) [OF assms(2)]])
  then show "kind_of a db \<in> {None, Some Human} \<Longrightarrow> sum_list (map amount (filter (\<lambda>p. posting_account p = a)
       (postings_of (adj_transaction req) db'))) = (if a = account then adj_amount req else 0)"
    using k l(5) by (auto simp: l(1) postings_of_def)
qed

section \<open>The operations on the ledger\<close>

lemma apply_adjustment_cases:
  assumes "apply_adjustment J req account db = Inr (result, db')"
  obtains (overdraw) current where "balance_for_account account db = Inr current"
      "adj_amount req < 0" "current < - adj_amount req"
      "adjust_receipt J req account ''would_overdraw'' current None db = Inr db'"
      "result = mutation_result_of Would_overdraw current"
  | (applied) current db1 updated where "balance_for_account account db = Inr current"
      "\<not> (adj_amount req < 0 \<and> current < - adj_amount req)"
      "post_adjustment J req account db = Inr db1" "balance_for_account account db1 = Inr updated"
      "adjust_receipt J req account ''applied'' updated (Some (adj_transaction req)) db1 = Inr db'"
      "result = \<lparr>mutation_status = Applied, mutation_transaction = adj_transaction req, mutation_balance = updated\<rparr>"
proof -
  obtain current where c: "balance_for_account account db = Inr current"
    using assms by (auto simp: apply_adjustment_def rbind_eq_Inr)
  show thesis
  proof (cases "adj_amount req < 0 \<and> current < - adj_amount req")
    case True
    then have "adjust_receipt J req account ''would_overdraw'' current None db = Inr db'"
      "result = mutation_result_of Would_overdraw current"
      using assms c by (auto simp: apply_adjustment_def rbind_eq_Inr)
    with True show thesis by (intro overdraw [OF c]) auto
  next
    case False
    then obtain db1 updated where "post_adjustment J req account db = Inr db1"
      "balance_for_account account db1 = Inr updated"
      "adjust_receipt J req account ''applied'' updated (Some (adj_transaction req)) db1 = Inr db'"
      "result = \<lparr>mutation_status = Applied, mutation_transaction = adj_transaction req, mutation_balance = updated\<rparr>"
      using assms c unfolding apply_adjustment_def c rbind_simps if_not_P [OF False] rbind_eq_Inr by blast
    then show thesis by (rule applied [OF c False])
  qed
qed

lemma adjust_cases:
  assumes "adjust J req db = Inr (result, db')"
  obtains (replay) account r where "account_for_user (inv_user (adj_invocation req)) db = Inr (Some account)"
      "adjustment_valid req" "load_receipt J (adjust_key req) db = Inr (Some r)" "db' = db"
      "replay_mutation ''adjust'' [(''would_overdraw'', Would_overdraw)] account (adjustment_json req) r = Inr result"
  | (fresh) account where "account_for_user (inv_user (adj_invocation req)) db = Inr (Some account)"
      "adjustment_valid req" "load_receipt J (adjust_key req) db = Inr None"
      "apply_adjustment J req account db = Inr (result, db')"
proof -
  obtain account found where a: "account_for_user (inv_user (adj_invocation req)) db = Inr (Some account)"
      "adjustment_valid req" "load_receipt J (adjust_key req) db = Inr found"
    using assms by (auto simp: adjust_def rbind_eq_Inr split: option.splits)
  show thesis
  proof (cases found)
    case None
    with assms a have "apply_adjustment J req account db = Inr (result, db')" by (simp add: adjust_def)
    with a None show thesis by (intro fresh) simp_all
  next
    case (Some r)
    with assms a have "db' = db"
      "replay_mutation ''adjust'' [(''would_overdraw'', Would_overdraw)] account (adjustment_json req) r = Inr result"
      by (auto simp: adjust_def rbind_eq_Inr)
    with a Some show thesis by (intro replay) simp_all
  qed
qed

lemma adjust_ok:
  assumes "adjust J req db = Inr (result, db')" "tarot_ok db"
  shows "tarot_ok db'" "grown db db'"
proof -
  from assms(1) have "tarot_ok db' \<and> grown db db'"
  proof (cases rule: adjust_cases)
    case (replay account r) then show ?thesis using assms(2) by simp
  next
    case (fresh account)
    from fresh(4) show ?thesis
    proof (cases rule: apply_adjustment_cases)
      case (overdraw current)
      then show ?thesis using insert_receipt_ok(1,2) [OF overdraw(4) [unfolded adjust_receipt_def] assms(2)] by blast
    next
      case (applied current db1 updated)
      then show ?thesis
        using post_adjustment_ok(1,2) [OF applied(3) assms(2)] insert_receipt_ok(1,2) [OF applied(5) [unfolded adjust_receipt_def]]
          grown_trans by blast
    qed
  qed
  then show "tarot_ok db'" "grown db db'" by auto
qed

lemma post_reversal_ok:
  assumes "post_reversal J req [p, q] db = Inr db'" "tarot_ok db"
  shows "tarot_ok db'" "grown db db'" "tarot_claims db' = tarot_claims db"
    "tarot_accounts db' = tarot_accounts db" "tarot_receipts db' = tarot_receipts db"
    "\<exists>t. tarot_transactions db' = tarot_transactions db @ [t] \<and> committed t
      \<and> reversal_of t = Some (rev_original req)"
    "account_sum a db' = account_sum a db - sum_list (map amount (filter (\<lambda>p. posting_account p = a) [p, q]))"
    "rev_original req \<in> tx_ids db" "\<not> reversed_before (rev_original req) db"
proof -
  let ?call = "rev_invocation req"
  obtain b db0 db1 db2 db3 where c:
    "record_event J ?call (rev_event req) ''tarot.transaction_reversed.v1'' ''tarot_transaction''
       (rev_transaction req) (reverse_key req)
       [(''is_test'', J_bool True), (''reason'', J_string (rev_reason req)),
        (''reversal_of'', J_string (rev_original req))] db = Inr (b, db0)"
    "insert_transaction (rev_transaction req) Test_reversal (rev_event req) (reverse_key req)
       (inv_user ?call) (Some (rev_reason req)) True (Some (rev_original req)) (inv_now ?call) db0 = Inr db1"
    "insert_posting (rev_first_posting req) (rev_transaction req) (posting_account p) (- amount p) (inv_now ?call) db1 = Inr db2"
    "insert_posting (rev_second_posting req) (rev_transaction req) (posting_account q) (- amount q) (inv_now ?call) db2 = Inr db3"
    "seal_transaction (rev_transaction req) (inv_now ?call) db3 = Inr db'"
    using assms(1) by (auto simp: post_reversal_def Let_def rbind_eq_Inr split: prod.splits)
  obtain es seq where l: "db' = entered es (sealed_row (rev_transaction req) Test_reversal (rev_event req)
      (reverse_key req) (inv_user ?call) (Some (rev_reason req)) True (Some (rev_original req)) (inv_now ?call) seq)
      [posting_of (rev_first_posting req) (rev_transaction req) (posting_account p) (- amount p) (inv_now ?call),
       posting_of (rev_second_posting req) (rev_transaction req) (posting_account q) (- amount q) (inv_now ?call)] db"
    "tarot_ok db'" "grown db db'"
    by (rule plain_entry [OF assms(2) c]) auto
  obtain es0 where "db0 = db\<lparr>event_journal := event_journal db @ es0\<rparr>" by (rule record_event_Inr [OF c(1)])
  then show "rev_original req \<in> tx_ids db" "\<not> reversed_before (rev_original req) db"
    using insert_transaction_Inr(5,6) [OF c(2)]
    by (auto simp: tx_ids_def reversed_before_def list_ex_iff image_iff)
  show "tarot_ok db'" "grown db db'" by (fact l)+
  show "tarot_claims db' = tarot_claims db" "tarot_accounts db' = tarot_accounts db"
    "tarot_receipts db' = tarot_receipts db"
    "account_sum a db' = account_sum a db - sum_list (map amount (filter (\<lambda>p. posting_account p = a) [p, q]))"
    "\<exists>t. tarot_transactions db' = tarot_transactions db @ [t] \<and> committed t
      \<and> reversal_of t = Some (rev_original req)"
    by (auto simp: l(1) account_sum_entered)
qed

lemma refuse_reversal_ok:
  assumes "refuse_reversal J req account status refusal db = Inr (result, db')" "tarot_ok db"
  shows "tarot_ok db'" "grown db db'" "tarot_transactions db' = tarot_transactions db"
    "mutation_status result = refusal"
proof -
  obtain current where "reverse_receipt J req account status current None db = Inr db'"
      "result = mutation_result_of refusal current"
    using assms(1) by (auto simp: refuse_reversal_def rbind_eq_Inr)
  then show "tarot_ok db'" "grown db db'" "tarot_transactions db' = tarot_transactions db"
    "mutation_status result = refusal"
    using insert_receipt_ok(1,2,4) assms(2) unfolding reverse_receipt_def
    by (auto simp: mutation_result_of_def)
qed

lemma apply_reversal_cases:
  assumes "apply_reversal J req account db = Inr (result, db')"
  obtains (refused) status refusal where "refuse_reversal J req account status refusal db = Inr (result, db')"
      "refusal \<in> {Not_found, Forbidden, Would_overdraw}"
  | (applied) original p q db1 updated where "find_transaction (rev_original req) db = Some original"
      "reversible (inv_user (rev_invocation req)) original" "\<not> reversed_before (rev_original req) db"
      "original_postings (rev_original req) db = [p, q]" "own_postings account [p, q] db"
      "post_reversal J req [p, q] db = Inr db1" "balance_for_account account db1 = Inr updated"
      "reverse_receipt J req account ''applied'' updated (Some (rev_transaction req)) db1 = Inr db'"
      "result = \<lparr>mutation_status = Applied, mutation_transaction = rev_transaction req, mutation_balance = updated\<rparr>"
proof (cases "find_transaction (rev_original req) db")
  case None
  then have "refuse_reversal J req account ''not_found'' Not_found db = Inr (result, db')"
    using assms by (simp add: apply_reversal_def)
  then show thesis by (rule refused) simp
next
  case (Some original)
  note def = assms [unfolded apply_reversal_def Some option.case]
  show thesis
  proof (cases "reversible (inv_user (rev_invocation req)) original \<and> \<not> reversed_before (rev_original req) db
      \<and> own_postings account (original_postings (rev_original req) db) db")
    case False
    then have "refuse_reversal J req account ''forbidden'' Forbidden db = Inr (result, db')"
      using def by (auto simp: Let_def split: if_splits)
    then show thesis by (rule refused) simp
  next
    case True
    let ?ps = "original_postings (rev_original req) db"
    obtain current where c: "balance_for_account account db = Inr current"
      using def True by (auto simp: rbind_eq_Inr Let_def)
    obtain p q where ps: "?ps = [p, q]"
      using True by (auto simp: own_postings_def length_Suc_conv numeral_2_eq_2)
    show thesis
    proof (cases "inverse_human_amount ?ps db < 0 \<and> current < - inverse_human_amount ?ps db")
      case over: True
      then have "refuse_reversal J req account ''would_overdraw'' Would_overdraw db = Inr (result, db')"
        using def True c by (simp add: Let_def)
      then show thesis by (rule refused) simp
    next
      case False
      then have "commit_reversal J req account ?ps db = Inr (result, db')"
        using def True c by (auto simp: Let_def split: if_splits)
      then obtain db1 updated where "post_reversal J req ?ps db = Inr db1"
        "balance_for_account account db1 = Inr updated"
        "reverse_receipt J req account ''applied'' updated (Some (rev_transaction req)) db1 = Inr db'"
        "result = \<lparr>mutation_status = Applied, mutation_transaction = rev_transaction req, mutation_balance = updated\<rparr>"
        unfolding commit_reversal_def rbind_eq_Inr by blast
      then show thesis using True Some ps by (intro applied) auto
    qed
  qed
qed

lemma reverse_cases:
  assumes "reverse J req db = Inr (result, db')"
  obtains (replay) account r where "account_for_user (inv_user (rev_invocation req)) db = Inr (Some account)"
      "load_receipt J (reverse_key req) db = Inr (Some r)" "db' = db"
      "replay_mutation ''reverse'' reversal_refusals account (reversal_json req) r = Inr result"
  | (fresh) account where "account_for_user (inv_user (rev_invocation req)) db = Inr (Some account)"
      "reversal_valid req" "load_receipt J (reverse_key req) db = Inr None"
      "apply_reversal J req account db = Inr (result, db')"
proof -
  obtain account found where a: "account_for_user (inv_user (rev_invocation req)) db = Inr (Some account)"
      "reversal_valid req" "load_receipt J (reverse_key req) db = Inr found"
    using assms by (auto simp: reverse_def rbind_eq_Inr split: option.splits)
  show thesis
  proof (cases found)
    case None
    with assms a have "apply_reversal J req account db = Inr (result, db')" by (simp add: reverse_def)
    with a None show thesis by (intro fresh) simp_all
  next
    case (Some r)
    with assms a have "db' = db"
      "replay_mutation ''reverse'' reversal_refusals account (reversal_json req) r = Inr result"
      by (auto simp: reverse_def rbind_eq_Inr)
    with a Some show thesis by (intro replay) simp_all
  qed
qed

lemma reverse_ok:
  assumes "reverse J req db = Inr (result, db')" "tarot_ok db"
  shows "tarot_ok db'" "grown db db'"
proof -
  from assms(1) have "tarot_ok db' \<and> grown db db'"
  proof (cases rule: reverse_cases)
    case (replay account r) then show ?thesis using assms(2) by simp
  next
    case (fresh account)
    from fresh(4) show ?thesis
    proof (cases rule: apply_reversal_cases)
      case (refused status refusal)
      then show ?thesis using refuse_reversal_ok(1,2) assms(2) by blast
    next
      case (applied original p q db1 updated)
      then show ?thesis
        using post_reversal_ok(1,2) [OF applied(6) assms(2)] insert_receipt_ok(1,2) [OF applied(8) [unfolded reverse_receipt_def]]
          grown_trans by blast
    qed
  qed
  then show "tarot_ok db'" "grown db db'" by auto
qed

section \<open>Accounts and starting grants\<close>

lemma system_account_ok:
  assumes "insert_account_or_ignore a db = Inr db'" "account_kind a \<noteq> Human" "tarot_ok db"
  shows "tarot_ok db'" "grown db db'"
proof -
  have "tarot_ok db' \<and> grown db db'"
  proof (cases "account_taken a db")
    case True
    then have "db' = db" using assms(1) by (auto simp: insert_account_or_ignore_def rbind_eq_Inr)
    then show ?thesis using assms(3) by simp
  next
    case False
    then have db': "db' = db\<lparr>tarot_accounts := tarot_accounts db @ [a]\<rparr>"
      using assms(1) by (auto simp: insert_account_or_ignore_def rbind_eq_Inr)
    have fresh: "account_id a \<notin> account_ids db"
      using False by (auto simp: account_taken_def list_ex_iff account_ids_def)
    note ok = tarot_okD [OF assms(3)]
    have g: "grown db db'" unfolding db' using assms(2) by (intro grown_account) simp
    have b: "books_ok db'" unfolding db' by (rule books_account [OF ok(1) fresh])
    have "audit_ok_db db'"
    proof (rule audit_grown [OF ok(2) g])
      fix x assume x: "x \<in> set (tarot_accounts db')"
      show "\<not> ungranted db' x"
      proof (cases "x = a")
        case True then show ?thesis using assms(2) by (simp add: ungranted_def)
      next
        case False
        then have "x \<in> set (tarot_accounts db)" using x by (simp add: db')
        then show ?thesis by (intro still_granted [OF ok(1,2) g, of "[]"]) (simp_all add: db')
      qed
    qed (auto simp: db')
    then show ?thesis using b g ok(3,4) by (simp add: tarot_ok_def db' keys_ok_def)
  qed
  then show "tarot_ok db'" "grown db db'" by auto
qed

lemma insert_system_accounts_ok:
  assumes "insert_system_accounts rows now db = Inr db'" "\<forall>(i, kind) \<in> set rows. kind \<noteq> Human" "tarot_ok db"
  shows "tarot_ok db' \<and> grown db db'"
  using assms
proof (induction rows arbitrary: db)
  case (Cons row rows)
  obtain i kind where row: "row = (i, kind)" by (cases row) auto
  obtain db1 where db1: "insert_account_or_ignore \<lparr>account_id = i, account_kind = kind, account_user = None,
      account_created_at = now\<rparr> db = Inr db1" "insert_system_accounts rows now db1 = Inr db'"
    using Cons.prems(1) by (auto simp: row rbind_eq_Inr)
  have "tarot_ok db1" "grown db db1"
    using system_account_ok [OF db1(1)] Cons.prems(2,3) by (auto simp: row)
  then show ?case using Cons.IH [OF db1(2)] Cons.prems(2) grown_trans by auto
qed simp

lemma initialize_ok:
  assumes "initialize_system_accounts ids now db = Inr db'" "tarot_ok db"
  shows "tarot_ok db'" "grown db db'"
proof -
  have "insert_system_accounts (zip ids system_kinds) now db = Inr db'"
    using assms(1) by (auto simp: initialize_system_accounts_def rbind_eq_Inr)
  moreover have "\<forall>(i, kind) \<in> set (zip ids system_kinds). kind \<noteq> Human"
    by (auto simp: system_kinds_def dest!: set_zip_rightD)
  ultimately show "tarot_ok db'" "grown db db'"
    using insert_system_accounts_ok assms(2) by blast+
qed

lemma grant_account_ok:
  assumes grant: "grant_account J req db = Inr db'" and ok: "tarot_ok db" and fate: "0 < starting_fate req"
  shows "tarot_ok db'" "grown db db'" "kind_of (prov_account req) db' = Some Human"
    "account_sum (prov_account req) db' = starting_fate req" "prov_account req \<notin> account_ids db"
    "others_kept (prov_account req) db db'"
proof -
  let ?call = "prov_invocation req"
  let ?acc = "\<lparr>account_id = prov_account req, account_kind = Human, account_user = Some (inv_user ?call),
    account_created_at = inv_now ?call\<rparr>"
  let ?key = "''tarot.starting_grant:'' @ snowflake_str (inv_user ?call)"
  let ?a = "db\<lparr>tarot_accounts := tarot_accounts db @ [?acc]\<rparr>"
  obtain b db0 db1 mint db2 db3 where c0: "insert_account ?acc db = Inr ?a" and c:
    "record_event J ?call (prov_event req) ''tarot.starting_grant.v1'' ''tarot_account'' (prov_account req) ?key
       [(''amount'', J_int (starting_fate req)), (''currency'', J_string ''Fate'')] ?a = Inr (b, db0)"
    "insert_transaction (prov_transaction req) Starting_grant (prov_event req) ?key
       (inv_user ?call) None False None (inv_now ?call) db0 = Inr db1"
    "system_account Mint db1 = Inr mint"
    "insert_posting (prov_mint_posting req) (prov_transaction req) mint (- starting_fate req) (inv_now ?call) db1 = Inr db2"
    "insert_posting (prov_human_posting req) (prov_transaction req) (prov_account req) (starting_fate req) (inv_now ?call) db2 = Inr db3"
    "seal_transaction (prov_transaction req) (inv_now ?call) db3 = Inr db'"
    using grant by (auto simp: grant_account_def insert_account_def Let_def rbind_eq_Inr split: prod.splits)
  show fresh: "prov_account req \<notin> account_ids db"
    using c0 by (auto simp: insert_account_def rbind_eq_Inr account_taken_def list_ex_iff account_ids_def)
  note ok' = tarot_okD [OF ok]
  have ba: "books_ok ?a" using fresh by (intro books_account [OF ok'(1)]) simp
  have "\<forall>b \<in> set (tarot_accounts db). account_user b \<noteq> account_user ?acc"
    using c0 by (auto simp: insert_account_def rbind_eq_Inr account_taken_def list_ex_iff)
  then have ga: "grown db ?a" by (intro grown_account) blast
  have ka: "keys_ok ?a" using ok'(3) by (simp add: keys_ok_def)
  let ?row = "\<lambda>seq. sealed_row (prov_transaction req) Starting_grant (prov_event req) ?key
      (inv_user ?call) None False None (inv_now ?call) seq"
  let ?ps = "[posting_of (prov_mint_posting req) (prov_transaction req) mint (- starting_fate req) (inv_now ?call),
     posting_of (prov_human_posting req) (prov_transaction req) (prov_account req) (starting_fate req) (inv_now ?call)]"
  obtain es e seq where l: "db' = entered es (?row seq) ?ps ?a" "grown ?a db'" "books_ok db'" "keys_ok db'"
    "tx_clean db' (?row seq)"
    "find_row event_id (prov_event req) (event_journal db') = Some e" "event_type e = ''tarot.starting_grant.v1''"
    "event_aggregate_type e = ''tarot_account''" "event_aggregate_id e = prov_account req"
    "prov_transaction req \<notin> tx_ids ?a" "mint \<noteq> prov_account req"
    by (rule ledger_entry [OF ba ka c(1,2,4,5,6)], simp, rule that; assumption)
  show g: "grown db db'" using ga l(2) grown_trans by blast
  have found: "find_transaction (prov_transaction req) db' = Some (?row seq)"
    using l(10) by (simp add: l(1) find_transaction_def find_row_append_new tx_ids_def)
  have other: "filter (grant_posting i db') ?ps = []" if "i \<noteq> prov_account req" for i
    using that fate by (simp add: grant_posting_def)
  have own: "filter (grant_posting (prov_account req) db') ?ps = [?ps ! 1]"
    using fate l(11) by (simp add: grant_posting_def found l(6-9))
  have posts: "tarot_postings db' = tarot_postings db @ ?ps" by (simp add: l(1))
  have "audit_ok_db db'"
  proof (rule audit_grown [OF ok'(2) g])
    fix x assume x: "x \<in> set (tarot_accounts db')"
    show "\<not> ungranted db' x"
    proof (cases "x = ?acc")
      case True
      have "starting_grants (prov_account req) db = []"
        using fresh by (auto simp: starting_grants_def filter_empty_conv dest!: books_okD(6) [OF ok'(1)])
      then show ?thesis
        using starting_grants_grown [OF ok'(1) g tx_cleans [OF ok'(2)] posts, of "prov_account req"] own True
        by (simp add: ungranted_def)
    next
      case False
      then have "x \<in> set (tarot_accounts db)" using x by (simp add: l(1))
      moreover from this have "account_id x \<noteq> prov_account req" using fresh unfolding account_ids_def by (metis imageI)
      ultimately show ?thesis
        using other by (intro still_granted [OF ok'(1,2) g posts]) simp_all
    qed
  qed (use l(5) in \<open>auto simp: l(1) reward_mismatch_def\<close>)
  then show "tarot_ok db'" using l(3,4) ok'(4) by (simp add: tarot_ok_def l(1))
  have "?acc \<in> set (tarot_accounts db')" by (simp add: l(1))
  then show "kind_of (prov_account req) db' = Some Human"
    using books_okD(3) [OF l(3)] by (force simp: kind_of_Some)
  have "account_amounts (prov_account req) db = []"
    using fresh by (auto simp: account_amounts_def filter_empty_conv dest!: books_okD(6) [OF ok'(1)])
  then have none: "account_sum (prov_account req) db = 0" by (simp add: account_sum_def)
  have same: "account_sum a ?a = account_sum a db" for a by (simp add: account_sum_def account_amounts_def)
  show "account_sum (prov_account req) db' = starting_fate req"
    using l(11) none by (simp add: l(1) account_sum_entered same)
  have "system_account Mint ?a = Inr mint"
    using c(3) unfolding system_account_same [OF entry_accounts [OF c(1,2)]] .
  then have "kind_of mint ?a = Some Mint" by (rule system_account_kind [OF ba])
  then have "kind_of mint db \<noteq> Some Human"
    using grown_kind_of [OF ga, of mint Human] by auto
  then show "others_kept (prov_account req) db db'"
    by (auto simp: others_kept_def l(1) account_sum_entered same)
qed

lemma ensure_account_ok:
  assumes "ensure_account J req db = Inr (result, db')" "tarot_ok db"
  shows "tarot_ok db'" "grown db db'"
proof -
  obtain existing where e: "account_for_user (inv_user (prov_invocation req)) db = Inr existing" "provision_valid req"
    using assms(1) by (auto simp: ensure_account_def rbind_eq_Inr)
  have "tarot_ok db' \<and> grown db db'"
  proof (cases existing)
    case None
    then have "grant_account J req db = Inr db'"
      using assms(1) e by (auto simp: ensure_account_def rbind_eq_Inr)
    then show ?thesis using grant_account_ok(1,2) assms(2) e(2) by (auto simp: provision_valid_def)
  next
    case (Some account)
    then have "db' = db" using assms(1) e by (auto simp: ensure_account_def rbind_eq_Inr)
    then show ?thesis using assms(2) by simp
  qed
  then show "tarot_ok db'" "grown db db'" by auto
qed

end
