(* ===== verification/Tarot_Claims.thy ===== *)
theory Tarot_Claims
  imports Tarot_Life
begin

text \<open>
  The operations on claims, buttons and pages keep the audit: a claim that ends, a claim that is
  paid together with its ledger entry, a claim that is opened with its draw and buttons.
\<close>

section \<open>Ending a claim\<close>

lemma live_cancel: "live_button j (cancel_buttons i b) \<longleftrightarrow> j \<noteq> i \<and> live_button j b"
proof (cases "live_button i b")
  case True
  then have "\<not> live_button j (cancel_buttons i b)" "button_entity b = i"
    unfolding cancel_buttons_def live_button_def by simp_all
  then show ?thesis unfolding live_button_def [of j b] by blast
next
  case False
  then have "cancel_buttons i b = b" unfolding cancel_buttons_def live_button_def by presburger
  then show ?thesis using False by metis
qed

lemma live_cancelled:
  "list_ex (live_button j) (map (cancel_buttons i) bs) \<longleftrightarrow> j \<noteq> i \<and> list_ex (live_button j) bs"
  by (induction bs) (simp_all add: live_cancel conj_disj_distribL)

lemma guard_later: "transition_guard c d db \<Longrightarrow> claim_later c d"
  by (auto simp: transition_guard_def same_claim_def claim_later_def)

lemma guard_clean:
  assumes "transition_guard c d db" "claim_clean db c"
    and db': "grown db db'" "\<not> list_ex (live_button (claim_id c)) (interaction_buttons db')"
  shows "claim_clean db' d"
proof -
  have g: "claim_state c = Claim_pending" "same_claim c d" "terminal_event d db" "claim_state d \<noteq> Claim_pending"
    using assms(1) by (auto simp: transition_guard_def)
  have s: "started_ok c db" "claim_kind c = Trial \<Longrightarrow> draw_ok c db"
    using assms(2) claim_clean_pending [OF g(1)] by auto
  have "started_ok d db'"
    using started_ok_grown [OF db'(1) s(1)] g(2) by (simp add: started_ok_def same_claim_def)
  moreover have "claim_kind d = Trial \<Longrightarrow> draw_ok d db'"
    using draw_ok_grown [OF db'(1) s(2)] g(2) by (auto simp: draw_ok_def same_claim_def)
  moreover have "terminal_event d db'" by (rule terminal_event_grown [OF db'(1) g(3)])
  moreover have "claim_state d = Claim_completed \<Longrightarrow> claim_paid d db'"
    "claim_state d = Claim_completed \<Longrightarrow> claim_visibility d = Public_result \<Longrightarrow> claim_announced d db'"
    "claim_state d = Claim_completed \<Longrightarrow> claim_visibility d = Private_result \<Longrightarrow> claim_outbox d = None"
    using assms(1) claim_paid_grown [OF db'(1)] claim_announced_grown [OF db'(1)]
    by (auto simp: transition_guard_def)
  moreover have "claim_id d = claim_id c" using g(2) by (simp add: same_claim_def)
  ultimately show ?thesis using db'(2) unfolding claim_clean_def claim_mismatch_def by metis
qed

lemma grown_claims:
  assumes "tarot_claims db' = map (\<lambda>x. if x = c then d else x) (tarot_claims db)" "claim_later c d"
    and "tarot_accounts db' = tarot_accounts db" "tarot_transactions db' = tarot_transactions db"
    "tarot_postings db' = tarot_postings db" "event_journal db' = event_journal db"
    "tarot_draws db' = tarot_draws db" "tarot_receipts db' = tarot_receipts db"
    "outbox_messages db' = outbox_messages db" "no_new_buttons db db'"
    "wager_cleanups db' = wager_cleanups db" "house_cleanups db' = house_cleanups db"
  shows "grown db db'"
proof -
  have "list_all2 claim_later (tarot_claims db) (map (\<lambda>x. if x = c then d else x) (tarot_claims db))"
    using assms(2) by (auto simp: list_all2_conv_all_nth)
  then have "\<exists>cs new. tarot_claims db' = cs @ new \<and> list_all2 claim_later (tarot_claims db) cs"
    using assms(1) by (intro exI [of _ "tarot_claims db'"] exI [of _ "[]"]) simp
  moreover have "\<forall>m \<in> set (outbox_messages db). \<exists>n \<in> set (outbox_messages db'). same_message m n"
    using assms(9) same_message_refl by metis
  ultimately show ?thesis using assms by (simp add: grown_def users_ok_def)
qed

definition replaced :: "claim_row \<Rightarrow> claim_row \<Rightarrow> ledger_db \<Rightarrow> claim_row list" where
  "replaced c d db = map (\<lambda>x. if x = c then d else x) (tarot_claims db)"

lemma open_claim_unique:
  assumes "keys_ok db" "c \<in> set (tarot_claims db)" "x \<in> set (tarot_claims db)" "claim_id x = claim_id c"
  shows "x = c"
  by (rule distinct_key_eq [of claim_id "tarot_claims db"]) (use assms in \<open>simp_all add: keys_ok_def\<close>)

lemma update_claim:
  assumes "update_rows check table (\<lambda>x. claim_id x = i \<and> P x) change (tarot_claims db) = Inr (n, rows)"
    and "keys_ok db" "c \<in> set (tarot_claims db)" "claim_id c = i" "P c"
  shows "rows = replaced c (change c) db" "check (change c)" "0 < n"
proof -
  have only: "claim_id x = i \<and> P x \<longleftrightarrow> x = c" if "x \<in> set (tarot_claims db)" for x
    using open_claim_unique [OF assms(2,3) that] assms(4,5) by auto
  then show "rows = replaced c (change c) db"
    using assms(1) by (auto simp: update_rows_Inr replaced_def)
  show "check (change c)" using assms(1,3-5) by (auto simp: update_rows_Inr)
  show "0 < n" using assms(1,3-5) by (auto simp: update_rows_Inr filter_empty_conv)
qed

lemma replaced_ids: "claim_id d = claim_id c \<Longrightarrow> map claim_id (replaced c d db) = map claim_id (tarot_claims db)"
  by (auto simp: replaced_def)

lemma finish_claim_facts:
  assumes f: "finish_claim i change db = Inr db'" and k: "keys_ok db"
    and c: "c \<in> set (tarot_claims db)" "claim_id c = i" "claim_state c = Claim_pending" "claim_clean db c"
  shows "db' = db\<lparr>tarot_claims := replaced c (change c) db,
      interaction_buttons := map (cancel_buttons i) (interaction_buttons db)\<rparr>"
    "transition_guard c (change c) db" "claim_check (change c) db" "grown db db'" "keys_ok db'"
    "claim_clean db' (change c)"
proof -
  obtain n rows where u: "update_rows (\<lambda>c. claim_check c db
        \<and> list_all (\<lambda>d. claim_id d = claim_id c \<or> \<not> claim_clash c d) (tarot_claims db)
        \<and> list_ex (\<lambda>old. (claim_id old = i \<and> claim_state old = Claim_pending) \<and> transition_guard old c db) (tarot_claims db))
      ''tarot_recovery_claim'' (\<lambda>c. claim_id c = i \<and> claim_state c = Claim_pending) change (tarot_claims db) = Inr (n, rows)"
    and db': "db' = db\<lparr>tarot_claims := rows, interaction_buttons :=
       (if 0 < n then map (cancel_buttons i) (interaction_buttons db) else interaction_buttons db)\<rparr>"
    using f by (auto simp: finish_claim_def Let_def rbind_eq_Inr)
  note uc = update_claim [OF u k c(1,2,3)]
  show eq: "db' = db\<lparr>tarot_claims := replaced c (change c) db,
      interaction_buttons := map (cancel_buttons i) (interaction_buttons db)\<rparr>"
    using uc(1,3) by (simp add: db')
  obtain old where "old \<in> set (tarot_claims db)" "claim_id old = i" "transition_guard old (change c) db"
    using uc(2) by (auto simp: list_ex_iff)
  then show tg: "transition_guard c (change c) db"
    using open_claim_unique [OF k c(1)] c(2) by metis
  show "claim_check (change c) db" using uc(2) by simp
  have "no_new_buttons db db'" by (simp add: no_new_buttons_def eq live_cancelled)
  then show g: "grown db db'"
    by (intro grown_claims [OF _ guard_later [OF tg]]) (simp_all add: eq replaced_def)
  have id: "claim_id (change c) = claim_id c" using tg by (simp add: transition_guard_def same_claim_def)
  show "keys_ok db'" using k replaced_ids [OF id] by (simp add: keys_ok_def eq)
  show "claim_clean db' (change c)"
    using c(2) by (intro guard_clean [OF tg c(4) g]) (simp add: eq live_cancelled)
qed

lemma in_replaced: "x \<in> set (replaced c d db) \<Longrightarrow> x = d \<or> x \<in> set (tarot_claims db)"
  by (auto simp: replaced_def split: if_splits)

lemma spaced_replaced:
  assumes "spaced (tarot_claims db)" "claim_state d \<noteq> Claim_completed"
  shows "spaced (replaced c d db)"
  using assms in_replaced [of _ c d db] unfolding spaced_def by metis

lemma load_replaced:
  assumes "keys_ok db" "c \<in> set (tarot_claims db)" "claim_id d = claim_id c"
    and "find_row claim_id (claim_id c) (replaced c d db) = Some u"
  shows "u = d"
  using find_row_Some [OF assms(4)] open_claim_unique [OF assms(1,2)] assms(3)
  by (auto simp: replaced_def split: if_splits)

lemma finish_without_reward_ok:
  assumes f: "finish_claim_without_reward J c call event state type key db = Inr db'" and ok: "tarot_ok db"
    and c: "c \<in> set (tarot_claims db)" "claim_state c = Claim_pending" and state: "state \<noteq> Claim_completed"
  shows "tarot_ok db'" "grown db db'" "tarot_accounts db' = tarot_accounts db"
    "tarot_transactions db' = tarot_transactions db" "tarot_postings db' = tarot_postings db"
    "load_claim (claim_id c) db' = Some u \<Longrightarrow> claim_state u = state"
proof -
  obtain b db0 call' where e: "record_event J call' event type ''tarot_recovery_claim'' (claim_id c) key
      [(''claim_type'', J_string (recovery_kind_name (claim_kind c))), (''is_test'', J_bool (claim_is_test c))] db = Inr (b, db0)"
    and fc: "finish_claim (claim_id c) (\<lambda>d. d\<lparr>claim_state := state, claim_event := Some event,
      claim_completion_key := Some key, claim_completed_at := Some (max (inv_now call) (claim_created_at c))\<rparr>) db0 = Inr db'"
    using f by (auto simp: finish_claim_without_reward_def Let_def rbind_eq_Inr split: prod.splits)
  obtain es where db0: "db0 = db\<lparr>event_journal := event_journal db @ es\<rparr>" "keys_ok db0"
    using record_event_Inr [OF e] tarot_okD(3) [OF ok] by metis
  have g0: "grown db db0"
    by (rule grown_same_ledger [where new = "[]" and es = es and ds = "[]" and rs = "[]"]) (simp_all add: db0)
  have "claim_clean db c" using tarot_okD(2) [OF ok] c(1) by (simp add: audit_ok_db_def)
  then have clean: "claim_clean db0 c" by (rule claim_clean_grown [OF g0 c(1)])
  have c0: "c \<in> set (tarot_claims db0)" using c(1) by (simp add: db0)
  note ff = finish_claim_facts [OF fc db0(2) c0 refl c(2) clean]
  show g: "grown db db'" using g0 ff(4) grown_trans by blast
  show same: "tarot_accounts db' = tarot_accounts db"
    "tarot_transactions db' = tarot_transactions db" "tarot_postings db' = tarot_postings db"
    by (simp_all add: ff(1) db0(1))
  have claims: "tarot_claims db' = replaced c (c\<lparr>claim_state := state, claim_event := Some event,
      claim_completion_key := Some key, claim_completed_at := Some (max (inv_now call) (claim_created_at c))\<rparr>) db"
    by (simp add: ff(1) db0(1) replaced_def)
  show "claim_state u = state" if "load_claim (claim_id c) db' = Some u"
    using load_replaced [OF tarot_okD(3) [OF ok] c(1) _ that [unfolded load_claim_def claims]] by simp
  show "tarot_ok db'"
  proof (rule tarot_same_ledger [OF ok g same])
    fix x assume "x \<in> set (tarot_claims db')" "x \<notin> set (tarot_claims db)"
    then have "x = c\<lparr>claim_state := state, claim_event := Some event,
      claim_completion_key := Some key, claim_completed_at := Some (max (inv_now call) (claim_created_at c))\<rparr>"
      unfolding claims by (auto dest: in_replaced)
    then show "claim_clean db' x" using ff(6) by simp
  next
    show "spaced (tarot_claims db')"
      unfolding claims using tarot_okD(4) [OF ok] state by (intro spaced_replaced) simp_all
  qed (use ff(5) in \<open>simp_all add: ff(1) db0(1)\<close>)
qed

section \<open>Resuming a claim\<close>

lemma tighten_facts:
  assumes t: "tighten_claim i db = Inr db'" and k: "keys_ok db"
    and c: "c \<in> set (tarot_claims db)" "claim_id c = i" "claim_state c = Claim_pending" "claim_visibility c = Public_result"
  shows "db' = db\<lparr>tarot_claims := replaced c (c\<lparr>claim_visibility := Private_result\<rparr>) db\<rparr>"
proof -
  obtain n rows where u: "update_rows (\<lambda>c. claim_check c db) ''tarot_recovery_claim''
      (\<lambda>x. claim_id x = i \<and> (claim_state x = Claim_pending \<and> claim_visibility x = Public_result))
      (\<lambda>c. c\<lparr>claim_visibility := Private_result\<rparr>) (tarot_claims db) = Inr (n, rows)"
    and db': "db' = db\<lparr>tarot_claims := rows\<rparr>"
    using t by (auto simp: tighten_claim_def rbind_eq_Inr)
  show ?thesis using update_claim(1) [OF u k c(1,2)] c(3,4) by (simp add: db')
qed

lemma tighten_visibility_ok:
  assumes t: "tighten_visibility J req c db = Inr (types, db')" and ok: "tarot_ok db"
    and c: "c \<in> set (tarot_claims db)" "claim_state c = Claim_pending"
  shows "tarot_ok db'" "grown db db'"
proof -
  have "tarot_ok db' \<and> grown db db'"
  proof (cases "start_visibility req = Private_result \<and> claim_visibility c = Public_result")
    case False
    then show ?thesis using t ok by (auto simp: tighten_visibility_def)
  next
    case True
    then obtain b db0 where e: "record_event J (start_invocation req) (start_event req)
          ''tarot.recovery_visibility_tightened.v1'' ''tarot_recovery_claim'' (claim_id c)
          (start_key req @ '':privacy'')
          [(''claim_type'', J_string (recovery_kind_name (claim_kind c))),
           (''is_test'', J_bool (claim_is_test c)), (''visibility'', J_string ''private'')] db = Inr (b, db0)"
      and tc: "tighten_claim (claim_id c) db0 = Inr db'"
      using t by (auto simp: tighten_visibility_def rbind_eq_Inr split: prod.splits)
    obtain es where db0: "db0 = db\<lparr>event_journal := event_journal db @ es\<rparr>" "keys_ok db0"
      using record_event_Inr [OF e] tarot_okD(3) [OF ok] by metis
    have c0: "c \<in> set (tarot_claims db0)" using c(1) by (simp add: db0)
    let ?d = "c\<lparr>claim_visibility := Private_result\<rparr>"
    have db': "db' = db0\<lparr>tarot_claims := replaced c ?d db0\<rparr>"
      using tighten_facts [OF tc db0(2) c0 refl c(2)] True by simp
    have later: "claim_later c ?d" using c(2) by (simp add: claim_later_def)
    have g0: "grown db db0"
      by (rule grown_same_ledger [where new = "[]" and es = es and ds = "[]" and rs = "[]"]) (simp_all add: db0)
    have g1: "grown db0 db'"
      by (rule grown_claims [OF _ later]) (simp_all add: db' replaced_def)
    have g: "grown db db'" using g0 g1 grown_trans by blast
    have claims: "tarot_claims db' = replaced c ?d db" by (simp add: db' db0(1) replaced_def)
    have clean: "claim_clean db c" using tarot_okD(2) [OF ok] c(1) by (simp add: audit_ok_db_def)
    have st: "started_ok c db" "claim_kind c = Trial \<Longrightarrow> draw_ok c db"
      using claim_cleanD(1,2) [OF clean] by auto
    have st': "started_ok ?d db'" "claim_kind c = Trial \<Longrightarrow> draw_ok ?d db'"
      using started_ok_grown [OF g st(1)] draw_ok_grown [OF g st(2)]
      by (simp_all add: started_ok_def draw_ok_def)
    have "tarot_ok db'"
    proof (rule tarot_same_ledger [OF ok g])
      fix x assume "x \<in> set (tarot_claims db')" "x \<notin> set (tarot_claims db)"
      then have "x = ?d" unfolding claims by (auto dest: in_replaced)
      then show "claim_clean db' x" using st' c(2) by (simp add: claim_clean_pending)
    next
      show "spaced (tarot_claims db')"
        unfolding claims using tarot_okD(4) [OF ok] c(2) by (intro spaced_replaced) simp_all
    next
      show "keys_ok db'" using db0(2) replaced_ids [of ?d c db0] by (simp add: keys_ok_def db')
    qed (simp_all add: db' db0(1))
    then show ?thesis using g by simp
  qed
  then show "tarot_ok db'" "grown db db'" by auto
qed

lemma start_receipt_ok:
  assumes "start_receipt J req account result claim db = Inr db'" "tarot_ok db"
  shows "tarot_ok db'" "grown db db'" "tarot_postings db' = tarot_postings db"
    "tarot_claims db' = tarot_claims db"
  using insert_receipt_ok [OF assms [unfolded start_receipt_def]] by auto

lemma resume_claim_ok:
  assumes r: "resume_claim J req account c db = Inr (result, db')" and ok: "tarot_ok db"
    and c: "c \<in> set (tarot_claims db)" "claim_state c = Claim_pending"
  shows "tarot_ok db'" "grown db db'"
proof -
  obtain types db1 where t: "tighten_visibility J req c db = Inr (types, db1)"
    using r by (auto simp: resume_claim_def rbind_eq_Inr)
  obtain d where d: "load_claim (claim_id c) db1 = Some d"
    using r by (auto simp: resume_claim_def t split: option.splits)
  have e: "start_receipt J req account [(''status'', J_string ''pending'')] (Some (claim_id d)) db1 = Inr db'"
    using r by (auto simp: resume_claim_def t d rbind_eq_Inr)
  show "tarot_ok db'" "grown db db'"
    using tighten_visibility_ok [OF t ok c] start_receipt_ok(1,2) [OF e] grown_trans by blast+
qed

section \<open>Opening a claim\<close>

lemma insert_claim_buttons_Inr:
  assumes "insert_claim_buttons req expires index tokens db = Inr db'"
  obtains bs where "db' = db\<lparr>interaction_buttons := interaction_buttons db @ bs\<rparr>"
    "\<forall>b \<in> set bs. button_entity b = start_claim req"
proof -
  have "\<exists>bs. db' = db\<lparr>interaction_buttons := interaction_buttons db @ bs\<rparr>
      \<and> (\<forall>b \<in> set bs. button_entity b = start_claim req)"
    using assms
  proof (induction tokens arbitrary: index db)
    case Nil
    then show ?case by (intro exI [of _ "[]"]) simp
  next
    case (Cons i rest)
    let ?b = "claim_button req expires index i"
    obtain db1 where db1: "db1 = db\<lparr>interaction_buttons := interaction_buttons db @ [?b]\<rparr>"
      and r: "insert_claim_buttons req expires (Suc index) rest db1 = Inr db'"
      using Cons.prems by (auto simp: rbind_eq_Inr insert_button_def)
    have "button_entity ?b = start_claim req" by (simp add: claim_button_def Let_def)
    moreover obtain bs where "db' = db1\<lparr>interaction_buttons := interaction_buttons db1 @ bs\<rparr>"
        "\<forall>b \<in> set bs. button_entity b = start_claim req"
      using Cons.IH [OF r] by blast
    ultimately show ?case using db1 by (intro exI [of _ "?b # bs"]) simp
  qed
  then show ?thesis using that by blast
qed

lemma not_live_elsewhere:
  "\<forall>b \<in> set bs. button_entity b = j \<Longrightarrow> i \<noteq> j \<Longrightarrow> \<not> list_ex (live_button i) bs"
  by (auto simp: list_ex_iff live_button_def)

lemma insert_claim_Inr:
  assumes "insert_claim c db = Inr db'"
  shows "db' = db\<lparr>tarot_claims := tarot_claims db @ [c]\<rparr>" "claim_id c \<notin> claim_ids db"
    "claim_state c = Claim_pending" "claim_check c db"
  using assms by (auto simp: insert_claim_def rbind_eq_Inr list_ex_iff claim_clash_def claim_ids_def)

text \<open>What a new claim adds: its event, for a Trial its draw, the claim and its buttons.\<close>

lemma new_claim_ok:
  assumes ok: "tarot_ok db" and k: "keys_ok (db\<lparr>event_journal := event_journal db @ es\<rparr>)"
    and db': "db' = db\<lparr>event_journal := event_journal db @ es, tarot_draws := tarot_draws db @ ds,
      tarot_claims := tarot_claims db @ [c], interaction_buttons := interaction_buttons db @ bs\<rparr>"
    and fresh: "claim_id c \<notin> claim_ids db" and state: "claim_state c = Claim_pending"
    and bs: "\<forall>b \<in> set bs. button_entity b = claim_id c"
    and e: "started_ok c db'" and d: "claim_kind c = Trial \<Longrightarrow> draw_ok c db'"
    and ds: "\<forall>d \<in> set ds. claim_draw c = Some (draw_id d) \<and> draw_claim d = claim_id c"
  shows "tarot_ok db'" "grown db db'"
proof -
  have "no_new_buttons db db'"
    using fresh not_live_elsewhere [OF bs] unfolding no_new_buttons_def db' by simp metis
  then show g: "grown db db'"
    by (intro grown_same_ledger [where new = "[c]" and es = es and ds = ds and rs = "[]"]) (simp_all add: db')
  show "tarot_ok db'"
  proof (rule tarot_same_ledger [OF ok g])
    fix x assume "x \<in> set (tarot_claims db')" "x \<notin> set (tarot_claims db)"
    then have "x = c" by (simp add: db')
    then show "claim_clean db' x" using e d state by (simp add: claim_clean_pending)
  next
    fix x assume "x \<in> set (tarot_draws db')" "x \<notin> set (tarot_draws db)"
    then have "x \<in> set ds" by (simp add: db')
    then show "\<not> orphaned_draw db' x" using ds by (simp add: orphaned_draw_def db')
  next
    show "keys_ok db'" using k fresh by (simp add: keys_ok_def db' claim_ids_def)
  next
    show "spaced (tarot_claims db')" using tarot_okD(4) [OF ok] state by (auto simp: spaced_def db')
  qed (simp_all add: db')
qed

lemma trial_draw_of_Inr:
  assumes "trial_draw_of req = Inr draw" "start_valid req"
  shows "start_kind req = Trial \<Longrightarrow> \<exists>d i. draw = Some d \<and> start_draw req = Some i"
    "start_kind req = Grace \<Longrightarrow> draw = None"
proof -
  show "\<exists>d i. draw = Some d \<and> start_draw req = Some i" if k: "start_kind req = Trial"
    using assms k by (auto simp: trial_draw_of_def start_valid_def Let_def rbind_eq_Inr split: option.splits)
  show "draw = None" if k: "start_kind req = Grace"
    using assms k by (auto simp: trial_draw_of_def)
qed

lemma record_draw_Inr:
  assumes "record_draw req draw db = Inr db'"
  obtains ds where "db' = db\<lparr>tarot_draws := tarot_draws db @ ds\<rparr>"
    "\<forall>d \<in> set ds. start_draw req = Some (draw_id d) \<and> draw_claim d = start_claim req"
    "\<forall>x i. draw = Some x \<longrightarrow> start_draw req = Some i \<longrightarrow> (\<exists>d \<in> set ds. draw_reward d = drawn_reward x)"
proof (cases "draw = None \<or> start_draw req = None")
  case True
  then have "db' = db" using assms by (auto simp: record_draw_def split: option.splits)
  with True show thesis by (intro that [of "[]"]) auto
next
  case False
  then obtain x i where x: "draw = Some x" "start_draw req = Some i" by auto
  let ?d = "\<lparr>draw_id = i, draw_claim = start_claim req, draw_variant = drawn_variant x,
    draw_reward = drawn_reward x, draw_created_at = inv_now (start_invocation req)\<rparr>"
  have "db' = db\<lparr>tarot_draws := tarot_draws db @ [?d]\<rparr>"
    using assms x by (auto simp: record_draw_def insert_draw_def rbind_eq_Inr)
  then show thesis using x by (intro that [of "[?d]"]) simp_all
qed

lemma open_claim_ok:
  assumes o: "open_claim J req account current types db = Inr (result, db')" and ok: "tarot_ok db"
    and valid: "start_valid req"
  shows "tarot_ok db'" "grown db db'"
proof -
  let ?call = "start_invocation req"
  obtain draw where d: "trial_draw_of req = Inr draw"
    using o by (auto simp: open_claim_def Let_def rbind_eq_Inr)
  obtain b db0 where e: "record_event J ?call (start_event req) (started_event (start_kind req))
       ''tarot_recovery_claim'' (start_claim req) (start_key req)
       [(''claim_type'', J_string (recovery_kind_name (start_kind req))),
        (''is_test'', J_bool (start_is_test req)),
        (''visibility'', J_string (visibility_name (start_visibility req)))] db = Inr (b, db0)"
    using o by (auto simp: open_claim_def Let_def d rbind_eq_Inr)
  obtain db1 where w: "record_draw req draw db0 = Inr db1"
    using o by (auto simp: open_claim_def Let_def d e rbind_eq_Inr)
  have cc: "commit_claim J req account current draw (types @ [started_event (start_kind req)]) db1 = Inr (result, db')"
    using o by (simp add: open_claim_def Let_def d e w)
  obtain expires where x: "checked_add (inv_now ?call) tarot_interaction_lifetime_ms = Inr expires"
    using cc by (auto simp: commit_claim_def rbind_eq_Inr)
  let ?c = "new_claim_row req account current (map_option drawn_reward draw) expires"
  obtain db2 where c: "insert_claim ?c db1 = Inr db2"
    using cc by (auto simp: commit_claim_def x rbind_eq_Inr)
  obtain db3 where b: "insert_claim_buttons req expires 0 (start_tokens req) db2 = Inr db3"
    using cc by (auto simp: commit_claim_def x c rbind_eq_Inr)
  have r: "start_receipt J req account [(''status'', J_string ''pending'')] (Some (start_claim req)) db3 = Inr db'"
    using cc by (auto simp: commit_claim_def x c b rbind_eq_Inr split: option.splits)
  obtain ds where ds: "db1 = db0\<lparr>tarot_draws := tarot_draws db0 @ ds\<rparr>"
    "\<forall>d \<in> set ds. start_draw req = Some (draw_id d) \<and> draw_claim d = start_claim req"
    "\<forall>x i. draw = Some x \<longrightarrow> start_draw req = Some i \<longrightarrow> (\<exists>d \<in> set ds. draw_reward d = drawn_reward x)"
    by (rule record_draw_Inr [OF w])
  obtain e es where db0: "db0 = db\<lparr>event_journal := event_journal db @ es\<rparr>" "keys_ok db0"
    "e \<in> set (event_journal db0)" "event_id e = start_event req" "event_type e = started_event (start_kind req)"
    "event_aggregate_type e = ''tarot_recovery_claim''" "event_aggregate_id e = start_claim req"
    by (rule record_event_Inr [OF e], rule that; (assumption | use tarot_okD(3) [OF ok] in blast))
  obtain bs where bs: "db3 = db2\<lparr>interaction_buttons := interaction_buttons db2 @ bs\<rparr>"
    "\<forall>b \<in> set bs. button_entity b = start_claim req"
    by (rule insert_claim_buttons_Inr [OF b])
  note ic = insert_claim_Inr [OF c]
  have id: "claim_id ?c = start_claim req" "claim_kind ?c = start_kind req" "claim_draw ?c = start_draw req"
    "claim_started_event ?c = start_event req" "claim_reward ?c = map_option drawn_reward draw"
    by (simp_all add: new_claim_row_def)
  have db3: "db3 = db\<lparr>event_journal := event_journal db @ es, tarot_draws := tarot_draws db @ ds,
      tarot_claims := tarot_claims db @ [?c], interaction_buttons := interaction_buttons db @ bs\<rparr>"
    by (simp add: bs(1) ic(1) ds(1) db0(1))
  have j: "event_journal db3 = event_journal db0" by (simp add: bs(1) ic(1) ds(1))
  have "started_ok ?c db3"
    using db0(3-7) unfolding started_ok_def list_ex_iff id j by blast
  moreover have "draw_ok ?c db3" if k: "claim_kind ?c = Trial"
  proof -
    obtain x i where x: "draw = Some x" "start_draw req = Some i"
      using trial_draw_of_Inr(1) [OF d valid] k id(2) by auto
    then obtain w where "w \<in> set ds" "draw_reward w = drawn_reward x" using ds(3) by blast
    then show ?thesis using ds(2) x
      by (auto simp: draw_ok_def list_ex_iff new_claim_row_def db3)
  qed
  moreover have "\<forall>d \<in> set ds. claim_draw ?c = Some (draw_id d) \<and> draw_claim d = claim_id ?c"
    using ds(2) by (simp add: id)
  moreover have "claim_id ?c \<notin> claim_ids db" using ic(2) by (simp add: ds(1) db0(1) claim_ids_def)
  moreover have "\<forall>b \<in> set bs. button_entity b = claim_id ?c" using bs(2) id(1) by simp
  ultimately have "tarot_ok db3" "grown db db3"
    using new_claim_ok [OF ok _ db3 _ ic(3)] db0(2) unfolding db0(1) by blast+
  then show "tarot_ok db'" "grown db db'"
    using start_receipt_ok(1,2) [OF r] grown_trans by blast+
qed

lemma begin_claim_ok:
  assumes b: "begin_claim J req account types db = Inr (result, db')" and ok: "tarot_ok db" and valid: "start_valid req"
  shows "tarot_ok db'" "grown db db'"
proof -
  obtain current where c: "balance_for_account account db = Inr current"
    using b by (auto simp: begin_claim_def Let_def rbind_eq_Inr)
  have "tarot_ok db' \<and> grown db db'"
  proof (cases "start_threshold req \<le> current")
    case True
    then show ?thesis using b c start_receipt_ok(1,2) [OF _ ok]
      by (auto simp: begin_claim_def Let_def rbind_eq_Inr)
  next
    case rich: False
    show ?thesis
    proof (cases "cooling_down (inv_now (start_invocation req)) account (start_kind req) (start_is_test req) db")
      case None
      then have "open_claim J req account current types db = Inr (result, db')"
        using b c rich by (simp add: begin_claim_def Let_def)
      then show ?thesis using open_claim_ok [OF _ ok valid] by blast
    next
      case (Some until)
      then show ?thesis using b c rich start_receipt_ok(1,2) [OF _ ok]
        by (auto simp: begin_claim_def Let_def rbind_eq_Inr)
    qed
  qed
  then show "tarot_ok db'" "grown db db'" by auto
qed

lemma start_recovery_cases:
  assumes "start_recovery J req db = Inr (result, db')"
  obtains (replay) account r where "account_for_user (inv_user (start_invocation req)) db = Inr (Some account)"
      "load_receipt J (start_key req) db = Inr (Some r)" "replay_start req account r db = Inr result" "db' = db"
  | (fresh) account where "account_for_user (inv_user (start_invocation req)) db = Inr (Some account)"
      "load_receipt J (start_key req) db = Inr None"
      "pending_claim account (start_kind req) (start_is_test req) db = None"
      "begin_claim J req account [] db = Inr (result, db')"
  | (resume) account c where "account_for_user (inv_user (start_invocation req)) db = Inr (Some account)"
      "load_receipt J (start_key req) db = Inr None"
      "pending_claim account (start_kind req) (start_is_test req) db = Some c"
      "inv_now (start_invocation req) < claim_expires_at c"
      "resume_claim J req account c db = Inr (result, db')"
  | (expired) account c db1 where "account_for_user (inv_user (start_invocation req)) db = Inr (Some account)"
      "load_receipt J (start_key req) db = Inr None"
      "pending_claim account (start_kind req) (start_is_test req) db = Some c"
      "claim_expires_at c \<le> inv_now (start_invocation req)"
      "finish_claim_without_reward J c (start_invocation req) (start_expired_event req)
         Claim_expired ''tarot.recovery_expired.v1'' (''tarot.recovery_expired:'' @ claim_id c) db = Inr db1"
      "begin_claim J req account [''tarot.recovery_expired.v1''] db1 = Inr (result, db')"
proof -
  obtain account where a: "account_for_user (inv_user (start_invocation req)) db = Inr (Some account)" "start_valid req"
    using assms by (auto simp: start_recovery_def rbind_eq_Inr split: option.splits)
  obtain found where l: "load_receipt J (start_key req) db = Inr found"
    using assms by (auto simp: start_recovery_def rbind_eq_Inr a)
  note a = a l
  note def = assms [unfolded start_recovery_def]
  show thesis
  proof (cases found)
    case (Some r)
    then have "replay_start req account r db = Inr result" "db' = db"
      using def a by (auto simp: rbind_eq_Inr)
    then show thesis using a Some by (intro replay) auto
  next
    case None
    show thesis
    proof (cases "pending_claim account (start_kind req) (start_is_test req) db")
      case p: None
      then have "begin_claim J req account [] db = Inr (result, db')" using def a None by simp
      then show thesis using a None p by (intro fresh) auto
    next
      case p: (Some c)
      show thesis
      proof (cases "inv_now (start_invocation req) < claim_expires_at c")
        case True
        then have "resume_claim J req account c db = Inr (result, db')" using def a None p by simp
        then show thesis using a None p True by (intro resume) auto
      next
        case False
        then obtain db1 where "finish_claim_without_reward J c (start_invocation req) (start_expired_event req)
           Claim_expired ''tarot.recovery_expired.v1'' (''tarot.recovery_expired:'' @ claim_id c) db = Inr db1"
          "begin_claim J req account [''tarot.recovery_expired.v1''] db1 = Inr (result, db')"
          using def a None p by (auto simp: rbind_eq_Inr)
        then show thesis using a None p False by (intro expired) auto
      qed
    qed
  qed
qed

lemma pending_claim_Some:
  "pending_claim account kind is_test db = Some c \<Longrightarrow> c \<in> set (tarot_claims db)
     \<and> claim_state c = Claim_pending \<and> claim_account c = account \<and> claim_kind c = kind \<and> claim_is_test c = is_test"
  by (auto simp: pending_claim_def find_Some_iff)

lemma start_recovery_ok:
  assumes "start_recovery J req db = Inr (result, db')" and ok: "tarot_ok db"
  shows "tarot_ok db'" "grown db db'"
proof -
  have valid: "start_valid req" using assms(1) by (auto simp: start_recovery_def rbind_eq_Inr)
  from assms(1) have "tarot_ok db' \<and> grown db db'"
  proof (cases rule: start_recovery_cases)
    case (replay account r) then show ?thesis using ok by simp
  next
    case (fresh account) then show ?thesis using begin_claim_ok [OF _ ok valid] by blast
  next
    case (resume account c)
    then show ?thesis using resume_claim_ok [OF _ ok] pending_claim_Some by blast
  next
    case (expired account c db1)
    have c: "c \<in> set (tarot_claims db)" "claim_state c = Claim_pending"
      using pending_claim_Some [OF expired(3)] by auto
    note f = finish_without_reward_ok [OF expired(5) ok c]
    have "tarot_ok db1" "grown db db1" by (rule f; simp)+
    then show ?thesis using begin_claim_ok [OF expired(6) _ valid] grown_trans by blast
  qed
  then show "tarot_ok db'" "grown db db'" by auto
qed

end
