(* ===== verification/Tarot_Rewards.thy ===== *)
theory Tarot_Rewards
  imports Tarot_Claims
begin

text \<open>
  The operations that remain: a claim completed with its reward (the ledger entry, the message
  and the row of the claim in one transaction), the visibility of the standings and the snapshots
  of the history. All of them keep the books and the audit.
\<close>

section \<open>Ending a claim without a reward\<close>

lemma close_claim_ok:
  assumes e: "close_claim J req c state type prefix' db = Inr (result, db')" and ok: "tarot_ok db"
    and c: "c \<in> set (tarot_claims db)" "claim_state c = Claim_pending" and state: "state \<noteq> Claim_completed"
  shows "tarot_ok db'" "grown db db'" "tarot_postings db' = tarot_postings db"
proof -
  obtain db1 where f: "finish_claim_without_reward J c (done_invocation req) (done_event req) state type
      (prefix' @ claim_id c) db = Inr db1"
    using e by (auto simp: close_claim_def rbind_eq_Inr)
  have "db' = db1" using e by (auto simp: close_claim_def f rbind_eq_Inr split: option.splits)
  then show "tarot_ok db'" "grown db db'" "tarot_postings db' = tarot_postings db"
    using finish_without_reward_ok [OF f ok c state] by simp_all
qed

lemma close_claim_status:
  assumes e: "close_claim J req c state type prefix' db = Inr (result, db')" and ok: "tarot_ok db"
    and c: "c \<in> set (tarot_claims db)" "claim_state c = Claim_pending" and state: "state \<noteq> Claim_completed"
  shows "result_status result \<noteq> Status_completed"
proof -
  obtain db1 where f: "finish_claim_without_reward J c (done_invocation req) (done_event req) state type
      (prefix' @ claim_id c) db = Inr db1"
    using e by (auto simp: close_claim_def rbind_eq_Inr)
  obtain u where u: "load_claim (claim_id c) db1 = Some u" "result_status result = stored_recovery_status u db1"
    using e by (auto simp: close_claim_def f rbind_eq_Inr recovery_result_def split: option.splits)
  have "claim_state u \<noteq> Claim_completed" using finish_without_reward_ok(6) [OF f ok c state u(1)] state by simp
  then show ?thesis by (auto simp: u(2) stored_recovery_status_def split: claim_state.splits)
qed

section \<open>The reward\<close>

lemma latest_cooldown_bound:
  assumes "c \<in> set (tarot_claims db)" "claim_state c = Claim_completed" "claim_cooldown_until c = Some u"
  shows "\<exists>l. latest_cooldown (claim_account c) (claim_kind c) (claim_is_test c) db = Some l \<and> u \<le> l"
proof -
  let ?us = "List.map_filter claim_cooldown_until (filter (\<lambda>d. claim_account d = claim_account c
    \<and> claim_kind d = claim_kind c \<and> claim_is_test d = claim_is_test c \<and> claim_state d = Claim_completed) (tarot_claims db))"
  have "u \<in> set ?us" using assms by (auto simp: List.map_filter_def image_iff intro!: bexI [of _ c])
  moreover have "x \<in> set (y # ys) \<Longrightarrow> x \<le> foldr max ys y" for x y :: int and ys
    by (induction ys) auto
  ultimately show ?thesis unfolding latest_cooldown_def by (cases ?us) auto
qed

lemma cooled_down:
  assumes "cooling_down now (claim_account d) (claim_kind d) (claim_is_test d) db = None"
    and "c \<in> set (tarot_claims db)" "claim_state c = Claim_completed" "claim_cooldown_until c = Some u" "same_recovery c d"
  shows "u \<le> now"
proof -
  obtain l where "latest_cooldown (claim_account d) (claim_kind d) (claim_is_test d) db = Some l" "u \<le> l"
    using latest_cooldown_bound [OF assms(2-4)] assms(5) by (auto simp: same_recovery_def)
  then show ?thesis using assms(1) by (auto simp: cooling_down_def split: if_splits)
qed

lemma spaced_reward:
  assumes s: "spaced (tarot_claims db)" and d: "claim_cooldown_until d \<noteq> None" "claim_completed_at d = Some t"
    and cool: "\<And>c u. c \<in> set (tarot_claims db) \<Longrightarrow> claim_state c = Claim_completed \<Longrightarrow>
      claim_cooldown_until c = Some u \<Longrightarrow> same_recovery c d \<Longrightarrow> u \<le> t"
  shows "spaced (replaced c d db)"
proof -
  have timed: "claim_state x = Claim_completed \<Longrightarrow> claim_cooldown_until x \<noteq> None" if x: "x \<in> set (replaced c d db)" for x
    using in_replaced [OF x] s d(1) by (auto simp: spaced_def)
  have last: "follows x d" if x: "x \<in> set (tarot_claims db)" "claim_state x = Claim_completed" "same_recovery x d" for x
  proof -
    obtain u where "claim_cooldown_until x = Some u" using s x(1,2) by (auto simp: spaced_def)
    then show ?thesis using cool [OF x(1,2) _ x(3)] d(2) by (simp add: follows_def)
  qed
  have sym: "same_recovery x y \<Longrightarrow> same_recovery y x" for x y by (simp add: same_recovery_def)
  have "follows x y \<or> follows y x" if xy: "x \<in> set (replaced c d db)" "y \<in> set (replaced c d db)"
      "claim_state x = Claim_completed" "claim_state y = Claim_completed" "claim_id x \<noteq> claim_id y" "same_recovery x y" for x y
  proof (cases "x = d \<or> y = d")
    case True
    then show ?thesis using last in_replaced [OF xy(1)] in_replaced [OF xy(2)] xy(3-6) sym by blast
  next
    case False
    then show ?thesis using in_replaced [OF xy(1)] in_replaced [OF xy(2)] xy(3-6) s unfolding spaced_def by blast
  qed
  then show ?thesis using timed unfolding spaced_def by blast
qed

lemma insert_outbox_Inr:
  assumes "insert_outbox ok m payload db = Inr (b, db')"
  obtains ms where "db' = db\<lparr>outbox_messages := outbox_messages db @ ms\<rparr>"
proof -
  have "db' = db \<or> (\<exists>r. db' = db\<lparr>outbox_messages := outbox_messages db @ [r]\<rparr>)"
    using assms by (auto simp: insert_outbox_def rbind_eq_Inr Let_def split: if_splits)
  then show thesis using that [of "[]"] that by auto
qed

lemma announce_claim_Inr:
  assumes "announce_claim J encode req c now db = Inr (b, db')"
  obtains ms where "db' = db\<lparr>outbox_messages := outbox_messages db @ ms\<rparr>"
proof (cases "claim_visibility c = Public_result")
  case False
  then have "db' = db" using assms by (simp add: announce_claim_def)
  then show thesis by (intro that [of "[]"]) simp
next
  case True
  then obtain m payload where "insert_outbox (json_text_ok J) m payload db = Inr (b, db')"
    using assms by (auto simp: announce_claim_def Let_def rbind_eq_Inr)
  then show thesis using insert_outbox_Inr that by metis
qed

lemma grown_outbox: "grown db (db\<lparr>outbox_messages := outbox_messages db @ ms\<rparr>)"
proof -
  have "\<exists>cs new. tarot_claims db = cs @ new \<and> list_all2 claim_later (tarot_claims db) cs"
    by (intro exI [of _ "tarot_claims db"] exI [of _ "[]"]) simp
  moreover have "\<forall>m \<in> set (outbox_messages db). \<exists>n \<in> set (outbox_messages db @ ms). same_message m n"
    using same_message_refl [of m for m] by (metis Un_iff set_append)
  ultimately show ?thesis by (simp add: grown_def no_new_buttons_def users_ok_def)
qed

text \<open>
  A payment, whatever is announced, and the completion of the claim: the ledger entry is claimed
  by the row it completes.
\<close>

lemma paid_claim_ok:
  assumes ok: "tarot_ok db" and c: "c \<in> set (tarot_claims db)" "claim_state c = Claim_pending"
    and pay: "pay_claim J req c reward now db = Inr db1"
    and db2: "db2 = db1\<lparr>outbox_messages := outbox_messages db1 @ ms\<rparr>"
    and f: "finish_claim (claim_id c) (completed_claim req reward now ms2) db2 = Inr db'"
    and cool: "\<And>x u. x \<in> set (tarot_claims db) \<Longrightarrow> claim_state x = Claim_completed \<Longrightarrow>
      claim_cooldown_until x = Some u \<Longrightarrow> same_recovery x c \<Longrightarrow> u \<le> now"
  shows "tarot_ok db'" "grown db db'"
    "account_sum (claim_account c) db' = account_sum (claim_account c) db + reward"
    "others_kept (claim_account c) db db'"
    "tarot_claims db' = replaced c (completed_claim req reward now ms2 c) db"
proof -
  let ?call = "(done_invocation req)\<lparr>inv_now := now\<rparr>" and ?key = "''tarot.recovery_complete:'' @ claim_id c"
  let ?type = "reward_type (claim_kind c)"
  obtain b db3 db4 mint db5 db6 where p:
    "record_event J ?call (done_event req) (completed_event (claim_kind c)) ''tarot_recovery_claim'' (claim_id c) ?key
       [(''claim_type'', J_string (recovery_kind_name (claim_kind c))),
        (''is_test'', J_bool (claim_is_test c)),
        (''visibility'', J_string (visibility_name (claim_visibility c)))] db = Inr (b, db3)"
    "insert_transaction (done_transaction req) ?type (done_event req) ?key
       (inv_user ?call) None (claim_is_test c) None now db3 = Inr db4"
    "system_account Mint db4 = Inr mint"
    "insert_posting (done_mint_posting req) (done_transaction req) mint (- reward) now db4 = Inr db5"
    "insert_posting (done_human_posting req) (done_transaction req) (claim_account c) reward now db5 = Inr db6"
    "seal_transaction (done_transaction req) now db6 = Inr db1"
    using pay by (auto simp: pay_claim_def Let_def rbind_eq_Inr split: prod.splits)
  have rt: "?type \<in> {Grace_reward, Trial_reward}" by (simp add: reward_type_def split: recovery_kind.split)
  note ok' = tarot_okD [OF ok]
  let ?row = "\<lambda>seq. sealed_row (done_transaction req) ?type (done_event req) ?key
      (inv_user ?call) None (claim_is_test c) None now seq"
  let ?ps = "[posting_of (done_mint_posting req) (done_transaction req) mint (- reward) now,
     posting_of (done_human_posting req) (done_transaction req) (claim_account c) reward now]"
  have notest: "?type \<in> {Test_adjustment, Test_reversal} \<Longrightarrow> P" for P using rt by auto
  obtain es seq e where l: "db1 = entered es (?row seq) ?ps db" "grown db db1" "books_ok db1" "keys_ok db1"
    "tx_clean db1 (?row seq)" "mint \<noteq> claim_account c"
    "find_row event_id (done_event req) (event_journal db1) = Some e" "event_type e = completed_event (claim_kind c)"
    "event_aggregate_type e = ''tarot_recovery_claim''" "event_aggregate_id e = claim_id c"
    by (rule ledger_entry [OF ok'(1,3) p(1,2,4,5,6)], erule notest, rule that; assumption)
  have g2: "grown db1 db2" unfolding db2 by (rule grown_outbox)
  have g02: "grown db db2" using l(2) g2 grown_trans by blast
  have b2: "books_ok db2" using l(3) books_same [of db2 db1] by (simp add: db2)
  have k2: "keys_ok db2" using l(4) by (simp add: db2 keys_ok_def)
  have c2: "c \<in> set (tarot_claims db2)" using c(1) by (simp add: db2 l(1))
  have clean: "claim_clean db2 c"
    using claim_clean_grown [OF g02 c(1)] ok'(2) c(1) by (simp add: audit_ok_db_def)
  note ff = finish_claim_facts [OF f k2 c2 refl c(2) clean]
  let ?d = "completed_claim req reward now ms2 c"
  have g23: "grown db2 db'" by (rule ff(4))
  show g: "grown db db'" using g02 g23 grown_trans by blast
  have ledger: "tarot_accounts db' = tarot_accounts db" "tarot_transactions db' = tarot_transactions db @ [?row seq]"
    "tarot_postings db' = tarot_postings db @ ?ps" "tarot_draws db' = tarot_draws db"
    "tarot_receipts db' = tarot_receipts db" "event_journal db' = event_journal db1"
    by (simp_all add: ff(1) db2 l(1))
  show claims: "tarot_claims db' = replaced c ?d db" by (simp add: ff(1) db2 l(1) replaced_def)
  have b': "books_ok db'" using b2 books_same [of db' db2] by (simp add: ff(1))
  have "?d \<in> set (tarot_claims db')" using c(1) by (auto simp: claims replaced_def)
  moreover have "e \<in> set (event_journal db')" "event_id e = done_event req"
    using find_row_Some [OF l(7)] by (simp_all add: ledger)
  ultimately have "reward_claimed db' (?row seq)"
    using l(8-10) unfolding reward_claimed_def list_ex_iff
    by (intro bexI [of _ ?d] conjI bexI [of _ e]) (simp_all add: completed_claim_def sealed_row_def)
  moreover have "tx_clean db' (?row seq)"
  proof (rule tx_clean_grown [OF _ _ l(5)])
    show "grown db1 db'" using g2 g23 grown_trans by blast
  qed (simp add: l(1))
  ultimately have new: "tx_clean db' (?row seq) \<and> \<not> reward_mismatch db' (?row seq)"
    by (simp add: reward_mismatch_def)
  have found: "find_transaction (done_transaction req) db' = Some (?row seq)"
    using find_row_unique [OF books_okD(1) [OF b'], of "?row seq"] by (simp add: find_transaction_def ledger)
  have "audit_ok_db db'"
  proof (rule audit_grown [OF ok'(2) g])
    fix a assume "a \<in> set (tarot_accounts db')"
    then have "a \<in> set (tarot_accounts db)" by (simp add: ledger)
    moreover have "filter (grant_posting (account_id a) db') ?ps = []"
      using rt found by (auto simp: grant_posting_def)
    ultimately show "\<not> ungranted db' a" by (intro still_granted [OF ok'(1,2) g ledger(3)])
  next
    fix x assume "x \<in> set (tarot_claims db')" "x \<notin> set (tarot_claims db)"
    then have "x = ?d" unfolding claims by (auto dest: in_replaced)
    then show "claim_clean db' x" using ff(6) by simp
  qed (use new in \<open>auto simp: ledger\<close>)
  moreover have "spaced (tarot_claims db')"
    unfolding claims
    by (rule spaced_reward [OF ok'(4)])
      (use cool in \<open>auto simp: completed_claim_def same_recovery_def\<close>)
  ultimately show "tarot_ok db'" using b' ff(5) by (simp add: tarot_ok_def)
  have sums: "account_sum a db' = account_sum a db1" for a
    by (simp add: account_sum_def account_amounts_def ff(1) db2)
  show "account_sum (claim_account c) db' = account_sum (claim_account c) db + reward"
    using l(6) by (simp add: sums l(1) account_sum_entered)
  have "system_account Mint db = Inr mint"
    using p(3) unfolding system_account_same [OF entry_accounts [OF p(1,2)]] .
  from system_account_kind [OF ok'(1) this]
  show "others_kept (claim_account c) db db'"
    by (auto simp: others_kept_def sums l(1) account_sum_entered)
qed

lemma reward_due_Inr:
  assumes "reward_due c current = Inr reward"
  shows "claim_kind c = Grace \<Longrightarrow> claim_target c = Some (current + reward)"
    "claim_kind c = Trial \<Longrightarrow> claim_reward c = Some reward"
  using assms by (auto simp: reward_due_def split: option.splits)

lemma reward_claim_ok:
  assumes r: "reward_claim J encode req c current db = Inr (result, db')" and ok: "tarot_ok db"
    and c: "c \<in> set (tarot_claims db)" "claim_state c = Claim_pending"
    and cool: "cooling_down (inv_now (done_invocation req)) (claim_account c) (claim_kind c) (claim_is_test c) db = None"
  obtains reward d where "tarot_ok db'" "grown db db'" "reward_due c current = Inr reward" "0 < reward"
    "reward \<le> 1000000000"
    "account_sum (claim_account c) db' = account_sum (claim_account c) db + reward"
    "others_kept (claim_account c) db db'" "tarot_claims db' = replaced c d db"
    "claim_state d = Claim_completed" "claim_id d = claim_id c" "claim_account d = claim_account c"
    "result_claim result = claim_id c"
proof -
  let ?now = "max (inv_now (done_invocation req)) (claim_created_at c)"
  let ?ms = "case claim_kind c of Grace \<Rightarrow> done_grace_cooldown req | Trial \<Rightarrow> done_trial_cooldown req"
  obtain reward where w: "reward_due c current = Inr reward" "0 < reward" "reward \<le> 1000000000"
    using r by (auto simp: reward_claim_def Let_def rbind_eq_Inr)
  obtain db1 where p: "pay_claim J req c reward ?now db = Inr db1"
    using r by (auto simp: reward_claim_def Let_def w rbind_eq_Inr)
  obtain b db2 where a: "announce_claim J encode req c ?now db1 = Inr (b, db2)"
    using r by (auto simp: reward_claim_def Let_def w p rbind_eq_Inr)
  obtain db3 where f: "finish_claim (claim_id c) (completed_claim req reward ?now ?ms) db2 = Inr db3"
    using r by (auto simp: reward_claim_def Let_def w p a rbind_eq_Inr)
  have "db' = db3"
    using r by (auto simp: reward_claim_def Let_def w p a f rbind_eq_Inr split: option.splits)
  note f = f [folded this]
  obtain ms where ms: "db2 = db1\<lparr>outbox_messages := outbox_messages db1 @ ms\<rparr>" by (rule announce_claim_Inr [OF a])
  have cool': "u \<le> ?now" if x: "x \<in> set (tarot_claims db)" "claim_state x = Claim_completed"
      "claim_cooldown_until x = Some u" "same_recovery x c" for x u
    using cooled_down [OF cool x] by simp
  note paid = paid_claim_ok [OF ok c p ms f cool']
  have "result_claim result = claim_id c"
    using r by (auto simp: reward_claim_def Let_def w p a f rbind_eq_Inr load_claim_def recovery_result_def
        dest!: find_row_Some split: option.splits)
  with paid show ?thesis
    by (intro that [OF paid(1,2) w paid(3-5)]) (simp_all add: completed_claim_def)
qed

lemma settle_claim_cases:
  assumes "settle_claim J encode req token c db = Inr (result, db')"
  obtains (closed) state type prefix' where "close_claim J req c state type prefix' db = Inr (result, db')"
      "state \<noteq> Claim_completed"
  | (invalid) "db' = db" "result = refused Status_invalid_token"
  | (paid) current where "balance_for_account (claim_account c) db = Inr current" "current < claim_threshold c"
      "inv_now (done_invocation req) < claim_expires_at c" "inv_now (done_invocation req) < button_expires_at token"
      "valid_action (claim_kind c) (button_action token)" "button_action token \<noteq> ''tarot.recovery.3.abandon''"
      "cooling_down (inv_now (done_invocation req)) (claim_account c) (claim_kind c) (claim_is_test c) db = None"
      "reward_claim J encode req c current db = Inr (result, db')"
proof -
  note def = assms [unfolded settle_claim_def Let_def]
  show thesis
  proof (cases "button_expires_at token \<le> inv_now (done_invocation req) \<or> claim_expires_at c \<le> inv_now (done_invocation req)")
    case True
    then show thesis using def by (intro closed [of Claim_expired]) simp_all
  next
    case live: False
    show thesis
    proof (cases "valid_action (claim_kind c) (button_action token)")
      case False
      then show thesis using def live by (intro invalid) simp_all
    next
      case valid: True
      show thesis
      proof (cases "button_action token = ''tarot.recovery.3.abandon''")
        case True
        then show thesis using def live valid by (intro closed [of Claim_abandoned]) simp_all
      next
        case act: False
        then obtain current where b: "balance_for_account (claim_account c) db = Inr current"
          using def live valid by (auto simp: rbind_eq_Inr)
        show thesis
        proof (cases "claim_threshold c \<le> current
            \<or> cooling_down (inv_now (done_invocation req)) (claim_account c) (claim_kind c) (claim_is_test c) db \<noteq> None")
          case True
          then show thesis using def live valid act b by (intro closed [of Claim_abandoned]) simp_all
        next
          case False
          then show thesis using def live valid act b by (intro paid [OF b]) simp_all
        qed
      qed
    qed
  qed
qed

lemma complete_recovery_cases:
  assumes "complete_recovery J encode req db = Inr (result, db')"
  obtains (quiet) "db' = db" "\<not> mutation_created result"
  | (settled) token c where "token \<in> set (interaction_buttons db)" "button_id token = done_token req"
      "button_user token = inv_user (done_invocation req)"
      "load_claim (button_entity token) db = Some c" "claim_state c = Claim_pending"
      "settle_claim J encode req token c db = Inr (result, db')"
proof -
  note def = assms [unfolded complete_recovery_def]
  have valid: "complete_valid req" using def by (auto simp: rbind_eq_Inr)
  show thesis
  proof (cases "List.find (\<lambda>b. button_id b = done_token req
         \<and> button_entity_type b = ''tarot_recovery_claim'') (interaction_buttons db)")
    case None
    then show thesis using def valid by (intro quiet) (auto simp: refused_def recovery_status_def)
  next
    case (Some token)
    then have t: "token \<in> set (interaction_buttons db)" "button_id token = done_token req"
      by (auto simp: find_Some_iff)
    show thesis
    proof (cases "button_user token \<noteq> inv_user (done_invocation req)
       \<or> button_guild token \<noteq> inv_guild (done_invocation req)
       \<or> button_channel token \<noteq> inv_channel (done_invocation req)")
      case True
      then show thesis using def valid Some
        by (intro quiet) (auto simp: refused_def recovery_status_def split: if_splits)
    next
      case own: False
      show thesis
      proof (cases "load_claim (button_entity token) db")
        case None
        then show thesis using def valid Some own
          by (intro quiet) (auto simp: refused_def recovery_status_def)
      next
        case c: (Some c)
        show thesis
        proof (cases "claim_state c = Claim_pending")
          case True
          then show thesis using def valid Some own c t by (intro settled [OF t _ c]) simp_all
        next
          case False
          then show thesis using def valid Some own c
            by (intro quiet) (auto simp: rbind_eq_Inr recovery_result_def)
        qed
      qed
    qed
  qed
qed

lemma load_claim_Some: "load_claim i db = Some c \<Longrightarrow> c \<in> set (tarot_claims db) \<and> claim_id c = i"
  by (auto simp: load_claim_def dest: find_row_Some)

lemma complete_recovery_ok:
  assumes "complete_recovery J encode req db = Inr (result, db')" and ok: "tarot_ok db"
  shows "tarot_ok db'" "grown db db'"
proof -
  from assms(1) have "tarot_ok db' \<and> grown db db'"
  proof (cases rule: complete_recovery_cases)
    case quiet then show ?thesis using ok by simp
  next
    case (settled token c)
    have c: "c \<in> set (tarot_claims db)" "claim_state c = Claim_pending"
      using load_claim_Some [OF settled(4)] settled(5) by auto
    from settled(6) show ?thesis
    proof (cases rule: settle_claim_cases)
      case (closed state type prefix')
      then show ?thesis using close_claim_ok(1,2) ok c by blast
    next
      case invalid then show ?thesis using ok by simp
    next
      case (paid current)
      from reward_claim_ok [OF paid(8) ok c paid(7)] show ?thesis by metis
    qed
  qed
  then show "tarot_ok db'" "grown db db'" by auto
qed

section \<open>Visibility of the standings\<close>

lemma set_standings_visibility_ok:
  assumes v: "set_standings_visibility J req db = Inr (answer, db')" and ok: "tarot_ok db"
  shows "tarot_ok db'" "grown db db'"
proof -
  let ?call = "vis_invocation req"
  obtain account where a: "account_for_user (inv_user ?call) db = Inr (Some account)"
    using v by (auto simp: set_standings_visibility_def Let_def rbind_eq_Inr split: option.splits)
  obtain found where l: "load_receipt J (visibility_key req) db = Inr found"
    using v by (auto simp: set_standings_visibility_def Let_def rbind_eq_Inr a)
  have "tarot_ok db' \<and> grown db db'"
  proof (cases found)
    case (Some r)
    then have "db' = db"
      using v by (auto simp: set_standings_visibility_def Let_def rbind_eq_Inr a l)
    then show ?thesis using ok by simp
  next
    case None
    obtain preference where p: "find_row preference_user (inv_user ?call) (user_preferences db) = Some preference"
      using v by (auto simp: set_standings_visibility_def Let_def a l None split: option.splits)
    show ?thesis
    proof (cases "public_results preference = vis_public req")
      case True
      then show ?thesis
        using v insert_receipt_ok(1,2) [OF _ ok]
        by (auto simp: set_standings_visibility_def Let_def a l None p rbind_eq_Inr)
    next
      case False
      obtain b db1 where e: "record_event J ?call (vis_event req) ''tarot.standings_visibility_changed.v1''
          ''tarot_account'' account (visibility_key req) [(''public'', J_bool (vis_public req))] db = Inr (b, db1)"
        using v False by (auto simp: set_standings_visibility_def Let_def a l None p rbind_eq_Inr)
      obtain ps where r: "insert_receipt J (visibility_key req) ''standings_visibility''
            account (visibility_json req) [(''changed'', J_bool True), (''public'', J_bool (vis_public req))]
            None None (inv_now ?call) (db1\<lparr>user_preferences := ps\<rparr>) = Inr db'"
        using v False by (auto simp: set_standings_visibility_def Let_def a l None p e rbind_eq_Inr)
      obtain es where db1: "db1 = db\<lparr>event_journal := event_journal db @ es\<rparr>" "keys_ok db1"
        using record_event_Inr [OF e] tarot_okD(3) [OF ok] by metis
      let ?db = "db1\<lparr>user_preferences := ps\<rparr>"
      have g: "grown db ?db"
        by (rule grown_same_ledger [where new = "[]" and es = es and ds = "[]" and rs = "[]"]) (simp_all add: db1)
      have "tarot_ok ?db"
        using db1(2) tarot_okD(4) [OF ok]
        by (intro tarot_same_ledger [OF ok g]) (simp_all add: db1(1) keys_ok_def)
      then show ?thesis using insert_receipt_ok(1,2) [OF r] g grown_trans by blast
    qed
  qed
  then show "tarot_ok db'" "grown db db'" by auto
qed

section \<open>History pages\<close>

text \<open>What a snapshot leaves alone.\<close>

definition same_tarot :: "ledger_db \<Rightarrow> ledger_db \<Rightarrow> bool" where
  "same_tarot db db' \<longleftrightarrow> tarot_accounts db' = tarot_accounts db
     \<and> tarot_transactions db' = tarot_transactions db \<and> tarot_postings db' = tarot_postings db
     \<and> tarot_claims db' = tarot_claims db \<and> event_journal db' = event_journal db
     \<and> tarot_draws db' = tarot_draws db \<and> tarot_receipts db' = tarot_receipts db
     \<and> outbox_messages db' = outbox_messages db \<and> wager_cleanups db' = wager_cleanups db
     \<and> house_cleanups db' = house_cleanups db
     \<and> (\<forall>i. list_ex (live_button i) (interaction_buttons db') \<longrightarrow> list_ex (live_button i) (interaction_buttons db))"

lemma same_tarot_refl [simp]: "same_tarot db db" by (simp add: same_tarot_def)

lemma same_tarot_trans: "same_tarot db db1 \<Longrightarrow> same_tarot db1 db2 \<Longrightarrow> same_tarot db db2"
  by (simp add: same_tarot_def)

lemma same_tarot_ok:
  assumes "same_tarot db db'" "tarot_ok db"
  shows "tarot_ok db'" "grown db db'"
proof -
  note same = assms(1) [unfolded same_tarot_def]
  show g: "grown db db'"
    using same by (intro grown_same_ledger [where new = "[]" and es = "[]" and ds = "[]" and rs = "[]"])
      (simp_all add: no_new_buttons_def)
  show "tarot_ok db'"
    using same tarot_okD(3,4) [OF assms(2)]
    by (intro tarot_same_ledger [OF assms(2) g]) (simp_all add: keys_ok_def)
qed

lemma list_ex_map_imp: "list_ex P (map f bs) \<Longrightarrow> (\<And>b. P (f b) \<Longrightarrow> P b) \<Longrightarrow> list_ex P bs"
  by (induction bs) auto

lemma purge_history_same: "same_tarot db (purge_history now db)"
proof -
  let ?f = "\<lambda>b. if button_entity_type b = ''tarot_history_cursor'' \<and> button_state b = Button_active
    \<and> button_expires_at b \<le> now then b\<lparr>button_state := Button_cancelled\<rparr> else b"
  have "live_button i (?f b) \<Longrightarrow> live_button i b" for i b
    by (cases "button_entity_type b = ''tarot_history_cursor'' \<and> button_state b = Button_active
      \<and> button_expires_at b \<le> now") (simp_all add: live_button_def)
  note keep = list_ex_map_imp [of "live_button i" ?f for i, OF _ this]
  show ?thesis unfolding same_tarot_def purge_history_def Let_def
    by (intro conjI allI impI) (simp_all, erule keep)
qed

lemma insert_items_same: "insert_items cursor index es db = Inr db' \<Longrightarrow> same_tarot db db'"
proof (induction es arbitrary: index db)
  case (Cons e es)
  obtain rows where "insert_items cursor (Suc index) es (db\<lparr>history_items := rows\<rparr>) = Inr db'"
    using Cons.prems by (auto simp: rbind_eq_Inr)
  from Cons.IH [OF this] show ?case by (simp add: same_tarot_def)
qed simp

lemma insert_button_same:
  assumes "insert_button b db = Inr db'" "button_entity_type b \<noteq> ''tarot_recovery_claim''"
  shows "same_tarot db db'"
proof -
  have "db' = db\<lparr>interaction_buttons := interaction_buttons db @ [b]\<rparr>"
    using assms(1) by (auto simp: insert_button_def rbind_eq_Inr)
  moreover have "\<not> live_button i b" for i using assms(2) unfolding live_button_def by blast
  ultimately show ?thesis by (simp add: same_tarot_def)
qed

lemma insert_page_buttons_same: "insert_page_buttons req expires pages db = Inr db' \<Longrightarrow> same_tarot db db'"
proof (induction pages arbitrary: db)
  case (Cons page pages)
  obtain db1 where b: "insert_button (new_page_button req expires page) db = Inr db1"
    and rest: "insert_page_buttons req expires pages db1 = Inr db'"
    using Cons.prems by (auto simp: rbind_eq_Inr)
  have "button_entity_type (new_page_button req expires page) \<noteq> ''tarot_recovery_claim''"
    by (simp add: new_page_button_def Let_def)
  from insert_button_same [OF b this] have "same_tarot db db1" .
  then show ?case using Cons.IH [OF rest] same_tarot_trans by blast
qed simp

lemma create_history_snapshot_same:
  assumes "create_history_snapshot req db = Inr (page, db')"
  shows "same_tarot db db'"
proof -
  let ?now = "inv_now (snap_invocation req)"
  let ?p = "purge_history ?now db"
  obtain account where a: "account_for_user (inv_user (snap_invocation req)) ?p = Inr (Some account)"
    using assms by (auto simp: create_history_snapshot_def Let_def rbind_eq_Inr split: option.splits)
  obtain all where h: "history_entries 0 (account_postings account ?p) = Inr all"
    using assms by (auto simp: create_history_snapshot_def Let_def rbind_eq_Inr a)
  obtain expires where x: "checked_add ?now tarot_interaction_lifetime_ms = Inr expires"
    using assms by (auto simp: create_history_snapshot_def Let_def rbind_eq_Inr a h)
  let ?entries = "take tarot_history_maximum_items (rev all)"
  obtain db1 where c: "insert_cursor \<lparr>cursor_id = snap_cursor req, cursor_account = account,
       item_count = min (length all) tarot_history_maximum_items, cursor_created_at = ?now, cursor_expires_at = expires\<rparr> ?p = Inr db1"
    using assms by (auto simp: create_history_snapshot_def Let_def rbind_eq_Inr a h x)
  obtain db2 where i: "insert_items (snap_cursor req) 0 ?entries db1 = Inr db2"
    using assms by (auto simp: create_history_snapshot_def Let_def rbind_eq_Inr a h x c)
  have b: "insert_page_buttons req expires [0..<page_count (min (length all) tarot_history_maximum_items)] db2 = Inr db'"
    using assms by (auto simp: create_history_snapshot_def Let_def rbind_eq_Inr a h x c i)
  have "same_tarot ?p db1" using c by (auto simp: insert_cursor_def rbind_eq_Inr same_tarot_def)
  then show ?thesis
    using purge_history_same [of db] insert_items_same [OF i] insert_page_buttons_same [OF b]
      same_tarot_trans by blast
qed

end
