(* ===== verification/Tarot_History.thy ===== *)
theory Tarot_History
  imports Tarot_Rewards
begin

text \<open>
  Histories of the Tarot tables: the requests the repository serves, in any order and number,
  between steps of the rest of the program, which appends events, messages and users, and books
  wagers on the same ledger. What one operation keeps, every history keeps.
\<close>

section \<open>Requests\<close>

datatype tarot_request =
    Initialize "string list" int
  | Provision provision_request
  | Adjust adjustment_request
  | Reverse reversal_request
  | Start start_request
  | Complete complete_request
  | Show_standings visibility_request
  | Snapshot snapshot_request

text \<open>
  The database after a request. A request that throws changes nothing: its transaction is rolled
  back. Each operation is one transaction; the connection serves one at a time.
\<close>

definition serve :: "json_lib \<Rightarrow> encode_public \<Rightarrow> tarot_request \<Rightarrow> ledger_db \<Rightarrow> ledger_db res" where
  "serve J encode r db = (case r of
      Initialize ids now \<Rightarrow> initialize_system_accounts ids now db
    | Provision req \<Rightarrow> map_sum id snd (ensure_account J req db)
    | Adjust req \<Rightarrow> map_sum id snd (adjust J req db)
    | Reverse req \<Rightarrow> map_sum id snd (reverse J req db)
    | Start req \<Rightarrow> map_sum id snd (start_recovery J req db)
    | Complete req \<Rightarrow> map_sum id snd (complete_recovery J encode req db)
    | Show_standings req \<Rightarrow> map_sum id snd (set_standings_visibility J req db)
    | Snapshot req \<Rightarrow> map_sum id snd (create_history_snapshot req db))"

lemma map_sum_Inr: "map_sum id snd m = Inr db' \<longleftrightarrow> (\<exists>x. m = Inr (x, db'))"
  by (cases m) auto

lemma serve_ok:
  assumes "serve J encode r db = Inr db'" "tarot_ok db"
  shows "tarot_ok db' \<and> grown db db'"
proof (cases r)
  case (Initialize ids now)
  with assms show ?thesis using initialize_ok by (simp add: serve_def)
next
  case (Provision req)
  with assms show ?thesis using ensure_account_ok by (auto simp: serve_def map_sum_Inr)
next
  case (Adjust req)
  with assms show ?thesis using adjust_ok by (auto simp: serve_def map_sum_Inr)
next
  case (Reverse req)
  with assms show ?thesis using reverse_ok by (auto simp: serve_def map_sum_Inr)
next
  case (Start req)
  with assms show ?thesis using start_recovery_ok by (auto simp: serve_def map_sum_Inr)
next
  case (Complete req)
  with assms show ?thesis using complete_recovery_ok by (auto simp: serve_def map_sum_Inr)
next
  case (Show_standings req)
  with assms show ?thesis using set_standings_visibility_ok by (auto simp: serve_def map_sum_Inr)
next
  case (Snapshot req)
  with assms show ?thesis
    by (simp add: serve_def map_sum_Inr) (blast dest: create_history_snapshot_same intro: same_tarot_ok)
qed

section \<open>The rest of the program\<close>

text \<open>
  The wager repositories book on the same ledger: a prepared transaction of one of their types,
  its postings, the seal. What the triggers ask of the wager itself is left out, so that more
  steps are allowed here than in the program. The clean-up of a test of the House, the only other
  writer of the ledger, is left out.
\<close>

fun insert_postings :: "posting_row list \<Rightarrow> ledger_db \<Rightarrow> ledger_db res" where
  "insert_postings [] db = Inr db"
| "insert_postings (p # ps) db = rbind (insert_posting_row p db) (insert_postings ps)"

definition wager_entry :: "transaction_row \<Rightarrow> posting_row list \<Rightarrow> int \<Rightarrow> ledger_db \<Rightarrow> ledger_db res" where
  "wager_entry t ps now db =
     rbind (insert_transaction_row t db) (\<lambda>db.
     rbind (insert_postings ps db) (\<lambda>db.
     seal_transaction (transaction_id t) now db))"

definition elsewhere :: "ledger_db \<Rightarrow> ledger_db \<Rightarrow> bool" where
  "elsewhere db db' \<longleftrightarrow> tarot_accounts db' = tarot_accounts db
     \<and> tarot_transactions db' = tarot_transactions db \<and> tarot_postings db' = tarot_postings db
     \<and> tarot_claims db' = tarot_claims db \<and> tarot_draws db' = tarot_draws db
     \<and> tarot_receipts db' = tarot_receipts db
     \<and> prefix (event_journal db) (event_journal db') \<and> distinct (map event_id (event_journal db'))
     \<and> (\<forall>m \<in> set (outbox_messages db). \<exists>n \<in> set (outbox_messages db'). same_message m n)
     \<and> (\<forall>i. list_ex (live_button i) (interaction_buttons db')
          \<longrightarrow> list_ex (live_button i) (interaction_buttons db))
     \<and> set (wager_cleanups db) \<subseteq> set (wager_cleanups db')
     \<and> set (house_cleanups db) \<subseteq> set (house_cleanups db')"

lemma insert_postings_Inr:
  assumes "insert_postings ps db = Inr db'" "\<forall>p \<in> set ps. posting_transaction p = i"
  shows "db' = db\<lparr>tarot_postings := tarot_postings db @ ps\<rparr> \<and> posting_account ` set ps \<subseteq> account_ids db
    \<and> distinct (map posting_account ps)
    \<and> posting_account ` set ps \<inter> posting_account ` set (postings_of i db) = {}"
  using assms
proof (induction ps arbitrary: db)
  case (Cons p ps)
  let ?db = "db\<lparr>tarot_postings := tarot_postings db @ [p]\<rparr>"
  have p: "posting_check p db" "insert_postings ps ?db = Inr db'" "posting_transaction p = i"
    using Cons.prems by (auto simp: insert_posting_row_def rbind_eq_Inr)
  have "postings_of i ?db = postings_of i db @ [p]" using p(3) by (simp add: postings_of_def)
  moreover have "posting_account p \<in> account_ids db" "posting_account p \<notin> posting_account ` set (postings_of i db)"
    using p(1,3) by (simp_all add: posting_check_def account_ids_def)
  ultimately show ?case using Cons.IH [OF p(2)] Cons.prems(2) by (auto simp: account_ids_def)
qed simp

lemma wager_entry_ok:
  assumes w: "wager_entry t ps now db = Inr db'" and type: "wager_type (transaction_type t)"
    and ps: "\<forall>p \<in> set ps. posting_transaction p = transaction_id t" and ok: "tarot_ok db"
  shows "tarot_ok db' \<and> grown db db'"
proof -
  note ok' = tarot_okD [OF ok]
  let ?d = "t\<lparr>ledger_sequence := next_sequence db\<rparr>"
  let ?row = "?d\<lparr>committed := True, tx_committed_at := Some now\<rparr>"
  let ?db1 = "db\<lparr>tarot_transactions := tarot_transactions db @ [?d]\<rparr>"
  obtain db2 where t: "transaction_check t db" "\<not> transaction_taken t db"
    and p: "insert_postings ps ?db1 = Inr db2" and s: "seal_transaction (transaction_id t) now db2 = Inr db'"
    using w by (auto simp: wager_entry_def insert_transaction_row_def rbind_eq_Inr)
  have ip: "db2 = posts ?d ps db" "posting_account ` set ps \<subseteq> account_ids db" "distinct (map posting_account ps)"
    using insert_postings_Inr [OF p ps] by (auto simp: posts_def account_ids_def)
  have fresh: "transaction_id t \<notin> tx_ids db"
    using t(2) by (auto simp: transaction_taken_def list_ex_iff tx_ids_def)
  have plain: "transaction_type t \<notin> {Starting_grant, Grace_reward, Trial_reward, Test_adjustment, Test_reversal}"
    using type by (auto simp: wager_type_def)
  then have "reversal_of t = None" using t(1) by (auto simp: transaction_check_def)
  then have rv: "reversal_of ?d \<noteq> Some (transaction_id ?d)" by simp
  have d: "transaction_id ?d \<notin> tx_ids db" "ledger_sequence ?d = next_sequence db"
    "\<forall>p \<in> set ps. posting_transaction p = transaction_id ?d"
    "seal_transaction (transaction_id ?d) now (posts ?d ps db) = Inr db'"
    using fresh ps s ip(1) by simp_all
  note se = sealed_entry [OF ok'(1) d(1,2) rv d(3) ip(3,2) d(4)]
  have db': "db' = entered [] ?row ps db" unfolding se(1) by (simp add: entered_def posts_def)
  have g: "grown db db'" unfolding db' using fresh ps by (intro grown_entered) simp_all
  have "tx_event t \<in> event_id ` set (event_journal db)" using t(1) by (simp add: transaction_check_def)
  then have clean: "tx_clean db' ?row"
    using ok'(3) plain \<open>reversal_of t = None\<close>
    by (intro sealed_clean [OF se(3)]) (simp_all add: db' keys_ok_def)
  have "audit_ok_db db'" unfolding db'
  proof (rule audit_entered [OF ok'(1,2)])
    show "grown db (entered [] ?row ps db)" "tx_clean (entered [] ?row ps db) ?row"
      using g clean unfolding db' by this+
  qed (use plain fresh ps in simp_all)
  then show ?thesis using g se(2) ok'(3,4) by (simp add: tarot_ok_def db' keys_ok_def)
qed

lemma elsewhere_ok:
  assumes "elsewhere db db'" "tarot_ok db"
  shows "tarot_ok db' \<and> grown db db'"
proof -
  note e = assms(1) [unfolded elsewhere_def]
  obtain es where es: "event_journal db' = event_journal db @ es" using e by (auto simp: prefix_def)
  have "\<exists>cs new. tarot_claims db' = cs @ new \<and> list_all2 claim_later (tarot_claims db) cs"
    using e by (intro exI [of _ "tarot_claims db"] exI [of _ "[]"]) simp
  then have g: "grown db db'" using e by (simp add: grown_def users_ok_def no_new_buttons_def)
  then show ?thesis
    using e tarot_okD(3,4) [OF assms(2)]
    by (intro conjI tarot_same_ledger [OF assms(2) g]) (simp_all add: keys_ok_def)
qed

section \<open>Histories\<close>

inductive later :: "json_lib \<Rightarrow> encode_public \<Rightarrow> ledger_db \<Rightarrow> ledger_db \<Rightarrow> bool" for J encode where
  now: "later J encode db db"
| request: "later J encode db db1 \<Longrightarrow> serve J encode r db1 = Inr db2 \<Longrightarrow> later J encode db db2"
| wager: "later J encode db db1 \<Longrightarrow> wager_type (transaction_type t) \<Longrightarrow>
    \<forall>p \<in> set ps. posting_transaction p = transaction_id t \<Longrightarrow> wager_entry t ps time db1 = Inr db2 \<Longrightarrow>
    later J encode db db2"
| other: "later J encode db db1 \<Longrightarrow> elsewhere db1 db2 \<Longrightarrow> later J encode db db2"

lemma later_ok: "later J encode db db' \<Longrightarrow> tarot_ok db \<Longrightarrow> tarot_ok db' \<and> grown db db'"
proof (induction rule: later.induct)
  case (request db db1 r db2)
  then show ?case using serve_ok grown_trans by blast
next
  case (wager db db1 t ps time db2)
  then show ?case using wager_entry_ok grown_trans by blast
next
  case (other db db1 db2)
  then show ?case using elsewhere_ok grown_trans by blast
qed simp

text \<open>The migrated database before the first account.\<close>

definition opened :: "ledger_db \<Rightarrow> bool" where
  "opened db \<longleftrightarrow> tarot_accounts db = [] \<and> tarot_transactions db = [] \<and> tarot_postings db = []
     \<and> tarot_claims db = [] \<and> tarot_draws db = [] \<and> tarot_receipts db = []
     \<and> distinct (map event_id (event_journal db))"

lemma opened_ok: "opened db \<Longrightarrow> tarot_ok db \<and> users_ok db"
  by (simp add: opened_def tarot_ok_def books_ok_def within_bounds_def audit_ok_db_def keys_ok_def
      spaced_def users_ok_def)

text \<open>A database some history leads to.\<close>

definition reached :: "json_lib \<Rightarrow> encode_public \<Rightarrow> ledger_db \<Rightarrow> bool" where
  "reached J encode db \<longleftrightarrow> (\<exists>db0. opened db0 \<and> later J encode db0 db)"

lemma reached_ok:
  assumes "reached J encode db"
  shows "tarot_ok db" "users_ok db"
proof -
  obtain db0 where "opened db0" "later J encode db0 db" using assms by (auto simp: reached_def)
  then have "tarot_ok db \<and> grown db0 db" "users_ok db0" using later_ok opened_ok by blast+
  then show "tarot_ok db" "users_ok db" using grownD(12) by blast+
qed

end
