(* ===== verification/Tarot_Promises.thy ===== *)
theory Tarot_Promises
  imports Tarot_History
begin

text \<open>
  What the Tarot repository promises to its users, over every history: the audit stays quiet, Fate
  is conserved, a mutation is exact and applied once, a reversal takes back what was given, a
  reward is spaced by its cooldown.
\<close>

section \<open>Accounts along a history\<close>

lemma human_users: "users_ok db \<Longrightarrow> a \<in> set (tarot_accounts db) \<Longrightarrow> b \<in> set (tarot_accounts db) \<Longrightarrow>
    account_kind a = Human \<Longrightarrow> account_kind b = Human \<Longrightarrow> account_user a = account_user b \<Longrightarrow> a = b"
  by (auto simp: users_ok_def distinct_map inj_on_def)

lemma only_element: "distinct xs \<Longrightarrow> set xs = {a} \<Longrightarrow> xs = [a]"
  by (cases xs) (auto simp: subset_singleton_iff)

lemma account_for_user_eq:
  assumes "users_ok db" "distinct (map account_id (tarot_accounts db))"
  shows "account_for_user u db = Inr (Some i) \<longleftrightarrow>
    (\<exists>a \<in> set (tarot_accounts db). account_kind a = Human \<and> account_user a = Some u \<and> account_id a = i)"
proof
  assume "account_for_user u db = Inr (Some i)"
  from account_for_user_Some [OF this] show
    "\<exists>a \<in> set (tarot_accounts db). account_kind a = Human \<and> account_user a = Some u \<and> account_id a = i" by metis
next
  assume "\<exists>a \<in> set (tarot_accounts db). account_kind a = Human \<and> account_user a = Some u \<and> account_id a = i"
  then obtain a where a: "a \<in> set (tarot_accounts db)" "account_kind a = Human" "account_user a = Some u" "account_id a = i"
    by blast
  let ?P = "\<lambda>a. account_kind a = Human \<and> account_user a = Some u"
  have "distinct (tarot_accounts db)" using assms(2) by (simp add: distinct_map)
  moreover have "x = a" if "x \<in> set (tarot_accounts db)" "?P x" for x
    using human_users [OF assms(1) that(1) a(1)] that(2) a(2,3) by simp
  then have "set (filter ?P (tarot_accounts db)) = {a}" using a unfolding set_filter by blast
  ultimately have "filter ?P (tarot_accounts db) = [a]" by (intro only_element) simp_all
  then show "account_for_user u db = Inr (Some i)" using a(4) by (simp add: account_for_user_def unique_row_def)
qed

lemma account_for_user_grown:
  assumes "tarot_ok db" "users_ok db" "grown db db'" "tarot_ok db'" "account_for_user u db = Inr (Some i)"
  shows "account_for_user u db' = Inr (Some i)"
  using assms(5) set_mono_prefix [OF grownD(1) [OF assms(3)]]
    account_for_user_eq [OF assms(2) books_okD(3) [OF tarot_okD(1) [OF assms(1)]]]
    account_for_user_eq [OF grownD(12) [OF assms(3,2)] books_okD(3) [OF tarot_okD(1) [OF assms(4)]]]
  by blast

lemma balance_account:
  assumes "tarot_ok db" "account_for_user u db = Inr (Some i)"
  shows "balance u db = Inr (account_sum i db)" "kind_of i db = Some Human" "0 \<le> account_sum i db"
  using assms(2) account_for_user_human [OF tarot_okD(1) [OF assms(1)] assms(2)]
    balance_is_sum [OF tarot_okD(1) [OF assms(1)]] human_balance(1) [OF tarot_okD(1) [OF assms(1)]]
  by (simp_all add: balance_def)

text \<open>A user without an account, or two: the query throws, and what it throws is in the accounts.\<close>

lemma balance_no_account:
  assumes "tarot_accounts db' = tarot_accounts db" "\<And>i. account_for_user u db \<noteq> Inr (Some i)"
  shows "balance u db' = balance u db"
proof -
  have same: "account_for_user u db' = account_for_user u db" by (simp add: account_for_user_def assms(1))
  show ?thesis
  proof (cases "account_for_user u db")
    case (Inr x)
    then have "x = None" using assms(2) by (cases x) auto
    then show ?thesis using Inr same by (simp add: balance_def)
  qed (simp add: balance_def same)
qed

text \<open>The balances after an operation that leaves the accounts and changes one of them by \<open>x\<close>.\<close>

lemma balances_after:
  assumes ok: "tarot_ok db" "tarot_ok db'" and users: "users_ok db"
    and same: "tarot_accounts db' = tarot_accounts db"
    and a: "account_for_user user db = Inr (Some account)"
    and sums: "\<And>i. kind_of i db = Some Human \<Longrightarrow> account_sum i db' = account_sum i db + (if i = account then x else 0)"
  shows "balance u db' = (if u = user then Inr (account_sum account db + x) else balance u db)"
proof (cases "\<exists>i. account_for_user u db = Inr (Some i)")
  case False
  then show ?thesis using balance_no_account [OF same] a by auto
next
  case True
  then obtain i where i: "account_for_user u db = Inr (Some i)" by blast
  then have i': "account_for_user u db' = Inr (Some i)" by (simp add: account_for_user_def same)
  note eq = account_for_user_eq [OF users books_okD(3) [OF tarot_okD(1) [OF ok(1)]]]
  have "i = account \<longleftrightarrow> u = user"
  proof
    assume "i = account"
    then obtain r s where "r \<in> set (tarot_accounts db)" "account_user r = Some u" "account_id r = account"
      "s \<in> set (tarot_accounts db)" "account_user s = Some user" "account_id s = account"
      using i a unfolding eq by blast
    then have "r = s" by (intro distinct_key_eq [OF books_okD(3) [OF tarot_okD(1) [OF ok(1)]]]) simp_all
    then show "u = user" using \<open>account_user r = Some u\<close> \<open>account_user s = Some user\<close> by simp
  qed (use i a in simp)
  then show ?thesis
    using balance_account(1) [OF ok(2) i'] balance_account(1,2) [OF ok(1) i] sums by auto
qed

section \<open>The audit and the conservation of Fate\<close>

text \<open>Property C1: The audit the program runs at its start and on the operator's command reports a
  valid ledger after every history: whatever requests were served, refused or repeated and
  whatever the wagers booked in between, no transaction is unbalanced, no balance was ever negative
  or overflowed, every reward belongs to its claim, no link is orphaned and every participant has
  exactly one starting grant.\<close>

theorem audit_stays_valid:
  assumes "reached J encode db"
  shows "report_valid (check_invariants db)"
  using reached_ok(1) [OF assms] by (simp add: check_invariants_quiet tarot_okD(1,2))

text \<open>Property C2: Fate is conserved: after every history the balance of each account can be read
  without an overflow, the balances of all accounts add up to zero, and no participant is in debt.\<close>

theorem fate_is_conserved:
  assumes "reached J encode db"
  shows "\<exists>b. (\<forall>a \<in> set (tarot_accounts db). balance_for_account (account_id a) db = Inr (b a)
       \<and> (account_kind a = Human \<longrightarrow> 0 \<le> b a))
     \<and> (\<Sum>a\<leftarrow>tarot_accounts db. b a) = 0"
proof (intro exI conjI ballI impI)
  note ok = tarot_okD(1) [OF reached_ok(1) [OF assms]]
  show "(\<Sum>a\<leftarrow>tarot_accounts db. account_sum (account_id a) db) = 0" by (rule balances_sum_zero [OF ok])
  fix a assume a: "a \<in> set (tarot_accounts db)"
  show "balance_for_account (account_id a) db = Inr (account_sum (account_id a) db)"
    using a by (intro balance_is_sum [OF ok]) (simp add: account_ids_def)
  assume "account_kind a = Human"
  then have "kind_of (account_id a) db = Some Human" using a books_okD(3) [OF ok] by (auto simp: kind_of_Some)
  then show "0 \<le> account_sum (account_id a) db" by (rule human_balance(1) [OF ok])
qed

section \<open>Adjustments\<close>

lemma receipt_frame:
  assumes "insert_receipt J key operation account request result claim tx now db = Inr db'" "tarot_ok db"
  shows "account_sum i db' = account_sum i db" "balance u db' = balance u db"
    "postings_of i db' = postings_of i db" "tx_ids db' = tx_ids db"
proof -
  note r = insert_receipt_ok [OF assms]
  have "ledger_postings db' = ledger_postings db" by (simp add: ledger_postings_def postings_of_def r(3-5))
  then have l: "balance_for_account i db' = balance_for_account i db" for i
    by (simp add: balance_for_account_def account_postings_def)
  show "account_sum i db' = account_sum i db" by (simp add: account_sum_def account_amounts_def r(3))
  show "balance u db' = balance u db"
    by (simp add: balance_def account_for_user_def l r(5) cong: option.case_cong)
  show "postings_of i db' = postings_of i db" "tx_ids db' = tx_ids db"
    by (simp_all add: postings_of_def tx_ids_def r(3,4))
qed

text \<open>Property C3: An adjustment is exact, in every database a history leads to. Where it would
  take more Fate than the user has, the answer says so, with the balance, and no balance changes;
  otherwise it is applied: the balance of the user changes by the amount, the answer tells the
  new balance, and the balance of every other user stays.\<close>

theorem adjustment_is_exact:
  assumes "reached J encode db"
    and "balance (inv_user (adj_invocation req)) db = Inr b"
    and "load_receipt J (adjust_key req) db = Inr None"
    and "adjust J req db = Inr (result, db')"
  shows "if b + adj_amount req < 0
    then mutation_status result = Would_overdraw \<and> mutation_balance result = b \<and> (\<forall>u. balance u db' = balance u db)
    else mutation_status result = Applied \<and> mutation_balance result = b + adj_amount req
      \<and> mutation_transaction result = adj_transaction req
      \<and> (\<forall>u. balance u db' = (if u = inv_user (adj_invocation req) then Inr (b + adj_amount req)
            else balance u db))"
proof -
  note ok = reached_ok [OF assms(1)]
  obtain account where a: "account_for_user (inv_user (adj_invocation req)) db = Inr (Some account)"
    "apply_adjustment J req account db = Inr (result, db')"
    using assms(4) by (rule adjust_cases) (use assms(3) in auto)
  have b: "b = account_sum account db" using balance_account(1) [OF ok(1) a(1)] assms(2) by simp
  have c: "balance_for_account account db = Inr b"
    using balance_is_sum [OF tarot_okD(1) [OF ok(1)]] account_for_user_human(2) [OF tarot_okD(1) [OF ok(1)] a(1)] b by simp
  from a(2) show ?thesis
  proof (cases rule: apply_adjustment_cases)
    case (overdraw current)
    then have "b + adj_amount req < 0" using c by simp
    then show ?thesis using overdraw c receipt_frame(2) [OF overdraw(4) [unfolded adjust_receipt_def] ok(1)]
      by (simp add: mutation_result_of_def)
  next
    case (applied current db1 updated)
    note p = post_adjustment_ok [OF applied(3) ok(1)]
    have enough: "\<not> b + adj_amount req < 0"
      using applied(1,2) c balance_account(3) [OF ok(1) a(1)] b by auto
    have after: "balance u db1 = (if u = inv_user (adj_invocation req) then Inr (b + adj_amount req) else balance u db)" for u
      unfolding b using p(6,7) by (intro balances_after [OF ok(1) p(1) ok(2) p(4) a(1)]) (auto simp: others_kept_def)
    have a1: "account \<in> account_ids db1"
      using account_for_user_human(2) [OF tarot_okD(1) [OF ok(1)] a(1)] p(4) by (simp add: account_ids_def)
    have "updated = b + adj_amount req"
      using balance_is_sum [OF tarot_okD(1) [OF p(1)] a1] applied(4) p(6) b by simp
    then show ?thesis
      using enough applied(6) after receipt_frame(2) [OF applied(5) [unfolded adjust_receipt_def] p(1)] by simp
  qed
qed

section \<open>Repeated requests\<close>

lemma load_receipt_grown:
  assumes g: "grown db db'" and r: "find_row receipt_key key (tarot_receipts db) = Some r"
    and J: "json_roundtrips J" "json_dump J request = Some (receipt_request r)" "json_dump J outcome = Some (receipt_result r)"
  shows "load_receipt J key db' = Inr (Some \<lparr>rc_operation = receipt_operation r, rc_account = receipt_account r,
    rc_request = request, rc_result = outcome, rc_claim = receipt_claim r, rc_transaction = receipt_transaction r\<rparr>)"
proof -
  have "find_row receipt_key key (tarot_receipts db') = Some r"
    using grownD(5) [OF g] r by (auto simp: prefix_def find_row_prefix)
  moreover have "json_parse J (receipt_request r) = Some request" "json_parse J (receipt_result r) = Some outcome"
    using J by (auto simp: json_roundtrips_def)
  ultimately show ?thesis by (simp add: load_receipt_def)
qed

lemma stored_receipt:
  assumes i: "insert_receipt J key operation account request outcome claim tx now db = Inr db1"
    and g: "grown db1 db'" and J: "json_roundtrips J"
  shows "load_receipt J key db' = Inr (Some \<lparr>rc_operation = operation, rc_account = account,
    rc_request = request, rc_result = outcome, rc_claim = claim, rc_transaction = tx\<rparr>)"
proof -
  obtain r where r: "db1 = db\<lparr>tarot_receipts := tarot_receipts db @ [r]\<rparr>" "receipt_key r = key"
    "receipt_operation r = operation" "receipt_account r = account" "receipt_claim r = claim"
    "receipt_transaction r = tx" "json_dump J request = Some (receipt_request r)"
    "json_dump J outcome = Some (receipt_result r)" "key \<notin> receipt_key ` set (tarot_receipts db)"
    by (rule insert_receipt_Inr [OF i])
  have "find_row receipt_key key (tarot_receipts db1) = Some r"
    using r(9) by (simp add: r(1) r(2) [symmetric] find_row_append_new)
  from load_receipt_grown [OF g this J r(7,8)] show ?thesis by (simp add: r(3-6))
qed

text \<open>Property C4: An adjustment is applied once: whatever happened since, the same request is
  answered with the transaction and the balance of its first answer, marked unchanged where that
  was applied, and changes nothing.\<close>

theorem adjustment_applied_once:
  assumes "reached J encode db" and "json_roundtrips J"
    and "load_receipt J (adjust_key req) db = Inr None"
    and "adjust J req db = Inr (result, db1)"
    and "later J encode db1 db2"
  shows "adjust J req db2 = Inr (result\<lparr>mutation_status :=
      (if mutation_status result = Applied then Unchanged else mutation_status result)\<rparr>, db2)"
proof -
  note ok = reached_ok [OF assms(1)]
  note ok1 = adjust_ok [OF assms(4) ok(1)]
  have ok2: "tarot_ok db2" "grown db1 db2" using later_ok [OF assms(5) ok1(1)] by auto
  have g: "grown db db2" using ok1(2) ok2(2) grown_trans by blast
  obtain account where a: "account_for_user (inv_user (adj_invocation req)) db = Inr (Some account)"
    "adjustment_valid req" "apply_adjustment J req account db = Inr (result, db1)"
    using assms(4) by (rule adjust_cases) (use assms(3) in auto)
  note a2 = account_for_user_grown [OF ok g ok2(1) a(1)]
  from a(3) show ?thesis
  proof (cases rule: apply_adjustment_cases)
    case (overdraw current)
    from stored_receipt [OF overdraw(4) [unfolded adjust_receipt_def] ok2(2) assms(2)] show ?thesis
      using a(2) a2 overdraw(5) by (simp add: adjust_def replay_mutation_def outcome_json_def mutation_result_of_def)
  next
    case (applied current dbx updated)
    from stored_receipt [OF applied(5) [unfolded adjust_receipt_def] ok2(2) assms(2)] show ?thesis
      using a(2) a2 applied(6) by (simp add: adjust_def replay_mutation_def outcome_json_def)
  qed
qed

section \<open>Reversals\<close>

lemma original_postings_sum:
  assumes "books_ok db"
  shows "sum_list (map amount (filter P (original_postings i db))) = sum_list (map amount (filter P (postings_of i db)))"
proof -
  have "filter (\<lambda>p. kind_of (posting_account p) db \<noteq> None) (postings_of i db) = postings_of i db"
    using books_okD(6) [OF assms]
    by (intro filter_True) (auto simp: postings_of_def account_ids_def kind_of_def find_row_None)
  then have "mset (original_postings i db) = mset (postings_of i db)" by (simp add: original_postings_def)
  then have "mset (map amount (filter P (original_postings i db))) = mset (map amount (filter P (postings_of i db)))"
    by simp
  then show ?thesis by (metis sum_mset_sum_list)
qed

lemma applied_reversal:
  assumes r: "reverse J req db = Inr (result, db')" and ok: "tarot_ok db"
    and fresh: "load_receipt J (reverse_key req) db = Inr None" "mutation_status result = Applied"
  obtains account original where "account_for_user (inv_user (rev_invocation req)) db = Inr (Some account)"
    "find_transaction (rev_original req) db = Some original" "tx_actor original = Some (inv_user (rev_invocation req))"
    "reversed_before (rev_original req) db'" "tarot_accounts db' = tarot_accounts db"
    "\<And>i. account_sum i db' = account_sum i db
       - sum_list (map amount (filter (\<lambda>p. posting_account p = i) (postings_of (rev_original req) db)))"
proof -
  obtain account where a: "account_for_user (inv_user (rev_invocation req)) db = Inr (Some account)"
    "apply_reversal J req account db = Inr (result, db')"
    using r by (rule reverse_cases) (use fresh(1) in auto)
  from a(2) show thesis
  proof (cases rule: apply_reversal_cases)
    case (refused status refusal)
    then show thesis using refuse_reversal_ok(4) [OF refused(1) ok] fresh(2) by auto
  next
    case (applied original p q db1 updated)
    note p = post_reversal_ok [OF applied(6) ok]
    note i = insert_receipt_ok [OF applied(8) [unfolded reverse_receipt_def] p(1)]
    have "account_sum i db' = account_sum i db
       - sum_list (map amount (filter (\<lambda>p. posting_account p = i) (postings_of (rev_original req) db)))" for i
      using p(7) [of i] original_postings_sum [OF tarot_okD(1) [OF ok], of "\<lambda>x. posting_account x = i" "rev_original req"]
        receipt_frame(1) [OF applied(8) [unfolded reverse_receipt_def] p(1), of i]
      unfolding applied(4) by simp
    moreover have "reversed_before (rev_original req) db'"
      using p(6) by (auto simp: reversed_before_def i(4))
    moreover have "tx_actor original = Some (inv_user (rev_invocation req))"
      using applied(2) by (simp add: reversible_def)
    moreover have "tarot_accounts db' = tarot_accounts db" using i(5) p(4) by simp
    ultimately show thesis using a(1) applied(1) by (intro that)
  qed
qed

text \<open>Property C5: A reversal takes back exactly what the adjustment gave, however long ago: whatever
  happened between the two, the balance of the user changes by the amount of the adjustment, in
  the other direction, and the balance of everybody else stays.\<close>

theorem reversal_takes_back:
  assumes "reached J encode db"
    and "load_receipt J (adjust_key given) db = Inr None"
    and "adjust J given db = Inr (answer, db1)" and "mutation_status answer = Applied"
    and "later J encode db1 db2"
    and "rev_original req = adj_transaction given"
    and "load_receipt J (reverse_key req) db2 = Inr None"
    and "reverse J req db2 = Inr (result, db3)" and "mutation_status result = Applied"
  shows "inv_user (rev_invocation req) = inv_user (adj_invocation given)
    \<and> balance u db3 = (if u = inv_user (adj_invocation given)
        then map_sum id (\<lambda>b. b - adj_amount given) (balance u db2) else balance u db2)"
proof -
  note ok = reached_ok [OF assms(1)]
  note ok1 = adjust_ok [OF assms(3) ok(1)]
  have ok2: "tarot_ok db2" "grown db1 db2" using later_ok [OF assms(5) ok1(1)] by auto
  have g: "grown db db2" using ok1(2) ok2(2) grown_trans by blast
  have u2: "users_ok db2" using grownD(12) [OF g] ok(2) by blast
  have ok3: "tarot_ok db3" using reverse_ok [OF assms(8) ok2(1)] by blast
  let ?user = "inv_user (adj_invocation given)" and ?tx = "adj_transaction given"
  obtain account where a: "account_for_user ?user db = Inr (Some account)" "apply_adjustment J given account db = Inr (answer, db1)"
    using assms(3) by (rule adjust_cases) (use assms(2) in auto)
  note a2 = account_for_user_grown [OF ok g ok2(1) a(1)]
  obtain dbx where p: "post_adjustment J given account db = Inr dbx"
    and r: "postings_of ?tx db1 = postings_of ?tx dbx" "tx_ids db1 = tx_ids dbx" "tarot_transactions db1 = tarot_transactions dbx"
    using a(2)
  proof (cases rule: apply_adjustment_cases)
    case (overdraw current) then show thesis using assms(4) by (simp add: mutation_result_of_def)
  next
    case (applied current dbx updated)
    note px = post_adjustment_ok(1) [OF applied(3) ok(1)]
    show thesis
      using receipt_frame(3,4) [OF applied(5) [unfolded adjust_receipt_def] px]
        insert_receipt_ok(4) [OF applied(5) [unfolded adjust_receipt_def] px]
      by (intro that [OF applied(3)])
  qed
  note pa = post_adjustment_ok [OF p ok(1)]
  have posts2: "postings_of ?tx db2 = postings_of ?tx dbx"
    using grown_postings_of [OF ok2(2), of ?tx] pa(8) r by simp
  obtain t where t: "find_transaction ?tx db1 = Some t" "tx_actor t = Some ?user"
    using pa(9) r(3) by (auto simp: find_transaction_def)
  note t2 = grown_find_transaction [OF ok2(2) t(1)]
  obtain account2 original where rv: "account_for_user (inv_user (rev_invocation req)) db2 = Inr (Some account2)"
    "find_transaction ?tx db2 = Some original" "tx_actor original = Some (inv_user (rev_invocation req))"
    "tarot_accounts db3 = tarot_accounts db2"
    "\<forall>i. account_sum i db3 = account_sum i db2
       - sum_list (map amount (filter (\<lambda>p. posting_account p = i) (postings_of ?tx db2)))"
    by (rule applied_reversal [OF assms(8) ok2(1) assms(7,9)]) (auto simp: assms(6) intro: that)
  have user: "inv_user (rev_invocation req) = ?user" using rv(2,3) t(2) t2 by simp
  have sums: "account_sum i db3 = account_sum i db2 + (if i = account then - adj_amount given else 0)"
    if "kind_of i db2 = Some Human" for i
  proof -
    have "kind_of i db \<in> {None, Some Human}"
      using grown_kind_of [OF g, of i] that by (cases "kind_of i db") auto
    then show ?thesis using rv(5) pa(10) posts2 by simp
  qed
  show ?thesis
    using user balances_after [OF ok2(1) ok3 u2 rv(4) a2 sums, of u] balance_account(1) [OF ok2(1) a2] by simp
qed

text \<open>Property C6: A transaction is reversed at most once: after a reversal was applied, every other
  request to reverse the same transaction, at any later time and by whomever, is answered with
  forbidden and changes no balance.\<close>

theorem transaction_reversed_once:
  assumes "reached J encode db"
    and "load_receipt J (reverse_key req) db = Inr None"
    and "reverse J req db = Inr (result, db1)" and "mutation_status result = Applied"
    and "later J encode db1 db2"
    and "rev_original again = rev_original req"
    and "load_receipt J (reverse_key again) db2 = Inr None"
    and "reverse J again db2 = Inr (answer, db3)"
  shows "mutation_status answer = Forbidden \<and> balance u db3 = balance u db2"
proof -
  note ok = reached_ok [OF assms(1)]
  note ok1 = reverse_ok [OF assms(3) ok(1)]
  have ok2: "tarot_ok db2" "grown db1 db2" using later_ok [OF assms(5) ok1(1)] by auto
  have g: "grown db db2" using ok1(2) ok2(2) grown_trans by blast
  obtain original where o: "find_transaction (rev_original req) db = Some original"
    "reversed_before (rev_original req) db1"
    by (rule applied_reversal [OF assms(3) ok(1) assms(2,4)]) (auto intro: that)
  have "reversed_before (rev_original req) db2"
    using o(2) set_mono_prefix [OF grownD(2) [OF ok2(2)]] by (auto simp: reversed_before_def list_ex_iff)
  moreover note grown_find_transaction [OF g o(1)]
  moreover obtain account where "apply_reversal J again account db2 = Inr (answer, db3)"
    using assms(8) by (rule reverse_cases) (use assms(7) in \<open>auto intro: that\<close>)
  ultimately have r: "refuse_reversal J again account ''forbidden'' Forbidden db2 = Inr (answer, db3)"
    by (simp add: apply_reversal_def assms(6))
  then obtain b where "reverse_receipt J again account ''forbidden'' b None db2 = Inr db3"
    by (auto simp: refuse_reversal_def rbind_eq_Inr)
  from receipt_frame(2) [OF this [unfolded reverse_receipt_def] ok2(1)] show ?thesis
    using refuse_reversal_ok(4) [OF r ok2(1)] by simp
qed

section \<open>Recoveries\<close>

text \<open>Property C7: Rewards keep their cooldown: of two completed claims of one account, of the same
  kind and both tests or both not, one was completed only when the cooldown of the other had
  passed, whatever the clock of the requests, the repetitions and the concurrent claims were.\<close>

theorem rewards_keep_cooldown:
  assumes "reached J encode db"
    and "c \<in> set (tarot_claims db)" "d \<in> set (tarot_claims db)" "c \<noteq> d"
    and "claim_state c = Claim_completed" "claim_state d = Claim_completed"
    and "claim_account c = claim_account d" "claim_kind c = claim_kind d" "claim_is_test c = claim_is_test d"
  shows "\<exists>first second until done. {first, second} = {c, d} \<and> claim_cooldown_until first = Some until
    \<and> claim_completed_at second = Some done \<and> until \<le> done"
proof -
  note ok = tarot_okD [OF reached_ok(1) [OF assms(1)]]
  have "claim_id c \<noteq> claim_id d" using open_claim_unique [OF ok(3)] assms(2-4) by blast
  then have "follows c d \<or> follows d c"
    using ok(4) assms by (auto simp: spaced_def same_recovery_def)
  moreover have "\<exists>until done. claim_cooldown_until x = Some until \<and> claim_completed_at y = Some done \<and> until \<le> done"
    if "follows x y" for x y using that by (auto simp: follows_def split: option.splits)
  ultimately show ?thesis by (metis insert_commute)
qed

text \<open>Property C8: A recovery pays exactly what it promised, and only to the poor: when a request
  completes a claim, the balance of the account was below the threshold of the claim; Grace brings
  it to the target, not more; a Trial adds the reward that was drawn when the claim was opened,
  and not one made up later. No other balance changes.\<close>

theorem recovery_pays_exactly:
  assumes "reached J encode db"
    and "complete_recovery J encode req db = Inr (result, db')"
    and "result_status result = Status_completed" "mutation_created result"
  shows "\<exists>c b. c \<in> set (tarot_claims db) \<and> claim_id c = result_claim result \<and> claim_state c = Claim_pending
    \<and> balance_for_account (claim_account c) db = Inr b \<and> b < claim_threshold c
    \<and> (case claim_kind c of
         Grace \<Rightarrow> \<exists>target. claim_target c = Some target \<and> balance_for_account (claim_account c) db' = Inr target
       | Trial \<Rightarrow> \<exists>reward. claim_reward c = Some reward \<and> balance_for_account (claim_account c) db' = Inr (b + reward))
    \<and> (\<forall>a \<in> set (tarot_accounts db). account_kind a = Human \<and> account_id a \<noteq> claim_account c \<longrightarrow>
         balance_for_account (account_id a) db' = balance_for_account (account_id a) db)"
proof -
  note ok = reached_ok(1) [OF assms(1)]
  note b1 = tarot_okD(1) [OF ok]
  have ok': "tarot_ok db'" "grown db db'" by (rule complete_recovery_ok [OF assms(2) ok])+
  obtain token c where c: "load_claim (button_entity token) db = Some c" "claim_state c = Claim_pending"
      "settle_claim J encode req token c db = Inr (result, db')"
    using assms(2) by (rule complete_recovery_cases) (use assms(4) in auto)
  have c': "c \<in> set (tarot_claims db)" using load_claim_Some [OF c(1)] by simp
  obtain current where p: "balance_for_account (claim_account c) db = Inr current" "current < claim_threshold c"
      "cooling_down (inv_now (done_invocation req)) (claim_account c) (claim_kind c) (claim_is_test c) db = None"
      "reward_claim J encode req c current db = Inr (result, db')"
    using c(3)
  proof (cases rule: settle_claim_cases)
    case (closed state type prefix')
    then show thesis using close_claim_status [OF closed(1) ok c' c(2) closed(2)] assms(3) by simp
  next
    case invalid then show thesis using assms(4) by (simp add: refused_def recovery_status_def)
  next
    case (paid current) then show thesis by (intro that)
  qed
  obtain reward d where w: "reward_due c current = Inr reward"
    "account_sum (claim_account c) db' = account_sum (claim_account c) db + reward"
    "others_kept (claim_account c) db db'" "tarot_claims db' = replaced c d db" "claim_state d = Claim_completed"
    "claim_account d = claim_account c" "result_claim result = claim_id c"
    by (rule reward_claim_ok [OF p(4) ok c' c(2) p(3)])
  have "d \<in> set (tarot_claims db')" using c' by (auto simp: w(4) replaced_def)
  then have "claim_paid d db'" using tarot_okD(2) [OF ok'(1)] claim_cleanD(4) w(5) by (auto simp: audit_ok_db_def)
  then have "kind_of (claim_account c) db' = Some Human" using w(6) by (auto simp: claim_paid_def list_ex_iff)
  then have after: "balance_for_account (claim_account c) db' = Inr (account_sum (claim_account c) db')"
    using balance_is_sum human_balance(2) tarot_okD(1) [OF ok'(1)] by blast
  have "current = account_sum (claim_account c) db"
  proof (cases "claim_account c \<in> account_ids db")
    case True then show ?thesis using balance_is_sum [OF b1] p(1) by simp
  next
    case False
    then have "account_amounts (claim_account c) db = []"
      by (auto simp: account_amounts_def filter_empty_conv dest!: books_okD(6) [OF b1])
    then show ?thesis using p(1) account_postings_amounts [OF b1, of "claim_account c"]
      by (simp add: balance_for_account_def account_sum_def)
  qed
  then have "case claim_kind c of
         Grace \<Rightarrow> \<exists>target. claim_target c = Some target \<and> balance_for_account (claim_account c) db' = Inr target
       | Trial \<Rightarrow> \<exists>reward. claim_reward c = Some reward \<and> balance_for_account (claim_account c) db' = Inr (current + reward)"
    using after w(2) reward_due_Inr [OF w(1)] by (auto split: recovery_kind.split)
  moreover have "balance_for_account (account_id a) db' = balance_for_account (account_id a) db"
    if a: "a \<in> set (tarot_accounts db)" "account_kind a = Human" "account_id a \<noteq> claim_account c" for a
  proof -
    have "kind_of (account_id a) db = Some Human" using a(1,2) books_okD(3) [OF b1] by (auto simp: kind_of_Some)
    then have "account_sum (account_id a) db' = account_sum (account_id a) db"
      using w(3) a(3) by (auto simp: others_kept_def)
    moreover have "account_id a \<in> account_ids db" "account_id a \<in> account_ids db'"
      using a(1) grown_account_ids [OF ok'(2)] by (auto simp: account_ids_def)
    ultimately show ?thesis using balance_is_sum b1 tarot_okD(1) [OF ok'(1)] by metis
  qed
  ultimately show ?thesis using c' c(2) p(1,2) w(7) by (intro exI [of _ c] exI [of _ current]) auto
qed

end
