(* ===== verification/Tarot_Samples.thy ===== *)
theory Tarot_Samples
  imports Tarot_Promises
begin

text \<open>
  Two concrete histories of the Tarot tables, evaluated: an account that is adjusted and the
  adjustment reversed, and one that completes two recoveries. They witness that the hypotheses of
  the properties can hold together.
\<close>

section \<open>A text format for the samples\<close>

text \<open>Strings with every character marked, numbers in unary bits: enough of a library that round-trips.\<close>

definition marked :: "string \<Rightarrow> string" where
  "marked s = concat (map (\<lambda>c. [CHR ''.'', c]) s) @ '';''"

fun unmark :: "string \<Rightarrow> (string \<times> string) option" where
  "unmark (a # rest) = (if a = CHR '';'' then Some ([], rest)
     else case rest of [] \<Rightarrow> None
       | c # rest \<Rightarrow> map_option (\<lambda>(s, t). (c # s, t)) (unmark rest))"
| "unmark [] = None"

lemma unmark_marked: "unmark (marked s @ t) = Some (s, t)"
  by (induction s) (simp_all add: marked_def)

fun sample_value :: "json \<Rightarrow> string" where
  "sample_value (J_string s) = CHR ''s'' # marked s"
| "sample_value (J_int n) = (if n < 0 then CHR ''m'' else CHR ''p'') # marked (decimal (nat \<bar>n\<bar>))"
| "sample_value (J_bool b) = [if b then CHR ''t'' else CHR ''f'']"

fun parse_value :: "string \<Rightarrow> (json \<times> string) option" where
  "parse_value (c # t) =
     (if c = CHR ''t'' then Some (J_bool True, t)
      else if c = CHR ''f'' then Some (J_bool False, t)
      else case unmark t of None \<Rightarrow> None
        | Some (s, t) \<Rightarrow>
            Some (if c = CHR ''s'' then J_string s
              else if c = CHR ''m'' then J_int (- int (digits_value 0 s)) else J_int (int (digits_value 0 s)), t))"
| "parse_value [] = None"

lemma parse_value: "parse_value (sample_value v @ t) = Some (v, t)"
  by (cases v) (auto simp: unmark_marked digits_value_decimal)

definition sample_dump :: "json_object \<Rightarrow> string" where
  "sample_dump obj = CHR ''o'' # concat (map (\<lambda>(k, v). CHR ''k'' # marked k @ sample_value v) obj) @ ''.''"

fun parse_members :: "nat \<Rightarrow> string \<Rightarrow> json_object option" where
  "parse_members (Suc fuel) (c # t) =
     (if c = CHR ''k'' then
        Option.bind (unmark t) (\<lambda>(k, t). Option.bind (parse_value t) (\<lambda>(v, t).
          map_option (\<lambda>obj. (k, v) # obj) (parse_members fuel t)))
      else Some [])"
| "parse_members _ _ = None"

lemma parse_members:
  "length obj < n \<Longrightarrow> parse_members n (concat (map (\<lambda>(k, v). CHR ''k'' # marked k @ sample_value v) obj) @ ''.'') = Some obj"
proof (induction obj arbitrary: n)
  case Nil
  then show ?case by (cases n) auto
next
  case (Cons m obj)
  then show ?case by (cases n; cases m) (auto simp: unmark_marked parse_value)
qed

definition sample_json :: json_lib where
  "sample_json = \<lparr>json_dump = \<lambda>obj. Some (sample_dump obj),
     json_parse = \<lambda>s. parse_members (length s) (tl s), json_text_ok = \<lambda>_. True\<rparr>"

lemma sample_json_roundtrips: "json_roundtrips sample_json"
proof -
  have "length obj \<le> length (concat (map (\<lambda>(k, v). CHR ''k'' # marked k @ sample_value v) obj))" for obj :: json_object
    by (induction obj) auto
  then have "length obj < length (sample_dump obj)" for obj
    by (simp add: sample_dump_def less_Suc_eq_le le_SucI)
  then show ?thesis by (auto simp: json_roundtrips_def sample_json_def sample_dump_def parse_members)
qed

section \<open>The opened database\<close>

definition sample_encode :: encode_public where
  "sample_encode content guild channel correlation event = Inr content"

definition sample_opened :: ledger_db where
  "sample_opened = \<lparr>guild_configs = [1], discord_users = [7, 8], event_journal = [], scheduled_jobs = [],
     outbox_messages = [], tarot_accounts = [], tarot_transactions = [], tarot_postings = [],
     tarot_draws = [], tarot_claims = [], tarot_receipts = [], interaction_buttons = [],
     history_cursors = [], history_items = [], user_names = [], user_preferences = [],
     wager_cleanups = [], house_cleanups = []\<rparr>"

definition tarot_id :: "char \<Rightarrow> string" where
  "tarot_id c = ''123e4567-e89b-42d3-a456-42661417400'' @ [c]"

definition sample_invocation :: "int \<Rightarrow> char \<Rightarrow> invocation" where
  "sample_invocation now c = \<lparr>inv_user = 7, inv_guild = 1, inv_channel = 2, inv_name = ''Ada'',
     inv_key = ''call:'' @ [c], inv_correlation = ''c'', inv_now = now\<rparr>"

definition sample_provision :: provision_request where
  "sample_provision = \<lparr>prov_invocation = sample_invocation 2 CHR ''1'', starting_fate = 100,
     prov_account = tarot_id CHR ''5'', prov_transaction = tarot_id CHR ''0'', prov_event = tarot_id CHR ''0'',
     prov_mint_posting = tarot_id CHR ''0'', prov_human_posting = tarot_id CHR ''1''\<rparr>"

definition accounts_db :: ledger_db where
  "accounts_db = sample_opened\<lparr>tarot_accounts := map (\<lambda>(c, k). \<lparr>account_id = tarot_id c, account_kind = k,
     account_user = None, account_created_at = 1\<rparr>) (zip ''0123'' system_kinds)\<rparr>"

lemma tarot_id_eq [simp]: "tarot_id c = tarot_id d \<longleftrightarrow> c = d" by (simp add: tarot_id_def)

lemma tarot_id_valid: "lowercase_hex c \<Longrightarrow> valid_uuid_v4 (tarot_id c)"
  by (simp add: tarot_id_def valid_uuid_v4_def lowercase_hex_def is_digit_def less_eq_char_def)

lemma tarot_ids [simp]: "valid_uuid_v4 (tarot_id CHR ''0'')" "valid_uuid_v4 (tarot_id CHR ''1'')"
  "valid_uuid_v4 (tarot_id CHR ''2'')" "valid_uuid_v4 (tarot_id CHR ''3'')" "valid_uuid_v4 (tarot_id CHR ''4'')"
  "valid_uuid_v4 (tarot_id CHR ''5'')" "valid_uuid_v4 (tarot_id CHR ''6'')" "valid_uuid_v4 (tarot_id CHR ''7'')"
  "valid_uuid_v4 (tarot_id CHR ''8'')" "valid_uuid_v4 (tarot_id CHR ''9'')"
  by (rule tarot_id_valid, simp add: lowercase_hex_def is_digit_def less_eq_char_def)+

lemma sample_initialized: "initialize_system_accounts (map tarot_id ''0123'') 1 sample_opened = Inr accounts_db"
  by code_simp
lemmas text_eval = machine_text_def machine_char_def is_digit_def less_eq_char_def between_def

lemma length_marked [simp]: "length (marked s) = 2 * length s + 1"
  by (induction s) (simp_all add: marked_def)

lemma dump_simps [simp]: "json_dump sample_json obj = Some (sample_dump obj)" "json_text_ok sample_json s"
  by (simp_all add: sample_json_def)

lemma dump_length: "length (sample_dump obj) = 2 + sum_list (map (\<lambda>(k, v). 2 * length k + 2 + length (sample_value v)) obj)"
  by (induction obj) (auto simp: sample_dump_def)

lemmas request_eval = ensure_account_def provision_valid_def sample_invocation_def snowflake_is_set_def
  account_for_user_def unique_row_def grant_account_def Let_def insert_account_def account_check_def account_taken_def
lemmas event_eval = record_event_def dumped_def insert_event_def event_for_def require_type_def require_key_def require_timestamp_def
  event_matches_def find_row_def event_check_def event_references_def payload_check_def dump_length
lemmas entry_eval = insert_transaction_def insert_transaction_row_def transaction_check_def transaction_taken_def
  next_sequence_def insert_posting_def insert_posting_row_def posting_check_def find_transaction_def postings_of_def
  system_account_def seal_transaction_def update_rows_def seal_check_def seal_link_def grant_shape_def prior_grant_def kind_of_def
  no_overflow_def no_overdraft_def committed_sum_def is_committed_def wager_type_def
  entered_def posts_def sealed_row_def posting_of_def snowflake_str_def 

definition plain :: "char \<Rightarrow> bool" where
  "plain c \<longleftrightarrow> c \<noteq> CHR 0x00 \<and> (of_char c :: nat) < 128"

lemma sql_plain: "list_all plain s \<Longrightarrow> sql_length s = length s"
proof -
  assume "list_all plain s"
  then have "takeWhile (\<lambda>c. c \<noteq> CHR 0x00) s = s" "filter (\<lambda>c. (of_char c :: nat) < 128 \<or> 192 \<le> (of_char c :: nat)) s = s"
    by (auto simp: list_all_iff plain_def takeWhile_eq_all_conv filter_id_conv)
  then show ?thesis unfolding sql_length_def by (simp only:)
qed

lemma plain_marks [simp]: "plain CHR ''.''" "plain CHR '';''" "plain CHR ''s''" "plain CHR ''m''" "plain CHR ''p''"
  "plain CHR ''t''" "plain CHR ''f''" "plain CHR ''o''" "plain CHR ''k''" "plain CHR ''-''"
  by (simp_all add: plain_def)

lemma plain_digit: "is_digit c \<Longrightarrow> plain c"
  by (auto simp: is_digit_def plain_def less_eq_char_def)

lemma plain_decimal [simp]: "list_all plain (decimal n)"
  using decimal_digits [of n] plain_digit by (auto simp: list_all_iff)

lemma plain_marked [simp]: "list_all plain (marked s) \<longleftrightarrow> list_all plain s"
  by (induction s) (auto simp: marked_def)

lemma plain_value [simp]: "list_all plain (sample_value v) \<longleftrightarrow> (case v of J_string s \<Rightarrow> list_all plain s | _ \<Rightarrow> True)"
  by (cases v) auto

lemma plain_dump [simp]: "list_all plain (sample_dump obj) \<longleftrightarrow>
    list_all (\<lambda>(k, v). list_all plain k \<and> (case v of J_string s \<Rightarrow> list_all plain s | _ \<Rightarrow> True)) obj"
  by (induction obj) (auto simp: sample_dump_def)

lemma tarot_id_text: "length (tarot_id c) = 36" "list_all plain (tarot_id c) \<longleftrightarrow> plain c"
  by (simp_all add: tarot_id_def plain_def)

definition "sample_human = \<lparr>account_id = tarot_id CHR ''5'', account_kind = Human, account_user = Some 7, account_created_at = 2\<rparr>"

definition granted_db :: ledger_db where
  "granted_db = entered [event_for (sample_invocation 2 CHR ''1'') (tarot_id CHR ''0'') ''tarot.starting_grant.v1'' ''tarot_account''
      (tarot_id CHR ''5'') (''tarot.starting_grant:'' @ snowflake_str (7::u64)) (sample_dump [(''amount'', J_int 100), (''currency'', J_string ''Fate'')])]
    (sealed_row (tarot_id CHR ''0'') Starting_grant (tarot_id CHR ''0'') (''tarot.starting_grant:'' @ snowflake_str (7::u64)) 7 None False None 2 1)
    [posting_of (tarot_id CHR ''0'') (tarot_id CHR ''0'') (tarot_id CHR ''0'') (- 100) 2,
     posting_of (tarot_id CHR ''1'') (tarot_id CHR ''0'') (tarot_id CHR ''5'') 100 2]
    (accounts_db\<lparr>tarot_accounts := tarot_accounts accounts_db @ [sample_human]\<rparr>)"

lemma decimal_7: "decimal 7 = ''7''" by code_simp
lemma decimal_100: "decimal 100 = ''100''" by code_simp

lemma sample_granted: "ensure_account sample_json sample_provision accounts_db = Inr (\<lparr>provisioned_account = tarot_id CHR ''5'', provisioned_balance = 100, provision_created = True\<rparr>, granted_db)"
  by (simp add: request_eval event_eval entry_eval text_eval sample_provision_def granted_db_def accounts_db_def sample_opened_def sample_human_def system_kinds_def decimal_7 decimal_100 sql_plain tarot_id_text plain_def del: set_filter)

lemma tarot_id_le: "tarot_id c \<le> tarot_id d \<longleftrightarrow> c \<le> d"
  by (simp add: tarot_id_def order.order_iff_strict)

definition sample_adjustment :: "int \<Rightarrow> char \<Rightarrow> int \<Rightarrow> char \<Rightarrow> char \<Rightarrow> char \<Rightarrow> char \<Rightarrow> adjustment_request" where
  "sample_adjustment now call x tx event p q = \<lparr>adj_invocation = sample_invocation now call, adj_amount = x,
     adj_reason = ''test'', adj_transaction = tarot_id tx, adj_event = tarot_id event,
     adj_system_posting = tarot_id p, adj_human_posting = tarot_id q\<rparr>"

definition "given = sample_adjustment 3 CHR ''2'' 50 CHR ''1'' CHR ''1'' CHR ''2'' CHR ''3''"

definition sample_entry :: "invocation \<Rightarrow> transaction_type \<Rightarrow> string option \<Rightarrow> bool \<Rightarrow> string option \<Rightarrow> char \<Rightarrow> char \<Rightarrow> string \<Rightarrow> string \<Rightarrow> string \<Rightarrow> string \<Rightarrow> json_object
  \<Rightarrow> nat \<Rightarrow> (char \<times> char \<times> int) list \<Rightarrow> ledger_db \<Rightarrow> ledger_db" where
  "sample_entry call type reason is_test reverses tx event ety aty aggregate key payload seq ps =
     entered [event_for call (tarot_id event) ety aty aggregate key (sample_dump payload)]
       (sealed_row (tarot_id tx) type (tarot_id event) key 7 reason is_test reverses (inv_now call) seq)
       (map (\<lambda>(i, a, x). posting_of (tarot_id i) (tarot_id tx) (tarot_id a) x (inv_now call)) ps)"

definition sample_receipt :: "string \<Rightarrow> string \<Rightarrow> json_object \<Rightarrow> json_object \<Rightarrow> string option \<Rightarrow> string option \<Rightarrow> int \<Rightarrow> ledger_db \<Rightarrow> ledger_db" where
  "sample_receipt key operation request outcome claim tx now db = db\<lparr>tarot_receipts := tarot_receipts db @
     [\<lparr>receipt_key = key, receipt_operation = operation, receipt_account = tarot_id CHR ''5'',
       receipt_request = sample_dump request, receipt_result = sample_dump outcome, receipt_claim = claim,
       receipt_transaction = tx, receipt_created_at = now\<rparr>]\<rparr>"

definition adjusted_with :: "adjustment_request \<Rightarrow> char \<Rightarrow> char \<Rightarrow> nat \<Rightarrow> (char \<times> char \<times> int) list \<Rightarrow> ledger_db \<Rightarrow> ledger_db" where
  "adjusted_with req tx event seq ps = sample_entry (adj_invocation req) Test_adjustment (Some ''test'') True None tx event
     ''tarot.admin_adjusted.v1'' ''tarot_transaction'' (tarot_id tx) (adjust_key req)
     [(''is_test'', J_bool True), (''reason'', J_string ''test'')] seq ps"

definition adjusted_db :: ledger_db where
  "adjusted_db = sample_receipt (adjust_key given) ''adjust'' (adjustment_json given) (outcome_json ''applied'' 150) None (Some (tarot_id CHR ''1'')) 3
     (adjusted_with given CHR ''1'' CHR ''1'' 2 [(CHR ''2'', CHR ''0'', - 50), (CHR ''3'', CHR ''5'', 50)] granted_db)"

lemmas sample_eval = request_eval event_eval entry_eval text_eval sql_plain tarot_id_text plain_def
  accounts_db_def granted_db_def sample_opened_def sample_human_def system_kinds_def decimal_7 decimal_100

lemmas balance_eval = balance_for_account_def account_postings_def ledger_postings_def checked_add_def tarot_id_le

lemma decimals [simp]: "decimal 0 = ''0''" "decimal 200 = ''200''" "decimal 1000 = ''1000''" "decimal 1 = ''1''" "decimal (Suc 0) = ''1''" "decimal 2 = ''2''" "decimal 50 = ''50''" "decimal 150 = ''150''" by code_simp+

lemma granted_balance: "balance_for_account (tarot_id CHR ''5'') granted_db = Inr 100"
  by (simp add: sample_eval balance_eval less_eq_char_def del: set_filter)

lemma sample_adjusted: "adjust sample_json given granted_db = Inr (\<lparr>mutation_status = Applied, mutation_transaction = tarot_id CHR ''1'', mutation_balance = 150\<rparr>, adjusted_db)"
  by (simp add: sample_eval balance_eval adjust_def adjustment_valid_def given_def sample_adjustment_def blank_reason_def is_space_def
    load_receipt_def adjust_key_def apply_adjustment_def post_adjustment_def adjust_receipt_def insert_receipt_def receipt_check_def
   adjustment_json_def outcome_json_def adjusted_with_def sample_entry_def sample_receipt_def adjusted_db_def audit_ok_def adjustment_shape_def audit_event_def human_posting_def
   user_of_def sql_trim_def trim_set_def del: set_filter)

section \<open>A history with mutations\<close>

lemmas mutation_eval = adjust_def adjustment_valid_def sample_adjustment_def blank_reason_def is_space_def
    load_receipt_def adjust_key_def apply_adjustment_def post_adjustment_def adjust_receipt_def insert_receipt_def receipt_check_def
   adjustment_json_def outcome_json_def adjusted_with_def sample_entry_def sample_receipt_def audit_ok_def adjustment_shape_def audit_event_def human_posting_def
   user_of_def sql_trim_def trim_set_def

definition sample_reversal :: "int \<Rightarrow> char \<Rightarrow> reversal_request" where
  "sample_reversal now call = \<lparr>rev_invocation = sample_invocation now call, rev_original = tarot_id CHR ''1'',
     rev_reason = ''test'', rev_transaction = tarot_id CHR ''2'', rev_event = tarot_id CHR ''2'',
     rev_first_posting = tarot_id CHR ''4'', rev_second_posting = tarot_id CHR ''5''\<rparr>"

definition reversed_db :: ledger_db where
  "reversed_db = (let req = sample_reversal 4 CHR ''3'' in
     sample_receipt (reverse_key req) ''reverse'' (reversal_json req) (outcome_json ''applied'' 100) None (Some (tarot_id CHR ''2'')) 4
     (sample_entry (rev_invocation req) Test_reversal (Some ''test'') True (Some (tarot_id CHR ''1'')) CHR ''2'' CHR ''2''
     ''tarot.transaction_reversed.v1'' ''tarot_transaction'' (tarot_id CHR ''2'') (reverse_key req)
     [(''is_test'', J_bool True), (''reason'', J_string ''test''), (''reversal_of'', J_string (tarot_id CHR ''1''))]
     3 [(CHR ''4'', CHR ''0'', 50), (CHR ''5'', CHR ''5'', - 50)] adjusted_db))"

lemmas reversal_eval = mutation_eval reverse_def reversal_valid_def sample_reversal_def reverse_key_def reversal_json_def apply_reversal_def
  reversible_def reversed_before_def original_postings_def own_postings_def inverse_human_amount_def commit_reversal_def
  post_reversal_def reverse_receipt_def refuse_reversal_def reversal_shape_def inverse_postings_def cleanup_allows_def mutation_result_of_def

lemma sample_reversed: "reverse sample_json (sample_reversal 4 CHR ''3'') adjusted_db = Inr (\<lparr>mutation_status = Applied, mutation_transaction = tarot_id CHR ''2'', mutation_balance = 100\<rparr>, reversed_db)"
  by (simp add: sample_eval balance_eval reversal_eval given_def adjusted_db_def reversed_db_def del: set_filter)

definition refused_db :: ledger_db where
  "refused_db = (let req = sample_reversal 5 CHR ''4'' in
     sample_receipt (reverse_key req) ''reverse'' (reversal_json req) (outcome_json ''forbidden'' 100) None None 5 reversed_db)"

lemma sample_refused: "reverse sample_json (sample_reversal 5 CHR ''4'') reversed_db = Inr (mutation_result_of Forbidden 100, refused_db)"
  by (simp add: sample_eval balance_eval reversal_eval given_def adjusted_db_def reversed_db_def refused_db_def del: set_filter)

section \<open>A history with recoveries\<close>

definition sample_start :: "int \<Rightarrow> char \<Rightarrow> char \<Rightarrow> char \<Rightarrow> start_request" where
  "sample_start now call claim event = \<lparr>start_invocation = sample_invocation now call, start_kind = Grace,
     start_visibility = Private_result, start_is_test = False, start_threshold = 150, start_target = Some 250,
     start_cooldown_ms = 1000, start_trial = None, start_claim = tarot_id claim, start_draw = None,
     start_event = tarot_id event, start_expired_event = tarot_id CHR ''9'', start_tokens = [tarot_id claim]\<rparr>"

definition sample_complete :: "int \<Rightarrow> char \<Rightarrow> char \<Rightarrow> char \<Rightarrow> char \<Rightarrow> char \<Rightarrow> char \<Rightarrow> complete_request" where
  "sample_complete now call token tx event p q = \<lparr>done_invocation = sample_invocation now call, done_token = tarot_id token,
     done_grace_cooldown = 1000, done_trial_cooldown = 1000, done_transaction = tarot_id tx, done_event = tarot_id event,
     done_mint_posting = tarot_id p, done_human_posting = tarot_id q, done_outbox = tarot_id CHR ''0'',
     done_nonce = ''0123456789012345678901234''\<rparr>"

definition sample_claim :: "start_request \<Rightarrow> int \<Rightarrow> claim_row" where
  "sample_claim req b = new_claim_row req (tarot_id CHR ''5'') b None (inv_now (start_invocation req) + 900000)"

definition opened_claim :: "start_request \<Rightarrow> int \<Rightarrow> ledger_db \<Rightarrow> ledger_db" where
  "opened_claim req b db = sample_receipt (start_key req) ''recovery_start'' (start_json req) [(''status'', J_string ''pending'')]
     (Some (start_claim req)) None (inv_now (start_invocation req))
     (db\<lparr>event_journal := event_journal db @ [event_for (start_invocation req) (start_event req) ''tarot.grace_started.v1''
          ''tarot_recovery_claim'' (start_claim req) (start_key req)
          (sample_dump [(''claim_type'', J_string ''GRACE''), (''is_test'', J_bool False), (''visibility'', J_string ''private'')])],
        tarot_claims := tarot_claims db @ [sample_claim req b],
        interaction_buttons := interaction_buttons db
          @ [claim_button req (inv_now (start_invocation req) + 900000) 0 (start_claim req)]\<rparr>)"

definition "first_start = sample_start 10 CHR ''5'' CHR ''0'' CHR ''1''"
definition "started_db = opened_claim first_start 100 granted_db"

lemmas recovery_eval = start_recovery_def start_valid_def sample_start_def start_key_def start_json_def pending_claim_def
  begin_claim_def cooling_down_def latest_cooldown_def open_claim_def trial_draw_of_def record_draw_def commit_claim_def
  tarot_interaction_lifetime_ms_def insert_claim_def new_claim_row_def claim_check_def claim_clash_def insert_button_def button_check_def
  claim_button_def load_claim_def start_receipt_def recovery_result_def claim_buttons_def started_event_def recovery_kind_name_def visibility_name_def
  opened_claim_def sample_claim_def prompt_variant_def custom_id_def tarot_component_prefix_def

lemma sample_started: "\<exists>r. start_recovery sample_json first_start granted_db = Inr (r, started_db) \<and> result_status r = Status_pending"
  by (simp add: sample_eval balance_eval mutation_eval recovery_eval started_db_def first_start_def del: set_filter)

definition completed_with :: "complete_request \<Rightarrow> claim_row \<Rightarrow> int \<Rightarrow> char \<Rightarrow> char \<Rightarrow> nat \<Rightarrow> (char \<times> char \<times> int) list \<Rightarrow> ledger_db \<Rightarrow> ledger_db" where
  "completed_with req c reward tx event seq ps db = (let paid = sample_entry (done_invocation req) Grace_reward None False None tx event
     ''tarot.grace_completed.v1'' ''tarot_recovery_claim'' (claim_id c) (''tarot.recovery_complete:'' @ claim_id c)
     [(''claim_type'', J_string ''GRACE''), (''is_test'', J_bool False), (''visibility'', J_string ''private'')] seq ps db in
     paid\<lparr>tarot_claims := map (\<lambda>d. if claim_id d = claim_id c then completed_claim req reward (inv_now (done_invocation req)) 1000 d else d) (tarot_claims db),
       interaction_buttons := map (cancel_buttons (claim_id c)) (interaction_buttons db)\<rparr>)"

definition "first_complete = sample_complete 20 CHR ''6'' CHR ''0'' CHR ''1'' CHR ''2'' CHR ''2'' CHR ''3''"
definition "first_claim = sample_claim first_start 100"
definition "completed_db = completed_with first_complete first_claim 150 CHR ''1'' CHR ''2'' 2 [(CHR ''2'', CHR ''0'', - 150), (CHR ''3'', CHR ''5'', 150)] started_db"

lemmas completion_eval = complete_recovery_def complete_valid_def sample_complete_def settle_claim_def valid_action_def reward_claim_def
  reward_due_def pay_claim_def announce_claim_def finish_claim_def completed_claim_def completed_with_def cancel_buttons_def
  transition_guard_def same_claim_def terminal_event_def claim_paid_def reward_type_def completed_event_def balance_through_def
  first_start_def first_complete_def first_claim_def

lemma sample_completed: "\<exists>r. complete_recovery sample_json sample_encode first_complete started_db = Inr (r, completed_db) \<and> result_status r = Status_completed \<and> mutation_created r"
  by (simp add: sample_eval balance_eval mutation_eval recovery_eval completion_eval started_db_def completed_db_def del: set_filter)

definition "taken = sample_adjustment 30 CHR ''7'' (- 200) CHR ''2'' CHR ''3'' CHR ''4'' CHR ''5''"

definition taken_db :: ledger_db where
  "taken_db = sample_receipt (adjust_key taken) ''adjust'' (adjustment_json taken) (outcome_json ''applied'' 50) None (Some (tarot_id CHR ''2'')) 30
     (adjusted_with taken CHR ''2'' CHR ''3'' 3 [(CHR ''4'', CHR ''3'', 200), (CHR ''5'', CHR ''5'', - 200)] completed_db)"

lemma sample_taken: "\<exists>r. adjust sample_json taken completed_db = Inr (r, taken_db) \<and> mutation_status r = Applied"
  by (simp add: sample_eval balance_eval mutation_eval recovery_eval completion_eval started_db_def completed_db_def taken_db_def taken_def del: set_filter)

definition "second_start = sample_start 2000 CHR ''8'' CHR ''1'' CHR ''4''"
definition "restarted_db = opened_claim second_start 50 taken_db"

lemma sample_restarted: "\<exists>r. start_recovery sample_json second_start taken_db = Inr (r, restarted_db)"
  by (simp add: sample_eval balance_eval mutation_eval recovery_eval completion_eval started_db_def completed_db_def taken_db_def taken_def restarted_db_def
    second_start_def del: set_filter)

definition "second_complete = sample_complete 2010 CHR ''9'' CHR ''1'' CHR ''3'' CHR ''5'' CHR ''6'' CHR ''7''"
definition "second_claim = sample_claim second_start 50"
definition "completed_again_db = completed_with second_complete second_claim 200 CHR ''3'' CHR ''5'' 4 [(CHR ''6'', CHR ''0'', - 200), (CHR ''7'', CHR ''5'', 200)] restarted_db"

lemma sample_completed_again: "\<exists>r. complete_recovery sample_json sample_encode second_complete restarted_db = Inr (r, completed_again_db)"
  by (simp add: sample_eval balance_eval mutation_eval recovery_eval completion_eval started_db_def completed_db_def taken_db_def taken_def restarted_db_def completed_again_db_def
    second_start_def second_complete_def second_claim_def del: set_filter)

section \<open>The histories\<close>

lemmas later_once = later.request [OF later.now]

lemma granted_later: "later sample_json sample_encode sample_opened granted_db"
proof -
  have "serve sample_json sample_encode (Initialize (map tarot_id ''0123'') 1) sample_opened = Inr accounts_db"
    using sample_initialized by (simp add: serve_def)
  note first = later_once [OF this]
  have "serve sample_json sample_encode (Provision sample_provision) accounts_db = Inr granted_db"
    using sample_granted by (simp add: serve_def)
  from later.request [OF first this] show ?thesis .
qed

lemma reached_later: "reached J encode db \<Longrightarrow> later J encode db db' \<Longrightarrow> reached J encode db'"
proof -
  have "later J encode db db' \<Longrightarrow> later J encode db0 db \<Longrightarrow> later J encode db0 db'" for db0
    by (induction rule: later.induct) (blast intro: later.intros)+
  then show "reached J encode db \<Longrightarrow> later J encode db db' \<Longrightarrow> reached J encode db'"
    unfolding reached_def by blast
qed

lemma granted_reached: "reached sample_json sample_encode granted_db"
  using granted_later by (auto simp: reached_def opened_def sample_opened_def intro!: exI [of _ sample_opened])

lemma adjusted_later: "later sample_json sample_encode granted_db adjusted_db"
proof -
  have "serve sample_json sample_encode (Adjust given) granted_db = Inr adjusted_db"
    using sample_adjusted by (simp add: serve_def)
  then show ?thesis by (rule later_once)
qed

lemma reversed_later: "later sample_json sample_encode adjusted_db reversed_db"
proof -
  have "serve sample_json sample_encode (Reverse (sample_reversal 4 CHR ''3'')) adjusted_db = Inr reversed_db"
    using sample_reversed by (simp add: serve_def)
  then show ?thesis by (rule later_once)
qed

lemma started_later: "later sample_json sample_encode granted_db started_db"
proof -
  have "serve sample_json sample_encode (Start first_start) granted_db = Inr started_db"
    using sample_started by (auto simp: serve_def)
  then show ?thesis by (rule later_once)
qed

lemma completed_again_later: "later sample_json sample_encode started_db completed_again_db"
proof -
  have "serve sample_json sample_encode (Complete first_complete) started_db = Inr completed_db"
    "serve sample_json sample_encode (Adjust taken) completed_db = Inr taken_db"
    "serve sample_json sample_encode (Start second_start) taken_db = Inr restarted_db"
    "serve sample_json sample_encode (Complete second_complete) restarted_db = Inr completed_again_db"
    using sample_completed sample_taken sample_restarted sample_completed_again by (auto simp: serve_def)
  then show ?thesis by (rule later.request [OF later.request [OF later.request [OF later_once]]])
qed

lemma started_reached: "reached sample_json sample_encode started_db"
  using granted_reached started_later reached_later by blast

lemma completed_again_reached: "reached sample_json sample_encode completed_again_db"
  using started_reached completed_again_later reached_later by blast

lemma adjusted_reached: "reached sample_json sample_encode adjusted_db"
  using granted_reached adjusted_later reached_later by blast

section \<open>The properties on them\<close>

theorem audit_stays_valid_witness:
  "reached sample_json sample_encode completed_again_db \<and> report_valid (check_invariants completed_again_db)"
  using audit_stays_valid [OF completed_again_reached] completed_again_reached by blast

theorem fate_is_conserved_witness:
  "\<exists>b. (\<forall>a \<in> set (tarot_accounts completed_again_db).
       balance_for_account (account_id a) completed_again_db = Inr (b a) \<and> (account_kind a = Human \<longrightarrow> 0 \<le> b a))
     \<and> (\<Sum>a\<leftarrow>tarot_accounts completed_again_db. b a) = 0"
  by (rule fate_is_conserved [OF completed_again_reached])

lemma no_receipts: "load_receipt J key granted_db = Inr None"
  by (simp add: load_receipt_def sample_eval find_row_def)

lemma granted_user: "balance 7 granted_db = Inr 100"
proof -
  have "account_for_user 7 granted_db = Inr (Some (tarot_id CHR ''5''))"
    by (simp add: sample_eval)
  then show ?thesis using granted_balance by (simp add: balance_def)
qed

lemma given_user [simp]: "inv_user (adj_invocation given) = 7" "adj_amount given = 50" "adj_transaction given = tarot_id CHR ''1''"
  by (simp_all add: given_def sample_adjustment_def sample_invocation_def)

theorem adjustment_is_exact_witness:
  "balance 7 granted_db = Inr 100 \<and> balance 7 adjusted_db = Inr 150 \<and> balance 8 adjusted_db = balance 8 granted_db"
  using adjustment_is_exact [OF granted_reached _ no_receipts sample_adjusted, of 100] granted_user by simp

theorem adjustment_applied_once_witness:
  "adjust sample_json given reversed_db = Inr (\<lparr>mutation_status = Unchanged,
     mutation_transaction = tarot_id CHR ''1'', mutation_balance = 150\<rparr>, reversed_db)"
  using adjustment_applied_once [OF granted_reached sample_json_roundtrips no_receipts sample_adjusted reversed_later]
  by simp

lemma fresh_reversal: "load_receipt sample_json (reverse_key (sample_reversal 4 CHR ''3'')) adjusted_db = Inr None"
  by (simp add: load_receipt_def sample_eval find_row_def adjusted_db_def sample_receipt_def adjusted_with_def
      sample_entry_def adjust_key_def given_def sample_adjustment_def reverse_key_def sample_reversal_def)

lemma adjusted_user: "balance 7 adjusted_db = Inr 150"
proof -
  have "account_for_user 7 adjusted_db = Inr (Some (tarot_id CHR ''5''))"
    "balance_for_account (tarot_id CHR ''5'') adjusted_db = Inr 150"
    by (simp_all add: sample_eval balance_eval mutation_eval given_def adjusted_db_def del: set_filter)
  then show ?thesis by (simp add: balance_def)
qed

theorem reversal_takes_back_witness:
  "balance 7 adjusted_db = Inr 150 \<and> balance 7 reversed_db = Inr 100"
proof -
  have "rev_original (sample_reversal 4 CHR ''3'') = adj_transaction given"
    by (simp add: sample_reversal_def)
  then show ?thesis
    using reversal_takes_back [OF granted_reached no_receipts sample_adjusted _ later.now _ fresh_reversal sample_reversed, of 7]
      adjusted_user by simp
qed

theorem transaction_reversed_once_witness:
  "reverse sample_json (sample_reversal 5 CHR ''4'') reversed_db = Inr (mutation_result_of Forbidden 100, refused_db)
   \<and> balance 7 refused_db = balance 7 reversed_db"
proof -
  have "load_receipt sample_json (reverse_key (sample_reversal 5 CHR ''4'')) reversed_db = Inr None"
    by (simp add: load_receipt_def sample_eval find_row_def adjusted_db_def reversed_db_def sample_receipt_def adjusted_with_def
      sample_entry_def adjust_key_def given_def sample_adjustment_def reverse_key_def sample_reversal_def)
  moreover have "rev_original (sample_reversal 5 CHR ''4'') = rev_original (sample_reversal 4 CHR ''3'')"
    by (simp add: sample_reversal_def)
  ultimately show ?thesis
    using transaction_reversed_once [OF adjusted_reached fresh_reversal sample_reversed _ later.now _ _ sample_refused, of 7]
      sample_refused by simp
qed

abbreviation "first_done \<equiv> completed_claim first_complete 150 20 1000 first_claim"
abbreviation "second_done \<equiv> completed_claim second_complete 200 2010 1000 second_claim"

lemma completed_again_claims: "tarot_claims completed_again_db = [first_done, second_done]"
  by (simp add: completed_again_db_def restarted_db_def taken_db_def completed_db_def started_db_def completed_with_def
      opened_claim_def first_claim_def second_claim_def sample_claim_def new_claim_row_def first_start_def second_start_def
      sample_start_def first_complete_def second_complete_def sample_complete_def completed_claim_def sample_invocation_def
      sample_receipt_def adjusted_with_def sample_entry_def sample_eval Let_def)

theorem rewards_keep_cooldown_witness:
  "\<exists>first second until done. {first, second} = {first_done, second_done}
     \<and> claim_cooldown_until first = Some until \<and> claim_completed_at second = Some done \<and> until \<le> done"
  by (rule rewards_keep_cooldown [OF completed_again_reached])
    (simp_all add: completed_again_claims completed_claim_def first_claim_def second_claim_def sample_claim_def
      new_claim_row_def first_start_def second_start_def sample_start_def)

lemma started_claims: "tarot_claims started_db = [first_claim]"
  by (simp add: started_db_def opened_claim_def first_claim_def sample_receipt_def granted_db_def entered_def posts_def
      accounts_db_def sample_opened_def)

theorem recovery_pays_exactly_witness:
  "balance_for_account (tarot_id CHR ''5'') completed_db = Inr 250"
proof -
  obtain r where "complete_recovery sample_json sample_encode first_complete started_db = Inr (r, completed_db)"
    "result_status r = Status_completed" "mutation_created r"
    using sample_completed by blast
  from recovery_pays_exactly [OF started_reached this] show ?thesis
    by (auto simp: started_claims first_claim_def sample_claim_def new_claim_row_def first_start_def sample_start_def)
qed

end
