(* ===== verification/Relationships.thy ===== *)
theory Relationships
  imports Tables "HOL-Library.Sublist"
begin

text \<open>
  The rules of relationships (\<^verbatim>\<open>src/src/relationships.cpp\<close>): what an interaction is worth, bands and
  the hint of style they give, the words a text is compared by, and the choice of the memories a
  prompt may quote.
\<close>

section \<open>Dimensions\<close>

record dimensions =
  familiarity :: int
  esteem :: int
  mirth :: int
  reliability :: int
  wariness :: int

definition no_dimensions :: dimensions where
  "no_dimensions = \<lparr>familiarity = 0, esteem = 0, mirth = 0, reliability = 0, wariness = 0\<rparr>"

datatype source_kind = Chronicle_canon | Direct_ai | Tarot_resolved | Tarot_honored
  | Positive_feedback | Session_completed | Title_awarded

text \<open>A \<^verbatim>\<open>RelationshipDelta\<close> has the same five fields.\<close>

fun relationship_policy :: "source_kind \<Rightarrow> bool \<Rightarrow> dimensions" where
  "relationship_policy Chronicle_canon cooling = no_dimensions\<lparr>familiarity := 1, esteem := 1\<rparr>"
| "relationship_policy Direct_ai cooling = no_dimensions\<lparr>familiarity := if cooling then 0 else 1\<rparr>"
| "relationship_policy Tarot_resolved cooling = no_dimensions\<lparr>familiarity := 1\<rparr>"
| "relationship_policy Tarot_honored cooling = no_dimensions\<lparr>esteem := 1, reliability := 1\<rparr>"
| "relationship_policy Positive_feedback cooling = no_dimensions"
| "relationship_policy Session_completed cooling = no_dimensions\<lparr>familiarity := 1\<rparr>"
| "relationship_policy Title_awarded cooling = no_dimensions\<lparr>esteem := 1\<rparr>"

definition clamp_dimension :: "int \<Rightarrow> int" where
  "clamp_dimension value = max 0 (min 100 value)"

definition zip_dimensions :: "(int \<Rightarrow> int \<Rightarrow> int) \<Rightarrow> dimensions \<Rightarrow> dimensions \<Rightarrow> dimensions" where
  "zip_dimensions f a b = \<lparr>familiarity = f (familiarity a) (familiarity b), esteem = f (esteem a) (esteem b),
     mirth = f (mirth a) (mirth b), reliability = f (reliability a) (reliability b),
     wariness = f (wariness a) (wariness b)\<rparr>"

definition apply_delta :: "dimensions \<Rightarrow> dimensions \<Rightarrow> dimensions" where
  "apply_delta current requested = zip_dimensions (\<lambda>a b. clamp_dimension (a + b)) current requested"

definition applied_delta :: "dimensions \<Rightarrow> dimensions \<Rightarrow> dimensions" where
  "applied_delta old new = zip_dimensions (\<lambda>a b. b - a) old new"

definition all_dimensions :: "(int \<Rightarrow> bool) \<Rightarrow> dimensions \<Rightarrow> bool" where
  "all_dimensions p d \<longleftrightarrow> p (familiarity d) \<and> p (esteem d) \<and> p (mirth d) \<and> p (reliability d) \<and> p (wariness d)"

section \<open>Bands and style\<close>

datatype band = Dormant | Emerging | Established | Strong | Storied | Legendary

definition qualitative_band :: "int \<Rightarrow> band" where
  "qualitative_band value = (if value \<le> 0 then Dormant else if value \<le> 4 then Emerging
     else if value \<le> 14 then Established else if value \<le> 29 then Strong
     else if value \<le> 59 then Storied else Legendary)"

fun band_name :: "band \<Rightarrow> string" where
  "band_name Dormant = ''dormant''"
| "band_name Emerging = ''emerging''"
| "band_name Established = ''established''"
| "band_name Strong = ''strong''"
| "band_name Storied = ''storied''"
| "band_name Legendary = ''legendary''"

fun familiarity_phrase :: "band \<Rightarrow> string" where
  "familiarity_phrase Dormant = ''a bond not yet written''"
| "familiarity_phrase Emerging = ''newly acquainted''"
| "familiarity_phrase Established = ''familiar company''"
| "familiarity_phrase Strong = ''a trusted companion''"
| "familiarity_phrase Storied = ''a storied ally''"
| "familiarity_phrase Legendary = ''an inner-circle bond''"

fun esteem_phrase :: "band \<Rightarrow> string" where
  "esteem_phrase Dormant = ''deeds not yet weighed''"
| "esteem_phrase Emerging = ''deeds beginning to be noticed''"
| "esteem_phrase Established = ''respected deeds''"
| "esteem_phrase Strong = ''honored deeds''"
| "esteem_phrase Storied = ''renowned deeds''"
| "esteem_phrase Legendary = ''legendary esteem''"

fun mirth_phrase :: "band \<Rightarrow> string" where
  "mirth_phrase Dormant = ''quiet company''"
| "mirth_phrase Emerging = ''the first shared jokes''"
| "mirth_phrase Established = ''easy banter''"
| "mirth_phrase Strong = ''well-practiced mischief''"
| "mirth_phrase Storied = ''notorious shared chaos''"
| "mirth_phrase Legendary = ''mythic levels of mischief''"

text \<open>The hints joined by commas, the last by \<^verbatim>\<open>and\<close>.\<close>

fun join_hints :: "string list \<Rightarrow> string" where
  "join_hints [] = []"
| "join_hints [h] = h"
| "join_hints [h, last_hint] = h @ '' and '' @ last_hint"
| "join_hints (h # hints) = h @ '', '' @ join_hints hints"

definition style_hint :: "dimensions \<Rightarrow> string" where
  "style_hint d = (let hints =
       (if familiarity d > 0 then [familiarity_phrase (qualitative_band (familiarity d))] else [])
     @ (if esteem d > 0 then [esteem_phrase (qualitative_band (esteem d))] else [])
     @ (if mirth d > 0 then [mirth_phrase (qualitative_band (mirth d))] else [])
   in if hints = [] then []
      else ''Respond with the tone appropriate for '' @ join_hints hints
        @ ''. Treat this only as private style guidance; never state or explain it.'')"

section \<open>Words\<close>

definition stop_words :: "string list" where
  "stop_words = [''the'', ''and'', ''that'', ''this'', ''with'', ''from'', ''have'', ''what'', ''when'', ''where'',
     ''who'', ''why'', ''how'', ''you'', ''your'', ''are'', ''was'', ''were'', ''for'', ''but'', ''not'', ''can'', ''could'',
     ''would'', ''should'', ''about'', ''into'', ''just'', ''then'', ''than'', ''them'', ''they'']"

text \<open>Letters and digits of ASCII, as bytes; capitals lowered.\<close>

definition word_byte :: "char \<Rightarrow> char option" where
  "word_byte c = (let byte = of_char c :: nat in
     if 97 \<le> byte \<and> byte \<le> 122 \<or> 48 \<le> byte \<and> byte \<le> 57 then Some c
     else if 65 \<le> byte \<and> byte \<le> 90 then Some (char_of (byte + 32)) else None)"

text \<open>The words kept and the words seen, after the current one has ended.\<close>

definition flush_word :: "nat \<Rightarrow> string \<Rightarrow> string list \<times> string list \<Rightarrow> string list \<times> string list" where
  "flush_word limit token = (\<lambda>(kept, seen).
     if 3 \<le> length token \<and> token \<notin> set stop_words \<and> token \<notin> set seen
     then (if length kept < limit then kept @ [token] else kept, token # seen)
     else (kept, seen))"

fun word_loop :: "nat \<Rightarrow> string \<Rightarrow> string \<Rightarrow> string list \<times> string list \<Rightarrow> string list" where
  "word_loop limit [] token state = fst (flush_word limit token state)"
| "word_loop limit (c # cs) token state =
     (case word_byte c of
        Some b \<Rightarrow> word_loop limit cs (token @ [b]) state
      | None \<Rightarrow> (let state = flush_word limit token state in
          if length (fst state) = limit then fst (flush_word limit [] state)
          else word_loop limit cs [] state))"

definition relevance_tokens :: "string \<Rightarrow> nat \<Rightarrow> string list" where
  "relevance_tokens source limit = word_loop limit source [] ([], [])"

section \<open>Memories\<close>

record memory_candidate =
  memory_id :: string
  memory_text :: string
  memory_tags :: "string list"
  memory_created_at :: int
  memory_revision :: nat

record ranked_memory =
  ranked :: memory_candidate
  score :: int
  tag_matches :: nat

definition maximum_prompt_memory_candidates :: nat where "maximum_prompt_memory_candidates = 50"
definition maximum_prompt_memories :: nat where "maximum_prompt_memories = 3"
definition maximum_prompt_memory_bytes :: nat where "maximum_prompt_memory_bytes = 1500"

text \<open>The matches are counted up to \<open>maximum\<close>, which is never 0.\<close>

definition overlap_count :: "string list \<Rightarrow> string list \<Rightarrow> nat \<Rightarrow> nat" where
  "overlap_count left right maximum = min maximum (length (filter (\<lambda>w. w \<in> set right) left))"

definition tag_overlap_count :: "string list \<Rightarrow> string list \<Rightarrow> nat \<Rightarrow> nat" where
  "tag_overlap_count tags query maximum = min maximum (length (filter (\<lambda>t.
     relevance_tokens t 32 \<noteq> [] \<and> set (relevance_tokens t 32) \<subseteq> set query) tags))"

definition memory_day_ms :: int where "memory_day_ms = 24 * 60 * 60 * 1000"

definition recency :: "int \<Rightarrow> int" where
  "recency age = (if age \<le> 30 * memory_day_ms then 12 else if age \<le> 90 * memory_day_ms then 8
     else if age \<le> 365 * memory_day_ms then 4 else 0)"

definition rank_memory :: "string list \<Rightarrow> string list \<Rightarrow> int \<Rightarrow> memory_candidate \<Rightarrow> ranked_memory option" where
  "rank_memory current replied now_ms m = (let
       words = relevance_tokens (memory_text m) 64;
       current_text = overlap_count current words 5; replied_text = overlap_count replied words 5;
       current_tags = tag_overlap_count (memory_tags m) current 5; replied_tags = tag_overlap_count (memory_tags m) replied 5;
       total = int (current_tags * 40 + current_text * 12 + replied_tags * 16 + replied_text * 4) + 8
         + recency (max 0 (now_ms - memory_created_at m))
     in if current_text + replied_text + current_tags + replied_tags = 0 then None
        else if 20 \<le> total
        then Some \<lparr>ranked = m, score = total, tag_matches = current_tags + replied_tags\<rparr> else None)"

definition rank_key :: "ranked_memory \<Rightarrow> int \<times> int \<times> int \<times> string" where
  "rank_key r = (- score r, - int (tag_matches r), - memory_created_at (ranked r), memory_id (ranked r))"

fun select_memories :: "ranked_memory list \<Rightarrow> ranked_memory list \<Rightarrow> nat \<Rightarrow> ranked_memory list" where
  "select_memories [] selected bytes = selected"
| "select_memories (r # rs) selected bytes =
     (if length selected = maximum_prompt_memories then selected
      else if bytes + length (memory_text (ranked r)) > maximum_prompt_memory_bytes
      then select_memories rs selected bytes
      else select_memories rs (selected @ [r]) (bytes + length (memory_text (ranked r))))"

text \<open>The candidates that count at all, in the order of their rank.\<close>

definition memory_ranking :: "memory_candidate list \<Rightarrow> string \<Rightarrow> string \<Rightarrow> int \<Rightarrow> ranked_memory list" where
  "memory_ranking candidates request replied now_ms = sort_key rank_key (List.map_filter
     (rank_memory (relevance_tokens request 32) (relevance_tokens replied 24) now_ms)
     (take maximum_prompt_memory_candidates candidates))"

definition rank_prompt_memories :: "memory_candidate list \<Rightarrow> string \<Rightarrow> string \<Rightarrow> int \<Rightarrow> ranked_memory list" where
  "rank_prompt_memories candidates request replied now_ms =
     select_memories (memory_ranking candidates request replied now_ms) [] 0"

section \<open>What the words are\<close>

definition relevant_word :: "string \<Rightarrow> bool" where
  "relevant_word w \<longleftrightarrow> 3 \<le> length w \<and> w \<notin> set stop_words \<and> list_all (\<lambda>c. word_byte c = Some c) w"

lemma word_byte_stable:
  assumes "word_byte c = Some b"
  shows "word_byte b = Some b"
proof -
  have "of_char (char_of (of_char c + 32 :: nat)) = (of_char c + 32 :: nat)"
    if "of_char c \<le> (90 :: nat)" using that by simp
  then show ?thesis using assms
    by (auto simp: word_byte_def Let_def split: if_splits)
qed

text \<open>The state of the loop: the words kept are among those seen, without repetition.\<close>

definition words_kept :: "nat \<Rightarrow> string list \<times> string list \<Rightarrow> bool" where
  "words_kept limit s \<longleftrightarrow> length (fst s) \<le> limit \<and> distinct (fst s) \<and> set (fst s) \<subseteq> set (snd s)
     \<and> list_all relevant_word (fst s)"

lemma words_kept_flush:
  "words_kept limit s \<Longrightarrow> list_all (\<lambda>c. word_byte c = Some c) token \<Longrightarrow> words_kept limit (flush_word limit token s)"
  by (cases s) (auto simp: words_kept_def flush_word_def relevant_word_def)

lemma words_kept_loop:
  "words_kept limit s \<Longrightarrow> list_all (\<lambda>c. word_byte c = Some c) token \<Longrightarrow>
     \<exists>s'. word_loop limit cs token s = fst s' \<and> words_kept limit s'"
proof (induction limit cs token s rule: word_loop.induct)
  case (2 limit c cs token s)
  show ?case
  proof (cases "word_byte c")
    case None
    let ?s = "flush_word limit token s"
    have s: "words_kept limit ?s" by (rule words_kept_flush [OF 2(3,4)])
    then have last_flush: "words_kept limit (flush_word limit [] ?s)" by (rule words_kept_flush) simp
    show ?thesis
    proof (cases "length (fst ?s) = limit")
      case True
      then show ?thesis using None last_flush by (intro exI [of _ "flush_word limit [] ?s"] conjI) simp_all
    next
      case False
      then show ?thesis using None s 2(1) [OF None refl] by simp
    qed
  next
    case (Some b)
    then show ?thesis using 2 word_byte_stable [OF Some] by simp
  qed
next
  case (1 limit token s)
  then show ?case by (intro exI [of _ "flush_word limit token s"] conjI) (simp_all add: words_kept_flush)
qed

lemma relevance_tokens_kept: "\<exists>seen. words_kept limit (relevance_tokens source limit, seen)"
  using words_kept_loop [of limit "([], [])" "[]" source]
  by (auto simp: relevance_tokens_def words_kept_def)

text \<open>
  The words a text is compared by are at most as many as asked for, none twice, each of
  at least three small letters and digits and none of the common words.
\<close>

theorem relevance_tokens_well_formed:
  "length (relevance_tokens source limit) \<le> limit \<and> distinct (relevance_tokens source limit)
     \<and> list_all relevant_word (relevance_tokens source limit)"
  using relevance_tokens_kept [of limit source] by (auto simp: words_kept_def)

section \<open>What is chosen\<close>

abbreviation memory_bytes :: "ranked_memory list \<Rightarrow> nat" where
  "memory_bytes rs \<equiv> sum_list (map (\<lambda>r. length (memory_text (ranked r))) rs)"

lemma select_memories_fits:
  "length selected \<le> 3 \<Longrightarrow> memory_bytes selected \<le> 1500 \<Longrightarrow>
     length (select_memories rs selected (memory_bytes selected)) \<le> 3 \<and>
     memory_bytes (select_memories rs selected (memory_bytes selected)) \<le> 1500"
proof (induction rs arbitrary: selected)
  case (Cons r rs)
  then show ?case using Cons.IH [of selected] Cons.IH [of "selected @ [r]"]
    by (auto simp: maximum_prompt_memories_def maximum_prompt_memory_bytes_def)
qed simp

lemma select_memories_chosen:
  "\<exists>chosen. select_memories rs selected bytes = selected @ chosen \<and> subseq chosen rs"
proof (induction rs arbitrary: selected bytes)
  case (Cons r rs)
  consider "length selected = maximum_prompt_memories"
    | "length selected \<noteq> maximum_prompt_memories" "bytes + length (memory_text (ranked r)) > maximum_prompt_memory_bytes"
    | "length selected \<noteq> maximum_prompt_memories" "\<not> bytes + length (memory_text (ranked r)) > maximum_prompt_memory_bytes"
    by blast
  then show ?case
  proof cases
    case 2
    obtain chosen where "select_memories rs selected bytes = selected @ chosen" "subseq chosen rs"
      using Cons.IH by blast
    then show ?thesis using 2 by auto
  next
    case 3
    obtain chosen where "select_memories rs (selected @ [r]) (bytes + length (memory_text (ranked r))) =
        (selected @ [r]) @ chosen" "subseq chosen rs"
      using Cons.IH by blast
    then have "select_memories (r # rs) selected bytes = selected @ (r # chosen) \<and> subseq (r # chosen) (r # rs)"
      using 3 by simp
    then show ?thesis by blast
  qed simp
qed simp

text \<open>A ranking with room left has passed over only what would not have fitted.\<close>

lemma select_memories_greedy:
  assumes "length (select_memories rs selected (memory_bytes selected)) < 3" "r \<in> set rs"
    and "r \<notin> set (select_memories rs selected (memory_bytes selected))"
  shows "1500 < memory_bytes (select_memories rs selected (memory_bytes selected)) + length (memory_text (ranked r))"
  using assms
proof (induction rs arbitrary: selected)
  case (Cons q rs)
  have room: "length selected \<noteq> maximum_prompt_memories"
    using Cons.prems(1) by (auto simp: maximum_prompt_memories_def)
  show ?case
  proof (cases "memory_bytes selected + length (memory_text (ranked q)) > maximum_prompt_memory_bytes")
    case True
    obtain chosen where chosen: "select_memories rs selected (memory_bytes selected) = selected @ chosen"
      using select_memories_chosen by blast
    show ?thesis
    proof (cases "r = q")
      case True
      then show ?thesis using room \<open>_ > maximum_prompt_memory_bytes\<close> chosen
        by (simp add: maximum_prompt_memory_bytes_def)
    next
      case False
      then show ?thesis using Cons.IH [of selected] Cons.prems room True by simp
    qed
  next
    case False
    obtain chosen where chosen: "select_memories rs (selected @ [q]) (memory_bytes (selected @ [q])) = (selected @ [q]) @ chosen"
      using select_memories_chosen by blast
    have "select_memories (q # rs) selected (memory_bytes selected) =
        select_memories rs (selected @ [q]) (memory_bytes (selected @ [q]))"
      using room False by simp
    then show ?thesis using Cons.IH [of "selected @ [q]"] Cons.prems chosen by auto
  qed
qed simp

lemma sorted_subseq: "subseq xs ys \<Longrightarrow> sorted (map f ys) \<Longrightarrow> sorted (map f xs)"
  by (induction rule: list_emb.induct) (auto dest: list_emb_set)

lemma rank_prompt_memories_ranking:
  "rank_prompt_memories candidates request replied now_ms =
     select_memories (memory_ranking candidates request replied now_ms) [] (memory_bytes [])"
  by (simp add: rank_prompt_memories_def)

lemma rank_memory_Some:
  "rank_memory current replied now_ms m = Some r \<Longrightarrow> ranked r = m \<and> 20 \<le> score r"
  by (auto simp: rank_memory_def Let_def split: if_splits)

lemma memory_ranking_candidates:
  "r \<in> set (memory_ranking candidates request replied now_ms) \<Longrightarrow> ranked r \<in> set (take 50 candidates) \<and> 20 \<le> score r"
  using rank_memory_Some
  by (fastforce simp: memory_ranking_def map_filter_def maximum_prompt_memory_candidates_def)

text \<open>
  Property C31: A prompt quotes at most three memories, of at most 1,500 bytes together, in the order
  of their rank, each one of the first fifty candidates with a score of at least 20; and while there
  is room for another, none that the ranking holds was left out unless it would have passed the
  limit of bytes.
\<close>

theorem prompt_memories_chosen:
  assumes "out = rank_prompt_memories candidates request replied now_ms"
  shows "length out \<le> 3 \<and> memory_bytes out \<le> 1500 \<and> sorted (map rank_key out)
     \<and> (\<forall>r \<in> set out. ranked r \<in> set (take 50 candidates) \<and> 20 \<le> score r)
     \<and> subseq out (memory_ranking candidates request replied now_ms)
     \<and> (length out < 3 \<longrightarrow> (\<forall>r \<in> set (memory_ranking candidates request replied now_ms) - set out.
          1500 < memory_bytes out + length (memory_text (ranked r))))"
proof -
  let ?ranking = "memory_ranking candidates request replied now_ms"
  have out: "out = select_memories ?ranking [] (memory_bytes [])" using assms rank_prompt_memories_ranking by simp
  have sub: "subseq out ?ranking" using out select_memories_chosen [of ?ranking "[]"] by auto
  then have "set out \<subseteq> set ?ranking" by (auto dest: list_emb_set)
  moreover have "sorted (map rank_key ?ranking)" by (simp add: memory_ranking_def)
  then have "sorted (map rank_key out)" by (rule sorted_subseq [OF sub])
  moreover have "length out \<le> 3" "memory_bytes out \<le> 1500" using out select_memories_fits [of "[]" ?ranking] by simp_all
  moreover have "1500 < memory_bytes out + length (memory_text (ranked r))"
    if "length out < 3" "r \<in> set ?ranking - set out" for r
    using that select_memories_greedy [of ?ranking "[]" r] unfolding out by simp
  ultimately show ?thesis using sub memory_ranking_candidates by blast
qed

definition dragon_memory :: memory_candidate where
  "dragon_memory = \<lparr>memory_id = ''m1'', memory_text = ''A red dragon'', memory_tags = [''dragon''],
     memory_created_at = 0, memory_revision = 1\<rparr>"

definition other_memory :: memory_candidate where
  "other_memory = \<lparr>memory_id = ''m2'', memory_text = ''The sea'', memory_tags = [],
     memory_created_at = 0, memory_revision = 1\<rparr>"

lemma dragon_chosen:
  "map ranked (rank_prompt_memories [dragon_memory, other_memory] ''Tell of the Dragon'' [] 5) = [dragon_memory]"
  by code_simp

theorem prompt_memories_chosen_witness:
  "let out = rank_prompt_memories [dragon_memory, other_memory] ''Tell of the Dragon'' [] 5 in
     length out = 1 \<and> sorted (map rank_key out)
     \<and> (\<forall>r \<in> set (memory_ranking [dragon_memory, other_memory] ''Tell of the Dragon'' [] 5) - set out.
          1500 < memory_bytes out + length (memory_text (ranked r)))"
proof -
  let ?out = "rank_prompt_memories [dragon_memory, other_memory] ''Tell of the Dragon'' [] 5"
  have one: "length ?out = 1" using arg_cong [OF dragon_chosen, of length] by simp
  show ?thesis
    unfolding Let_def
    using one prompt_memories_chosen [OF refl, of "[dragon_memory, other_memory]" "''Tell of the Dragon''" "[]" 5]
    by simp
qed

section \<open>The hint of style\<close>

lemma dormant_iff: "qualitative_band n = Dormant \<longleftrightarrow> n \<le> 0"
  by (simp add: qualitative_band_def)

text \<open>
  Property C32: What a prompt is told of a member depends on the bands of familiarity, esteem and
  mirth alone: scores in the same bands give the same hint, whatever the exact values and whatever
  reliability and wariness are.
\<close>

theorem style_hint_hides_scores:
  assumes "qualitative_band (familiarity d) = qualitative_band (familiarity d')"
    and "qualitative_band (esteem d) = qualitative_band (esteem d')"
    and "qualitative_band (mirth d) = qualitative_band (mirth d')"
  shows "style_hint d = style_hint d'"
proof -
  have positive: "0 < n \<longleftrightarrow> 0 < m" if "qualitative_band n = qualitative_band m" for n m
    using that dormant_iff [of n] dormant_iff [of m] by auto
  show ?thesis
    using assms positive [OF assms(1)] positive [OF assms(2)] positive [OF assms(3)] by (simp add: style_hint_def)
qed

theorem style_hint_hides_scores_witness:
  "style_hint \<lparr>familiarity = 5, esteem = 60, mirth = 0, reliability = 3, wariness = 9\<rparr> =
   style_hint \<lparr>familiarity = 14, esteem = 100, mirth = 0, reliability = 80, wariness = 0\<rparr>"
  by (rule style_hint_hides_scores) (simp_all add: qualitative_band_def)

end
