(* ===== verification/Relationship_Store.thy ===== *)
theory Relationship_Store
  imports Relationships "HOL-Library.AList"
begin

text \<open>
  The journal of relationships and its projection
  (\<^verbatim>\<open>src/src/persistence/sqlite_relationship_repository.cpp\<close>, the tables of
  \<^verbatim>\<open>src/migrations/0005_relationships.sql\<close>): recording an event, the state it leaves, and the
  rebuilding and checking of all states from the events.
\<close>

section \<open>Tables\<close>

record rel_event =
  rel_event_id :: string
  rel_subject :: string
  rel_source :: string
  rel_type :: string
  rel_reason :: string
  subject_version :: int
  rel_delta :: dimensions
  rel_old :: dimensions
  rel_new :: dimensions
  rel_occurred_at :: int
  rel_created_at :: int

record projection_row =
  dims :: dimensions
  interaction_count :: int
  last_interaction :: int
  row_version :: int
  row_updated_at :: int

record rel_db =
  rel_events :: "rel_event list"
  rel_states :: "(string \<times> projection_row) list"
  rel_users :: "string list"
  rel_sources :: "string list"

definition rel_event_check :: "rel_event \<Rightarrow> rel_db \<Rightarrow> bool" where
  [row_checks]: "rel_event_check e db \<longleftrightarrow> valid_uuid_v4 (rel_event_id e) \<and> rel_subject e \<in> set (rel_users db)
     \<and> rel_source e \<in> set (rel_sources db) \<and> machine_text 96 (rel_type e) \<and> machine_text 96 (rel_reason e)
     \<and> 0 < subject_version e \<and> all_dimensions (\<lambda>n. - 5 \<le> n \<and> n \<le> 5) (rel_delta e)
     \<and> all_dimensions (\<lambda>n. 0 \<le> n \<and> n \<le> 100) (rel_old e) \<and> all_dimensions (\<lambda>n. 0 \<le> n \<and> n \<le> 100) (rel_new e)
     \<and> 0 \<le> rel_occurred_at e \<and> 0 \<le> rel_created_at e
     \<and> rel_new e = zip_dimensions (+) (rel_old e) (rel_delta e)"

text \<open>The primary key and the two unique pairs.\<close>

definition rel_event_taken :: "rel_event \<Rightarrow> rel_db \<Rightarrow> bool" where
  "rel_event_taken e db \<longleftrightarrow> list_ex (\<lambda>f. rel_event_id f = rel_event_id e
     \<or> rel_source f = rel_source e \<and> rel_subject f = rel_subject e
     \<or> rel_subject f = rel_subject e \<and> subject_version f = subject_version e) (rel_events db)"

definition projection_check :: "string \<Rightarrow> projection_row \<Rightarrow> rel_db \<Rightarrow> bool" where
  [row_checks]: "projection_check user r db \<longleftrightarrow> user \<in> set (rel_users db) \<and> all_dimensions (\<lambda>n. 0 \<le> n \<and> n \<le> 100) (dims r)
     \<and> 0 \<le> interaction_count r \<and> 0 \<le> last_interaction r \<and> 0 < row_version r \<and> 0 \<le> row_updated_at r"

section \<open>Recording\<close>

definition empty_projection :: projection_row where
  "empty_projection = \<lparr>dims = no_dimensions, interaction_count = 0, last_interaction = 0, row_version = 0,
     row_updated_at = 0\<rparr>"

definition load_state :: "string \<Rightarrow> rel_db \<Rightarrow> projection_row" where
  "load_state user db = (case map_of (rel_states db) user of None \<Rightarrow> empty_projection | Some r \<Rightarrow> r)"

text \<open>\<^verbatim>\<open>INSERT ... ON CONFLICT(subject_user_id) DO UPDATE\<close>.\<close>

definition upsert_state :: "string \<Rightarrow> dimensions \<Rightarrow> int \<Rightarrow> int \<Rightarrow> int \<Rightarrow> rel_db \<Rightarrow> rel_db res" where
  "upsert_state user new occurred version created db = (let row = (case map_of (rel_states db) user of
       None \<Rightarrow> \<lparr>dims = new, interaction_count = 1, last_interaction = occurred, row_version = version,
         row_updated_at = created\<rparr>
     | Some r \<Rightarrow> \<lparr>dims = new, interaction_count = interaction_count r + 1,
         last_interaction = max (last_interaction r) occurred, row_version = version,
         row_updated_at = max (row_updated_at r) created\<rparr>) in
     rbind (require (projection_check user row db) (Constraint ''relationship_state'')) (\<lambda>_.
     Inr (db\<lparr>rel_states := AList.update user row (rel_states db)\<rparr>)))"

definition record_relationship ::
    "string \<Rightarrow> string \<Rightarrow> string \<Rightarrow> string \<Rightarrow> u64 \<Rightarrow> dimensions \<Rightarrow> int \<Rightarrow> int \<Rightarrow> rel_db \<Rightarrow> (bool \<times> rel_db) res" where
  "record_relationship event_id source kind reason subject requested occurred created db =
     (if list_ex (\<lambda>f. rel_source f = source \<and> rel_subject f = snowflake_str subject) (rel_events db) then Inr (False, db)
      else let user = snowflake_str subject; current = load_state user db; new = apply_delta (dims current) requested;
          e = \<lparr>rel_event_id = event_id, rel_subject = user, rel_source = source, rel_type = kind, rel_reason = reason,
            subject_version = row_version current + 1, rel_delta = applied_delta (dims current) new,
            rel_old = dims current, rel_new = new, rel_occurred_at = occurred, rel_created_at = created\<rparr> in
        rbind (require (rel_event_check e db \<and> \<not> rel_event_taken e db) (Constraint ''relationship_event'')) (\<lambda>_.
        rbind (upsert_state user new occurred (row_version current + 1) created
          (db\<lparr>rel_events := rel_events db @ [e]\<rparr>)) (\<lambda>db. Inr (True, db))))"

section \<open>The projection from the events\<close>

text \<open>
  The rows are those of \<^verbatim>\<open>std::map\<close>: the events come in the order of their subjects, so appending
  keeps the order of the keys.
\<close>

record projection_build =
  build_rows :: "(string \<times> projection_row) list"
  build_events :: nat
  chain_errors :: nat

definition project_event :: "rel_event \<Rightarrow> projection_row \<Rightarrow> projection_row" where
  "project_event e p = \<lparr>dims = rel_new e, interaction_count = interaction_count p + 1,
     last_interaction = max (last_interaction p) (rel_occurred_at e), row_version = subject_version e,
     row_updated_at = max (row_updated_at p) (rel_created_at e)\<rparr>"

definition chain_broken :: "rel_event \<Rightarrow> projection_row \<Rightarrow> bool" where
  "chain_broken e p \<longleftrightarrow> subject_version e \<noteq> row_version p + 1 \<or> rel_old e \<noteq> dims p
     \<or> applied_delta (rel_old e) (rel_new e) \<noteq> rel_delta e"

definition build_row :: "(string \<times> projection_row) list \<Rightarrow> string \<Rightarrow> projection_row" where
  "build_row rows user = (case map_of rows user of None \<Rightarrow> empty_projection | Some r \<Rightarrow> r)"

definition build_step :: "rel_event \<Rightarrow> projection_build \<Rightarrow> projection_build" where
  "build_step e b = (let p = build_row (build_rows b) (rel_subject e) in
     \<lparr>build_rows = AList.update (rel_subject e) (project_event e p) (build_rows b), build_events = build_events b + 1,
      chain_errors = (if chain_broken e p then chain_errors b + 1 else chain_errors b)\<rparr>)"

definition build_projection :: "rel_db \<Rightarrow> projection_build" where
  "build_projection db = fold build_step (sort_key (\<lambda>e. (rel_subject e, subject_version e)) (rel_events db))
     \<lparr>build_rows = [], build_events = 0, chain_errors = 0\<rparr>"

record projection_report =
  report_valid :: bool
  report_events :: nat
  report_rows :: nat
  report_mismatches :: nat

definition compare_projection :: "rel_db \<Rightarrow> projection_build \<Rightarrow> projection_report" where
  "compare_projection db expected = (let
       wrong = length (filter (\<lambda>(user, r). map_of (build_rows expected) user \<noteq> Some r) (rel_states db));
       unseen = length (filter (\<lambda>(user, r). user \<notin> fst ` set (rel_states db)) (build_rows expected));
       mismatches = chain_errors expected + wrong + unseen
     in \<lparr>report_valid = (mismatches = 0), report_events = build_events expected,
         report_rows = length (rel_states db), report_mismatches = mismatches\<rparr>)"

definition check_projection :: "rel_db \<Rightarrow> projection_report" where
  "check_projection db = compare_projection db (build_projection db)"

fun insert_rows :: "(string \<times> projection_row) list \<Rightarrow> rel_db \<Rightarrow> rel_db res" where
  "insert_rows [] db = Inr db"
| "insert_rows ((user, r) # rows) db =
     rbind (require (projection_check user r db \<and> user \<notin> fst ` set (rel_states db)) (Constraint ''relationship_state''))
       (\<lambda>_. insert_rows rows (db\<lparr>rel_states := rel_states db @ [(user, r)]\<rparr>))"

definition rebuild_projection :: "rel_db \<Rightarrow> (projection_report \<times> rel_db) res" where
  "rebuild_projection db = (let expected = build_projection db in
     rbind (require (chain_errors expected = 0) (Constraint ''Relationship event chain is invalid.'')) (\<lambda>_.
     rbind (insert_rows (build_rows expected) (db\<lparr>rel_states := []\<rparr>)) (\<lambda>db.
     let result = compare_projection db expected in
     rbind (require (report_valid result) (Constraint ''Relationship projection rebuild verification failed.''))
       (\<lambda>_. Inr (result, db)))))"

end
