(* ===== verification/Relationship_Projection.thy ===== *)
theory Relationship_Projection
  imports Relationship_Store
begin

text \<open>
  The stored relationships and the journal of their events
  (\<^verbatim>\<open>src/src/persistence/sqlite_relationship_repository.cpp\<close>): after any history the rows are
  those the events give, so that the check of the operator finds nothing and a rebuild changes
  nothing.
\<close>

section \<open>Histories\<close>

text \<open>
  What happens to the tables: a recorded event, a rebuild by the operator, and other writers adding
  users and journal events. A call that throws is rolled back.
\<close>

datatype rel_act =
    Record_rel string string string string u64 dimensions int int
  | Rebuild_rel
  | Grow_rel "string list" "string list"

fun rel_step :: "rel_act \<Rightarrow> rel_db \<Rightarrow> rel_db" where
  "rel_step (Record_rel event_id source kind reason subject requested occurred created) db =
     (case record_relationship event_id source kind reason subject requested occurred created db of
        Inl _ \<Rightarrow> db | Inr (_, db') \<Rightarrow> db')"
| "rel_step Rebuild_rel db = (case rebuild_projection db of Inl _ \<Rightarrow> db | Inr (_, db') \<Rightarrow> db')"
| "rel_step (Grow_rel users sources) db = db\<lparr>rel_users := rel_users db @ users, rel_sources := rel_sources db @ sources\<rparr>"

definition rel_start :: rel_db where
  "rel_start = \<lparr>rel_events = [], rel_states = [], rel_users = [], rel_sources = []\<rparr>"

section \<open>The events of one subject\<close>

abbreviation of_subject :: "string \<Rightarrow> rel_event list \<Rightarrow> rel_event list" where
  "of_subject u \<equiv> filter (\<lambda>e. rel_subject e = u)"

fun linked_from :: "projection_row \<Rightarrow> rel_event list \<Rightarrow> bool" where
  "linked_from p [] = True"
| "linked_from p (e # es) = (\<not> chain_broken e p \<and> linked_from (project_event e p) es)"

lemma linked_append [simp]:
  "linked_from p (es @ es') \<longleftrightarrow> linked_from p es \<and> linked_from (fold project_event es p) es'"
  by (induction es arbitrary: p) auto

lemma linked_versions:
  "linked_from p es \<Longrightarrow> sorted (map subject_version es) \<and> (\<forall>e \<in> set es. row_version p < subject_version e)"
proof (induction es arbitrary: p)
  case (Cons e es)
  then have "sorted (map subject_version es)" "\<forall>f \<in> set es. subject_version e < subject_version f"
    using Cons.IH [of "project_event e p"] by (simp_all add: project_event_def)
  moreover have "subject_version e = row_version p + 1" using Cons.prems by (simp add: chain_broken_def)
  ultimately show ?case by fastforce
qed simp

lemma sort_of_subject:
  assumes "linked_from p (of_subject u es)"
  shows "of_subject u (sort_key (\<lambda>e. (rel_subject e, subject_version e)) es) = of_subject u es"
proof -
  let ?k = "\<lambda>e. (rel_subject e, subject_version e)"
  have "sorted (map subject_version (of_subject u es))" using linked_versions [OF assms] by simp
  then have "sorted (map ?k (of_subject u es))"
    by (auto simp: sorted_map elim!: sorted_wrt_mono_rel [rotated])
  then show ?thesis by (simp add: filter_sort sort_key_id_if_sorted)
qed

section \<open>What the build gives\<close>

lemma build_row_update:
  "build_row (AList.update u r rows) v = (if v = u then r else build_row rows v)"
  by (simp add: build_row_def update_conv')

lemma build_of_subject:
  "map_of (build_rows (fold build_step es b)) u =
     (if of_subject u es = [] then map_of (build_rows b) u
      else Some (fold project_event (of_subject u es) (build_row (build_rows b) u)))"
proof (induction es arbitrary: b)
  case (Cons e es)
  show ?case
    by (simp add: Cons.IH) (auto simp: build_step_def Let_def build_row_update update_conv')
qed simp

lemma build_keys:
  "distinct (map fst (build_rows b)) \<Longrightarrow> distinct (map fst (build_rows (fold build_step es b)))"
  by (induction es arbitrary: b) (simp_all add: build_step_def Let_def distinct_update)

lemma build_errors:
  "\<forall>u. linked_from (build_row (build_rows b) u) (of_subject u es) \<Longrightarrow>
     chain_errors (fold build_step es b) = chain_errors b"
proof (induction es arbitrary: b)
  case (Cons e es)
  let ?b = "build_step e b"
  have unbroken: "\<not> chain_broken e (build_row (build_rows b) (rel_subject e))"
    using Cons.prems [rule_format, of "rel_subject e"] by simp
  have "linked_from (build_row (build_rows ?b) u) (of_subject u es)" for u
    using Cons.prems [rule_format, of u]
    by (cases "rel_subject e = u") (auto simp: build_step_def Let_def build_row_update)
  then have "chain_errors (fold build_step es ?b) = chain_errors ?b" using Cons.IH by blast
  moreover have "chain_errors ?b = chain_errors b" using unbroken by (simp add: build_step_def Let_def)
  ultimately show ?case by simp
qed simp

section \<open>The invariant\<close>

definition projected :: "rel_db \<Rightarrow> bool" where
  "projected db \<longleftrightarrow> (\<forall>u. linked_from empty_projection (of_subject u (rel_events db)))
     \<and> (\<forall>u. map_of (rel_states db) u = (if of_subject u (rel_events db) = [] then None
          else Some (fold project_event (of_subject u (rel_events db)) empty_projection)))
     \<and> distinct (map fst (rel_states db)) \<and> (\<forall>(u, r) \<in> set (rel_states db). projection_check u r db)"

lemma projected_build:
  assumes "projected db"
  shows "map_of (build_rows (build_projection db)) = map_of (rel_states db)"
    and "chain_errors (build_projection db) = 0"
    and "distinct (map fst (build_rows (build_projection db)))"
proof -
  let ?s = "sort_key (\<lambda>e. (rel_subject e, subject_version e)) (rel_events db)"
  have linked: "linked_from empty_projection (of_subject u (rel_events db))" for u
    using assms by (simp add: projected_def)
  have same: "of_subject u ?s = of_subject u (rel_events db)" for u by (rule sort_of_subject [OF linked])
  show "map_of (build_rows (build_projection db)) = map_of (rel_states db)"
    using assms by (intro ext) (simp add: build_projection_def build_of_subject same build_row_def projected_def)
  show "chain_errors (build_projection db) = 0"
    unfolding build_projection_def
    by (subst build_errors) (simp_all add: same build_row_def linked)
  show "distinct (map fst (build_rows (build_projection db)))"
    unfolding build_projection_def by (rule build_keys) simp
qed

lemma same_map_same_length:
  assumes "distinct (map fst xs)" "distinct (map fst ys)" "map_of xs = map_of ys"
  shows "length xs = length ys"
proof -
  have "length zs = card (dom (map_of zs))" if "distinct (map fst zs)" for zs :: "('a \<times> 'b) list"
    using distinct_card [OF that] by (simp add: dom_map_of_conv_image_fst)
  then show ?thesis using assms by metis
qed

lemma compare_agrees:
  assumes "chain_errors b = 0" "map_of (build_rows b) = map_of (rel_states db)"
    and "distinct (map fst (rel_states db))"
  shows "compare_projection db b = \<lparr>report_valid = True, report_events = build_events b,
    report_rows = length (rel_states db), report_mismatches = 0\<rparr>"
proof -
  have "filter (\<lambda>(user, r). map_of (build_rows b) user \<noteq> Some r) (rel_states db) = []"
    using assms(2,3) by (auto simp: filter_empty_conv)
  moreover have "filter (\<lambda>(user, r). user \<notin> fst ` set (rel_states db)) (build_rows b) = []"
  proof -
    have "fst ` set (build_rows b) = fst ` set (rel_states db)"
      using assms(2) by (simp flip: dom_map_of_conv_image_fst)
    then have "u \<in> fst ` set (rel_states db)" if "(u, r) \<in> set (build_rows b)" for u r
      using that by (metis fst_conv imageI)
    then have "\<forall>x \<in> set (build_rows b). fst x \<in> fst ` set (rel_states db)" by (metis prod.collapse)
    then show ?thesis by (simp add: filter_empty_conv split_beta)
  qed
  ultimately show ?thesis using assms(1) by (simp add: compare_projection_def Let_def)
qed

lemma insert_rows_all:
  assumes "distinct (map fst (rel_states db @ rows))" "\<forall>(u, r) \<in> set rows. projection_check u r db"
  shows "insert_rows rows db = Inr (db\<lparr>rel_states := rel_states db @ rows\<rparr>)"
  using assms
proof (induction rows arbitrary: db)
  case (Cons row rows)
  obtain u r where row: "row = (u, r)" by (cases row)
  let ?db = "db\<lparr>rel_states := rel_states db @ [(u, r)]\<rparr>"
  have check: "projection_check v s ?db = projection_check v s db" for v s by (simp add: projection_check_def)
  have "insert_rows rows ?db = Inr (?db\<lparr>rel_states := rel_states ?db @ rows\<rparr>)"
    using Cons.prems row check by (intro Cons.IH) (simp_all)
  moreover have "projection_check u r db \<and> u \<notin> fst ` set (rel_states db)"
    using Cons.prems row by auto
  ultimately show ?case using row by (simp add: require_def)
qed simp

lemma projected_rebuild:
  assumes "projected db"
  obtains db' where "rebuild_projection db = Inr (check_projection db, db')"
    and "map_of (rel_states db') = map_of (rel_states db)" and "distinct (map fst (rel_states db'))"
    and "rel_events db' = rel_events db" and "rel_users db' = rel_users db"
proof -
  let ?b = "build_projection db" let ?db = "db\<lparr>rel_states := build_rows ?b\<rparr>"
  note b = projected_build [OF assms]
  have keys: "distinct (map fst (rel_states db))" using assms by (simp add: projected_def)
  have "\<forall>(u, r) \<in> set (build_rows ?b). projection_check u r (db\<lparr>rel_states := []\<rparr>)"
  proof (clarify)
    fix u r assume "(u, r) \<in> set (build_rows ?b)"
    then have "map_of (rel_states db) u = Some r" using b by (metis map_of_eq_Some_iff)
    then have "(u, r) \<in> set (rel_states db)" by (rule map_of_SomeD)
    then have "projection_check u r db" using assms by (auto simp: projected_def)
    then show "projection_check u r (db\<lparr>rel_states := []\<rparr>)" by (simp add: projection_check_def)
  qed
  then have rows: "insert_rows (build_rows ?b) (db\<lparr>rel_states := []\<rparr>) = Inr ?db"
    using b(3) by (subst insert_rows_all) simp_all
  have "compare_projection ?db ?b = check_projection db"
    using b keys same_map_same_length [OF b(3) keys b(1)]
    by (simp add: check_projection_def compare_agrees)
  moreover have "report_valid (check_projection db)"
    using b keys by (simp add: check_projection_def compare_agrees)
  ultimately have "rebuild_projection db = Inr (check_projection db, ?db)"
    using rows b(2) by (simp add: rebuild_projection_def Let_def require_def)
  then show thesis using that b by simp
qed


section \<open>Recording keeps it\<close>

lemma projected_load:
  "projected db \<Longrightarrow> load_state u db = fold project_event (of_subject u (rel_events db)) empty_projection"
  by (simp add: projected_def load_state_def)

lemma upsert_row:
  assumes "upsert_state u new occurred version created db = Inr db'" "0 \<le> occurred" "0 \<le> created"
    and e: "rel_new e = new" "rel_occurred_at e = occurred" "subject_version e = version" "rel_created_at e = created"
  shows "db' = db\<lparr>rel_states := AList.update u (project_event e (load_state u db)) (rel_states db)\<rparr>"
    and "projection_check u (project_event e (load_state u db)) db"
  using assms
  by (auto simp: upsert_state_def Let_def require_def project_event_def load_state_def empty_projection_def max_absorb2
      split: option.splits if_splits)

lemma projection_check_states [simp]:
  "projection_check u r (rel_states_update f db) = projection_check u r db"
  "projection_check u r (rel_events_update g db) = projection_check u r db"
  by (simp_all add: projection_check_def)

lemma projected_record:
  assumes db: "projected db" and e: "\<not> chain_broken e (load_state (rel_subject e) db)"
    and check: "projection_check (rel_subject e) (project_event e (load_state (rel_subject e) db)) db"
  shows "projected (db\<lparr>rel_events := rel_events db @ [e],
    rel_states := AList.update (rel_subject e) (project_event e (load_state (rel_subject e) db)) (rel_states db)\<rparr>)"
proof -
  note load = projected_load [OF db]
  have rows: "\<forall>(u, r) \<in> set (AList.update v s xs). (u, r) = (v, s) \<or> (u, r) \<in> set xs" for v s and xs :: "(string \<times> projection_row) list"
    by (induction xs) auto
  have "\<forall>(u, r) \<in> set (rel_states db). projection_check u r db" using db by (simp add: projected_def)
  then have "\<forall>(u, r) \<in> set (AList.update (rel_subject e) (project_event e (load_state (rel_subject e) db)) (rel_states db)).
      projection_check u r db"
    using rows [of "rel_subject e" "project_event e (load_state (rel_subject e) db)" "rel_states db"] check by fast
  then show ?thesis
    using db e by (simp add: projected_def load distinct_update update_conv')
qed

text \<open>The event a call appends when it is not a replay.\<close>

lemma recorded_event:
  assumes "record_relationship event_id source kind reason subject requested occurred created db = Inr (True, db')"
  obtains e where "rel_subject e = snowflake_str subject" "\<not> chain_broken e (load_state (rel_subject e) db)"
    and "rel_event_check e db" "\<not> rel_event_taken e db"
    and "upsert_state (rel_subject e) (rel_new e) (rel_occurred_at e) (subject_version e) (rel_created_at e)
      (db\<lparr>rel_events := rel_events db @ [e]\<rparr>) = Inr db'"
proof -
  let ?user = "snowflake_str subject"
  let ?now = "load_state ?user db"
  let ?new = "apply_delta (dims ?now) requested"
  let ?e = "\<lparr>rel_event_id = event_id, rel_subject = ?user, rel_source = source, rel_type = kind, rel_reason = reason,
    subject_version = row_version ?now + 1, rel_delta = applied_delta (dims ?now) ?new,
    rel_old = dims ?now, rel_new = ?new, rel_occurred_at = occurred, rel_created_at = created\<rparr>"
  have "rel_event_check ?e db \<and> \<not> rel_event_taken ?e db
    \<and> upsert_state ?user ?new occurred (row_version ?now + 1) created (db\<lparr>rel_events := rel_events db @ [?e]\<rparr>) = Inr db'"
    using assms by (auto simp: record_relationship_def Let_def rbind_eq_Inr require_def split: if_splits)
  then show thesis by (intro that [of ?e]) (simp_all add: chain_broken_def)
qed

lemma projected_recorded:
  assumes db: "projected db"
    and call: "record_relationship event_id source kind reason subject requested occurred created db = Inr (b, db')"
  shows "projected db'"
proof (cases b)
  case False
  then show ?thesis using db call
    by (auto simp: record_relationship_def Let_def rbind_eq_Inr split: if_splits)
next
  case True
  then obtain e where e: "\<not> chain_broken e (load_state (rel_subject e) db)" "rel_event_check e db"
    and upsert: "upsert_state (rel_subject e) (rel_new e) (rel_occurred_at e) (subject_version e) (rel_created_at e)
      (db\<lparr>rel_events := rel_events db @ [e]\<rparr>) = Inr db'"
    using call recorded_event by metis
  have times: "0 \<le> rel_occurred_at e" "0 \<le> rel_created_at e" using e(2) by (simp_all add: rel_event_check_def)
  note row = upsert_row [OF upsert times refl refl refl refl]
  have load: "load_state u (db\<lparr>rel_events := rel_events db @ [e]\<rparr>) = load_state u db" for u
    by (simp add: load_state_def)
  show ?thesis using projected_record [OF db e(1)] row by (simp add: load)
qed

lemma projected_step: "projected db \<Longrightarrow> projected (rel_step a db)"
proof (induction a db rule: rel_step.induct)
  case (1 event_id source kind reason subject requested occurred created db)
  then show ?case by (auto split: sum.splits intro: projected_recorded)
next
  case (2 db)
  then obtain db' where call: "rebuild_projection db = Inr (check_projection db, db')"
    and db': "map_of (rel_states db') = map_of (rel_states db)" "distinct (map fst (rel_states db'))"
      "rel_events db' = rel_events db" "rel_users db' = rel_users db"
    using projected_rebuild by blast
  have "projection_check u r db'" if "(u, r) \<in> set (rel_states db')" for u r
  proof -
    have "map_of (rel_states db) u = Some r" using that db' by (metis map_of_eq_Some_iff)
    then have "(u, r) \<in> set (rel_states db)" by (rule map_of_SomeD)
    then have "projection_check u r db" using 2 by (auto simp: projected_def)
    then show ?thesis using db' by (simp add: projection_check_def)
  qed
  then have "projected db'" using 2 db' by (auto simp: projected_def)
  then show ?case using call by simp
next
  case (3 users sources db)
  then show ?case by (auto simp: projected_def projection_check_def)
qed

lemma projected_history: "projected (fold rel_step acts rel_start)"
proof -
  have "projected db \<Longrightarrow> projected (fold rel_step acts db)" for db
    by (induction acts arbitrary: db) (simp_all add: projected_step)
  moreover have "projected rel_start" by (simp add: projected_def rel_start_def)
  ultimately show ?thesis by blast
qed

text \<open>
  Property C30: Whatever was recorded, replayed, refused or rebuilt since the tables were empty, the
  stored relationship of a member is the one the journal of relationship events gives: the check
  reports no mismatch, its rows are one per member with an event, and a rebuild succeeds, reports
  the same and leaves every row as it was.
\<close>

theorem projection_follows_journal:
  "\<exists>db'. rebuild_projection (fold rel_step acts rel_start) = Inr (check_projection (fold rel_step acts rel_start), db')
     \<and> map_of (rel_states db') = map_of (rel_states (fold rel_step acts rel_start))
     \<and> rel_events db' = rel_events (fold rel_step acts rel_start)
     \<and> report_valid (check_projection (fold rel_step acts rel_start))
     \<and> report_mismatches (check_projection (fold rel_step acts rel_start)) = 0"
proof -
  let ?db = "fold rel_step acts rel_start"
  have db: "projected ?db" by (rule projected_history)
  then have keys: "distinct (map fst (rel_states ?db))" by (simp add: projected_def)
  note b = projected_build [OF db]
  have "report_valid (check_projection ?db)" "report_mismatches (check_projection ?db) = 0"
    using b keys by (simp_all add: check_projection_def compare_agrees)
  then show ?thesis using projected_rebuild [OF db] by metis
qed

end
