(* ===== verification/Spec2Isabelle.thy ===== *)
theory Spec2Isabelle
  imports Prelude Identifiers Utf8 Tts_Text Serious_Context Executor Ai_Work Provider_Circuit Circuit_Clients
    Calendar Ai_Budget Ai_Spending Ai_Circuit Openai_Client Ai_Generation Ai_Settlement Ai_Probe Ai_Life
    Tables Durable_Work Job_Store Job_Life Scheduler Outbox_Store Outbox_Service Outbox_Delivery
    Tarot_Tables Tarot_Ledger Tarot_Recovery Tarot_Pages Tarot_Audit Tarot_Books Tarot_Growth Tarot_Life
    Tarot_Claims Tarot_Rewards Tarot_History Tarot_Promises Tarot_Samples
    Relationships Relationship_Store Relationship_Projection
begin

text \<open>
  A verification development for Sanguinius, a C++20 Discord bot whose authoritative state is kept
  in SQLite (\<^verbatim>\<open>src/README.md\<close>). It models the deterministic core: the identifiers, the bounded
  executors, the circuit breakers in front of the providers, the durable work queue with its
  scheduler and its outbox, the generation of text under its budgets, the ledger of the Tarot with
  its recoveries, and the relationships with their journal.

  \<^bold>\<open>How the program is read.\<close> An exception is a value of \<open>exn\<close>, an operation that may throw a value
  of \<open>'a res = exn + 'a\<close>, sequenced by \<open>rbind\<close> (\<open>Prelude\<close>). A table is the list of its rows in
  insertion order; an \<^verbatim>\<open>UPDATE\<close> is \<open>update_rows\<close>, which fails where a \<^verbatim>\<open>CHECK\<close> or a trigger of the
  migrations aborts the statement (\<open>Tables\<close>). An operation of a repository runs under one mutex
  in one SQLite transaction: it is a function from the tables to an error or to its answer and the
  tables after; an error leaves the tables as they were. Integers of 64 bits are \<open>int\<close> with the
  checks of the code on their ends, or words where the code wraps (snowflakes, bytes, samples).
  Code outside the sources is a parameter: the bytes of \<^verbatim>\<open>getrandom\<close>, the JSON library (\<open>json_lib\<close>,
  with \<open>json_roundtrips\<close> as a named hypothesis where a replay parses what it stored), the codec of
  the payloads, Discord, the providers, the handlers and the readings of the clock.

  \<^bold>\<open>The parts.\<close>

  \<^item> \<open>Identifiers\<close> (\<^verbatim>\<open>snowflake.cpp\<close>, \<^verbatim>\<open>random.cpp\<close>, \<^verbatim>\<open>persistent_id.cpp\<close>, \<^verbatim>\<open>durable_work.cpp\<close>):
    snowflakes have one spelling, the sampler is unbiased, every id is a version 4 UUID, a nonce
    fits. \<open>Utf8\<close> and \<open>Serious_Context\<close> (\<^verbatim>\<open>appearance_policy.cpp\<close>): the validator equals the
    definition of UTF-8, the detector finds terms that stand alone. \<open>Tts_Text\<close> (\<^verbatim>\<open>tts.cpp\<close>,
    \<^verbatim>\<open>transcription.cpp\<close>): normalisation of speech text, the PCM bytes and the WAV header.

  \<^item> \<open>Executor\<close> (\<^verbatim>\<open>work_queue.cpp\<close>, \<^verbatim>\<open>callback_fence.cpp\<close>): every critical section is a step;
    the invariants are by induction over the interleavings of any number of threads. \<open>Ai_Work\<close>
    (\<^verbatim>\<open>ai_work.cpp\<close>): three lanes behind one capacity and the schedule of the workers, so that no
    lane starves.

  \<^item> \<open>Provider_Circuit\<close> (\<^verbatim>\<open>persistence/sqlite_provider_circuit_repository.cpp\<close>) and
    \<open>Circuit_Clients\<close> (\<^verbatim>\<open>provider_circuit.cpp\<close>): the rows of the circuits refine an abstract
    breaker, and the guarded calls rest on the breaker through the locale of its operations,
    interpreted on the repository.

  \<^item> \<open>Calendar\<close>, \<open>Ai_Budget\<close>, \<open>Ai_Spending\<close> (\<^verbatim>\<open>persistence/sqlite_ai_generation_repository.cpp\<close>): the
    attempts with their constraints, the month of a time, what counts against the budgets, and that
    every reservation leaves them kept. \<open>Ai_Circuit\<close>: the same repository's operations on the circuit
    of the text provider, again those of the breaker. \<open>Openai_Client\<close> (\<^verbatim>\<open>openai_client.cpp\<close>): bounded
    bodies, the headers, and the class of every way a call can end. \<open>Ai_Generation\<close>
    (\<^verbatim>\<open>ai_generation.cpp\<close>): the service. \<open>Ai_Settlement\<close>: an attempt is settled whatever the
    provider does. \<open>Ai_Probe\<close>: so is the probe of its circuit. \<open>Ai_Life\<close>: histories of the service.

  \<^item> \<open>Durable_Work\<close>, \<open>Job_Store\<close>, \<open>Job_Life\<close>, \<open>Outbox_Store\<close> (\<^verbatim>\<open>persistence/sqlite_durable_work_repository.cpp\<close>):
    idempotent enqueueing, claims with leases, retries and burials of jobs and of messages.
    \<open>Scheduler\<close> (\<^verbatim>\<open>scheduler.cpp\<close>) and \<open>Outbox_Service\<close> (\<^verbatim>\<open>outbox.cpp\<close>): a worker from claim to
    settlement. \<open>Outbox_Delivery\<close>: workers interleaved with every other call, and the window in which
    a message may be sent again under its nonce.

  \<^item> \<open>Tarot_Tables\<close> (\<^verbatim>\<open>migrations/0009\<close> to \<^verbatim>\<open>0011\<close>): the tables of the ledger with the guards of
    their triggers. \<open>Tarot_Ledger\<close>, \<open>Tarot_Recovery\<close>, \<open>Tarot_Pages\<close>, \<open>Tarot_Audit\<close>
    (\<^verbatim>\<open>persistence/sqlite_tarot_repository.cpp\<close>): every operation of the repository, in the order
    of the file. \<open>Tarot_Books\<close>: the ledger as an invariant, kept by whatever the sealing trigger lets
    through. \<open>Tarot_Growth\<close>: what rows may become, and that what the audit asks of a row stays true.
    \<open>Tarot_Life\<close>, \<open>Tarot_Claims\<close>, \<open>Tarot_Rewards\<close>: each operation keeps the invariant \<open>tarot_ok\<close>.
    \<open>Tarot_History\<close>: histories of requests, between wager transactions and the other writers.
    \<open>Tarot_Promises\<close>: what follows for users and operators. \<open>Tarot_Samples\<close>: two concrete
    histories, evaluated, as witnesses.

  \<^item> \<open>Relationships\<close> (\<^verbatim>\<open>relationships.cpp\<close>): deltas, bands, the hint of style, the words of a text and
    the memories a prompt quotes. \<open>Relationship_Store\<close> and \<open>Relationship_Projection\<close>
    (\<^verbatim>\<open>persistence/sqlite_relationship_repository.cpp\<close>): the journal of events, the rows kept beside
    it, and that the two agree after any history.

  \<^bold>\<open>How the parts meet.\<close> The Tarot tables extend the tables of the durable work: a reward and its
  announcement are one transaction over both. The scheduler and the outbox service hand claims to the
  executor; their handlers act on the durable tables. The clients of the providers meet the circuits
  only through the operations of their repository. The generation service joins four parts: it
  reserves in the budgets and asks the circuit, hands the request to the client, and accounts for
  the outcome in both. Its clock readings, its ids and what other threads do to the tables between
  its calls are an \<open>ai_env\<close>, and the provider is a \<open>conduct\<close>: whether it announced the transmission
  and how it answered. Theorems about it name what they ask of the environment: a clock that does
  not run back (\<open>steady\<close>), other threads that leave this attempt alone (\<open>quiet_others\<close>), a circuit
  row that can be read (\<open>circuit_ready\<close>) and whose probe nobody else settles (\<open>circuit_alone\<close>).

  \<^bold>\<open>Bounds.\<close> Retries end by the attempts a row has left, not by fuel; the two loops that read random
  bytes recurse over the returns of the kernel they are given. Capacities, leases, windows and
  cooldowns are the constants of the code.

  \<^bold>\<open>Not modelled.\<close> The clauses of the sealing trigger on wager transactions, so that the histories
  of the ledger have more steps than the program; the clean-up of a test of the House, which deletes
  nothing but writes a reversal under rules of its own, and so is no step of these histories; the
  JSON codecs; SQLite itself beyond the statements used; Discord, the providers, ffmpeg. The
  repositories of wagers, the House, the Chronicle, appearances and voice, and the
  services that render texts and route interactions, are outside; the manifest lists them with the
  reason for each.
\<close>

end
